(* ===== verification/Prelude.thy ===== *)
theory Prelude
  imports Main "HOL-Library.Multiset" "HOL-Library.Sublist"
begin

text \<open>
  Shared vocabulary of the development: the collections of rewrite rules the component
  proofs use, and generic facts about lists that several components need (removing one
  entry of a list of pending calls, the last \<open>n\<close> entries of a bounded buffer, a stable
  sort by a comparison function, sums of a measure over a list).
\<close>

named_theorems act_simps \<open>equations that execute the primitive actions of the runtime\<close>
named_theorems view_simps \<open>equations that compute what a rendered view offers\<close>
named_theorems js_simps \<open>equations that evaluate the JavaScript library functions\<close>

subsection \<open>Dropping one position of a list\<close>

definition remove_nth :: "nat \<Rightarrow> 'a list \<Rightarrow> 'a list" where
  "remove_nth i xs = take i xs @ drop (Suc i) xs"

lemma length_remove_nth: "i < length xs \<Longrightarrow> Suc (length (remove_nth i xs)) = length xs"
  by (simp add: remove_nth_def)

lemma filter_remove_nth_length:
  assumes "i < length xs"
  shows "length (filter P xs) =
    length (filter P (remove_nth i xs)) + (if P (xs ! i) then 1 else 0)"
proof -
  have "xs = take i xs @ xs ! i # drop (Suc i) xs"
    using assms by (rule id_take_nth_drop)
  then have "filter P xs = filter P (take i xs) @ filter P [xs ! i] @ filter P (drop (Suc i) xs)"
    by (metis append_Cons append_Nil filter_append)
  then show ?thesis by (simp add: remove_nth_def)
qed

lemma filter_remove_nth_other:
  assumes "i < length xs" "\<not> P (xs ! i)"
  shows "filter P (remove_nth i xs) = filter P xs"
  by (subst (2) id_take_nth_drop [OF assms(1)]) (simp add: remove_nth_def assms(2))

lemma set_remove_nth_subset: "set (remove_nth i xs) \<subseteq> set xs"
  by (auto simp: remove_nth_def dest: in_set_takeD in_set_dropD)

lemma remove_nth_Cons_0 [simp]: "remove_nth 0 (x # xs) = xs"
  by (simp add: remove_nth_def)

lemma remove_nth_Cons_Suc [simp]: "remove_nth (Suc i) (x # xs) = x # remove_nth i xs"
  by (simp add: remove_nth_def)

subsection \<open>The last entries of a list\<close>

text \<open>
  JavaScript's \<open>xs.slice(-n)\<close>. For \<open>n = 0\<close> the index is \<open>-0\<close>, that is \<open>0\<close>, and
  the whole list is returned.
\<close>

definition slice_last :: "nat \<Rightarrow> 'a list \<Rightarrow> 'a list" where
  "slice_last n xs = (if n = 0 then xs else drop (length xs - n) xs)"

lemma length_slice_last: "0 < n \<Longrightarrow> length (slice_last n xs) = min n (length xs)"
  by (auto simp: slice_last_def)

lemma slice_last_all: "length xs \<le> n \<Longrightarrow> slice_last n xs = xs"
  by (auto simp: slice_last_def)

lemma slice_last_suffix: "suffix (slice_last n xs) xs"
  by (auto simp: slice_last_def suffix_drop)

lemma set_slice_last: "set (slice_last n xs) \<subseteq> set xs"
  by (auto simp: slice_last_def dest: in_set_dropD)

lemma sorted_wrt_slice_last: "sorted_wrt R xs \<Longrightarrow> sorted_wrt R (slice_last n xs)"
  by (simp add: slice_last_def sorted_wrt_drop)

lemma map_slice_last: "map f (slice_last n xs) = slice_last n (map f xs)"
  by (simp add: slice_last_def drop_map)

subsection \<open>A stable sort by a comparison function\<close>

text \<open>
  \<open>Array.prototype.sort\<close> with a comparison function \<open>cmp\<close> (negative, zero, positive)
  is stable (ECMAScript 2019). An insertion sort that puts an element before the first one
  it does not exceed computes the same list.
\<close>

fun ins_by :: "('a \<Rightarrow> 'a \<Rightarrow> int) \<Rightarrow> 'a \<Rightarrow> 'a list \<Rightarrow> 'a list" where
  "ins_by cmp x [] = [x]"
| "ins_by cmp x (y # ys) = (if cmp x y \<le> 0 then x # y # ys else y # ins_by cmp x ys)"

definition js_sort :: "('a \<Rightarrow> 'a \<Rightarrow> int) \<Rightarrow> 'a list \<Rightarrow> 'a list" where
  "js_sort cmp xs = foldr (ins_by cmp) xs []"

lemma mset_ins_by: "mset (ins_by cmp x xs) = {#x#} + mset xs"
  by (induction xs) auto

lemma mset_js_sort: "mset (js_sort cmp xs) = mset xs"
  by (induction xs) (auto simp: js_sort_def mset_ins_by)

lemma set_js_sort: "set (js_sort cmp xs) = set xs"
  by (metis mset_js_sort set_mset_mset)

lemma set_ins_by: "set (ins_by cmp x xs) = insert x (set xs)"
  by (induction xs) auto

definition comparator :: "('a \<Rightarrow> 'a \<Rightarrow> int) \<Rightarrow> bool" where
  "comparator cmp \<longleftrightarrow> (\<forall>x y. cmp x y \<le> 0 \<or> cmp y x \<le> 0)
     \<and> (\<forall>x y z. cmp x y \<le> 0 \<longrightarrow> cmp y z \<le> 0 \<longrightarrow> cmp x z \<le> 0)"

lemma sorted_ins_by:
  assumes c: "comparator cmp" and s: "sorted_wrt (\<lambda>a b. cmp a b \<le> 0) xs"
  shows "sorted_wrt (\<lambda>a b. cmp a b \<le> 0) (ins_by cmp x xs)"
  using s
proof (induction xs)
  case Nil
  then show ?case by simp
next
  case (Cons y ys)
  have trans: "cmp a b \<le> 0 \<Longrightarrow> cmp b d \<le> 0 \<Longrightarrow> cmp a d \<le> 0" for a b d
    using c by (auto simp: comparator_def)
  have total: "\<not> cmp x y \<le> 0 \<Longrightarrow> cmp y x \<le> 0"
    using c by (auto simp: comparator_def)
  show ?case
    using Cons total by (auto simp: set_ins_by intro: trans)
qed

lemma sorted_js_sort:
  "comparator cmp \<Longrightarrow> sorted_wrt (\<lambda>a b. cmp a b \<le> 0) (js_sort cmp xs)"
proof (induction xs)
  case Nil
  then show ?case by (simp add: js_sort_def)
next
  case (Cons x xs)
  then show ?case by (simp add: js_sort_def sorted_ins_by)
qed

text \<open>Stability: elements that compare equal to \<open>p\<close> keep their order.\<close>

lemma filter_ins_by:
  assumes c: "comparator cmp"
  shows "filter (\<lambda>y. cmp p y \<le> 0 \<and> cmp y p \<le> 0) (ins_by cmp x xs) =
    filter (\<lambda>y. cmp p y \<le> 0 \<and> cmp y p \<le> 0) (x # xs)"
proof (induction xs)
  case Nil
  then show ?case by simp
next
  case (Cons y ys)
  have "cmp p x \<le> 0 \<and> cmp x p \<le> 0 \<Longrightarrow> cmp p y \<le> 0 \<and> cmp y p \<le> 0 \<Longrightarrow> cmp x y \<le> 0"
    using c unfolding comparator_def by blast
  with Cons show ?case by auto
qed

lemma stable_js_sort:
  assumes "comparator cmp"
  shows "filter (\<lambda>y. cmp p y \<le> 0 \<and> cmp y p \<le> 0) (js_sort cmp xs) =
    filter (\<lambda>y. cmp p y \<le> 0 \<and> cmp y p \<le> 0) xs"
proof (induction xs)
  case Nil
  then show ?case by (simp add: js_sort_def)
next
  case (Cons x xs)
  have "js_sort cmp (x # xs) = ins_by cmp x (js_sort cmp xs)"
    by (simp add: js_sort_def)
  with Cons show ?case by (simp add: filter_ins_by [OF assms])
qed

lemma comparator_key: "comparator (\<lambda>a b. f b - (f a :: int))"
  by (auto simp: comparator_def)

subsection \<open>Options and sums over lists\<close>

definition is_some :: "'a option \<Rightarrow> bool" where
  "is_some x = (x \<noteq> None)"

lemma is_some_simps [simp]: "is_some None = False" "is_some (Some x) = True"
  by (simp_all add: is_some_def)

text \<open>JavaScript's \<open>x ?? d\<close> on a nullable value.\<close>

definition orelse :: "'a option \<Rightarrow> 'a \<Rightarrow> 'a" where
  "orelse x d = (case x of None \<Rightarrow> d | Some v \<Rightarrow> v)"

lemma orelse_simps [simp]: "orelse None d = d" "orelse (Some v) d = v"
  by (simp_all add: orelse_def)

text \<open>\<open>xs.reduce((s, x) => s + f(x), 0)\<close>.\<close>

definition sum_by :: "('a \<Rightarrow> int) \<Rightarrow> 'a list \<Rightarrow> int" where
  "sum_by f xs = foldl (\<lambda>s x. s + f x) 0 xs"

lemma foldl_sum: "foldl (\<lambda>s x. s + f x) (a :: int) xs = a + sum_list (map f xs)"
  by (induction xs arbitrary: a) (simp_all add: algebra_simps)

lemma sum_by_sum_list: "sum_by f xs = sum_list (map f xs)"
  by (simp add: sum_by_def foldl_sum)

lemma sum_by_nonneg: "(\<And>x. x \<in> set xs \<Longrightarrow> 0 \<le> f x) \<Longrightarrow> 0 \<le> sum_by f xs"
  by (simp add: sum_by_sum_list) (induction xs, auto)

definition count_if :: "('a \<Rightarrow> bool) \<Rightarrow> 'a list \<Rightarrow> nat" where
  "count_if P xs = length (filter P xs)"

end
