(* ===== verification/JS.thy ===== *)
theory JS
  imports Complex_Main Prelude "HOL-Library.Signed_Division"
begin

text \<open>
  The part of the JavaScript standard library the user interface calls: string search,
  trimming, splitting and case, \<open>Number\<close> and \<open>parseFloat\<close> on decimal literals,
  \<open>toFixed\<close>, number-to-string conversion and \<open>Math.round\<close>.

  A number is an exact rational; the values the program computes with (byte counts,
  percentages, counts of GiB) are divisions by powers of two, integers, or decimals of at
  most a few digits. \<open>NaN\<close> is \<open>None\<close> where the program can meet it. A string is a list
  of code units; user input is taken to be ASCII where the program changes case or
  measures a length, and the few display literals outside ASCII are given by their UTF-8
  bytes.
\<close>

subsection \<open>Strings\<close>

definition em_dash :: string where
  "em_dash = [CHR 0xE2, CHR 0x80, CHR 0x94]"

definition ellipsis :: string where
  "ellipsis = [CHR 0xE2, CHR 0x80, CHR 0xA6]"

definition mid_dot :: string where
  "mid_dot = [CHR 0xC2, CHR 0xB7]"

definition is_space :: "char \<Rightarrow> bool" where
  "is_space c = (c \<in> {CHR 0x09, CHR 0x0A, CHR 0x0B, CHR 0x0C, CHR 0x0D, CHR 0x20})"

definition js_trim :: "string \<Rightarrow> string" where
  "js_trim s = rev (dropWhile is_space (rev (dropWhile is_space s)))"

definition lower_char :: "char \<Rightarrow> char" where
  "lower_char c = (let n = of_char c :: nat in if 65 \<le> n \<and> n \<le> 90 then char_of (n + 32) else c)"

definition js_lower :: "string \<Rightarrow> string" where
  "js_lower s = map lower_char s"

definition is_prefix :: "string \<Rightarrow> string \<Rightarrow> bool" where
  "is_prefix p s = (take (length p) s = p)"

fun js_includes :: "string \<Rightarrow> string \<Rightarrow> bool" where
  "js_includes [] t = (t = [])"
| "js_includes (c # s) t = (is_prefix t (c # s) \<or> js_includes s t)"

definition js_ends_with :: "string \<Rightarrow> string \<Rightarrow> bool" where
  "js_ends_with s t = is_prefix (rev t) (rev s)"

fun js_split :: "char \<Rightarrow> string \<Rightarrow> string list" where
  "js_split d [] = [[]]"
| "js_split d (c # s) =
     (if c = d then [] # js_split d s
      else (case js_split d s of [] \<Rightarrow> [[c]] | w # ws \<Rightarrow> (c # w) # ws))"

fun js_join :: "string \<Rightarrow> string list \<Rightarrow> string" where
  "js_join sep [] = []"
| "js_join sep [w] = w"
| "js_join sep (w # ws) = w @ sep @ js_join sep ws"

lemma is_prefix_prefix: "is_prefix p s \<longleftrightarrow> prefix p s"
  by (auto simp: is_prefix_def prefix_def dest: sym) (metis append_take_drop_id)

lemma js_includes_sublist: "js_includes s t \<longleftrightarrow> sublist t s"
proof (induction s)
  case Nil
  then show ?case by simp
next
  case (Cons c s)
  then show ?case by (simp add: is_prefix_prefix sublist_Cons_right)
qed

lemma js_includes_empty [simp]: "js_includes s []"
  by (simp add: js_includes_sublist)

lemma js_ends_with_suffix: "js_ends_with s t \<longleftrightarrow> suffix t s"
  by (simp add: js_ends_with_def is_prefix_prefix suffix_to_prefix)

lemma js_split_not_Nil: "js_split d s \<noteq> []"
  by (induction s) (auto split: list.splits)

lemma js_trim_Nil [simp]: "js_trim [] = []"
  by (simp add: js_trim_def)

lemma js_trim_no_space_id:
  assumes "\<not> is_space (hd s)" "\<not> is_space (last s)" "s \<noteq> []"
  shows "js_trim s = s"
proof -
  have "dropWhile is_space s = s"
    using assms by (cases s) auto
  moreover have "dropWhile is_space (rev s) = rev s"
    using assms by (cases s rule: rev_cases) auto
  ultimately show ?thesis by (simp add: js_trim_def)
qed

text \<open>Trimming twice is trimming once.\<close>

lemma dropWhile_hd: "dropWhile P s \<noteq> [] \<Longrightarrow> \<not> P (hd (dropWhile P s))"
  by (rule hd_dropWhile)

lemma js_trim_idem: "js_trim (js_trim s) = js_trim s"
proof (cases "js_trim s = []")
  case True
  then show ?thesis by simp
next
  case False
  define u where "u = dropWhile is_space s"
  have t: "js_trim s = rev (dropWhile is_space (rev u))"
    by (simp add: js_trim_def u_def)
  have ne: "dropWhile is_space (rev u) \<noteq> []" using False t by auto
  have last: "\<not> is_space (last (js_trim s))"
    using dropWhile_hd [OF ne] ne by (simp add: t last_rev)
  have "suffix (dropWhile is_space (rev u)) (rev u)" by (rule suffix_dropWhile)
  then have "prefix (js_trim s) u"
    by (simp add: t suffix_to_prefix)
  then have "hd (js_trim s) = hd u" using False by (auto simp: prefix_def)
  moreover have "u \<noteq> []" using ne by auto
  ultimately have "\<not> is_space (hd (js_trim s))"
    using dropWhile_hd [of is_space s] by (simp add: u_def)
  then show ?thesis using last False by (intro js_trim_no_space_id)
qed

subsection \<open>Integers and decimals as strings\<close>

definition digit_char :: "nat \<Rightarrow> char" where
  "digit_char d = ''0123456789'' ! d"

fun nat_str :: "nat \<Rightarrow> string" where
  "nat_str n = (if n < 10 then [digit_char n] else nat_str (n div 10) @ [digit_char (n mod 10)])"

declare nat_str.simps [simp del]

definition int_str :: "int \<Rightarrow> string" where
  "int_str n = (if n < 0 then ''-'' @ nat_str (nat (- n)) else nat_str (nat n))"

definition is_digit :: "char \<Rightarrow> bool" where
  "is_digit c = (c \<in> set ''0123456789'')"

definition digit_val :: "char \<Rightarrow> nat" where
  "digit_val c = of_char c - 48"

definition parse_digits :: "string \<Rightarrow> nat" where
  "parse_digits s = foldl (\<lambda>n c. 10 * n + digit_val c) 0 s"

definition math_round :: "rat \<Rightarrow> int" where
  "math_round x = \<lfloor>x + 1 / 2\<rfloor>"

definition pad_left :: "nat \<Rightarrow> string \<Rightarrow> string" where
  "pad_left n s = replicate (n - length s) (CHR ''0'') @ s"

text \<open>
  \<open>x.toFixed(d)\<close>: the integer \<open>n\<close> for which \<open>n / 10\<^sup>d\<close> is nearest to \<open>x\<close>, the larger
  one on a tie, written with \<open>d\<close> decimals.
\<close>

definition to_fixed_nat :: "nat \<Rightarrow> nat \<Rightarrow> string" where
  "to_fixed_nat d n =
     (if d = 0 then nat_str n
      else nat_str (n div 10 ^ d) @ ''.'' @ pad_left d (nat_str (n mod 10 ^ d)))"

definition to_fixed :: "rat \<Rightarrow> nat \<Rightarrow> string" where
  "to_fixed x d =
     (if x < 0 then ''-'' @ to_fixed_nat d (nat (math_round (- x * 10 ^ d)))
      else to_fixed_nat d (nat (math_round (x * 10 ^ d))))"

text \<open>
  \<open>Number(s)\<close> on the strings a number field can hold: optional white space, sign,
  digits, fraction and exponent; the empty string is 0 and anything else is \<open>NaN\<close>.
\<close>

definition take_digits :: "string \<Rightarrow> string \<times> string" where
  "take_digits s = (takeWhile is_digit s, dropWhile is_digit s)"

definition parse_exponent :: "string \<Rightarrow> int option" where
  "parse_exponent s =
     (let (neg, r) = (case s of [] \<Rightarrow> (False, [])
        | c # cs \<Rightarrow> if c = CHR ''-'' then (True, cs) else if c = CHR ''+'' then (False, cs) else (False, s))
      in if r \<noteq> [] \<and> list_all is_digit r
         then Some (if neg then - int (parse_digits r) else int (parse_digits r)) else None)"

definition pow10 :: "int \<Rightarrow> rat" where
  "pow10 e = (if 0 \<le> e then 10 ^ nat e else 1 / 10 ^ nat (- e))"

definition unsigned_number :: "string \<Rightarrow> rat option" where
  "unsigned_number s =
     (let (ip, r) = take_digits s;
          (fp, q) = (case r of [] \<Rightarrow> ([], []) | c # cs \<Rightarrow> if c = CHR ''.'' then take_digits cs else ([], r));
          v = of_nat (parse_digits (ip @ fp)) / 10 ^ length fp
      in if ip = [] \<and> fp = [] then None
         else (case q of [] \<Rightarrow> Some v
           | c # cs \<Rightarrow> if c = CHR ''e'' \<or> c = CHR ''E''
                then map_option (\<lambda>e. v * pow10 e) (parse_exponent cs) else None))"

definition js_number :: "string \<Rightarrow> rat option" where
  "js_number s =
     (let t = js_trim s in
      case t of [] \<Rightarrow> Some 0
      | c # cs \<Rightarrow> if c = CHR ''-'' then map_option uminus (unsigned_number cs)
                 else if c = CHR ''+'' then unsigned_number cs else unsigned_number t)"

text \<open>\<open>Number(s) || 0\<close>: \<open>NaN\<close> and 0 both give 0.\<close>

definition number_or_0 :: "string \<Rightarrow> rat" where
  "number_or_0 s = orelse (js_number s) 0"

text \<open>
  A number as a template string shows it. The decimals of the numbers shown are few; twenty
  digits are more than a double can carry.
\<close>

fun frac_digits :: "nat \<Rightarrow> rat \<Rightarrow> string" where
  "frac_digits 0 x = []"
| "frac_digits (Suc f) x =
     (if x = 0 then [] else digit_char (nat \<lfloor>10 * x\<rfloor>) # frac_digits f (10 * x - of_int \<lfloor>10 * x\<rfloor>))"

definition num_str :: "rat \<Rightarrow> string" where
  "num_str x =
     (let y = \<bar>x\<bar>; fs = frac_digits 20 (y - of_int \<lfloor>y\<rfloor>)
      in (if x < 0 then ''-'' else []) @ nat_str (nat \<lfloor>y\<rfloor>) @ (if fs = [] then [] else ''.'' @ fs))"

subsection \<open>\<open>encodeURIComponent\<close>\<close>

text \<open>
  On the UTF-8 bytes of a string: the unreserved characters stay, every other byte becomes
  \<open>%\<close> and two upper-case hexadecimal digits. \<open>percent_decode\<close> is the decoding of RFC 3986
  that servers apply.
\<close>

definition unreserved :: "char \<Rightarrow> bool" where
  "unreserved c = (c \<in> set ''ABCDEFGHIJKLMNOPQRSTUVWXYZabcdefghijklmnopqrstuvwxyz0123456789-_.!~*()'' \<or> c = CHR 0x27)"

definition hex_char :: "nat \<Rightarrow> char" where
  "hex_char d = ''0123456789ABCDEF'' ! d"

definition hex_val :: "char \<Rightarrow> nat" where
  "hex_val c = (let n = of_char c in if n < 65 then n - 48 else n - 55)"

definition percent_byte :: "char \<Rightarrow> string" where
  "percent_byte c = [CHR ''%'', hex_char (of_char c div 16), hex_char (of_char c mod 16)]"

definition encode_uri_component :: "string \<Rightarrow> string" where
  "encode_uri_component s = concat (map (\<lambda>c. if unreserved c then [c] else percent_byte c) s)"

fun percent_decode :: "string \<Rightarrow> string" where
  "percent_decode [] = []"
| "percent_decode (c # s) =
     (if c = CHR ''%'' then (case s of a # b # t \<Rightarrow> char_of (16 * hex_val a + hex_val b) # percent_decode t | _ \<Rightarrow> [])
      else c # percent_decode s)"

lemma hex_val_char: "d < 16 \<Longrightarrow> hex_val (hex_char d) = d"
proof -
  assume "d < 16"
  then have "d \<in> set [0..<16]" by simp
  moreover have "list_all (\<lambda>d. hex_val (hex_char d) = d) [0..<16]" by code_simp
  ultimately show ?thesis by (simp only: list_all_iff)
qed

lemma unreserved_hex: "d < 16 \<Longrightarrow> unreserved (hex_char d)"
proof -
  assume "d < 16"
  then have "d \<in> set [0..<16]" by simp
  moreover have "list_all (\<lambda>d. unreserved (hex_char d)) [0..<16]" by code_simp
  ultimately show ?thesis by (simp only: list_all_iff)
qed

lemma not_unreserved_percent: "\<not> unreserved (CHR ''%'')"
  by code_simp

lemma percent_decode_encode: "percent_decode (encode_uri_component s) = s"
proof (induction s)
  case Nil
  then show ?case by (simp add: encode_uri_component_def)
next
  case (Cons c s)
  have b: "(of_char c :: nat) < 256" by simp
  then have h: "of_char c div 16 < (16 :: nat)" by linarith
  have "percent_decode (percent_byte c @ t) = c # percent_decode t" for t
    using h by (simp add: percent_byte_def hex_val_char)
  moreover have "unreserved c \<Longrightarrow> percent_decode (c # t) = c # percent_decode t" for t
    using not_unreserved_percent by auto
  ultimately show ?case using Cons by (simp add: encode_uri_component_def)
qed

lemma encode_uri_component_chars:
  "c \<in> set (encode_uri_component s) \<Longrightarrow> unreserved c \<or> c = CHR ''%''"
proof -
  assume "c \<in> set (encode_uri_component s)"
  then obtain d where d: "c \<in> set (if unreserved d then [d] else percent_byte d)"
    unfolding encode_uri_component_def set_concat set_map by blast
  have b: "(of_char d :: nat) < 256" by simp
  then have "of_char d div 16 < (16 :: nat)" by linarith
  with d show ?thesis by (auto simp: percent_byte_def unreserved_hex split: if_splits)
qed

subsection \<open>Reading back what was printed\<close>

lemma is_digit_digit_char [simp]: "d < 10 \<Longrightarrow> is_digit (digit_char d)"
  by (simp add: is_digit_def digit_char_def nth_mem del: set_simps list.set)

lemma digit_val_digit_char [simp]: "d < 10 \<Longrightarrow> digit_val (digit_char d) = d"
proof -
  assume "d < 10"
  then have "d \<in> set [0..<10]" by simp
  moreover have "list_all (\<lambda>d. digit_val (digit_char d) = d) [0..<10]"
    by code_simp
  ultimately show ?thesis by (simp only: list_all_iff)
qed

lemma digits_nat_str: "list_all is_digit (nat_str n)"
proof (induction n rule: nat_str.induct)
  case (1 n)
  then show ?case by (subst nat_str.simps) (auto simp: list_all_append)
qed

lemma nat_str_not_Nil [simp]: "nat_str n \<noteq> []"
  by (subst nat_str.simps) simp

lemma parse_digits_append:
  "parse_digits (s @ t) = parse_digits s * 10 ^ length t + parse_digits t"
proof -
  have acc: "foldl (\<lambda>n c. 10 * n + digit_val c) a t = a * 10 ^ length t + parse_digits t" for a
  proof (induction t arbitrary: a)
    case Nil
    then show ?case by (simp add: parse_digits_def)
  next
    case (Cons c t)
    have "parse_digits (c # t) = digit_val c * 10 ^ length t + parse_digits t"
      using Cons.IH [of "digit_val c"] by (simp add: parse_digits_def)
    with Cons.IH [of "10 * a + digit_val c"] show ?case by (simp add: algebra_simps)
  qed
  have "parse_digits (s @ t) = foldl (\<lambda>n c. 10 * n + digit_val c) (parse_digits s) t"
    by (simp add: parse_digits_def)
  then show ?thesis by (simp only: acc)
qed

lemma parse_digits_nat_str [simp]: "parse_digits (nat_str n) = n"
proof (induction n rule: nat_str.induct)
  case (1 n)
  show ?case
  proof (cases "n < 10")
    case True
    then show ?thesis by (subst nat_str.simps) (simp add: parse_digits_def)
  next
    case False
    have one: "parse_digits [digit_char (n mod 10)] = n mod 10"
      by (simp add: parse_digits_def)
    from False 1 show ?thesis
      by (subst nat_str.simps) (simp add: parse_digits_append one)
  qed
qed

lemma length_nat_str: "0 < d \<Longrightarrow> n < 10 ^ d \<Longrightarrow> length (nat_str n) \<le> d"
proof (induction d arbitrary: n)
  case 0
  then show ?case by simp
next
  case (Suc d)
  show ?case
  proof (cases "n < 10")
    case True
    then show ?thesis by (subst nat_str.simps) simp
  next
    case False
    with Suc.prems have "0 < d" by (cases d) auto
    moreover have "n div 10 < 10 ^ d" using Suc.prems by (simp add: less_mult_imp_div_less)
    ultimately have "length (nat_str (n div 10)) \<le> d" using Suc.IH by blast
    with False show ?thesis by (subst nat_str.simps) simp
  qed
qed

lemma parse_digits_zeros [simp]: "parse_digits (replicate k (CHR ''0'')) = 0"
  by (induction k) (simp_all add: parse_digits_def digit_val_def)

lemma pad_left_facts:
  assumes "0 < d" "n < 10 ^ d"
  shows "length (pad_left d (nat_str n)) = d" "parse_digits (pad_left d (nat_str n)) = n"
    "list_all is_digit (pad_left d (nat_str n))"
proof -
  have "list_all is_digit (replicate k (CHR ''0''))" for k
    by (induction k) (simp_all add: is_digit_def)
  then show "length (pad_left d (nat_str n)) = d" "parse_digits (pad_left d (nat_str n)) = n"
    "list_all is_digit (pad_left d (nat_str n))"
    using length_nat_str [OF assms] digits_nat_str [of n]
    by (simp_all add: pad_left_def parse_digits_append list_all_append)
qed

lemma take_digits_all: "list_all is_digit s \<Longrightarrow> take_digits s = (s, [])"
  by (simp add: take_digits_def takeWhile_eq_all_conv list_all_iff)

lemma take_digits_append:
  "list_all is_digit s \<Longrightarrow> \<not> is_digit c \<Longrightarrow> take_digits (s @ c # t) = (s, c # t)"
  by (simp add: take_digits_def list_all_iff takeWhile_append2 dropWhile_append2)

lemma not_digit_facts: "\<not> is_digit (CHR ''.'')" "\<not> is_digit (CHR ''-'')" "\<not> is_digit (CHR ''+'')"
  by (simp_all add: is_digit_def)

lemma unsigned_number_to_fixed_nat:
  "unsigned_number (to_fixed_nat d n) = Some (of_nat n / 10 ^ d)"
proof (cases "d = 0")
  case True
  then show ?thesis
    using digits_nat_str [of n]
    by (simp add: to_fixed_nat_def unsigned_number_def take_digits_all)
next
  case False
  let ?a = "nat_str (n div 10 ^ d)" and ?b = "pad_left d (nat_str (n mod 10 ^ d))"
  have b: "length ?b = d" "parse_digits ?b = n mod 10 ^ d" "list_all is_digit ?b"
    using pad_left_facts [of d "n mod 10 ^ d"] False by simp_all
  have "parse_digits (?a @ ?b) = n"
    by (simp add: parse_digits_append b) (rule div_mult_mod_eq)
  moreover have "take_digits (?a @ CHR ''.'' # ?b) = (?a, CHR ''.'' # ?b)"
    using digits_nat_str not_digit_facts(1) by (rule take_digits_append)
  ultimately show ?thesis
    using False b by (simp add: to_fixed_nat_def unsigned_number_def take_digits_all)
qed

lemma digit_not_space: "is_digit c \<Longrightarrow> \<not> is_space c"
  by (auto simp: is_digit_def is_space_def)

lemma hd_to_fixed_nat: "is_digit (hd (to_fixed_nat d n))" and last_to_fixed_nat: "is_digit (last (to_fixed_nat d n))"
proof -
  have hd: "is_digit (hd (nat_str m))" for m
    using digits_nat_str [of m] by (cases "nat_str m") auto
  have last: "is_digit (last (nat_str m))" for m
    using digits_nat_str [of m] by (simp add: list_all_iff)
  have "nat_str m \<noteq> []" for m by simp
  then show "is_digit (hd (to_fixed_nat d n))"
    using hd by (simp add: to_fixed_nat_def hd_append)
  show "is_digit (last (to_fixed_nat d n))"
    using last by (simp add: to_fixed_nat_def pad_left_def)
qed

lemma to_fixed_nat_not_Nil: "to_fixed_nat d n \<noteq> []"
  by (simp add: to_fixed_nat_def)

text \<open>
  \<open>parseFloat(x.toFixed(d))\<close> is \<open>x\<close> rounded to \<open>d\<close> decimals.
\<close>

theorem js_number_to_fixed:
  assumes "0 \<le> x"
  shows "js_number (to_fixed x d) = Some (of_int (math_round (x * 10 ^ d)) / 10 ^ d)"
proof -
  let ?m = "math_round (x * 10 ^ d)"
  let ?t = "to_fixed_nat d (nat ?m)"
  have m: "0 \<le> ?m" using assms by (simp add: math_round_def)
  have trim: "js_trim ?t = ?t"
    by (intro js_trim_no_space_id digit_not_space hd_to_fixed_nat last_to_fixed_nat to_fixed_nat_not_Nil)
  obtain c cs where t: "?t = c # cs" using to_fixed_nat_not_Nil [of d "nat ?m"] by (cases ?t) auto
  have "is_digit c" using hd_to_fixed_nat [of d "nat ?m"] t by simp
  then have "c \<noteq> CHR ''-''" "c \<noteq> CHR ''+''" using not_digit_facts by auto
  then have "js_number ?t = unsigned_number ?t"
    using trim t by (simp add: js_number_def)
  then show ?thesis using assms m by (simp add: to_fixed_def unsigned_number_to_fixed_nat)
qed


text \<open>A string that starts and ends with a digit is read without trimming and without a sign.\<close>

lemma js_number_unsigned:
  assumes "s \<noteq> []" "is_digit (hd s)" "is_digit (last s)"
  shows "js_number s = unsigned_number s"
proof -
  have "js_trim s = s" using assms by (intro js_trim_no_space_id digit_not_space)
  moreover obtain c cs where "s = c # cs" using assms(1) by (cases s) auto
  moreover from this assms(2) have "c \<noteq> CHR ''-''" "c \<noteq> CHR ''+''" using not_digit_facts by auto
  ultimately show ?thesis by (simp add: js_number_def)
qed

lemma js_number_digits:
  assumes "s \<noteq> []" "list_all is_digit s"
  shows "js_number s = Some (of_nat (parse_digits s))"
proof -
  have "is_digit (hd s)" "is_digit (last s)" using assms by (simp_all add: list_all_iff)
  with assms show ?thesis by (simp add: js_number_unsigned unsigned_number_def take_digits_all)
qed

subsection \<open>Splitting what was joined\<close>

lemma js_split_no_sep: "d \<notin> set w \<Longrightarrow> js_split d w = [w]"
  by (induction w) auto

lemma js_split_append: "d \<notin> set w \<Longrightarrow> js_split d (w @ d # s) = w # js_split d s"
  by (induction w) auto

lemma js_split_join:
  assumes "\<forall>v \<in> set (w # ws). d \<notin> set v" "d \<notin> set pad"
  shows "js_split d (js_join (d # pad) (w # ws)) = w # map (\<lambda>v. pad @ v) ws"
  using assms
proof (induction ws arbitrary: w)
  case Nil
  then show ?case by (simp add: js_split_no_sep)
next
  case (Cons v vs)
  have "js_split d (js_join (d # pad) (w # v # vs)) = w # js_split d (pad @ js_join (d # pad) (v # vs))"
    using Cons.prems by (simp add: js_split_append)
  moreover have "js_split d (pad @ s) = (pad @ hd (js_split d s)) # tl (js_split d s)" for s
    using Cons.prems(2) js_split_not_Nil [of d s] by (induction pad) (auto split: list.splits)
  ultimately show ?case using Cons by simp
qed

end
