(* ===== verification/Schema.thy ===== *)
theory Schema
  imports JS
begin

text \<open>
  The data of the API contract as the generated client types it
  (\<open>frontend/src/api/schema.d.ts\<close>): one record per object schema, one datatype per
  enumeration, \<open>option\<close> for an optional or nullable property. Byte counts, sizes and
  seconds are integers in the contract; percentages are rationals. A record's fields carry
  the object's initial so that records can be used together.
\<close>

subsection \<open>Users and authentication\<close>

datatype role = Admin | Viewer

record user =
  u_id :: int
  u_username :: string
  u_role :: role
  u_createdAt :: string

record login_response =
  l_token :: string
  l_tokenType :: string
  l_expiresInSeconds :: int
  l_user :: user

subsection \<open>The host\<close>

record cpu =
  c_model :: string
  c_cores :: int
  c_threads :: int
  c_usagePercent :: "rat option"

record host =
  h_hostname :: string
  h_operatingSystem :: string
  h_kernel :: string
  h_uptimeSeconds :: int
  h_cpu :: cpu
  h_memoryTotalBytes :: int
  h_memoryUsedBytes :: int
  h_kvmEnabled :: "bool option"
  h_storageTotalBytes :: "int option"
  h_storageUsedBytes :: "int option"
  h_qemuVersion :: "string option"
  h_libvirtVersion :: "string option"

subsection \<open>Networks\<close>

datatype net_mode = Nat | Bridge | Isolated

datatype activity = Active | Inactive

record network =
  n_id :: string
  n_name :: string
  n_state :: activity
  n_autostart :: bool
  n_bridge :: "string option"
  n_ipAddress :: "string option"
  n_ipPrefix :: "int option"
  n_dhcpEnabled :: bool
  n_domainName :: "string option"
  n_mode :: "net_mode option"

text \<open>\<open>NetworkCreate\<close> and \<open>NetworkUpdate\<close>: a property left out of the body is \<open>None\<close>.\<close>

record network_body =
  nb_name :: "string option"
  nb_mode :: "net_mode option"
  nb_bridgeName :: "string option"
  nb_cidr :: "string option"
  nb_dhcpEnabled :: "bool option"
  nb_autostart :: "bool option"

record host_bridge =
  hb_name :: string
  hb_active :: bool

subsection \<open>Storage\<close>

datatype pool_type =
    Pool_dir | Pool_fs | Pool_netfs | Pool_lvm | Pool_disk | Pool_iscsi | Pool_zfs | Pool_rbd | Pool_other

record storage_pool =
  p_id :: string
  p_name :: string
  p_type :: pool_type
  p_state :: activity
  p_autostart :: "bool option"
  p_capacityBytes :: int
  p_allocationBytes :: int
  p_availableBytes :: int
  p_targetPath :: "string option"

record pool_create =
  pc_name :: string
  pc_type :: pool_type
  pc_targetPath :: string
  pc_autostart :: bool
  pc_isoLibrary :: bool

record iso =
  i_id :: string
  i_fileName :: string
  i_sizeBytes :: int
  i_uploadedAt :: "string option"

subsection \<open>Virtual machines\<close>

datatype vm_state = Running | Stopped | Paused | Shutting_down | Starting | Error_state

datatype os_type = Linux | Windows | Other

datatype disk_format = Qcow2 | Raw

datatype nic_model = Virtio | E1000e | Rtl8139

datatype disk_bus = Bus_virtio | Bus_sata | Bus_scsi

datatype ni_model = NI_virtio | NI_e1000 | NI_rtl8139

record disk =
  d_name :: string
  d_format :: disk_format
  d_sizeBytes :: int
  d_usedBytes :: "int option"
  d_bus :: "disk_bus option"

record net_interface =
  ni_name :: string
  ni_nicModel :: ni_model
  ni_macAddress :: "string option"
  ni_ipAddress :: "string option"
  ni_network :: "string option"

record vm_metrics =
  m_cpuPercent :: "rat option"
  m_memoryUsedBytes :: "int option"
  m_networkRx :: "int option"
  m_networkTx :: "int option"
  m_sampledAt :: string

datatype cpu_mode = Host_passthrough | Host_model | Custom_cpu

datatype disk_cache = Cache_none

record performance_profile =
  pp_cpuMode :: "cpu_mode option"
  pp_diskBus :: "disk_bus option"
  pp_cache :: "disk_cache option"
  pp_ioThreads :: "int option"
  pp_nicModel :: "nic_model option"
  pp_hyperv :: "string list option"

record vm =
  v_id :: string
  v_name :: string
  v_state :: vm_state
  v_vcpus :: int
  v_memoryBytes :: int
  v_uptimeSeconds :: "int option"
  v_os :: "string option"
  v_ipAddress :: "string option"
  v_isoId :: "string option"
  v_disks :: "disk list"
  v_networkInterfaces :: "net_interface list"
  v_metrics :: "vm_metrics option"
  v_bootTime :: "string option"
  v_osType :: "os_type option"
  v_performanceProfile :: "performance_profile option"
  v_warnings :: "string list option"

record disk_create =
  dc_poolId :: string
  dc_sizeBytes :: int
  dc_format :: "disk_format option"

text \<open>
  \<open>VirtualMachineCreate\<close>. A property that may be absent and may also be present and null is
  an option of an option.
\<close>

record vm_create =
  vc_name :: string
  vc_vcpus :: rat
  vc_memoryBytes :: int
  vc_disk :: disk_create
  vc_networkId :: "string option"
  vc_isoId :: "string option option"
  vc_osType :: os_type
  vc_nicModel :: "nic_model option"
  vc_virtioDriversIsoId :: "string option option"
  vc_start :: "bool option"

record vm_update =
  vu_vcpus :: "rat option"
  vu_memoryBytes :: "int option"
  vu_isoId :: "string option"
  vu_networkId :: "string option"

subsection \<open>Backups and schedules\<close>

datatype backup_type = Full | Incremental

datatype point_type = Auto | Point backup_type

record backup_disk =
  bd_name :: string
  bd_file :: string
  bd_format :: "disk_format option"
  bd_sizeBytes :: int

datatype backup_state = Complete

record backup =
  b_id :: string
  b_vmId :: string
  b_vmName :: string
  b_type :: backup_type
  b_parentId :: "string option"
  b_state :: "backup_state option"
  b_createdAt :: string
  b_sizeBytes :: int
  b_disks :: "backup_disk list"
  b_hasDomainXml :: "bool option"

record schedule =
  s_id :: string
  s_name :: string
  s_time :: string
  s_vmIds :: "string list"
  s_type :: point_type
  s_retentionKeepLast :: int
  s_enabled :: bool
  s_lastRun :: "string option"

text \<open>\<open>BackupScheduleCreate\<close> and \<open>BackupScheduleUpdate\<close>; \<open>None\<close> for an absent property.\<close>

record schedule_body =
  sb_name :: "string option"
  sb_time :: "string option"
  sb_vmIds :: "string list option"
  sb_type :: "point_type option"
  sb_retentionKeepLast :: "rat option"
  sb_enabled :: "bool option"

subsection \<open>Tasks\<close>

datatype task_status = Queued | TRunning | Succeeded | Failed | Cancelling | Cancelled

datatype task_type = Vm_create | Backup_create | Backup_restore

record task =
  t_id :: string
  t_type :: task_type
  t_status :: task_status
  t_resourceId :: "string option"
  t_resourceName :: "string option"
  t_message :: "string option"
  t_error :: "string option"
  t_progress :: int
  t_warnings :: "string list option"
  t_cancellable :: bool
  t_createdAt :: string
  t_startedAt :: "string option"
  t_finishedAt :: "string option"

subsection \<open>Enumerations as the strings of the contract\<close>

fun vm_state_str :: "vm_state \<Rightarrow> string" where
  "vm_state_str Running = ''running''"
| "vm_state_str Stopped = ''stopped''"
| "vm_state_str Paused = ''paused''"
| "vm_state_str Shutting_down = ''shutting-down''"
| "vm_state_str Starting = ''starting''"
| "vm_state_str Error_state = ''error''"

fun activity_str :: "activity \<Rightarrow> string" where
  "activity_str Active = ''active''"
| "activity_str Inactive = ''inactive''"

fun mode_str :: "net_mode \<Rightarrow> string" where
  "mode_str Nat = ''nat''"
| "mode_str Bridge = ''bridge''"
| "mode_str Isolated = ''isolated''"

fun role_str :: "role \<Rightarrow> string" where
  "role_str Admin = ''admin''"
| "role_str Viewer = ''viewer''"

fun os_str :: "os_type \<Rightarrow> string" where
  "os_str Linux = ''linux''"
| "os_str Windows = ''windows''"
| "os_str Other = ''other''"

fun format_str :: "disk_format \<Rightarrow> string" where
  "format_str Qcow2 = ''qcow2''"
| "format_str Raw = ''raw''"

fun nic_str :: "nic_model \<Rightarrow> string" where
  "nic_str Virtio = ''virtio''"
| "nic_str E1000e = ''e1000e''"
| "nic_str Rtl8139 = ''rtl8139''"

fun backup_type_str :: "backup_type \<Rightarrow> string" where
  "backup_type_str Full = ''full''"
| "backup_type_str Incremental = ''incremental''"

fun task_status_str :: "task_status \<Rightarrow> string" where
  "task_status_str Queued = ''queued''"
| "task_status_str TRunning = ''running''"
| "task_status_str Succeeded = ''succeeded''"
| "task_status_str Failed = ''failed''"
| "task_status_str Cancelling = ''cancelling''"
| "task_status_str Cancelled = ''cancelled''"

fun pool_type_str :: "pool_type \<Rightarrow> string" where
  "pool_type_str Pool_dir = ''dir''"
| "pool_type_str Pool_fs = ''fs''"
| "pool_type_str Pool_netfs = ''netfs''"
| "pool_type_str Pool_lvm = ''lvm''"
| "pool_type_str Pool_disk = ''disk''"
| "pool_type_str Pool_iscsi = ''iscsi''"
| "pool_type_str Pool_zfs = ''zfs''"
| "pool_type_str Pool_rbd = ''rbd''"
| "pool_type_str Pool_other = ''other''"

fun bus_str :: "disk_bus \<Rightarrow> string" where
  "bus_str Bus_virtio = ''virtio''"
| "bus_str Bus_sata = ''sata''"
| "bus_str Bus_scsi = ''scsi''"

fun ni_model_str :: "ni_model \<Rightarrow> string" where
  "ni_model_str NI_virtio = ''virtio''"
| "ni_model_str NI_e1000 = ''e1000''"
| "ni_model_str NI_rtl8139 = ''rtl8139''"

fun cpu_mode_str :: "cpu_mode \<Rightarrow> string" where
  "cpu_mode_str Host_passthrough = ''host-passthrough''"
| "cpu_mode_str Host_model = ''host-model''"
| "cpu_mode_str Custom_cpu = ''custom''"

fun cache_str :: "disk_cache \<Rightarrow> string" where
  "cache_str Cache_none = ''none''"

fun point_type_str :: "point_type \<Rightarrow> string" where
  "point_type_str Auto = ''auto''"
| "point_type_str (Point t) = backup_type_str t"

fun task_type_str :: "task_type \<Rightarrow> string" where
  "task_type_str Vm_create = ''vm-create''"
| "task_type_str Backup_create = ''backup-create''"
| "task_type_str Backup_restore = ''backup-restore''"

lemma vm_state_str_inject [simp]: "vm_state_str a = vm_state_str b \<longleftrightarrow> a = b"
  by (cases a; cases b) simp_all

lemma task_status_str_inject [simp]: "task_status_str a = task_status_str b \<longleftrightarrow> a = b"
  by (cases a; cases b) simp_all

end
