(* ===== verification/Client.thy ===== *)
theory Client
  imports Schema
begin

text \<open>
  The API client (\<open>frontend/src/api/client.ts\<close>): the requests the pages issue and the
  operation of the contract each one is, the payloads that answer them, \<open>unwrap\<close> with its
  uniform error, the token kept in the browser's local storage with the request and
  response hooks, and the ISO upload. The transport (\<open>openapi-fetch\<close>, \<open>fetch\<close>,
  \<open>XMLHttpRequest\<close>) is the environment: what it delivers is a value of \<open>fetch_result\<close> or
  \<open>xhr_event\<close>.
\<close>

subsection \<open>Requests\<close>

datatype power_action = AStart | AShutdown | AReboot | AStop

fun action_str :: "power_action \<Rightarrow> string" where
  "action_str AStart = ''start''"
| "action_str AShutdown = ''shutdown''"
| "action_str AReboot = ''reboot''"
| "action_str AStop = ''stop''"

datatype net_action = NStart | NStop

fun net_action_str :: "net_action \<Rightarrow> string" where
  "net_action_str NStart = ''start''"
| "net_action_str NStop = ''stop''"

datatype request =
    PostLogin string string
  | GetMe
  | PutOwnPassword string string
  | GetUsers
  | PostUser string string role
  | DeleteUser int
  | PutUserPassword int string
  | GetHost
  | GetPools
  | PostPool pool_create
  | DeletePool string
  | PostPoolRefresh string
  | GetIsos
  | PostIso string
  | DeleteIso string
  | GetNetworks
  | PostNetwork network_body
  | GetBridges
  | PutNetwork string network_body
  | DeleteNetwork string
  | PostNetworkAction string net_action
  | GetVms
  | PostVm vm_create
  | GetVm string
  | DeleteVm string bool
  | PatchVm string vm_update
  | PostVmAction string power_action
  | GetSchedules
  | PostSchedule schedule_body
  | PutSchedule string schedule_body
  | DeleteSchedule string
  | GetBackups string
  | PostBackup string point_type
  | DeleteBackup string
  | PostRestore string
  | GetTasks "string option" int
  | PostTaskCancel string

datatype http_method = GET | POST | PUT | DELETE | PATCH

text \<open>The method and path template every call site names.\<close>

fun operation :: "request \<Rightarrow> http_method \<times> string" where
  "operation (PostLogin u p) = (POST, ''/auth/login'')"
| "operation GetMe = (GET, ''/auth/me'')"
| "operation (PutOwnPassword c n) = (PUT, ''/auth/password'')"
| "operation GetUsers = (GET, ''/users'')"
| "operation (PostUser u p r) = (POST, ''/users'')"
| "operation (DeleteUser i) = (DELETE, ''/users/{id}'')"
| "operation (PutUserPassword i p) = (PUT, ''/users/{id}/password'')"
| "operation GetHost = (GET, ''/host'')"
| "operation GetPools = (GET, ''/storage/pools'')"
| "operation (PostPool b) = (POST, ''/storage/pools'')"
| "operation (DeletePool i) = (DELETE, ''/storage/pools/{id}'')"
| "operation (PostPoolRefresh i) = (POST, ''/storage/pools/{id}/refresh'')"
| "operation GetIsos = (GET, ''/storage/isos'')"
| "operation (PostIso f) = (POST, ''/storage/isos'')"
| "operation (DeleteIso i) = (DELETE, ''/storage/isos/{id}'')"
| "operation GetNetworks = (GET, ''/networks'')"
| "operation (PostNetwork b) = (POST, ''/networks'')"
| "operation GetBridges = (GET, ''/host/bridges'')"
| "operation (PutNetwork i b) = (PUT, ''/networks/{id}'')"
| "operation (DeleteNetwork i) = (DELETE, ''/networks/{id}'')"
| "operation (PostNetworkAction i a) = (POST, ''/networks/{id}/'' @ net_action_str a)"
| "operation GetVms = (GET, ''/vms'')"
| "operation (PostVm b) = (POST, ''/vms'')"
| "operation (GetVm i) = (GET, ''/vms/{id}'')"
| "operation (DeleteVm i d) = (DELETE, ''/vms/{id}'')"
| "operation (PatchVm i b) = (PATCH, ''/vms/{id}'')"
| "operation (PostVmAction i a) = (POST, ''/vms/{id}/'' @ action_str a)"
| "operation GetSchedules = (GET, ''/backup-schedules'')"
| "operation (PostSchedule b) = (POST, ''/backup-schedules'')"
| "operation (PutSchedule i b) = (PUT, ''/backup-schedules/{id}'')"
| "operation (DeleteSchedule i) = (DELETE, ''/backup-schedules/{id}'')"
| "operation (GetBackups i) = (GET, ''/vms/{id}/backups'')"
| "operation (PostBackup i t) = (POST, ''/vms/{id}/backups'')"
| "operation (DeleteBackup i) = (DELETE, ''/backups/{id}'')"
| "operation (PostRestore i) = (POST, ''/backups/{id}/restore'')"
| "operation (GetTasks s l) = (GET, ''/tasks'')"
| "operation (PostTaskCancel i) = (POST, ''/tasks/{id}/cancel'')"

text \<open>A request that changes something on the server.\<close>

definition mutating :: "request \<Rightarrow> bool" where
  "mutating r = (fst (operation r) \<noteq> GET)"

subsection \<open>Payloads\<close>

datatype payload =
    PUndefined
  | PLogin login_response
  | PUser user
  | PUsers "user list" int
  | PHost host
  | PPools "storage_pool list" int
  | PPool storage_pool
  | PIsos "iso list" int
  | PNetworks "network list" int
  | PNetwork network
  | PBridges "host_bridge list" int
  | PVms "vm list" int
  | PVm vm
  | PSchedules "schedule list" int
  | PSchedule schedule
  | PBackups "backup list" int
  | PTasks "task list" int
  | PTask task

text \<open>The payload the contract gives to a successful answer.\<close>

fun answers :: "request \<Rightarrow> payload \<Rightarrow> bool" where
  "answers (PostLogin _ _) p = (case p of PLogin _ \<Rightarrow> True | _ \<Rightarrow> False)"
| "answers GetMe p = (case p of PUser _ \<Rightarrow> True | _ \<Rightarrow> False)"
| "answers GetUsers p = (case p of PUsers _ _ \<Rightarrow> True | _ \<Rightarrow> False)"
| "answers (PostUser _ _ _) p = (case p of PUser _ \<Rightarrow> True | _ \<Rightarrow> False)"
| "answers GetHost p = (case p of PHost _ \<Rightarrow> True | _ \<Rightarrow> False)"
| "answers GetPools p = (case p of PPools _ _ \<Rightarrow> True | _ \<Rightarrow> False)"
| "answers (PostPool _) p = (case p of PPool _ \<Rightarrow> True | _ \<Rightarrow> False)"
| "answers (PostPoolRefresh _) p = (case p of PPool _ \<Rightarrow> True | _ \<Rightarrow> False)"
| "answers GetIsos p = (case p of PIsos _ _ \<Rightarrow> True | _ \<Rightarrow> False)"
| "answers GetNetworks p = (case p of PNetworks _ _ \<Rightarrow> True | _ \<Rightarrow> False)"
| "answers (PostNetwork _) p = (case p of PNetwork _ \<Rightarrow> True | _ \<Rightarrow> False)"
| "answers GetBridges p = (case p of PBridges _ _ \<Rightarrow> True | _ \<Rightarrow> False)"
| "answers (PutNetwork _ _) p = (case p of PNetwork _ \<Rightarrow> True | _ \<Rightarrow> False)"
| "answers (PostNetworkAction _ _) p = (case p of PNetwork _ \<Rightarrow> True | _ \<Rightarrow> False)"
| "answers GetVms p = (case p of PVms _ _ \<Rightarrow> True | _ \<Rightarrow> False)"
| "answers (PostVm _) p = (case p of PTask _ \<Rightarrow> True | _ \<Rightarrow> False)"
| "answers (GetVm _) p = (case p of PVm _ \<Rightarrow> True | _ \<Rightarrow> False)"
| "answers (PatchVm _ _) p = (case p of PVm _ \<Rightarrow> True | _ \<Rightarrow> False)"
| "answers (PostVmAction _ _) p = (case p of PVm _ \<Rightarrow> True | _ \<Rightarrow> False)"
| "answers GetSchedules p = (case p of PSchedules _ _ \<Rightarrow> True | _ \<Rightarrow> False)"
| "answers (PostSchedule _) p = (case p of PSchedule _ \<Rightarrow> True | _ \<Rightarrow> False)"
| "answers (PutSchedule _ _) p = (case p of PSchedule _ \<Rightarrow> True | _ \<Rightarrow> False)"
| "answers (GetBackups _) p = (case p of PBackups _ _ \<Rightarrow> True | _ \<Rightarrow> False)"
| "answers (PostBackup _ _) p = (case p of PTask _ \<Rightarrow> True | _ \<Rightarrow> False)"
| "answers (PostRestore _) p = (case p of PTask _ \<Rightarrow> True | _ \<Rightarrow> False)"
| "answers (GetTasks _ _) p = (case p of PTasks _ _ \<Rightarrow> True | _ \<Rightarrow> False)"
| "answers (PostTaskCancel _) p = (case p of PTask _ \<Rightarrow> True | _ \<Rightarrow> False)"
| "answers _ p = (p = PUndefined)"

subsection \<open>Errors and \<open>unwrap\<close>\<close>

text \<open>
  What a \<open>catch\<close> can receive: an \<open>ApiError\<close> thrown by \<open>unwrap\<close>, or another \<open>Error\<close> with
  its name and message (a rejected \<open>fetch\<close>, a property read on \<open>undefined\<close>).
\<close>

datatype js_error =
    ApiError string string int
  | OtherError string string

fun err_message :: "js_error \<Rightarrow> string" where
  "err_message (ApiError c m s) = m"
| "err_message (OtherError n m) = m"

text \<open>\<open>String(e)\<close>. \<open>ApiError\<close> sets no \<open>name\<close>, so it prints as \<open>Error\<close>.\<close>

fun err_string :: "js_error \<Rightarrow> string" where
  "err_string (ApiError c m s) = (if m = '''' then ''Error'' else ''Error: '' @ m)"
| "err_string (OtherError n m) = (if m = '''' then n else n @ '': '' @ m)"

text \<open>What reading a property of \<open>undefined\<close> throws.\<close>

definition reading_undefined :: "string \<Rightarrow> js_error" where
  "reading_undefined prop =
     OtherError ''TypeError'' (''Cannot read properties of undefined (reading '' @ [CHR 0x27] @ prop @ [CHR 0x27] @ '')'')"

text \<open>The three texts the components build from a caught error.\<close>

definition err_colon :: "js_error \<Rightarrow> string" where
  "err_colon e = (case e of ApiError c m s \<Rightarrow> c @ '': '' @ m | _ \<Rightarrow> err_string e)"

definition err_dash :: "js_error \<Rightarrow> string" where
  "err_dash e = (case e of ApiError c m s \<Rightarrow> c @ '' '' @ em_dash @ '' '' @ m | _ \<Rightarrow> err_string e)"

definition err_named :: "string \<Rightarrow> js_error \<Rightarrow> string" where
  "err_named n e = (case e of ApiError c m s \<Rightarrow> n @ '': '' @ c @ '' '' @ em_dash @ '' '' @ m | _ \<Rightarrow> err_string e)"

text \<open>
  The \<open>error\<close> member of a fetch result: absent, a text body, or a JSON object in which the
  standard envelope's members may be missing.
\<close>

datatype err_body =
    NoError
  | ErrText string
  | ErrObject "(string option \<times> string option) option"

fun err_truthy :: "err_body \<Rightarrow> bool" where
  "err_truthy NoError = False"
| "err_truthy (ErrText t) = (t \<noteq> '''')"
| "err_truthy (ErrObject _) = True"

fun err_code :: "err_body \<Rightarrow> string option" where
  "err_code (ErrObject (Some (c, m))) = c"
| "err_code _ = None"

fun err_msg :: "err_body \<Rightarrow> string option" where
  "err_msg (ErrObject (Some (c, m))) = m"
| "err_msg _ = None"

datatype fetch_result =
    Fetched "payload option" err_body int
  | Rejected string string

definition unwrap :: "fetch_result \<Rightarrow> js_error + payload" where
  "unwrap r = (case r of
     Rejected n m \<Rightarrow> Inl (OtherError n m)
   | Fetched d e status \<Rightarrow>
       if err_truthy e
       then Inl (ApiError (orelse (err_code e) ''UNKNOWN_ERROR'') (orelse (err_msg e) ''Unexpected error'') status)
       else Inr (orelse d PUndefined))"

subsection \<open>The stored token and the client's hooks\<close>

type_synonym storage = "string \<rightharpoonup> string"

definition TOKEN_KEY :: string where
  "TOKEN_KEY = ''ultrav.token''"

definition getToken :: "storage \<Rightarrow> string option" where
  "getToken ls = ls TOKEN_KEY"

text \<open>\<open>if (token) setItem else removeItem\<close>: the empty string removes.\<close>

definition setToken :: "string option \<Rightarrow> storage \<Rightarrow> storage" where
  "setToken t ls = (case t of
     Some s \<Rightarrow> if s \<noteq> '''' then ls(TOKEN_KEY \<mapsto> s) else ls(TOKEN_KEY := None)
   | None \<Rightarrow> ls(TOKEN_KEY := None))"

text \<open>\<open>onRequest\<close>: the \<open>Authorization\<close> header of a request.\<close>

definition auth_header :: "storage \<Rightarrow> string option" where
  "auth_header ls = (case getToken ls of
     Some t \<Rightarrow> if t \<noteq> '''' then Some (''Bearer '' @ t) else None | None \<Rightarrow> None)"

text \<open>\<open>onResponse\<close>: does the response fire the unauthorized callback?\<close>

definition fires_unauthorized :: "fetch_result \<Rightarrow> bool" where
  "fires_unauthorized r = (case r of Fetched d e status \<Rightarrow> status = 401 | Rejected n m \<Rightarrow> False)"

lemma getToken_setToken: "getToken (setToken t ls) = (case t of Some s \<Rightarrow> if s = '''' then None else Some s | None \<Rightarrow> None)"
  by (auto simp: getToken_def setToken_def split: option.splits)

lemma setToken_other: "k \<noteq> TOKEN_KEY \<Longrightarrow> setToken t ls k = ls k"
  by (auto simp: setToken_def split: option.splits)

lemma setToken_setToken: "setToken t (setToken u ls) = setToken t ls"
  by (auto simp: setToken_def split: option.splits)

subsection \<open>The ISO upload\<close>

text \<open>
  The body of an upload's answer after \<open>JSON.parse\<close>: not JSON, or an object whose
  \<open>error.code\<close> and \<open>error.message\<close> may be missing.
\<close>

datatype xhr_event =
    XLoad int "(string option \<times> string option) option"
  | XError

definition upload_header :: "storage \<Rightarrow> string option" where
  "upload_header ls = auth_header ls"

text \<open>\<open>Math.round(loaded / total * 100)\<close> when the length is computable and not zero.\<close>

definition upload_pct :: "int \<Rightarrow> int \<Rightarrow> int" where
  "upload_pct loaded tot = math_round (of_int loaded / of_int tot * 100)"

text \<open>\<open>Inl msg\<close> is \<open>reject(new Error(msg))\<close>, \<open>Inr ()\<close> is \<open>resolve()\<close>.\<close>

definition upload_outcome :: "xhr_event \<Rightarrow> string + unit" where
  "upload_outcome ev = (case ev of
     XError \<Rightarrow> Inl ''Network error during upload''
   | XLoad status body \<Rightarrow>
       if status = 201 then Inr ()
       else (let dflt = ''HTTP '' @ int_str status in
         case body of None \<Rightarrow> Inl dflt
         | Some (c, m) \<Rightarrow>
             (case c of
                Some code \<Rightarrow> if code \<noteq> '''' then Inl (code @ '': '' @ orelse m ''undefined'') else Inl (orelse m dflt)
              | None \<Rightarrow> Inl (orelse m dflt))))"

end
