(* ===== verification/Contract.thy ===== *)
theory Contract
  imports Client
begin

text \<open>
  The operations of the contract (\<open>interface paths\<close> of \<open>frontend/src/api/schema.d.ts\<close>): for
  each path the methods that are not \<open>never\<close>. Every request the user interface issues is
  one of them.
\<close>

type_synonym path_item = "string \<times> http_method list"

definition auth_paths :: "path_item list" where
  "auth_paths =
    [(''/auth/login'', [POST]),
     (''/auth/me'', [GET]),
     (''/auth/password'', [PUT]),
     (''/users'', [GET, POST]),
     (''/users/{id}'', [DELETE]),
     (''/users/{id}/password'', [PUT])]"

definition host_paths :: "path_item list" where
  "host_paths =
    [(''/host'', [GET]),
     (''/capabilities'', [GET]),
     (''/health'', [GET]),
     (''/ready'', [GET])]"

definition storage_paths :: "path_item list" where
  "storage_paths =
    [(''/storage/pools'', [GET, POST]),
     (''/storage/pools/{id}'', [GET, DELETE]),
     (''/storage/pools/{id}/refresh'', [POST]),
     (''/storage/isos'', [GET, POST]),
     (''/storage/isos/{id}'', [DELETE])]"

definition network_paths :: "path_item list" where
  "network_paths =
    [(''/networks'', [GET, POST]),
     (''/host/bridges'', [GET]),
     (''/networks/{id}'', [GET, PUT, DELETE]),
     (''/networks/{id}/start'', [POST]),
     (''/networks/{id}/stop'', [POST])]"

definition vm_paths :: "path_item list" where
  "vm_paths =
    [(''/vms'', [GET, POST]),
     (''/vms/{id}'', [GET, DELETE, PATCH]),
     (''/vms/{id}/start'', [POST]),
     (''/vms/{id}/console'', [GET]),
     (''/vms/{id}/shutdown'', [POST]),
     (''/vms/{id}/reboot'', [POST]),
     (''/vms/{id}/stop'', [POST])]"

definition backup_paths :: "path_item list" where
  "backup_paths =
    [(''/backup-schedules'', [GET, POST]),
     (''/backup-schedules/{id}'', [PUT, DELETE]),
     (''/vms/{id}/backups'', [GET, POST]),
     (''/backups/{id}'', [DELETE]),
     (''/backups/{id}/restore'', [POST]),
     (''/vms/{id}/config-export'', [GET])]"

definition task_paths :: "path_item list" where
  "task_paths =
    [(''/tasks'', [GET]),
     (''/tasks/{id}'', [GET]),
     (''/tasks/{id}/cancel'', [POST])]"

definition contract :: "path_item list" where
  "contract = auth_paths @ host_paths @ storage_paths @ network_paths @ vm_paths @ backup_paths @ task_paths"

definition in_contract :: "http_method \<times> string \<Rightarrow> bool" where
  "in_contract op = (case map_of contract (snd op) of None \<Rightarrow> False | Some ms \<Rightarrow> fst op \<in> set ms)"

lemmas contract_defs = contract_def auth_paths_def host_paths_def storage_paths_def
  network_paths_def vm_paths_def backup_paths_def task_paths_def

lemma in_contract_action: "in_contract (POST, ''/vms/{id}/'' @ action_str a)"
  by (cases a) (simp_all add: in_contract_def contract_defs)

lemma in_contract_net_action: "in_contract (POST, ''/networks/{id}/'' @ net_action_str a)"
  by (cases a) (simp_all add: in_contract_def contract_defs)


end
