(* ===== verification/Runtime.thy ===== *)
theory Runtime
  imports Client
begin

text \<open>
  How a component runs in the browser. JavaScript runs to completion between two \<open>await\<close>s,
  so an asynchronous handler is a sequence of atomic segments: each segment updates the
  component's state, emits effects (toasts, navigation, callbacks to the parent) and issues
  requests. A request that is awaited is kept with the name of the segment that continues
  after it and the values that segment has captured; that name is a value of the
  component's own datatype of continuations. Pending requests settle in any order.

  A world holds the component's state, the effects emitted so far and the pending requests.
  An action is a function on worlds, a segment a list of actions.
\<close>

datatype toast_kind = TSuccess | TError | TInfo

datatype effect =
    Toast toast_kind string
  | Navigate string
  | OpenTab string
  | OnClose
  | OnSaved

record ('s, 'k) world =
  st :: 's
  effs :: "effect list"
  calls :: "(request list \<times> 'k) list"

type_synonym ('s, 'k) action = "('s, 'k) world \<Rightarrow> ('s, 'k) world"

type_synonym reply = "js_error + payload list"

definition fresh :: "'s \<Rightarrow> ('s, 'k) world" where
  "fresh s = \<lparr>st = s, effs = [], calls = []\<rparr>"

definition upd :: "('s \<Rightarrow> 's) \<Rightarrow> ('s, 'k) action" where
  "upd f w = w\<lparr>st := f (st w)\<rparr>"

definition emit :: "effect \<Rightarrow> ('s, 'k) action" where
  "emit e w = w\<lparr>effs := effs w @ [e]\<rparr>"

definition call :: "request list \<Rightarrow> 'k \<Rightarrow> ('s, 'k) action" where
  "call rs k w = w\<lparr>calls := calls w @ [(rs, k)]\<rparr>"

definition skip :: "('s, 'k) action" where
  "skip w = w"

fun run :: "('s, 'k) action list \<Rightarrow> ('s, 'k) action" where
  "run [] w = w"
| "run (a # as) w = run as (a w)"

definition take_call :: "nat \<Rightarrow> ('s, 'k) action" where
  "take_call i w = w\<lparr>calls := remove_nth i (calls w)\<rparr>"

lemma world_sel [simp, act_simps]:
  "st (upd f w) = f (st w)" "effs (upd f w) = effs w" "calls (upd f w) = calls w"
  "st (emit e w) = st w" "effs (emit e w) = effs w @ [e]" "calls (emit e w) = calls w"
  "st (call rs k w) = st w" "effs (call rs k w) = effs w" "calls (call rs k w) = calls w @ [(rs, k)]"
  "skip w = w"
  "st (take_call i w) = st w" "effs (take_call i w) = effs w"
  "calls (take_call i w) = remove_nth i (calls w)"
  "st (fresh s) = s" "effs (fresh s) = []" "calls (fresh s) = []"
  by (simp_all add: upd_def emit_def call_def skip_def take_call_def fresh_def)

lemma run_append: "run (as @ bs) w = run bs (run as w)"
  by (induction as arbitrary: w) simp_all

subsection \<open>A child component inside its parent\<close>

text \<open>
  A child's segment runs on the child's part of the state; its requests are added to the
  parent's with its continuations injected, and each effect is handed to \<open>h\<close>, which
  passes page effects on and runs the parent's callbacks for \<open>OnClose\<close> and \<open>OnSaved\<close>.
\<close>

definition embed ::
  "('p \<Rightarrow> 'c) \<Rightarrow> ('c \<Rightarrow> 'p \<Rightarrow> 'p) \<Rightarrow> ('kc \<Rightarrow> 'kp) \<Rightarrow> (effect \<Rightarrow> ('p, 'kp) action)
    \<Rightarrow> ('c, 'kc) action \<Rightarrow> ('p, 'kp) action" where
  "embed get put tag h a w =
     (let c = a (fresh (get (st w)));
          w1 = w\<lparr>st := put (st c) (st w),
                 calls := calls w @ map (\<lambda>(rs, k). (rs, tag k)) (calls c)\<rparr>
      in run (map h (effs c)) w1)"

subsection \<open>What a request may be answered with\<close>

text \<open>
  Any error, or one payload per request, each the one the contract gives or \<open>undefined\<close>
  (an answer whose error body is empty is taken for a success without data by \<open>unwrap\<close>).
\<close>

definition reply_ok :: "request list \<Rightarrow> reply \<Rightarrow> bool" where
  "reply_ok rs r = (case r of Inl e \<Rightarrow> True
     | Inr ps \<Rightarrow> list_all2 (\<lambda>q p. answers q p \<or> p = PUndefined) rs ps)"

subsection \<open>Reachable worlds\<close>

text \<open>
  A component is a world after mounting, the events its rendered view offers in a state,
  the handler of an event and the continuation of a settled request.
\<close>

inductive reachable ::
  "('s, 'k) world \<Rightarrow> ('s \<Rightarrow> 'e \<Rightarrow> bool) \<Rightarrow> ('e \<Rightarrow> ('s, 'k) action) \<Rightarrow> ('k \<Rightarrow> reply \<Rightarrow> ('s, 'k) action)
    \<Rightarrow> ('s, 'k) world \<Rightarrow> bool"
  for w0 en hdl rs where
  boot: "reachable w0 en hdl rs w0"
| event: "reachable w0 en hdl rs w \<Longrightarrow> en (st w) e \<Longrightarrow> reachable w0 en hdl rs (hdl e w)"
| reply: "reachable w0 en hdl rs w \<Longrightarrow> i < length (calls w) \<Longrightarrow> reply_ok (fst (calls w ! i)) r
    \<Longrightarrow> reachable w0 en hdl rs (rs (snd (calls w ! i)) r (take_call i w))"

text \<open>A script of stimuli, played if every one is possible when its turn comes.\<close>

datatype 'e stimulus = Ev 'e | Settle nat reply

fun play ::
  "('s \<Rightarrow> 'e \<Rightarrow> bool) \<Rightarrow> ('e \<Rightarrow> ('s, 'k) action) \<Rightarrow> ('k \<Rightarrow> reply \<Rightarrow> ('s, 'k) action)
    \<Rightarrow> 'e stimulus list \<Rightarrow> ('s, 'k) world \<Rightarrow> ('s, 'k) world option" where
  "play en hdl rs [] w = Some w"
| "play en hdl rs (Ev e # xs) w = (if en (st w) e then play en hdl rs xs (hdl e w) else None)"
| "play en hdl rs (Settle i r # xs) w =
     (if i < length (calls w) \<and> reply_ok (fst (calls w ! i)) r
      then play en hdl rs xs (rs (snd (calls w ! i)) r (take_call i w)) else None)"

lemma play_reachable:
  "reachable w0 en hdl rs w \<Longrightarrow> play en hdl rs xs w = Some w' \<Longrightarrow> reachable w0 en hdl rs w'"
proof (induction xs arbitrary: w)
  case Nil
  then show ?case by simp
next
  case (Cons x xs)
  then show ?case
    by (cases x) (auto split: if_splits intro: reachable.event reachable.reply)
qed

subsection \<open>Invariants\<close>

text \<open>
  The contract between a component and its proofs: an invariant holds after mounting, every
  offered event keeps it, and every settled request keeps it.
\<close>

locale component =
  fixes w0 :: "('s, 'k) world"
    and en :: "'s \<Rightarrow> 'e \<Rightarrow> bool"
    and hdl :: "'e \<Rightarrow> ('s, 'k) action"
    and rs :: "'k \<Rightarrow> reply \<Rightarrow> ('s, 'k) action"
    and I :: "('s, 'k) world \<Rightarrow> bool"
  assumes inv_boot: "I w0"
    and inv_event: "I w \<Longrightarrow> en (st w) e \<Longrightarrow> I (hdl e w)"
    and inv_reply: "I w \<Longrightarrow> i < length (calls w) \<Longrightarrow> reply_ok (fst (calls w ! i)) r
      \<Longrightarrow> I (rs (snd (calls w ! i)) r (take_call i w))"
begin

lemma reach_inv: "reachable w0 en hdl rs w \<Longrightarrow> I w"
  by (induction rule: reachable.induct) (auto intro: inv_boot inv_event inv_reply)

lemma play_inv: "I w \<Longrightarrow> play en hdl rs xs w = Some w' \<Longrightarrow> I w'"
proof (induction xs arbitrary: w)
  case Nil
  then show ?case by simp
next
  case (Cons x xs)
  then show ?case
    by (cases x) (auto split: if_splits intro: inv_event inv_reply)
qed

end

text \<open>
  The contract of a control that is disabled while its operation runs: \<open>busy\<close> is the flag
  the view disables it by, \<open>mine\<close> the continuations of the operation.
\<close>

definition flight :: "('k \<Rightarrow> bool) \<Rightarrow> ('s, 'k) world \<Rightarrow> nat" where
  "flight mine w = length (filter (\<lambda>c. mine (snd c)) (calls w))"

lemma flight_act [simp, act_simps]:
  "flight mine (upd f w) = flight mine w"
  "flight mine (emit e w) = flight mine w"
  "flight mine (call rs k w) = flight mine w + (if mine k then 1 else 0)"
  "flight mine (fresh s) = 0"
  by (simp_all add: flight_def)

lemma flight_take_call:
  "i < length (calls w) \<Longrightarrow>
    flight mine w = flight mine (take_call i w) + (if mine (snd (calls w ! i)) then 1 else 0)"
  by (simp add: flight_def filter_remove_nth_length)

text \<open>A component all of whose requests belong to its operation.\<close>

definition any_kont :: "'k \<Rightarrow> bool" where
  "any_kont k = True"

lemma any_kont [simp]: "any_kont k"
  by (simp add: any_kont_def)

lemma flight_any: "flight any_kont w = length (calls w)"
  by (simp add: flight_def)

locale single_flight =
  fixes w0 :: "('s, 'k) world"
    and en :: "'s \<Rightarrow> 'e \<Rightarrow> bool"
    and hdl :: "'e \<Rightarrow> ('s, 'k) action"
    and rs :: "'k \<Rightarrow> reply \<Rightarrow> ('s, 'k) action"
    and busy :: "'s \<Rightarrow> bool"
    and mine :: "'k \<Rightarrow> bool"
  assumes idle_boot: "flight mine w0 = 0 \<and> \<not> busy (st w0)"
    and idle_event: "\<not> busy (st w) \<Longrightarrow> en (st w) e \<Longrightarrow>
      flight mine (hdl e w) = flight mine w + (if busy (st (hdl e w)) then 1 else 0)"
    and busy_event: "busy (st w) \<Longrightarrow> en (st w) e \<Longrightarrow>
      busy (st (hdl e w)) \<and> flight mine (hdl e w) = flight mine w"
    and own_reply: "mine k \<Longrightarrow> busy (st w) \<Longrightarrow>
      flight mine (rs k r w) = flight mine w + (if busy (st (rs k r w)) then 1 else 0)"
    and other_reply: "\<not> mine k \<Longrightarrow>
      busy (st (rs k r w)) = busy (st w) \<and> flight mine (rs k r w) = flight mine w"
begin

definition one_flight :: "('s, 'k) world \<Rightarrow> bool" where
  "one_flight w = (flight mine w = (if busy (st w) then 1 else 0))"

end

sublocale single_flight \<subseteq> component w0 en hdl rs one_flight
proof unfold_locales
  show "one_flight w0" using idle_boot by (simp add: one_flight_def)
next
  fix w e assume "one_flight w" "en (st w) e"
  then show "one_flight (hdl e w)"
    using idle_event [of w e] busy_event [of w e]
    by (cases "busy (st w)") (simp_all add: one_flight_def)
next
  fix w i r assume one: "one_flight w" and i: "i < length (calls w)"
  let ?k = "snd (calls w ! i)" and ?w = "take_call i w"
  have f: "flight mine w = flight mine ?w + (if mine ?k then 1 else 0)"
    using i by (rule flight_take_call)
  show "one_flight (rs ?k r ?w)"
  proof (cases "mine ?k")
    case True
    with one f have "busy (st ?w)" "flight mine ?w = 0"
      by (simp_all add: one_flight_def split: if_splits)
    with True own_reply [of ?k ?w r] show ?thesis by (simp add: one_flight_def)
  next
    case False
    with one f other_reply [of ?k r ?w] show ?thesis by (simp add: one_flight_def)
  qed
qed

context single_flight begin

text \<open>At most one run of the operation is in flight, and exactly while the flag is set.\<close>

lemma flight_iff_busy: "reachable w0 en hdl rs w \<Longrightarrow> flight mine w = (if busy (st w) then 1 else 0)"
  using reach_inv by (simp add: one_flight_def)

lemma flight_le_1: "reachable w0 en hdl rs w \<Longrightarrow> flight mine w \<le> 1"
  by (simp add: flight_iff_busy)

end

text \<open>
  The weaker contract of a page that keeps one slot for the row an action runs on: the slot
  may be overwritten while the action of another row is pending, but it is filled only with a
  new call of \<open>mine\<close>, and a settled call that leaves it filled has started another.
\<close>

locale busy_slot =
  fixes w0 :: "('s, 'k) world"
    and en :: "'s \<Rightarrow> 'e \<Rightarrow> bool"
    and hdl :: "'e \<Rightarrow> ('s, 'k) action"
    and rs :: "'k \<Rightarrow> reply \<Rightarrow> ('s, 'k) action"
    and busy :: "'s \<Rightarrow> bool"
    and mine :: "'k \<Rightarrow> bool"
  assumes slot_boot: "\<not> busy (st w0)"
    and slot_event: "en (st w) e \<Longrightarrow> busy (st (hdl e w)) \<Longrightarrow>
      flight mine w \<le> flight mine (hdl e w) \<and> (busy (st w) \<or> 0 < flight mine (hdl e w))"
    and slot_own: "mine k \<Longrightarrow> busy (st (rs k r w)) \<Longrightarrow> 0 < flight mine (rs k r w)"
    and slot_other: "\<not> mine k \<Longrightarrow> busy (st (rs k r w)) \<Longrightarrow>
      busy (st w) \<and> flight mine w \<le> flight mine (rs k r w)"
begin

definition slot_served :: "('s, 'k) world \<Rightarrow> bool" where
  "slot_served w = (busy (st w) \<longrightarrow> 0 < flight mine w)"

end

sublocale busy_slot \<subseteq> component w0 en hdl rs slot_served
proof unfold_locales
  show "slot_served w0" using slot_boot by (simp add: slot_served_def)
next
  fix w e assume "slot_served w" "en (st w) e"
  then show "slot_served (hdl e w)"
    using slot_event [of w e] by (auto simp: slot_served_def)
next
  fix w i r assume I: "slot_served w" and i: "i < length (calls w)"
  let ?k = "snd (calls w ! i)" and ?w = "take_call i w"
  have f: "flight mine w = flight mine ?w + (if mine ?k then 1 else 0)"
    using i by (rule flight_take_call)
  show "slot_served (rs ?k r ?w)"
    using I f slot_own [of ?k r ?w] slot_other [of ?k r ?w]
    by (cases "mine ?k") (auto simp: slot_served_def)
qed

context busy_slot begin

text \<open>A filled slot is never stuck: a call that will settle it is pending.\<close>

lemma busy_served: "reachable w0 en hdl rs w \<Longrightarrow> busy (st w) \<Longrightarrow> 0 < flight mine w"
  using reach_inv by (simp add: slot_served_def)

end

subsection \<open>Refinement of an abstract machine\<close>

text \<open>
  A component refines an abstract machine when an abstraction of its reachable worlds starts
  where the machine starts and every event and every settled request is a step of the
  machine or leaves the abstraction as it is.
\<close>

locale refinement =
  fixes w0 :: "('s, 'k) world"
    and en :: "'s \<Rightarrow> 'e \<Rightarrow> bool"
    and hdl :: "'e \<Rightarrow> ('s, 'k) action"
    and rs :: "'k \<Rightarrow> reply \<Rightarrow> ('s, 'k) action"
    and I :: "('s, 'k) world \<Rightarrow> bool"
    and img :: "('s, 'k) world \<Rightarrow> 'a"
    and a0 :: 'a
    and astep :: "'a \<Rightarrow> 'a \<Rightarrow> bool"
  assumes img_boot: "img w0 = a0"
    and img_event: "I w \<Longrightarrow> en (st w) e \<Longrightarrow> img (hdl e w) = img w \<or> astep (img w) (img (hdl e w))"
    and img_reply: "I w \<Longrightarrow> i < length (calls w) \<Longrightarrow> reply_ok (fst (calls w ! i)) r \<Longrightarrow>
      img (rs (snd (calls w ! i)) r (take_call i w)) = img w
      \<or> astep (img w) (img (rs (snd (calls w ! i)) r (take_call i w)))"
begin

lemma refines:
  assumes "reachable w0 en hdl rs w" and "\<And>w. reachable w0 en hdl rs w \<Longrightarrow> I w"
  shows "astep\<^sup>*\<^sup>* a0 (img w)"
  using assms(1)
proof (induction rule: reachable.induct)
  case boot
  then show ?case by (simp add: img_boot)
next
  case (event w e)
  with assms(2) img_event [of w e] show ?case by (metis rtranclp.rtrancl_into_rtrancl)
next
  case (reply w i r)
  with assms(2) img_reply [of w i r] show ?case by (metis rtranclp.rtrancl_into_rtrancl)
qed

end

subsection \<open>Facts about embedding\<close>

lemma flight_embed_tag:
  "(\<And>k. \<not> mine (tag k)) \<Longrightarrow> flight mine (w\<lparr>st := s, calls := calls w @ map (\<lambda>(rs, k). (rs, tag k)) cs\<rparr>) = flight mine w"
  by (simp add: flight_def filter_map comp_def case_prod_unfold)

text \<open>
  What every parent's reaction to an effect keeps, an embedded segment keeps: here the value
  of an observation of the state, and that no call of \<open>mine\<close> is added or lost.
\<close>

lemma embed_keeps:
  assumes "\<And>c s. obs (put c s) = obs s" and "\<And>k. \<not> mine (tag k)"
    and "\<And>x w. obs (st (h x w)) = obs (st w) \<and> flight mine (h x w) = flight mine w"
  shows "obs (st (embed get put tag h a w)) = obs (st w) \<and> flight mine (embed get put tag h a w) = flight mine w"
proof -
  have run: "obs (st (run (map h xs) w)) = obs (st w) \<and> flight mine (run (map h xs) w) = flight mine w" for xs w
    by (induction xs arbitrary: w) (use assms(3) in auto)
  show ?thesis
    using run assms(1,2) by (simp add: embed_def Let_def flight_embed_tag)
qed


text \<open>A property of every pending call, kept by the child's calls and by the parent's reactions.\<close>

lemma embed_all_calls:
  assumes "list_all P (calls w)" and "list_all (\<lambda>c. P (fst c, tag (snd c))) (calls (a (fresh (get (st w)))))"
    and "\<And>x w. list_all P (calls w) \<Longrightarrow> list_all P (calls (h x w))"
  shows "list_all P (calls (embed get put tag h a w))"
proof -
  have run: "list_all P (calls w) \<Longrightarrow> list_all P (calls (run (map h xs) w))" for xs w
    by (induction xs arbitrary: w) (simp_all add: assms(3))
  have "list_all P (map (\<lambda>(rs, k). (rs, tag k)) cs) = list_all (\<lambda>c. P (fst c, tag (snd c))) cs" for cs
    by (simp add: list_all_iff case_prod_unfold)
  with assms(1,2) show ?thesis by (simp add: embed_def Let_def) (rule run, simp)
qed

lemma run_emits: "run (map emit xs) w = w\<lparr>effs := effs w @ xs\<rparr>"
  by (induction xs arbitrary: w) (simp_all add: emit_def)

end
