(* ===== verification/Toasts.thy ===== *)
theory Toasts
  imports Runtime
begin

text \<open>
  The toast stack (\<open>frontend/src/components/Toast.tsx\<close>): the visible toasts, the pending
  timeouts that dismiss them and the module's counter of ids. A push shows the new toast
  after at most three older ones and starts its timeout, a click or the timeout dismisses it.
\<close>

record toast =
  toast_id :: nat
  toast_kind :: toast_kind
  toast_message :: string

record toasts =
  shown :: "toast list"
  timers :: "nat \<rightharpoonup> nat"
  nextId :: nat

definition toasts_init :: toasts where
  "toasts_init = \<lparr>shown = [], timers = Map.empty, nextId = 1\<rparr>"

definition dismiss :: "nat \<Rightarrow> toasts \<Rightarrow> toasts" where
  "dismiss i s = s\<lparr>shown := filter (\<lambda>x. toast_id x \<noteq> i) (shown s), timers := (timers s)(i := None)\<rparr>"

definition toast_ms :: "toast_kind \<Rightarrow> nat" where
  "toast_ms k = (if k = TError then 7000 else 4000)"

definition push :: "toast_kind \<Rightarrow> string \<Rightarrow> toasts \<Rightarrow> toasts" where
  "push k m s =
     (let i = nextId s in
      s\<lparr>nextId := Suc i,
        shown := slice_last 3 (shown s) @ [\<lparr>toast_id = i, toast_kind = k, toast_message = m\<rparr>],
        timers := (timers s)(i \<mapsto> toast_ms k)\<rparr>)"

datatype toast_event = Push toast_kind string | ClickToast nat | Timeout nat

definition toast_enabled :: "toasts \<Rightarrow> toast_event \<Rightarrow> bool" where
  "toast_enabled s e = (case e of
     Push k m \<Rightarrow> True
   | ClickToast i \<Rightarrow> i \<in> toast_id ` set (shown s)
   | Timeout i \<Rightarrow> timers s i \<noteq> None)"

definition toast_step :: "toast_event \<Rightarrow> toasts \<Rightarrow> toasts" where
  "toast_step e s = (case e of Push k m \<Rightarrow> push k m s | ClickToast i \<Rightarrow> dismiss i s | Timeout i \<Rightarrow> dismiss i s)"

definition toast_handle :: "toast_event \<Rightarrow> (toasts, unit) action" where
  "toast_handle e = upd (toast_step e)"

definition toast_resume :: "unit \<Rightarrow> reply \<Rightarrow> (toasts, unit) action" where
  "toast_resume k r = skip"

text \<open>
  The invariant: at most four toasts, in the order of their ids, all ids handed out, and a
  pending timeout behind every toast on screen.
\<close>

definition toasts_wf :: "toasts \<Rightarrow> bool" where
  "toasts_wf s \<longleftrightarrow> length (shown s) \<le> 4
     \<and> sorted_wrt (<) (map toast_id (shown s))
     \<and> (\<forall>t \<in> set (shown s). toast_id t < nextId s \<and> timers s (toast_id t) \<noteq> None)
     \<and> (\<forall>i. timers s i \<noteq> None \<longrightarrow> i < nextId s)"

lemma toasts_wf_init: "toasts_wf toasts_init"
  by (simp add: toasts_wf_def toasts_init_def)

lemma sorted_map_filter: "sorted_wrt R (map f xs) \<Longrightarrow> sorted_wrt R (map f (filter P xs))"
  by (induction xs) auto

lemma toasts_wf_dismiss: "toasts_wf s \<Longrightarrow> toasts_wf (dismiss i s)"
  by (auto simp: toasts_wf_def dismiss_def sorted_map_filter intro: le_trans [OF length_filter_le])

lemma toasts_wf_push: "toasts_wf s \<Longrightarrow> toasts_wf (push k m s)"
  by (auto simp: toasts_wf_def push_def Let_def length_slice_last sorted_wrt_append map_slice_last
      sorted_wrt_slice_last less_Suc_eq dest!: subsetD [OF set_slice_last])

lemma toasts_wf_step: "toasts_wf s \<Longrightarrow> toasts_wf (toast_step e s)"
  by (cases e) (simp_all add: toast_step_def toasts_wf_dismiss toasts_wf_push)

interpretation toasts_run: component "fresh toasts_init" toast_enabled toast_handle toast_resume
    "\<lambda>w. toasts_wf (st w)"
  by unfold_locales (simp_all add: toasts_wf_init toast_handle_def toast_resume_def toasts_wf_step)

text \<open>
  In every reachable state at most four toasts are shown, their ids strictly increase
  from the oldest to the newest, and each has a pending timeout that will dismiss it.
\<close>

theorem toasts_bounded:
  assumes "reachable (fresh toasts_init) toast_enabled toast_handle toast_resume w"
  shows "length (shown (st w)) \<le> 4 \<and> sorted_wrt (<) (map toast_id (shown (st w)))
    \<and> (\<forall>t \<in> set (shown (st w)). timers (st w) (toast_id t) \<noteq> None)"
  using toasts_run.reach_inv [OF assms] by (simp add: toasts_wf_def)

lemma toasts_bounded_example:
  "reachable (fresh toasts_init) toast_enabled toast_handle toast_resume
     (toast_handle (Push TError ''boom'') (fresh toasts_init))"
  by (rule reachable.event [OF reachable.boot]) (simp add: toast_enabled_def)

theorem toasts_bounded_witness:
  "length (shown (st (toast_handle (Push TError ''boom'') (fresh toasts_init)))) \<le> 4"
  using toasts_bounded [OF toasts_bounded_example] by blast

text \<open>
  A push always ends on screen as the newest toast, and it displaces an older one only
  when four are shown already, in which case it is the oldest.
\<close>

theorem push_shows:
  "\<exists>t. shown (push k m s) = slice_last 3 (shown s) @ [t] \<and> toast_kind t = k \<and> toast_message t = m
    \<and> (length (shown s) \<le> 3 \<longrightarrow> slice_last 3 (shown s) = shown s)
    \<and> (length (shown s) = 4 \<longrightarrow> slice_last 3 (shown s) = tl (shown s))"
  by (auto simp: push_def Let_def slice_last_all slice_last_def drop_Suc)

theorem push_shows_witness:
  "slice_last 3 (shown (push TInfo ''a'' toasts_init)) = shown (push TInfo ''a'' toasts_init)"
  using push_shows [of TError "''b''" "push TInfo ''a'' toasts_init"]
  by (auto simp: push_def toasts_init_def slice_last_def)

text \<open>Every toast goes away: once the timeouts of the toasts on screen have fired, in any
  order and with others in between, none of them is left.\<close>

lemma dismiss_run_shown:
  "shown (fold (\<lambda>i. toast_step (Timeout i)) is s) = filter (\<lambda>t. toast_id t \<notin> set is) (shown s)"
  by (induction "is" arbitrary: s) (auto simp: toast_step_def dismiss_def intro: filter_cong)

text \<open>
  Liveness of the stack: in a well-formed state the timeout of every toast on screen is
  pending, and when these timeouts have fired, in any order, the stack is empty.
\<close>

theorem toasts_expire:
  assumes "toasts_wf s" and "toast_id ` set (shown s) \<subseteq> set is"
  shows "toast_id ` set (shown s) \<subseteq> dom (timers s)
    \<and> shown (fold (\<lambda>i. toast_step (Timeout i)) is s) = []"
  using assms by (auto simp: dismiss_run_shown toasts_wf_def filter_empty_conv)

theorem toasts_expire_witness:
  "shown (fold (\<lambda>i. toast_step (Timeout i)) [2, 1] (push TInfo ''b'' (push TError ''a'' toasts_init))) = []"
proof -
  let ?s = "push TInfo ''b'' (push TError ''a'' toasts_init)"
  have "toasts_wf ?s" by (intro toasts_wf_push toasts_wf_init)
  moreover have "toast_id ` set (shown ?s) \<subseteq> set [2, 1]"
    by (simp add: push_def toasts_init_def slice_last_def)
  ultimately show ?thesis using toasts_expire [of ?s "[2, 1]"] by blast
qed

end
