(* ===== verification/UI.thy ===== *)
theory UI
  imports Runtime
begin

text \<open>
  The rendered page and the shared primitives of \<open>frontend/src/components/ui.tsx\<close> and
  \<open>Tabs.tsx\<close>. A view is a tree of texts, numbers and controls; a control carries the event
  its handler raises and whether it is disabled. Icons, static class names, placeholders and
  decoration are not kept; class names that depend on the state are. \<open>offers v e\<close> says that
  the user can raise the event \<open>e\<close> on the view \<open>v\<close>: some control that is not disabled has it.
\<close>

datatype 'e item =
    Separator
  | Item (i_label: string) (i_to: "string option") (i_select: "'e option") (i_disabled: bool)
      (i_title: "string option") (i_danger: bool)

datatype 'e ui =
    Txt string
  | Num rat
  | Btn string bool 'e
  | Field string string bool "string \<Rightarrow> 'e"
  | Check string bool bool "bool \<Rightarrow> 'e"
  | Sel string string bool "(string \<times> string \<times> bool) list" "string \<Rightarrow> 'e"
  | Lnk string string
  | Menu string "'e item list"
  | Box string "'e ui list"

fun item_offers :: "'e item \<Rightarrow> 'e \<Rightarrow> bool" where
  "item_offers Separator e = False"
| "item_offers (Item l to sel dis t d) e = (\<not> dis \<and> to = None \<and> sel = Some e)"

fun offers :: "'e ui \<Rightarrow> 'e \<Rightarrow> bool" where
  "offers (Txt s) e = False"
| "offers (Num x) e = False"
| "offers (Btn l dis e') e = (\<not> dis \<and> e = e')"
| "offers (Field l v dis f) e = (\<not> dis \<and> (\<exists>s. e = f s))"
| "offers (Check l v dis f) e = (\<not> dis \<and> (e = f True \<or> e = f False))"
| "offers (Sel l v dis opts f) e =
     (\<not> dis \<and> list_ex (\<lambda>(val, txt, odis). \<not> odis \<and> e = f val) opts)"
| "offers (Lnk l href) e = False"
| "offers (Menu l items) e = list_ex (\<lambda>it. item_offers it e) items"
| "offers (Box c us) e = list_ex (\<lambda>u. offers u e) us"

definition offers_any :: "'e ui list \<Rightarrow> 'e \<Rightarrow> bool" where
  "offers_any us e = list_ex (\<lambda>u. offers u e) us"

lemma offers_any_simps [simp, view_simps]:
  "offers_any [] e = False"
  "offers_any (u # us) e = (offers u e \<or> offers_any us e)"
  "offers_any (us @ vs) e = (offers_any us e \<or> offers_any vs e)"
  by (simp_all add: offers_any_def)

lemma offers_Box [simp]: "offers (Box c us) e = offers_any us e"
  by (simp add: offers_any_def)

declare offers.simps(9) [simp del]

lemma offers_any_if [simp, view_simps]:
  "offers_any (if b then us else vs) e = (if b then offers_any us e else offers_any vs e)"
  by simp

lemma offers_any_map: "offers_any (map f xs) e \<longleftrightarrow> (\<exists>x \<in> set xs. offers (f x) e)"
  by (auto simp: offers_any_def list_ex_iff)

lemma offers_any_concat: "offers_any (concat xss) e \<longleftrightarrow> (\<exists>xs \<in> set xss. offers_any xs e)"
  by (induction xss) auto

text \<open>Labels of the enabled and of all menu items, to read a menu off a view.\<close>

definition enabled_labels :: "'e item list \<Rightarrow> string list" where
  "enabled_labels items = map i_label (filter (\<lambda>it. it \<noteq> Separator \<and> \<not> i_disabled it) items)"

subsection \<open>State badge, metric card, progress cell\<close>

definition StateBadge :: "vm_state \<Rightarrow> 'e ui" where
  "StateBadge s = Box (''state state-'' @ vm_state_str s)
     [Txt (if s = Shutting_down then ''shutting down'' else vm_state_str s)]"

definition clamp_pct :: "rat \<Rightarrow> rat" where
  "clamp_pct x = min 100 (max 0 x)"

definition fill_class :: "string \<Rightarrow> rat option \<Rightarrow> string" where
  "fill_class barTone pct = (case pct of None \<Rightarrow> ''''
     | Some p \<Rightarrow> if 90 < p then '' crit'' else if 75 < p then '' warn'' else '' tone-'' @ barTone)"

text \<open>
  \<open>MetricCard label value hint tone used loading barTone\<close>; the bar's width is the clamped
  percentage.
\<close>

definition MetricCard ::
  "string \<Rightarrow> 'e ui list \<Rightarrow> 'e ui list option \<Rightarrow> string option \<Rightarrow> rat option \<Rightarrow> bool \<Rightarrow> string \<Rightarrow> 'e ui" where
  "MetricCard label val hint tone used loading barTone =
     (let pct = map_option clamp_pct used in
      Box ''metric-card card''
        ([Txt label] @
         (if loading then [Box ''skeleton skeleton-metric'' []]
          else [Box (''metric-value'' @ (case tone of None \<Rightarrow> '''' | Some t \<Rightarrow> '' metric-'' @ t)) val]) @
         (case pct of Some p \<Rightarrow> if loading then [] else
            [Box (''metric-bar-fill'' @ fill_class barTone pct) [Num p]] | None \<Rightarrow> []) @
         (case hint of Some h \<Rightarrow> if loading then [] else [Box ''metric-hint'' h] | None \<Rightarrow> [])))"

definition ProgressMetric :: "rat option \<Rightarrow> string \<Rightarrow> bool \<Rightarrow> string option \<Rightarrow> 'e ui" where
  "ProgressMetric used label unavailable reason =
     (case used of
        None \<Rightarrow> Box ''cell-unavailable'' [Txt ''n/a'']
      | Some u \<Rightarrow> if unavailable then Box ''cell-unavailable'' [Txt ''n/a'']
          else Box ''cell-progress''
            [Txt (int_str (math_round u) @ ''%''),
             Box (''metric-bar-fill'' @ (if 90 < u then '' crit'' else if 75 < u then '' warn'' else ''''))
               [Num (min 100 u)]])"

subsection \<open>The action menu\<close>

text \<open>
  \<open>ActionMenu\<close> keeps one bit of state. The trigger toggles it, a press outside or Escape
  closes it while it is open, and choosing an enabled item closes it and runs the item.
\<close>

datatype menu_event = MToggle | MOutside | MEscape | MChoose nat

fun menu_entry :: "nat \<Rightarrow> 'e item \<Rightarrow> menu_event ui" where
  "menu_entry i Separator = Box ''menu-sep'' []"
| "menu_entry i (Item l to sel dis t d) =
     (if dis then Box ''menu-item disabled'' [Txt l] else Btn l False (MChoose i))"

definition menu_view :: "bool \<Rightarrow> 'e item list \<Rightarrow> menu_event ui list" where
  "menu_view opened items =
     [Btn ''trigger'' False MToggle] @
     (if opened
      then map (\<lambda>i. menu_entry i (items ! i)) [0..<length items]
           @ [Btn ''document'' False MOutside, Btn ''Escape'' False MEscape]
      else [])"

definition menu_step :: "'e item list \<Rightarrow> menu_event \<Rightarrow> bool \<Rightarrow> bool \<times> 'e list \<times> string list" where
  "menu_step items ev opened = (case ev of
     MToggle \<Rightarrow> (\<not> opened, [], [])
   | MOutside \<Rightarrow> (False, [], [])
   | MEscape \<Rightarrow> (False, [], [])
   | MChoose i \<Rightarrow> (case items ! i of
        Separator \<Rightarrow> (opened, [], [])
      | Item l (Some href) sel dis t d \<Rightarrow> (False, [], [href])
      | Item l None sel dis t d \<Rightarrow> (False, (case sel of Some e \<Rightarrow> [e] | None \<Rightarrow> []), [])))"

text \<open>
  What the open menu can raise is what \<open>offers\<close> grants a \<open>Menu\<close> node: an event reaches the
  page exactly through an enabled item without a link target.
\<close>

lemma menu_entry_offers:
  "offers (menu_entry i it) ev \<longleftrightarrow> ev = MChoose i \<and> (\<exists>l to sel t d. it = Item l to sel False t d)"
  by (cases it) auto

lemma menu_refines_item_offers:
  "(\<exists>ev. offers_any (menu_view True items) ev \<and> e \<in> set (fst (snd (menu_step items ev True))))
    \<longleftrightarrow> offers (Menu l items) e"
proof
  assume "\<exists>ev. offers_any (menu_view True items) ev \<and> e \<in> set (fst (snd (menu_step items ev True)))"
  then obtain ev where o: "offers_any (menu_view True items) ev"
    and e: "e \<in> set (fst (snd (menu_step items ev True)))" by blast
  from e obtain i where ev: "ev = MChoose i" by (cases ev) (auto simp: menu_step_def)
  with o have i: "i < length items" and it: "\<exists>l to sel t d. items ! i = Item l to sel False t d"
    by (auto simp: menu_view_def offers_any_map menu_entry_offers)
  from e ev it have "item_offers (items ! i) e"
    by (auto simp: menu_step_def split: option.splits)
  with nth_mem [OF i] show "offers (Menu l items) e"
    by (auto simp: list_ex_iff)
next
  assume "offers (Menu l items) e"
  then obtain i where i: "i < length items" and o: "item_offers (items ! i) e"
    by (auto simp: list_ex_iff in_set_conv_nth)
  from o obtain l' t d where it: "items ! i = Item l' None (Some e) False t d"
    by (cases "items ! i") auto
  have "offers_any (menu_view True items) (MChoose i)"
    using i it by (auto simp: menu_view_def offers_any_map menu_entry_offers)
  moreover have "e \<in> set (fst (snd (menu_step items (MChoose i) True)))"
    using it by (simp add: menu_step_def)
  ultimately show "\<exists>ev. offers_any (menu_view True items) ev \<and> e \<in> set (fst (snd (menu_step items ev True)))"
    by blast
qed

subsection \<open>The confirmation dialog\<close>

text \<open>
  A press on the overlay or on the close button cancels, whether or not the dialog is busy;
  Cancel and the confirming button are disabled while it is.
\<close>

definition ConfirmDialog ::
  "bool \<Rightarrow> string \<Rightarrow> string \<Rightarrow> string \<Rightarrow> 'e \<Rightarrow> 'e \<Rightarrow> bool \<Rightarrow> 'e ui list" where
  "ConfirmDialog opened title message confirmLabel onConfirm onCancel busy =
     (if \<not> opened then []
      else [Btn ''overlay'' False onCancel,
            Box ''wiz confirm''
              [Txt title, Btn ''Close'' False onCancel, Txt message,
               Btn ''Cancel'' busy onCancel,
               Btn (if busy then ''Working'' @ ellipsis else confirmLabel) busy onConfirm]])"

lemma ConfirmDialog_offers:
  "offers_any (ConfirmDialog opened title message l onConfirm onCancel busy) e \<longleftrightarrow>
    opened \<and> (e = onCancel \<or> \<not> busy \<and> e = onConfirm)"
  by (auto simp: ConfirmDialog_def)

subsection \<open>Empty and loading states, chips, gauges\<close>

definition EmptyState :: "string \<Rightarrow> string option \<Rightarrow> 'e ui list \<Rightarrow> 'e ui" where
  "EmptyState title message action =
     Box ''empty-state''
       ([Txt title] @ (case message of Some m \<Rightarrow> if m = '''' then [] else [Txt m] | None \<Rightarrow> []) @ action)"

definition skeleton_width :: "nat \<Rightarrow> nat \<Rightarrow> nat" where
  "skeleton_width r c = (if c = 0 then 46 else 50 + ((r * 7 + c * 13) mod 30))"

definition TableSkeleton :: "nat \<Rightarrow> nat \<Rightarrow> 'e ui" where
  "TableSkeleton rows cols =
     Box ''table-skeleton''
       (map (\<lambda>r. Box ''skeleton-row'' (map (\<lambda>c. Num (of_nat (skeleton_width r c))) [0..<cols])) [0..<rows])"

definition TagChip :: "string \<Rightarrow> 'e ui" where
  "TagChip label = Box ''tag-chip'' [Txt label]"

definition Gauge :: "string \<Rightarrow> string \<Rightarrow> string \<Rightarrow> rat \<Rightarrow> 'e ui" where
  "Gauge label val mx used =
     (let pct = clamp_pct used in
      Box ''gauge'' [Txt label, Txt val,
        Box (''gauge-fill'' @ (if 85 < pct then '' high'' else '''')) [Num pct], Txt (''of '' @ mx)])"

definition KV :: "string \<Rightarrow> 'e ui list option \<Rightarrow> 'e ui" where
  "KV k v = Box ''kv'' [Txt k, Box ''kv-val'' (orelse v [Txt em_dash])]"

lemma inert_simps [simp, view_simps]:
  "\<not> offers (StateBadge s) e"
  "\<not> offers (ProgressMetric used l un re) e"
  "\<not> offers (TableSkeleton r c) e"
  "\<not> offers (TagChip l) e"
  "\<not> offers (Gauge l gv mx u) e"
  "offers (EmptyState t m act) e = offers_any act e"
  "offers (KV k v) e = offers_any (orelse v []) e"
  by (auto simp: StateBadge_def ProgressMetric_def TableSkeleton_def TagChip_def Gauge_def EmptyState_def
      KV_def Let_def offers_any_map orelse_def split: option.splits)

lemma MetricCard_offers [simp, view_simps]:
  "offers (MetricCard l val hint tone used loading bt) e =
    (\<not> loading \<and> (offers_any val e \<or> offers_any (orelse hint []) e))"
  by (auto simp: MetricCard_def Let_def orelse_def split: option.splits)

lemma clamp_pct_range: "0 \<le> clamp_pct x" "clamp_pct x \<le> 100"
  by (auto simp: clamp_pct_def)

lemma clamp_pct_id: "0 \<le> x \<Longrightarrow> x \<le> 100 \<Longrightarrow> clamp_pct x = x"
  by (auto simp: clamp_pct_def)

subsection \<open>The legacy power buttons\<close>

text \<open>
  \<open>VmActions\<close>. Force stop asks \<open>window.confirm\<close> first; \<open>confirmed\<close> is the answer.
\<close>

definition VmActions :: "vm \<Rightarrow> bool \<Rightarrow> (power_action \<Rightarrow> 'e) \<Rightarrow> 'e ui list" where
  "VmActions v busy onAction =
     (let running = (v_state v = Running);
          active = (v_state v = Running \<or> v_state v = Shutting_down) in
      [Btn ''Start'' (busy \<or> running \<or> v_state v \<noteq> Stopped) (onAction AStart),
       Btn ''Shutdown'' (busy \<or> v_state v \<noteq> Running) (onAction AShutdown),
       Btn ''Reboot'' (busy \<or> v_state v \<noteq> Running) (onAction AReboot),
       Btn ''Force Stop'' (busy \<or> \<not> active) (onAction AStop)])"

definition force_stop_click :: "bool \<Rightarrow> (power_action \<Rightarrow> 'a) \<Rightarrow> 'a option" where
  "force_stop_click confirmed onAction = (if confirmed then Some (onAction AStop) else None)"

subsection \<open>Tabs\<close>

text \<open>\<open>Tabs.tsx\<close>: a disabled tab is a plain label; the others are buttons.\<close>

record tab_def =
  td_id :: string
  td_label :: string
  td_disabled :: bool

definition Tabs :: "tab_def list \<Rightarrow> string \<Rightarrow> (string \<Rightarrow> 'e) \<Rightarrow> 'e ui" where
  "Tabs tabs active onChange =
     Box ''tabs'' (map (\<lambda>t. if td_disabled t then Box ''tab disabled'' [Txt (td_label t)]
        else Box (''tab'' @ (if active = td_id t then '' active'' else ''''))
               [Btn (td_label t) False (onChange (td_id t))]) tabs)"

lemma Tabs_offers:
  "offers (Tabs tabs active onChange) e \<longleftrightarrow>
    (\<exists>t \<in> set tabs. \<not> td_disabled t \<and> e = onChange (td_id t))"
  by (auto simp: Tabs_def offers_any_map)

definition InfoCard :: "string \<Rightarrow> 'e ui list \<Rightarrow> 'e ui" where
  "InfoCard title kids = Box ''card info-card'' (Txt title # kids)"

lemma InfoCard_offers [simp, view_simps]: "offers (InfoCard t kids) e = offers_any kids e"
  by (simp add: InfoCard_def)

text \<open>
  \<open>MiniChart\<close>: no chart below two samples; otherwise one point per sample, spread over
  the width 100, scaled by the largest sample (at least 1).
\<close>

definition chart_max :: "rat list \<Rightarrow> rat" where
  "chart_max history = fold max history 1"

definition mini_points :: "rat list \<Rightarrow> rat \<Rightarrow> (rat \<times> rat) list" where
  "mini_points history height =
     (let mx = chart_max history in
      map (\<lambda>i. (of_nat i / of_nat (length history - 1) * 100,
                height - (history ! i / mx) * (height - 2) - 1)) [0..<length history])"

definition MiniChart :: "rat list option \<Rightarrow> rat \<Rightarrow> (rat \<times> rat) list option" where
  "MiniChart history height = (case history of None \<Rightarrow> None
     | Some hs \<Rightarrow> if length hs < 2 then None else Some (mini_points hs height))"

end
