(* ===== verification/Hooks.thy ===== *)
theory Hooks
  imports UI
begin

text \<open>
  The shared hooks and formatters: \<open>usePolling\<close>, \<open>formatBytes\<close>, \<open>formatRate\<close> and
  \<open>formatUptime\<close> of \<open>frontend/src/lib/hooks.ts\<close>, and \<open>formatSize\<close> of the ISO library,
  a second formatter of byte counts.
\<close>

subsection \<open>Polling\<close>

text \<open>
  \<open>usePolling\<close> keeps the last loaded value, the last error and a flag that is cleared when
  the first load settles. A settled load overwrites the value or the error; the timer and
  the handlers of the page start loads without waiting for one another. A load that
  settles with \<open>undefined\<close> leaves the page without data.
\<close>

record 'd polling =
  poll_data :: "'d option"
  poll_error :: "string option"
  poll_loading :: bool

definition poll_init :: "'d polling" where
  "poll_init = \<lparr>poll_data = None, poll_error = None, poll_loading = True\<rparr>"

definition poll_done :: "js_error + 'd option \<Rightarrow> 'd polling \<Rightarrow> 'd polling" where
  "poll_done r p = (case r of
     Inr d \<Rightarrow> p\<lparr>poll_data := d, poll_error := None, poll_loading := False\<rparr>
   | Inl e \<Rightarrow> p\<lparr>poll_error := Some (err_message e), poll_loading := False\<rparr>)"

text \<open>
  The state is consistent: while loading nothing has been loaded and no error is shown;
  afterwards the error is the outcome of the last load.
\<close>

definition poll_wf :: "'d polling \<Rightarrow> bool" where
  "poll_wf p \<longleftrightarrow> (poll_loading p \<longrightarrow> poll_data p = None \<and> poll_error p = None)"

lemma poll_wf_init: "poll_wf poll_init"
  by (simp add: poll_wf_def poll_init_def)

lemma poll_done_settled: "\<not> poll_loading (poll_done r p)"
  by (simp add: poll_done_def split: sum.splits)

lemma poll_wf_done: "poll_wf (poll_done r p)"
  by (simp add: poll_wf_def poll_done_settled)

lemma poll_done_error: "poll_error (poll_done r p) = (case r of Inl e \<Rightarrow> Some (err_message e) | Inr d \<Rightarrow> None)"
  by (simp add: poll_done_def split: sum.splits)

lemma poll_done_data: "poll_data (poll_done r p) = (case r of Inl e \<Rightarrow> poll_data p | Inr d \<Rightarrow> d)"
  by (simp add: poll_done_def split: sum.splits)

lemma poll_done_simps [simp]:
  "poll_data (poll_done (Inr d) p) = d" "poll_error (poll_done (Inr d) p) = None"
  "poll_data (poll_done (Inl e) p) = poll_data p" "poll_error (poll_done (Inl e) p) = Some (err_message e)"
  "poll_loading (poll_done r p) = False"
  by (simp_all add: poll_done_data poll_done_error poll_done_settled)

text \<open>A single-request loader: what its reply gives to \<open>poll_done\<close>.\<close>

definition load_with :: "(payload list \<Rightarrow> 'd option) \<Rightarrow> reply \<Rightarrow> js_error + 'd option" where
  "load_with f r = (case r of Inl e \<Rightarrow> Inl e | Inr ps \<Rightarrow> Inr (f ps))"

lemma load_with_simps [simp]:
  "load_with f (Inl e) = Inl e" "load_with f (Inr ps) = Inr (f ps)"
  by (simp_all add: load_with_def)

text \<open>A run of settled loads, in the order they settle.\<close>

definition poll_run :: "(js_error + 'd option) list \<Rightarrow> 'd polling \<Rightarrow> 'd polling" where
  "poll_run rs p = fold poll_done rs p"

text \<open>
  The state of a polled page after any number of settled loads is determined by the
  last one for the error, and by the last one that succeeded for the data: a failed load
  keeps the data on screen and a successful one clears the error.
\<close>

theorem poll_run_last:
  shows "poll_error (poll_run (rs @ [r]) p) = (case r of Inl e \<Rightarrow> Some (err_message e) | Inr d \<Rightarrow> None)
    \<and> poll_data (poll_run rs p) = (case rev (filter (\<lambda>r. \<exists>d. r = Inr d) rs) of
         Inr d # _ \<Rightarrow> d | _ \<Rightarrow> poll_data p)
    \<and> poll_loading (poll_run (rs @ [r]) p) = False"
proof -
  have "poll_data (poll_run rs p) = (case rev (filter (\<lambda>r. \<exists>d. r = Inr d) rs) of Inr d # _ \<Rightarrow> d | _ \<Rightarrow> poll_data p)"
  proof (induction rs rule: rev_induct)
    case Nil
    then show ?case by (simp add: poll_run_def)
  next
    case (snoc r rs)
    then show ?case by (cases r) (simp_all add: poll_run_def)
  qed
  then show ?thesis by (simp add: poll_run_def poll_done_error split: sum.splits)
qed

subsection \<open>Byte counts\<close>

text \<open>
  \<open>Math.floor(Math.log(bytes) / Math.log(1024))\<close> for a positive integer: the number of
  times 1024 divides into it. The quotient of the two logarithms is taken as exact.
\<close>

fun log1024 :: "nat \<Rightarrow> nat" where
  "log1024 n = (if n < 1024 then 0 else Suc (log1024 (n div 1024)))"

declare log1024.simps [simp del]

definition byte_units :: "string list" where
  "byte_units = [''B'', ''KB'', ''MB'', ''GB'', ''TB'', ''PB'']"

text \<open>A negative count has no logarithm: every part of the text is then undefined.\<close>

definition formatBytes :: "int \<Rightarrow> nat \<Rightarrow> string" where
  "formatBytes bytes decimals =
     (if bytes = 0 then ''0 B''
      else if bytes < 0 then ''NaN undefined''
      else (let i = min (log1024 (nat bytes)) (length byte_units - 1);
                v = orelse (js_number (to_fixed (of_int bytes / 1024 ^ i) decimals)) 0
            in num_str v @ '' '' @ byte_units ! i))"

definition formatRate :: "int option \<Rightarrow> nat \<Rightarrow> string" where
  "formatRate bytesPerSecond decimals = (case bytesPerSecond of
     None \<Rightarrow> em_dash | Some b \<Rightarrow> formatBytes b decimals @ ''/s'')"

lemma log1024_bounds: "0 < n \<Longrightarrow> 1024 ^ log1024 n \<le> n \<and> n < 1024 ^ Suc (log1024 n)"
proof (induction n rule: log1024.induct)
  case (1 n)
  show ?case
  proof (cases "n < 1024")
    case True
    with 1 show ?thesis by (simp add: log1024.simps [of n])
  next
    case False
    then have "0 < n div 1024" by simp
    with False 1 have IH: "1024 ^ log1024 (n div 1024) \<le> n div 1024" "n div 1024 < 1024 ^ Suc (log1024 (n div 1024))"
      by simp_all
    have "1024 * 1024 ^ log1024 (n div 1024) \<le> n" using IH(1) by linarith
    moreover have "n < 1024 * 1024 ^ Suc (log1024 (n div 1024))" using IH(2) by linarith
    ultimately show ?thesis using False by (simp add: log1024.simps [of n])
  qed
qed

text \<open>The unit and the number \<open>formatBytes\<close> prints.\<close>

definition unit_index :: "int \<Rightarrow> nat" where
  "unit_index bytes = min (log1024 (nat bytes)) 5"

definition shown_value :: "int \<Rightarrow> nat \<Rightarrow> rat" where
  "shown_value bytes decimals = of_int (math_round (of_int bytes / 1024 ^ unit_index bytes * 10 ^ decimals)) / 10 ^ decimals"

lemma formatBytes_shown:
  "0 < bytes \<Longrightarrow> formatBytes bytes decimals = num_str (shown_value bytes decimals) @ '' '' @ byte_units ! unit_index bytes"
proof -
  have "length byte_units - 1 = 5" by (simp add: byte_units_def)
  then show "0 < bytes \<Longrightarrow> formatBytes bytes decimals =
      num_str (shown_value bytes decimals) @ '' '' @ byte_units ! unit_index bytes"
    by (simp only: formatBytes_def) (simp add: shown_value_def unit_index_def js_number_to_fixed Let_def)
qed

lemma math_round_bounds: "\<bar>of_int (math_round x) - x\<bar> \<le> 1 / 2"
proof -
  have "of_int (math_round x) \<le> x + 1 / 2 \<and> x + 1 / 2 < of_int (math_round x + 1)"
    unfolding math_round_def by (rule floor_correct)
  then have "of_int (math_round x) \<le> x + 1 / 2" "x + 1 / 2 < of_int (math_round x) + 1"
    by simp_all
  then show ?thesis by linarith
qed

lemma shown_value_error: "\<bar>shown_value bytes d - of_int bytes / 1024 ^ unit_index bytes\<bar> \<le> 1 / (2 * 10 ^ d)"
proof -
  let ?x = "of_int bytes / 1024 ^ unit_index bytes :: rat"
  have "\<bar>of_int (math_round (?x * 10 ^ d)) - ?x * 10 ^ d\<bar> / 10 ^ d \<le> (1 / 2) / 10 ^ d"
    by (intro divide_right_mono math_round_bounds) simp
  moreover have "shown_value bytes d - ?x = (of_int (math_round (?x * 10 ^ d)) - ?x * 10 ^ d) / 10 ^ d"
    by (simp add: shown_value_def diff_divide_distrib)
  ultimately show ?thesis by (simp only: abs_divide) simp
qed

lemma unit_index_bounds:
  assumes "0 < bytes"
  shows "1024 ^ unit_index bytes \<le> bytes"
    "unit_index bytes < 5 \<Longrightarrow> bytes < 1024 ^ Suc (unit_index bytes)"
proof -
  have b: "1024 ^ log1024 (nat bytes) \<le> nat bytes" "nat bytes < 1024 ^ Suc (log1024 (nat bytes))"
    using log1024_bounds [of "nat bytes"] assms by simp_all
  have "(1024::nat) ^ unit_index bytes \<le> 1024 ^ log1024 (nat bytes)"
    by (rule power_increasing) (simp_all add: unit_index_def)
  then have "1024 ^ unit_index bytes \<le> nat bytes" using b(1) by (rule le_trans)
  then show "1024 ^ unit_index bytes \<le> bytes"
    using assms by (simp add: le_nat_iff)
  assume "unit_index bytes < 5"
  then have "unit_index bytes = log1024 (nat bytes)" by (simp add: unit_index_def)
  with b(2) assms show "bytes < 1024 ^ Suc (unit_index bytes)" by (simp add: nat_less_iff)
qed

text \<open>
  \<open>formatBytes\<close> on a positive count shows a number and a unit of the table: the unit is
  the largest one not above the count (petabytes are the last), and the number differs
  from the exact quotient by at most half a unit of the last decimal shown.
\<close>

theorem formatBytes_unit_and_error:
  assumes "0 < bytes"
  shows "formatBytes bytes d = num_str (shown_value bytes d) @ '' '' @ byte_units ! unit_index bytes
    \<and> unit_index bytes < length byte_units
    \<and> 1024 ^ unit_index bytes \<le> bytes
    \<and> (unit_index bytes < 5 \<longrightarrow> bytes < 1024 ^ Suc (unit_index bytes))
    \<and> \<bar>shown_value bytes d - of_int bytes / 1024 ^ unit_index bytes\<bar> \<le> 1 / (2 * 10 ^ d)"
  using formatBytes_shown [OF assms] unit_index_bounds [OF assms] shown_value_error
  by (simp add: byte_units_def unit_index_def)

theorem formatBytes_unit_and_error_witness:
  "0 < (1536 :: int) \<and> 1024 ^ unit_index 1536 \<le> (1536 :: int)"
  using formatBytes_unit_and_error [of 1536 1] by simp

subsection \<open>Uptime\<close>

definition formatUptime :: "int option \<Rightarrow> string" where
  "formatUptime seconds = (case seconds of None \<Rightarrow> em_dash
   | Some s \<Rightarrow>
      (let d = s div 86400; h = (s smod 86400) div 3600; m = (s smod 3600) div 60 in
       if 0 < d then int_str d @ ''d '' @ int_str h @ ''h '' @ int_str m @ ''m''
       else if 0 < h then int_str h @ ''h '' @ int_str m @ ''m''
       else int_str m @ ''m''))"

lemma uptime_parts:
  fixes s :: int
  assumes "0 \<le> s"
  defines "d \<equiv> s div 86400" and "h \<equiv> (s mod 86400) div 3600" and "m \<equiv> (s mod 3600) div 60"
  shows "0 \<le> d" "0 \<le> h" "h < 24" "0 \<le> m" "m < 60" "(d * 24 + h) * 60 + m = s div 60"
proof -
  define r t u where "r = s mod 86400" and "t = s mod 3600" and "u = t mod 60"
  have t: "r mod 3600 = t" unfolding r_def t_def by (rule mod_mod_cancel) simp
  have r: "0 \<le> r" "r < 86400" by (simp_all add: r_def)
  have tb: "0 \<le> t" "t < 3600" by (simp_all add: t_def)
  have ub: "0 \<le> u" "u < 60" by (simp_all add: u_def)
  have s: "s = d * 86400 + r" unfolding d_def r_def by simp
  have rr: "r = h * 3600 + t" unfolding h_def t [symmetric] r_def by simp
  have tt: "t = m * 60 + u" unfolding m_def u_def t_def by simp
  show "0 \<le> d" using assms(1) by (simp add: d_def pos_imp_zdiv_nonneg_iff)
  show "0 \<le> h" "h < 24" "0 \<le> m" "m < 60" using r tb ub rr tt by linarith+
  have "s = ((d * 24 + h) * 60 + m) * 60 + u" using s rr tt by simp
  then show "(d * 24 + h) * 60 + m = s div 60" using ub by simp
qed

text \<open>
  \<open>formatUptime\<close> on a non-negative number of seconds decomposes it: with days, hours
  below 24 and minutes below 60 it shows exactly the whole minutes, leaving out the leading
  parts that are zero.
\<close>

theorem formatUptime_decomposes:
  assumes "0 \<le> s"
  shows "\<exists>d h m. 0 \<le> d \<and> 0 \<le> h \<and> h < 24 \<and> 0 \<le> m \<and> m < 60
    \<and> (d * 24 + h) * 60 + m = s div 60
    \<and> formatUptime (Some s) =
        (if 0 < d then int_str d @ ''d '' @ int_str h @ ''h '' @ int_str m @ ''m''
         else if 0 < h then int_str h @ ''h '' @ int_str m @ ''m'' else int_str m @ ''m'')"
proof -
  let ?d = "s div 86400" and ?h = "(s mod 86400) div 3600" and ?m = "(s mod 3600) div 60"
  have smod: "s smod 86400 = s mod 86400" "s smod 3600 = s mod 3600"
    using assms by (simp_all add: signed_modulo_int_def sgn_if)
  have "0 \<le> ?d \<and> 0 \<le> ?h \<and> ?h < 24 \<and> 0 \<le> ?m \<and> ?m < 60 \<and> (?d * 24 + ?h) * 60 + ?m = s div 60"
    by (intro conjI uptime_parts assms)
  moreover have "formatUptime (Some s) =
        (if 0 < ?d then int_str ?d @ ''d '' @ int_str ?h @ ''h '' @ int_str ?m @ ''m''
         else if 0 < ?h then int_str ?h @ ''h '' @ int_str ?m @ ''m'' else int_str ?m @ ''m'')"
    by (simp only: formatUptime_def smod Let_def option.case)
  ultimately show ?thesis by blast
qed

theorem formatUptime_decomposes_witness:
  "(0 :: int) \<le> 345600 \<and> (\<exists>d h m. 0 \<le> d \<and> 0 \<le> h \<and> h < 24 \<and> 0 \<le> m \<and> m < 60
    \<and> (d * 24 + h) * 60 + m = (345600 :: int) div 60
    \<and> formatUptime (Some 345600) =
        (if 0 < d then int_str d @ ''d '' @ int_str h @ ''h '' @ int_str m @ ''m''
         else if 0 < h then int_str h @ ''h '' @ int_str m @ ''m'' else int_str m @ ''m''))"
  by (rule conjI, simp, rule formatUptime_decomposes, simp)

subsection \<open>The ISO library's formatter\<close>

text \<open>
  The loop of \<open>formatSize\<close> divides while the value is at least 1024 and a larger unit is
  left; \<open>left\<close> counts the units that remain.
\<close>

definition size_units :: "string list" where
  "size_units = [''B'', ''KB'', ''MB'', ''GB'', ''TB'']"

fun size_loop :: "nat \<Rightarrow> rat \<Rightarrow> nat \<Rightarrow> rat \<times> nat" where
  "size_loop 0 v i = (v, i)"
| "size_loop (Suc left) v i = (if 1024 \<le> v then size_loop left (v / 1024) (Suc i) else (v, i))"

definition formatSize :: "int \<Rightarrow> string" where
  "formatSize bytes =
     (case size_loop (length size_units - 1) (of_int bytes) 0 of
        (v, i) \<Rightarrow> to_fixed v (if 100 \<le> v \<or> i = 0 then 0 else 1) @ '' '' @ size_units ! i)"

lemma size_loop_spec:
  "size_loop left v i = (w, j) \<Longrightarrow>
     i \<le> j \<and> j \<le> i + left \<and> v = w * 1024 ^ (j - i) \<and> (j < i + left \<longrightarrow> w < 1024) \<and> (i < j \<longrightarrow> 1 \<le> w)"
proof (induction left arbitrary: v i)
  case 0
  then show ?case by simp
next
  case (Suc left)
  show ?case
  proof (cases "1024 \<le> v")
    case True
    with Suc.prems have "size_loop left (v / 1024) (Suc i) = (w, j)" by simp
    from Suc.IH [OF this] have IH: "Suc i \<le> j" "j \<le> Suc i + left" "v / 1024 = w * 1024 ^ (j - Suc i)"
      "j < Suc i + left \<longrightarrow> w < 1024" "Suc i < j \<longrightarrow> 1 \<le> w" by simp_all
    have "j - i = Suc (j - Suc i)" using IH(1) by simp
    then have "v = w * 1024 ^ (j - i)" using IH(3) by (simp add: field_simps)
    moreover have "1 \<le> w" using IH(3,5) IH(1) True by (cases "Suc i = j") auto
    ultimately show ?thesis using IH by simp
  next
    case False
    with Suc.prems show ?thesis by simp
  qed
qed

text \<open>The unit of \<open>formatSize\<close> brackets the count as the one of \<open>formatBytes\<close> does.\<close>

lemma size_loop_bounds:
  assumes l: "size_loop 4 (of_int bytes) 0 = (w, j)" and "0 < bytes" "bytes < 1024 ^ 5"
  shows "j \<le> 4" "1024 ^ j \<le> bytes" "bytes < 1024 ^ Suc j"
proof -
  from size_loop_spec [OF l]
  have j: "j \<le> 4" "of_int bytes = w * 1024 ^ j" "j < 4 \<longrightarrow> w < 1024" "0 < j \<longrightarrow> 1 \<le> w" by auto
  then show "j \<le> 4" by simp
  show "1024 ^ j \<le> bytes"
  proof (cases "j = 0")
    case True
    then show ?thesis using assms by simp
  next
    case False
    with j have "(1::rat) * 1024 ^ j \<le> w * 1024 ^ j" by (intro mult_right_mono) auto
    then have "(of_int (1024 ^ j) :: rat) \<le> of_int bytes" using j by simp
    then show ?thesis by (simp only: of_int_le_iff)
  qed
  show "bytes < 1024 ^ Suc j"
  proof (cases "j < 4")
    case True
    with j have "w * 1024 ^ j < 1024 * 1024 ^ j" by (intro mult_strict_right_mono) auto
    then have "(of_int bytes :: rat) < of_int (1024 ^ Suc j)" using j by simp
    then show ?thesis by (simp only: of_int_less_iff)
  next
    case False
    with j assms show ?thesis by (simp add: le_antisym)
  qed
qed

text \<open>
  The two formatters of byte counts agree on the unit below a petabyte: for a positive
  count below \<open>1024\<^sup>5\<close>, \<open>formatSize\<close> ends with the unit \<open>formatBytes\<close> ends with.
\<close>

theorem formatSize_same_unit:
  assumes "0 < bytes" and "bytes < 1024 ^ 5"
  shows "\<exists>x y. formatSize bytes = x @ '' '' @ byte_units ! unit_index bytes
    \<and> formatBytes bytes d = y @ '' '' @ byte_units ! unit_index bytes"
proof -
  obtain w j where l: "size_loop 4 (of_int bytes) 0 = (w, j)" by (cases "size_loop 4 (of_int bytes) 0")
  note j = size_loop_bounds(1) [OF l assms] and lo = size_loop_bounds(2) [OF l assms]
    and hi = size_loop_bounds(3) [OF l assms]
  have u: "1024 ^ unit_index bytes \<le> bytes" "unit_index bytes < 5 \<longrightarrow> bytes < 1024 ^ Suc (unit_index bytes)"
    using unit_index_bounds [OF assms(1)] by auto
  have "unit_index bytes < 5"
  proof (rule ccontr)
    assume "\<not> unit_index bytes < 5"
    then have "(1024::int) ^ 5 \<le> 1024 ^ unit_index bytes" by (intro power_increasing) auto
    with u assms show False by simp
  qed
  with u have "bytes < 1024 ^ Suc (unit_index bytes)" by simp
  with lo have "(1024::int) ^ j < 1024 ^ Suc (unit_index bytes)" by (rule le_less_trans)
  moreover from u(1) hi have "(1024::int) ^ unit_index bytes < 1024 ^ Suc j" by (rule le_less_trans)
  ultimately have "j < Suc (unit_index bytes)" "unit_index bytes < Suc j"
    by (simp_all only: power_strict_increasing_iff)
  then have eq: "j = unit_index bytes" by simp
  moreover have "size_units ! j = byte_units ! j" using j
    by (auto simp: size_units_def byte_units_def nth_Cons split: nat.splits)
  moreover have "length size_units - 1 = 4" by (simp add: size_units_def)
  ultimately have "formatSize bytes = to_fixed w (if 100 \<le> w \<or> j = 0 then 0 else 1) @ '' '' @ byte_units ! unit_index bytes"
    by (simp only: formatSize_def l prod.case)
  then show ?thesis using formatBytes_shown [OF assms(1), of d] by blast
qed

theorem formatSize_same_unit_witness:
  "0 < (2197821440 :: int) \<and> (2197821440 :: int) < 1024 ^ 5
    \<and> (\<exists>x y. formatSize 2197821440 = x @ '' '' @ byte_units ! unit_index 2197821440
         \<and> formatBytes 2197821440 1 = y @ '' '' @ byte_units ! unit_index 2197821440)"
  using formatSize_same_unit [of 2197821440 1] by simp

end
