(* ===== verification/Regex.thy ===== *)
theory Regex
  imports JS
begin

text \<open>
  The regular expression literals of the forms, as syntax trees, and the test
  \<open>RE.test(s)\<close> of an anchored literal as a backtracking matcher: \<open>rx_ends r s\<close> lists what
  can be left of \<open>s\<close> after \<open>r\<close> has matched a prefix, in the order the engine tries. All
  literals of the program are anchored at both ends and have no flags that change this.
  The matcher is proved equal to the language of the expression, and each literal's
  language is then described in closed form.
\<close>

datatype rx =
    Eps
  | Cls "char \<Rightarrow> bool"
  | Seq rx rx
  | Alt rx rx
  | Rep rx nat nat
  | Star rx

fun rep_ends :: "(string \<Rightarrow> string list) \<Rightarrow> nat \<Rightarrow> nat \<Rightarrow> string \<Rightarrow> string list" where
  "rep_ends f m 0 s = (if m = 0 then [s] else [])"
| "rep_ends f m (Suc n) s = concat (map (rep_ends f (m - 1) n) (f s)) @ (if m = 0 then [s] else [])"

fun star_ends :: "(string \<Rightarrow> string list) \<Rightarrow> nat \<Rightarrow> string \<Rightarrow> string list" where
  "star_ends f 0 s = [s]"
| "star_ends f (Suc k) s =
     concat (map (star_ends f k) (filter (\<lambda>t. length t < length s) (f s))) @ [s]"

primrec rx_ends :: "rx \<Rightarrow> string \<Rightarrow> string list" where
  "rx_ends Eps s = [s]"
| "rx_ends (Cls p) s = (case s of [] \<Rightarrow> [] | c # t \<Rightarrow> if p c then [t] else [])"
| "rx_ends (Seq a b) s = concat (map (rx_ends b) (rx_ends a s))"
| "rx_ends (Alt a b) s = rx_ends a s @ rx_ends b s"
| "rx_ends (Rep a m n) s = rep_ends (rx_ends a) m n s"
| "rx_ends (Star a) s = star_ends (rx_ends a) (length s) s"

definition rx_test :: "rx \<Rightarrow> string \<Rightarrow> bool" where
  "rx_test r s = ([] \<in> set (rx_ends r s))"

subsection \<open>The language of an expression\<close>

definition conc :: "string set \<Rightarrow> string set \<Rightarrow> string set" where
  "conc A B = {u @ v | u v. u \<in> A \<and> v \<in> B}"

primrec lpow :: "string set \<Rightarrow> nat \<Rightarrow> string set" where
  "lpow A 0 = {[]}"
| "lpow A (Suc n) = conc A (lpow A n)"

primrec rx_lang :: "rx \<Rightarrow> string set" where
  "rx_lang Eps = {[]}"
| "rx_lang (Cls p) = {[c] | c. p c}"
| "rx_lang (Seq a b) = conc (rx_lang a) (rx_lang b)"
| "rx_lang (Alt a b) = rx_lang a \<union> rx_lang b"
| "rx_lang (Rep a m n) = (\<Union>k\<in>{m..n}. lpow (rx_lang a) k)"
| "rx_lang (Star a) = (\<Union>k. lpow (rx_lang a) k)"

definition ends_of :: "string set \<Rightarrow> string \<Rightarrow> string set" where
  "ends_of L s = {t. \<exists>u \<in> L. s = u @ t}"

lemma ends_of_conc: "ends_of (conc A B) s = (\<Union>t \<in> ends_of A s. ends_of B t)"
  by (auto simp: ends_of_def conc_def) (metis append.assoc)+

lemma ends_of_Un: "ends_of (\<Union>k\<in>K. f k) s = (\<Union>k\<in>K. ends_of (f k) s)"
  by (auto simp: ends_of_def)

lemma ends_of_Nil: "ends_of {[]} s = {s}"
  by (auto simp: ends_of_def)

lemma rep_range:
  "(\<Union>k\<in>{m..Suc n}. f k) = (\<Union>k\<in>{m - 1..n}. f (Suc k)) \<union> (if m = 0 then f 0 else ({} :: 'a set))"
proof -
  have "k \<in> {m..Suc n} \<longleftrightarrow> k \<in> Suc ` {m - 1..n} \<union> (if m = 0 then {0} else {})" for k
    by (cases k; cases m) auto
  then have "{m..Suc n} = Suc ` {m - 1..n} \<union> (if m = 0 then {0} else {})" by blast
  then show ?thesis by (simp only: UN_Un image_image UN_simps(10) split: if_split) simp
qed

lemma set_rep_ends:
  assumes f: "\<And>s. set (f s) = ends_of A s"
  shows "set (rep_ends f m n s) = (\<Union>k\<in>{m..n}. ends_of (lpow A k) s)"
proof (induction n arbitrary: m s)
  case 0
  then show ?case by (auto simp: ends_of_Nil)
next
  case (Suc n)
  have "set (rep_ends f m (Suc n) s) =
      (\<Union>t\<in>ends_of A s. \<Union>k\<in>{m - 1..n}. ends_of (lpow A k) t) \<union> (if m = 0 then {s} else {})"
    by (simp add: Suc.IH f)
  also have "\<dots> = (\<Union>k\<in>{m - 1..n}. ends_of (lpow A (Suc k)) s) \<union> (if m = 0 then ends_of (lpow A 0) s else {})"
    by (auto simp: ends_of_conc ends_of_Nil)
  also have "\<dots> = (\<Union>k\<in>{m..Suc n}. ends_of (lpow A k) s)"
    by (rule rep_range [symmetric])
  finally show ?case .
qed

lemma set_star_ends:
  assumes f: "\<And>s. set (f s) = ends_of A s" and "length s \<le> k"
  shows "set (star_ends f k s) = (\<Union>n. ends_of (lpow A n) s)"
  using assms(2)
proof (induction k arbitrary: s)
  case 0
  have "t = []" if "t \<in> ends_of (lpow A n) []" for t n using that by (auto simp: ends_of_def)
  moreover have "[] \<in> (\<Union>n. ends_of (lpow A n) [])"
    by (rule UN_I [of 0]) (simp_all add: ends_of_Nil)
  ultimately show ?case using 0 by auto
next
  case (Suc k)
  let ?R = "\<lambda>s. \<Union>n. ends_of (lpow A n) s"
  have refl: "s \<in> ?R s" for s by (rule UN_I [of 0]) (simp_all add: ends_of_Nil)
  have step: "t \<in> ends_of A s \<Longrightarrow> u \<in> ?R t \<Longrightarrow> u \<in> ?R s" for s t u
  proof -
    assume t: "t \<in> ends_of A s" and "u \<in> ?R t"
    then obtain n where "u \<in> ends_of (lpow A n) t" by auto
    with t have "u \<in> ends_of (lpow A (Suc n)) s" by (auto simp: ends_of_conc)
    then show "u \<in> ?R s" by blast
  qed
  have shrink: "t \<in> ends_of A s \<Longrightarrow> length t < length s \<or> t = s" for t s
    by (auto simp: ends_of_def)
  have unroll: "u = s \<or> (\<exists>t. t \<in> ends_of A s \<and> length t < length s \<and> u \<in> ?R t)"
    if "u \<in> ends_of (lpow A n) s" for u n s
    using that
  proof (induction n)
    case 0
    then show ?case by (simp add: ends_of_Nil)
  next
    case (Suc n)
    then obtain t where t: "t \<in> ends_of A s" "u \<in> ends_of (lpow A n) t"
      by (auto simp: ends_of_conc)
    show ?case
    proof (cases "t = s")
      case True
      with t Suc.IH show ?thesis by simp
    next
      case False
      with t shrink show ?thesis by blast
    qed
  qed
  have eq: "set (star_ends f k t) = ?R t" if "t \<in> ends_of A s" "length t < length s" for t
    using Suc that by simp
  have "set (star_ends f (Suc k) s) =
      (\<Union>t\<in>{t \<in> ends_of A s. length t < length s}. set (star_ends f k t)) \<union> {s}"
    by (simp add: f)
  also have "\<dots> = (\<Union>t\<in>{t \<in> ends_of A s. length t < length s}. ?R t) \<union> {s}"
    using eq by auto
  also have "\<dots> = ?R s"
  proof (intro equalityI subsetI)
    fix u assume "u \<in> (\<Union>t\<in>{t \<in> ends_of A s. length t < length s}. ?R t) \<union> {s}"
    then consider "u = s" | t where "t \<in> ends_of A s" "u \<in> ?R t" by blast
    then show "u \<in> ?R s"
      using refl [of s] step by cases simp_all
  next
    fix u assume "u \<in> ?R s"
    then obtain n where "u \<in> ends_of (lpow A n) s" by auto
    from unroll [OF this] show "u \<in> (\<Union>t\<in>{t \<in> ends_of A s. length t < length s}. ?R t) \<union> {s}"
      by blast
  qed
  finally show ?case .
qed

lemma set_rx_ends: "set (rx_ends r s) = ends_of (rx_lang r) s"
proof (induction r arbitrary: s)
  case Eps
  then show ?case by (simp add: ends_of_Nil)
next
  case (Cls p)
  then show ?case by (auto simp: ends_of_def split: list.splits)
next
  case (Seq a b)
  then show ?case by (simp add: ends_of_conc)
next
  case (Alt a b)
  then show ?case by (auto simp: ends_of_def)
next
  case (Rep a m n)
  then show ?case by (simp add: set_rep_ends ends_of_Un)
next
  case (Star a)
  then show ?case by (simp add: set_star_ends ends_of_Un)
qed

text \<open>The matcher decides membership in the language.\<close>

theorem rx_test_lang: "rx_test r s \<longleftrightarrow> s \<in> rx_lang r"
  by (simp add: rx_test_def set_rx_ends ends_of_def)

subsection \<open>Repeated character classes\<close>

lemma conc_Cls: "conc {[c] | c. p c} B = {c # s | c s. p c \<and> s \<in> B}"
  by (auto simp: conc_def) (metis append_Cons append_Nil)

lemma lpow_Cls: "lpow {[c] | c. p c} k = {s. length s = k \<and> list_all p s}"
proof (induction k)
  case 0
  then show ?case by auto
next
  case (Suc k)
  have "conc {[c] | c. p c} {s. length s = k \<and> list_all p s} = {s. length s = Suc k \<and> list_all p s}"
    by (auto simp: conc_Cls length_Suc_conv)
  with Suc show ?case by simp
qed

lemma rx_lang_Rep_Cls:
  "rx_lang (Rep (Cls p) m n) = {s. m \<le> length s \<and> length s \<le> n \<and> list_all p s}"
  by (auto simp: lpow_Cls)

lemma rx_lang_Star_Cls: "rx_lang (Star (Cls p)) = {s. list_all p s}"
  by (auto simp: lpow_Cls)

lemma Cls_Seq_lang: "rx_lang (Seq (Cls p) r) = {c # s | c s. p c \<and> s \<in> rx_lang r}"
  by (simp add: conc_Cls)

subsection \<open>The character classes of the literals\<close>

definition is_alnum :: "char \<Rightarrow> bool" where
  "is_alnum c = (let n = of_char c :: nat in
     48 \<le> n \<and> n \<le> 57 \<or> 65 \<le> n \<and> n \<le> 90 \<or> 97 \<le> n \<and> n \<le> 122)"

definition is_name_char :: "char \<Rightarrow> bool" where
  "is_name_char c = (is_alnum c \<or> c \<in> {CHR ''.'', CHR ''_'', CHR ''-''})"

definition lit :: "char \<Rightarrow> rx" where
  "lit c = Cls (\<lambda>x. x = c)"

definition one_of :: "string \<Rightarrow> rx" where
  "one_of cs = Cls (\<lambda>x. x \<in> set cs)"

end
