(* ===== verification/Patterns.thy ===== *)
theory Patterns
  imports Regex
begin

text \<open>
  The regular expression literals of the forms and what they accept: resource names
  (\<open>NAME_RE\<close>), interface names (\<open>IFACE_RE\<close>), subnets (\<open>CIDR_RE\<close>), absolute paths
  (\<open>PATH_RE\<close>), times of day (\<open>TIME_RE\<close>) and the digits of the retention field.
\<close>

definition NAME_RE :: rx where
  "NAME_RE = Seq (Cls is_alnum) (Rep (Cls is_name_char) 0 63)"

definition IFACE_RE :: rx where
  "IFACE_RE = Seq (Cls is_alnum) (Rep (Cls is_name_char) 0 15)"

definition octet_re :: rx where
  "octet_re = Rep (Cls is_digit) 1 3"

definition CIDR_RE :: rx where
  "CIDR_RE =
     Seq (Rep (Seq octet_re (lit (CHR ''.''))) 3 3)
       (Seq octet_re
         (Seq (lit (CHR ''/''))
           (Alt (Cls is_digit)
             (Alt (Seq (one_of ''12'') (Cls is_digit)) (Seq (lit (CHR ''3'')) (one_of ''012''))))))"

definition PATH_RE :: rx where
  "PATH_RE = Seq (lit (CHR ''/'')) (Rep (Cls (\<lambda>c. is_name_char c \<or> c = CHR ''/'')) 0 254)"

definition TIME_RE :: rx where
  "TIME_RE =
     Seq (Alt (Seq (one_of ''01'') (Cls is_digit)) (Seq (lit (CHR ''2'')) (one_of ''0123'')))
       (Seq (lit (CHR '':'')) (Seq (one_of ''012345'') (Cls is_digit)))"

definition DIGITS_RE :: rx where
  "DIGITS_RE = Seq (Cls is_digit) (Star (Cls is_digit))"

subsection \<open>Names and paths\<close>

lemma name_like:
  "rx_test (Seq (Cls is_alnum) (Rep (Cls is_name_char) 0 n)) s \<longleftrightarrow>
    s \<noteq> [] \<and> is_alnum (hd s) \<and> list_all is_name_char s \<and> length s \<le> Suc n"
  by (cases s) (auto simp: rx_test_lang Cls_Seq_lang rx_lang_Rep_Cls is_name_char_def
      simp del: rx_lang.simps)

text \<open>
  \<open>NAME_RE\<close> accepts exactly the names of 1 to 64 letters, digits, dots, underscores and
  hyphens that start with a letter or a digit, and \<open>IFACE_RE\<close> those of at most 16; so the
  separate check that a bridge name is not empty never decides.
\<close>

theorem names_accepted:
  "rx_test NAME_RE s = (s \<noteq> [] \<and> is_alnum (hd s) \<and> list_all is_name_char s \<and> length s \<le> 64)
   \<and> rx_test IFACE_RE s = (s \<noteq> [] \<and> is_alnum (hd s) \<and> list_all is_name_char s \<and> length s \<le> 16)
   \<and> (rx_test IFACE_RE s \<and> 0 < length s) = rx_test IFACE_RE s"
  unfolding NAME_RE_def IFACE_RE_def name_like by auto

lemma path_accepted:
  "rx_test PATH_RE s \<longleftrightarrow>
    s \<noteq> [] \<and> hd s = CHR ''/'' \<and> list_all (\<lambda>c. is_name_char c \<or> c = CHR ''/'') s \<and> length s \<le> 255"
  by (cases s) (auto simp: PATH_RE_def lit_def rx_test_lang Cls_Seq_lang rx_lang_Rep_Cls
      simp del: rx_lang.simps)

lemma digits_accepted: "rx_test DIGITS_RE s \<longleftrightarrow> s \<noteq> [] \<and> list_all is_digit s"
  by (cases s) (auto simp: DIGITS_RE_def rx_test_lang Cls_Seq_lang rx_lang_Star_Cls
      simp del: rx_lang.simps)

lemma lang_Seq: "s \<in> rx_lang (Seq a b) \<longleftrightarrow> (\<exists>u v. s = u @ v \<and> u \<in> rx_lang a \<and> v \<in> rx_lang b)"
  by (auto simp: conc_def)

lemma lang_Alt: "s \<in> rx_lang (Alt a b) \<longleftrightarrow> s \<in> rx_lang a \<or> s \<in> rx_lang b"
  by simp

lemma lang_Cls: "s \<in> rx_lang (Cls p) \<longleftrightarrow> (\<exists>c. s = [c] \<and> p c)"
  by auto

lemma lang_Cls2: "s \<in> rx_lang (Seq (Cls p) (Cls q)) \<longleftrightarrow> (\<exists>c d. s = [c, d] \<and> p c \<and> q d)"
  by (auto simp: conc_Cls)

lemma lang_lit: "s \<in> rx_lang (Seq (lit c) r) \<longleftrightarrow> (\<exists>v. s = c # v \<and> v \<in> rx_lang r)"
  by (auto simp: lit_def conc_def)

lemmas lang_atoms = lang_Alt lang_Cls lit_def one_of_def

subsection \<open>Subnets\<close>

definition is_octet :: "string \<Rightarrow> bool" where
  "is_octet s = (1 \<le> length s \<and> length s \<le> 3 \<and> list_all is_digit s)"

lemma octet_lang: "s \<in> rx_lang octet_re \<longleftrightarrow> is_octet s"
  by (simp add: octet_re_def rx_lang_Rep_Cls is_octet_def del: rx_lang.simps)

lemma lpow_3: "s \<in> lpow A 3 \<longleftrightarrow> (\<exists>a b c. s = a @ b @ c \<and> a \<in> A \<and> b \<in> A \<and> c \<in> A)"
  by (auto simp: numeral_3_eq_3 conc_def)

lemma dotted_lang:
  "s \<in> rx_lang (Rep (Seq octet_re (lit (CHR ''.''))) 3 3) \<longleftrightarrow>
    (\<exists>a b c. s = a @ ''.'' @ b @ ''.'' @ c @ ''.'' \<and> is_octet a \<and> is_octet b \<and> is_octet c)"
proof -
  let ?A = "rx_lang (Seq octet_re (lit (CHR ''.'')))"
  have A: "u \<in> ?A \<longleftrightarrow> (\<exists>a. u = a @ ''.'' \<and> is_octet a)" for u
    by (auto simp: lang_Seq lang_atoms octet_lang simp del: rx_lang.simps)
  have "s \<in> rx_lang (Rep (Seq octet_re (lit (CHR ''.''))) 3 3) \<longleftrightarrow> s \<in> lpow ?A 3"
    by simp
  also have "\<dots> \<longleftrightarrow> (\<exists>u v w. s = u @ v @ w \<and> u \<in> ?A \<and> v \<in> ?A \<and> w \<in> ?A)"
    by (rule lpow_3)
  also have "\<dots> \<longleftrightarrow>
    (\<exists>a b c. s = a @ ''.'' @ b @ ''.'' @ c @ ''.'' \<and> is_octet a \<and> is_octet b \<and> is_octet c)"
  proof
    assume "\<exists>u v w. s = u @ v @ w \<and> u \<in> ?A \<and> v \<in> ?A \<and> w \<in> ?A"
    then show "\<exists>a b c. s = a @ ''.'' @ b @ ''.'' @ c @ ''.'' \<and> is_octet a \<and> is_octet b \<and> is_octet c"
      unfolding A by force
  next
    assume "\<exists>a b c. s = a @ ''.'' @ b @ ''.'' @ c @ ''.'' \<and> is_octet a \<and> is_octet b \<and> is_octet c"
    then obtain a b c where "s = (a @ ''.'') @ (b @ ''.'') @ (c @ ''.'')" "is_octet a" "is_octet b" "is_octet c"
      by auto
    then show "\<exists>u v w. s = u @ v @ w \<and> u \<in> ?A \<and> v \<in> ?A \<and> w \<in> ?A"
      unfolding A by blast
  qed
  finally show ?thesis .
qed

definition prefix_ok :: "string \<Rightarrow> bool" where
  "prefix_ok p = (\<exists>k \<le> 32. p = nat_str k)"

lemma prefix_lang:
  "s \<in> rx_lang (Alt (Cls is_digit)
      (Alt (Seq (one_of ''12'') (Cls is_digit)) (Seq (lit (CHR ''3'')) (one_of ''012'')))) \<longleftrightarrow> prefix_ok s"
  (is "s \<in> ?L \<longleftrightarrow> _")
proof -
  define shorts where "shorts = map (\<lambda>k. nat_str k) [0..<33]"
  define D where "D = ''0123456789''"
  have e: "shorts = map (\<lambda>c. [c]) D @ map (\<lambda>c. ''1'' @ [c]) D @ map (\<lambda>c. ''2'' @ [c]) D
      @ [''30'', ''31'', ''32'']"
    unfolding shorts_def D_def by code_simp
  have le: "k \<le> 32 \<longleftrightarrow> k < 33" for k :: nat by presburger
  have "prefix_ok s \<longleftrightarrow> s \<in> set shorts"
    unfolding prefix_ok_def shorts_def le by auto
  also have "\<dots> \<longleftrightarrow> s \<in> ?L"
    unfolding e lang_Alt lang_Cls2 lang_Cls one_of_def lit_def is_digit_def D_def [symmetric] by auto
  finally show ?thesis by simp
qed

text \<open>
  \<open>CIDR_RE\<close> accepts exactly four groups of one to three digits separated by dots and
  followed by a slash and a prefix length from 0 to 32 without leading zeros. The groups are
  not bounded by 255.
\<close>

theorem cidr_accepted:
  "rx_test CIDR_RE s \<longleftrightarrow>
    (\<exists>a b c d p. s = a @ ''.'' @ b @ ''.'' @ c @ ''.'' @ d @ ''/'' @ p
       \<and> is_octet a \<and> is_octet b \<and> is_octet c \<and> is_octet d \<and> (\<exists>k \<le> 32. p = nat_str k))"
proof -
  let ?P = "Alt (Cls is_digit)
      (Alt (Seq (one_of ''12'') (Cls is_digit)) (Seq (lit (CHR ''3'')) (one_of ''012'')))"
  have "rx_test CIDR_RE s \<longleftrightarrow> (\<exists>u d p. s = u @ d @ ''/'' @ p
      \<and> u \<in> rx_lang (Rep (Seq octet_re (lit (CHR ''.''))) 3 3) \<and> is_octet d \<and> p \<in> rx_lang ?P)"
    unfolding CIDR_RE_def rx_test_lang lang_Seq [of _ _ "Seq octet_re _"] lang_Seq [of _ octet_re] lang_lit octet_lang
    by (simp del: rx_lang.simps) blast
  also have "\<dots> \<longleftrightarrow> (\<exists>a b c d p. s = a @ ''.'' @ b @ ''.'' @ c @ ''.'' @ d @ ''/'' @ p
       \<and> is_octet a \<and> is_octet b \<and> is_octet c \<and> is_octet d \<and> prefix_ok p)"
    (is "?l \<longleftrightarrow> ?r")
  proof
    assume ?l
    then show ?r unfolding dotted_lang prefix_lang by force
  next
    assume ?r
    then obtain a b c d p where s: "s = (a @ ''.'' @ b @ ''.'' @ c @ ''.'') @ d @ ''/'' @ p"
      and ok: "is_octet a" "is_octet b" "is_octet c" "is_octet d" "prefix_ok p"
      by auto
    from ok(1-3) have "a @ ''.'' @ b @ ''.'' @ c @ ''.'' \<in> rx_lang (Rep (Seq octet_re (lit (CHR ''.''))) 3 3)"
      unfolding dotted_lang by blast
    with s ok(4,5) show ?l unfolding prefix_lang by blast
  qed
  finally show ?thesis unfolding prefix_ok_def .
qed

lemma cidr_large_octet: "rx_test CIDR_RE ''999.999.999.999/24''"
proof -
  have "is_octet ''999''" by (simp add: is_octet_def is_digit_def)
  moreover have "nat_str 24 = ''24''" by code_simp
  moreover have "(24::nat) \<le> 32" by simp
  ultimately show ?thesis
    unfolding cidr_accepted
    by (intro exI [of _ "''999''"] exI [of _ "''24''"] conjI exI [of _ "24 :: nat"]) simp_all
qed

subsection \<open>Times of day\<close>

text \<open>
  \<open>TIME_RE\<close> accepts exactly the times of day written \<open>HH:MM\<close> with two digits each, hours
  below 24 and minutes below 60.
\<close>

theorem time_accepted:
  "rx_test TIME_RE s \<longleftrightarrow>
    (\<exists>h < 24. \<exists>m < 60. s = pad_left 2 (nat_str h) @ '':'' @ pad_left 2 (nat_str m))"
proof -
  define hs where "hs = map (\<lambda>h. pad_left 2 (nat_str h)) [0..<24]"
  define ms where "ms = map (\<lambda>m. pad_left 2 (nat_str m)) [0..<60]"
  define D where "D = ''0123456789''"
  have hs: "hs = map (\<lambda>c. ''0'' @ [c]) D @ map (\<lambda>c. ''1'' @ [c]) D @ [''20'', ''21'', ''22'', ''23'']"
    unfolding hs_def D_def by code_simp
  have ms: "ms = concat (map (\<lambda>d. map (\<lambda>c. [d, c]) D) ''012345'')"
    unfolding ms_def D_def by code_simp
  have H: "u \<in> rx_lang (Alt (Seq (one_of ''01'') (Cls is_digit)) (Seq (lit (CHR ''2'')) (one_of ''0123'')))
      \<longleftrightarrow> u \<in> set hs" for u
    unfolding hs one_of_def lit_def lang_Alt lang_Cls2 is_digit_def D_def [symmetric] by auto
  have M: "u \<in> rx_lang (Seq (one_of ''012345'') (Cls is_digit)) \<longleftrightarrow> u \<in> set ms" for u
    unfolding ms one_of_def lang_Cls2 is_digit_def D_def [symmetric]
    by (simp only: set_concat set_map image_image) blast
  have "rx_test TIME_RE s \<longleftrightarrow> (\<exists>u v. s = u @ '':'' @ v \<and> u \<in> set hs \<and> v \<in> set ms)"
    unfolding TIME_RE_def rx_test_lang lang_Seq [of _ "Alt _ _"] lang_lit H M by auto
  also have "\<dots> \<longleftrightarrow>
    (\<exists>h < 24. \<exists>m < 60. s = pad_left 2 (nat_str h) @ '':'' @ pad_left 2 (nat_str m))"
    unfolding hs_def ms_def by (auto simp: image_iff Bex_def)
  finally show ?thesis .
qed

end
