(* ===== verification/NetworkForms.thy ===== *)
theory NetworkForms
  imports Hooks Patterns
begin

text \<open>
  The two network forms: \<open>frontend/src/components/CreateNetworkModal.tsx\<close> and
  \<open>EditNetworkModal.tsx\<close>. Each is a component of its own: its fields, the list of host
  bridges it loads when the bridge mode is chosen, the \<open>submitting\<close> flag and the error. The
  props \<open>open\<close> and \<open>network\<close> are part of the state; the parent changes them with an event.
\<close>

subsection \<open>The list of host bridges\<close>

datatype bridge_list = BNull | BUndefined | BList "host_bridge list" int

definition bridges_of :: "reply \<Rightarrow> bridge_list" where
  "bridges_of r = (case r of Inl e \<Rightarrow> BList [] 0
     | Inr ps \<Rightarrow> (case ps of [PBridges xs n] \<Rightarrow> BList xs n | _ \<Rightarrow> BUndefined))"

definition cidrOk :: "net_mode \<Rightarrow> string \<Rightarrow> bool" where
  "cidrOk mode cidr = (mode = Bridge \<or> rx_test CIDR_RE cidr)"

definition bridgeOk :: "net_mode \<Rightarrow> string \<Rightarrow> bool" where
  "bridgeOk mode bridgeName = (mode \<noteq> Bridge \<or> (rx_test IFACE_RE bridgeName \<and> length bridgeName > 0))"

definition bridge_field :: "bridge_list \<Rightarrow> string \<Rightarrow> net_mode \<Rightarrow> bool \<Rightarrow> (string \<Rightarrow> 'e) \<Rightarrow> 'e ui list" where
  "bridge_field bl v mode dis f =
     (case bl of
        BList items tot \<Rightarrow>
          if tot > 0
          then [Sel ''Host bridge'' v dis
                 (('''', em_dash @ '' select a bridge '' @ em_dash, False) #
                  map (\<lambda>b. (hb_name b, hb_name b @ '' '' @ (if hb_active b then '''' else ''(inactive)''), False)) items) f]
          else [Field ''Host bridge'' v dis f]
      | _ \<Rightarrow> [Field ''Host bridge'' v dis f]) @
     (if v \<noteq> '''' \<and> \<not> bridgeOk mode v then [Txt ''Invalid interface name (max 16 chars)''] else [])"

definition cidr_fields ::
  "string \<Rightarrow> net_mode \<Rightarrow> bool \<Rightarrow> bool \<Rightarrow> (string \<Rightarrow> 'e) \<Rightarrow> (bool \<Rightarrow> 'e) \<Rightarrow> 'e ui list" where
  "cidr_fields cidr mode dhcp dis onCidr onDhcp =
     [Field ''Subnet (CIDR)'' cidr dis onCidr] @
     (if cidr \<noteq> '''' \<and> \<not> cidrOk mode cidr
      then [Txt ''Use dotted-quad/prefix notation, e.g. 192.168.100.0/24''] else []) @
     [Check ''Enable DHCP'' dhcp dis onDhcp]"

definition mode_buttons :: "bool \<Rightarrow> (net_mode \<Rightarrow> 'e) \<Rightarrow> 'e ui list" where
  "mode_buttons dis f =
     map (\<lambda>m. Btn (if m = Bridge then ''bridge (LAN)'' else mode_str m) dis (f m)) [Nat, Bridge, Isolated]"

definition alert :: "string option \<Rightarrow> 'e ui list" where
  "alert err = (case err of Some m \<Rightarrow> if m = '''' then [] else [Box ''alert error'' [Txt m]] | None \<Rightarrow> [])"

lemma form_parts_offers [simp, view_simps]:
  "offers_any (cidr_fields c m d dis f g) e \<longleftrightarrow> \<not> dis \<and> ((\<exists>s. e = f s) \<or> e = g True \<or> e = g False)"
  "offers_any (mode_buttons dis h) e \<longleftrightarrow> \<not> dis \<and> (\<exists>m. e = h m)"
  "\<not> offers_any (alert err) e"
proof -
  show "offers_any (mode_buttons dis h) e \<longleftrightarrow> \<not> dis \<and> (\<exists>m. e = h m)"
  proof
    assume "\<not> dis \<and> (\<exists>m. e = h m)"
    then obtain m where "\<not> dis" "e = h m" by blast
    then show "offers_any (mode_buttons dis h) e"
      by (cases m) (simp_all add: mode_buttons_def)
  qed (auto simp: mode_buttons_def)
qed (auto simp: cidr_fields_def alert_def split: option.splits)

lemma bridge_field_offers: "offers_any (bridge_field bl v m dis f) e \<Longrightarrow> \<not> dis \<and> (\<exists>s. e = f s)"
  by (auto simp: bridge_field_def list_ex_iff split: bridge_list.splits if_splits)

subsection \<open>Creating a network\<close>

record create_net =
  cn_open :: bool
  cn_name :: string
  cn_mode :: net_mode
  cn_cidr :: string
  cn_bridgeName :: string
  cn_dhcp :: bool
  cn_autostart :: bool
  cn_bridges :: bridge_list
  cn_submitting :: bool
  cn_error :: "string option"

definition create_net_init :: create_net where
  "create_net_init = \<lparr>cn_open = False, cn_name = '''', cn_mode = Nat, cn_cidr = ''192.168.100.0/24'',
     cn_bridgeName = '''', cn_dhcp = True, cn_autostart = True, cn_bridges = BNull,
     cn_submitting = False, cn_error = None\<rparr>"

datatype create_net_event =
    CnOpen bool
  | CnName string
  | CnMode net_mode
  | CnCidr string
  | CnBridge string
  | CnDhcp bool
  | CnAutostart bool
  | CnClose
  | CnSubmit

datatype create_net_kont = KCnBridges | KCnSubmit

definition cn_nameOk :: "create_net \<Rightarrow> bool" where
  "cn_nameOk s = rx_test NAME_RE (cn_name s)"

definition cn_valid :: "create_net \<Rightarrow> bool" where
  "cn_valid s = (cn_nameOk s \<and> cidrOk (cn_mode s) (cn_cidr s) \<and> bridgeOk (cn_mode s) (cn_bridgeName s))"

definition cn_body :: "create_net \<Rightarrow> network_body" where
  "cn_body s =
     (if cn_mode s = Bridge
      then \<lparr>nb_name = Some (cn_name s), nb_mode = Some (cn_mode s), nb_bridgeName = Some (cn_bridgeName s),
            nb_cidr = None, nb_dhcpEnabled = None, nb_autostart = Some (cn_autostart s)\<rparr>
      else \<lparr>nb_name = Some (cn_name s), nb_mode = Some (cn_mode s), nb_bridgeName = None,
            nb_cidr = Some (cn_cidr s), nb_dhcpEnabled = Some (cn_dhcp s), nb_autostart = Some (cn_autostart s)\<rparr>)"

text \<open>The effect that loads the bridges, after a change of its dependencies.\<close>

definition cn_effect :: "create_net \<Rightarrow> (create_net, create_net_kont) action" where
  "cn_effect old w =
     (let s = st w in
      if (cn_open s, cn_mode s, cn_bridges s) \<noteq> (cn_open old, cn_mode old, cn_bridges old)
         \<and> cn_open s \<and> cn_mode s = Bridge \<and> cn_bridges s = BNull
      then call [GetBridges] KCnBridges w else w)"

definition cn_submit :: "(create_net, create_net_kont) action" where
  "cn_submit w = run [upd (\<lambda>s. s\<lparr>cn_submitting := True, cn_error := None\<rparr>),
     call [PostNetwork (cn_body (st w))] KCnSubmit] w"

fun cn_base :: "create_net_event \<Rightarrow> (create_net, create_net_kont) action" where
  "cn_base (CnOpen b) w = upd (cn_open_update (\<lambda>_. b)) w"
| "cn_base (CnName v) w = upd (cn_name_update (\<lambda>_. v)) w"
| "cn_base (CnMode m) w = upd (cn_mode_update (\<lambda>_. m)) w"
| "cn_base (CnCidr v) w = upd (cn_cidr_update (\<lambda>_. v)) w"
| "cn_base (CnBridge v) w = upd (cn_bridgeName_update (\<lambda>_. v)) w"
| "cn_base (CnDhcp b) w = upd (cn_dhcp_update (\<lambda>_. b)) w"
| "cn_base (CnAutostart b) w = upd (cn_autostart_update (\<lambda>_. b)) w"
| "cn_base CnClose w = emit OnClose w"
| "cn_base CnSubmit w = cn_submit w"

definition cn_handle :: "create_net_event \<Rightarrow> (create_net, create_net_kont) action" where
  "cn_handle e w = cn_effect (st w) (cn_base e w)"

fun cn_resume :: "create_net_kont \<Rightarrow> reply \<Rightarrow> (create_net, create_net_kont) action" where
  "cn_resume KCnBridges r w = upd (cn_bridges_update (\<lambda>_. bridges_of r)) w"
| "cn_resume KCnSubmit r w = (case r of
     Inr ps \<Rightarrow> run [emit OnSaved, emit OnClose, upd (cn_submitting_update (\<lambda>_. False))] w
   | Inl e \<Rightarrow> upd (\<lambda>s. s\<lparr>cn_error := Some (err_colon e), cn_submitting := False\<rparr>) w)"

fun MODE_HINTS :: "net_mode \<Rightarrow> string" where
  "MODE_HINTS Nat = ''Private subnet with DHCP and NAT; VMs reach the internet but are not reachable from the LAN.''"
| "MODE_HINTS Bridge = ''Attach to a host bridge (e.g. br0): VMs get an IP on the host's LAN from your router '' @ em_dash @ '' same range as the host.''"
| "MODE_HINTS Isolated = ''Internal-only network; VMs can talk to each other but have no outside connectivity.''"

definition cn_view :: "create_net \<Rightarrow> create_net_event ui list" where
  "cn_view s = (if \<not> cn_open s then [] else
     [Txt ''Create Network'', Btn ''Close'' (cn_submitting s) CnClose] @
     alert (cn_error s) @
     [Field ''Name'' (cn_name s) (cn_submitting s) CnName] @
     (if cn_name s \<noteq> '''' \<and> \<not> cn_nameOk s
      then [Txt ''Name must start with a letter/digit (a-z0-9._-, max 64 chars)''] else []) @
     mode_buttons (cn_submitting s) CnMode @
     [Txt (MODE_HINTS (cn_mode s))] @
     (if cn_mode s = Bridge
      then (case cn_bridges s of BList xs n \<Rightarrow> if n = 0 then [Txt ''No host bridges found.''] else [] | _ \<Rightarrow> []) @
           bridge_field (cn_bridges s) (cn_bridgeName s) (cn_mode s) (cn_submitting s) CnBridge
      else cidr_fields (cn_cidr s) (cn_mode s) (cn_dhcp s) (cn_submitting s) CnCidr CnDhcp) @
     [Check ''Start network automatically on boot (autostart)'' (cn_autostart s) (cn_submitting s) CnAutostart,
      Btn ''Cancel'' (cn_submitting s) CnClose,
      Btn (if cn_submitting s then ''Creating'' @ ellipsis else ''Create Network'')
        (\<not> cn_valid s \<or> cn_submitting s) CnSubmit])"

definition cn_enabled :: "create_net \<Rightarrow> create_net_event \<Rightarrow> bool" where
  "cn_enabled s e = (case e of CnOpen b \<Rightarrow> True | _ \<Rightarrow> offers_any (cn_view s) e)"

subsection \<open>Editing a network\<close>

record edit_net =
  en_network :: "network option"
  en_mode :: net_mode
  en_cidr :: string
  en_bridgeName :: string
  en_dhcp :: bool
  en_autostart :: bool
  en_bridges :: bridge_list
  en_submitting :: bool
  en_error :: "string option"

definition edit_net_init :: edit_net where
  "edit_net_init = \<lparr>en_network = None, en_mode = Nat, en_cidr = '''', en_bridgeName = '''', en_dhcp = True,
     en_autostart = True, en_bridges = BNull, en_submitting = False, en_error = None\<rparr>"

datatype edit_net_event =
    EnNetwork "network option"
  | EnMode net_mode
  | EnCidr string
  | EnBridge string
  | EnDhcp bool
  | EnAutostart bool
  | EnClose
  | EnSubmit

datatype edit_net_kont = KEnBridges | KEnSubmit

definition en_active :: "edit_net \<Rightarrow> bool" where
  "en_active s = (case en_network s of Some n \<Rightarrow> n_state n = Active | None \<Rightarrow> False)"

definition edit_cidr :: "network \<Rightarrow> string" where
  "edit_cidr n = (case (n_ipAddress n, n_ipPrefix n) of
     (Some a, Some p) \<Rightarrow> if a \<noteq> '''' \<and> p \<noteq> 0 then a @ ''/'' @ int_str p else ''192.168.100.0/24''
   | _ \<Rightarrow> ''192.168.100.0/24'')"

definition en_reset :: "network \<Rightarrow> edit_net \<Rightarrow> edit_net" where
  "en_reset n s = s\<lparr>en_mode := orelse (n_mode n) Nat, en_cidr := edit_cidr n,
     en_bridgeName := orelse (n_bridge n) '''', en_dhcp := n_dhcpEnabled n,
     en_autostart := n_autostart n, en_error := None\<rparr>"

definition en_effect :: "edit_net \<Rightarrow> (edit_net, edit_net_kont) action" where
  "en_effect old w =
     (let s = st w in
      if (is_some (en_network s), en_mode s, en_bridges s) \<noteq> (is_some (en_network old), en_mode old, en_bridges old)
         \<and> is_some (en_network s) \<and> en_mode s = Bridge \<and> en_bridges s = BNull
      then call [GetBridges] KEnBridges w else w)"

definition en_valid :: "edit_net \<Rightarrow> bool" where
  "en_valid s = (cidrOk (en_mode s) (en_cidr s) \<and> bridgeOk (en_mode s) (en_bridgeName s))"

definition en_body :: "edit_net \<Rightarrow> network_body" where
  "en_body s =
     (let b = \<lparr>nb_name = None, nb_mode = Some (en_mode s), nb_bridgeName = None, nb_cidr = None,
               nb_dhcpEnabled = None, nb_autostart = Some (en_autostart s)\<rparr>
      in if en_mode s = Bridge then b\<lparr>nb_bridgeName := Some (en_bridgeName s)\<rparr>
         else b\<lparr>nb_cidr := Some (en_cidr s), nb_dhcpEnabled := Some (en_dhcp s)\<rparr>)"

definition en_submit :: "(edit_net, edit_net_kont) action" where
  "en_submit w = (case en_network (st w) of
     None \<Rightarrow> w
   | Some n \<Rightarrow> run [upd (\<lambda>s. s\<lparr>en_submitting := True, en_error := None\<rparr>),
       call [PutNetwork (n_id n) (en_body (st w))] KEnSubmit] w)"

text \<open>
  A new \<open>network\<close> prop is committed, its two effects run (a reset of the fields, and the
  load of the bridges with the fields as they were), and the reset is committed with the
  effect of its own.
\<close>

definition en_open_network :: "network option \<Rightarrow> (edit_net, edit_net_kont) action" where
  "en_open_network net w =
     (let w1 = en_effect (st w) (upd (en_network_update (\<lambda>_. net)) w) in
      case net of None \<Rightarrow> w1 | Some n \<Rightarrow> en_effect (st w1) (upd (en_reset n) w1))"

fun en_base :: "edit_net_event \<Rightarrow> (edit_net, edit_net_kont) action" where
  "en_base (EnNetwork net) w = en_open_network net w"
| "en_base (EnMode m) w = en_effect (st w) (upd (en_mode_update (\<lambda>_. m)) w)"
| "en_base (EnCidr v) w = upd (en_cidr_update (\<lambda>_. v)) w"
| "en_base (EnBridge v) w = upd (en_bridgeName_update (\<lambda>_. v)) w"
| "en_base (EnDhcp b) w = upd (en_dhcp_update (\<lambda>_. b)) w"
| "en_base (EnAutostart b) w = upd (en_autostart_update (\<lambda>_. b)) w"
| "en_base EnClose w = emit OnClose w"
| "en_base EnSubmit w = en_submit w"

fun en_resume :: "edit_net_kont \<Rightarrow> reply \<Rightarrow> (edit_net, edit_net_kont) action" where
  "en_resume KEnBridges r w = upd (en_bridges_update (\<lambda>_. bridges_of r)) w"
| "en_resume KEnSubmit r w = (case r of
     Inr ps \<Rightarrow> run [emit OnSaved, emit OnClose, upd (en_submitting_update (\<lambda>_. False))] w
   | Inl e \<Rightarrow> upd (\<lambda>s. s\<lparr>en_error := Some (err_colon e), en_submitting := False\<rparr>) w)"

definition en_view :: "edit_net \<Rightarrow> edit_net_event ui list" where
  "en_view s = (case en_network s of None \<Rightarrow> [] | Some n \<Rightarrow>
     (let locked = (en_submitting s \<or> en_active s) in
     [Txt (''Edit Network '' @ em_dash @ '' '' @ n_name n), Btn ''Close'' (en_submitting s) EnClose] @
     alert (en_error s) @
     (if en_active s then [Txt ''This network is active. Only autostart can be changed now''] else []) @
     [Txt (n_name n)] @
     mode_buttons locked EnMode @
     (if en_mode s = Bridge
      then bridge_field (en_bridges s) (en_bridgeName s) (en_mode s) locked EnBridge
      else cidr_fields (en_cidr s) (en_mode s) (en_dhcp s) locked EnCidr EnDhcp) @
     [Check ''Start network automatically on boot (autostart)'' (en_autostart s) (en_submitting s) EnAutostart,
      Btn ''Cancel'' (en_submitting s) EnClose,
      Btn (if en_submitting s then ''Saving'' @ ellipsis else ''Save Changes'')
        (\<not> en_valid s \<or> en_submitting s) EnSubmit]))"

definition en_enabled :: "edit_net \<Rightarrow> edit_net_event \<Rightarrow> bool" where
  "en_enabled s e = (case e of EnNetwork net \<Rightarrow> True | _ \<Rightarrow> offers_any (en_view s) e)"

subsection \<open>One submission at a time\<close>

lemma cn_effect_frame [simp, act_simps]:
  "st (cn_effect old w) = st w" "effs (cn_effect old w) = effs w"
  "flight (\<lambda>k. k = KCnSubmit) (cn_effect old w) = flight (\<lambda>k. k = KCnSubmit) w"
  by (simp_all add: cn_effect_def Let_def)

lemma en_effect_frame [simp, act_simps]:
  "st (en_effect old w) = st w" "effs (en_effect old w) = effs w"
  "flight (\<lambda>k. k = KEnSubmit) (en_effect old w) = flight (\<lambda>k. k = KEnSubmit) w"
  by (simp_all add: en_effect_def Let_def)

lemma en_open_frame [simp, act_simps]:
  "en_submitting (st (en_open_network net w)) = en_submitting (st w)"
  "flight (\<lambda>k. k = KEnSubmit) (en_open_network net w) = flight (\<lambda>k. k = KEnSubmit) w"
  by (simp_all add: en_open_network_def en_reset_def Let_def split: option.splits)

lemma cn_busy_disables: "cn_submitting s \<Longrightarrow> cn_enabled s e \<Longrightarrow> \<exists>b. e = CnOpen b"
  by (cases e) (auto simp: cn_enabled_def cn_view_def dest!: bridge_field_offers split: bridge_list.splits if_splits)

lemma cn_submit_enabled: "cn_enabled s CnSubmit \<Longrightarrow> cn_open s \<and> cn_valid s \<and> \<not> cn_submitting s"
  by (auto simp: cn_enabled_def cn_view_def dest!: bridge_field_offers split: bridge_list.splits if_splits)

lemma en_busy_disables: "en_submitting s \<Longrightarrow> en_enabled s e \<Longrightarrow> \<exists>n. e = EnNetwork n"
  by (cases e) (auto simp: en_enabled_def en_view_def Let_def dest!: bridge_field_offers split: option.splits if_splits)

lemma en_submit_enabled: "en_enabled s EnSubmit \<Longrightarrow> en_network s \<noteq> None \<and> en_valid s \<and> \<not> en_submitting s"
  by (auto simp: en_enabled_def en_view_def Let_def dest!: bridge_field_offers split: option.splits if_splits)

lemma en_active_disables:
  "en_active s \<Longrightarrow> en_enabled s e \<Longrightarrow>
    (\<exists>n. e = EnNetwork n) \<or> (\<exists>b. e = EnAutostart b) \<or> e = EnClose \<or> e = EnSubmit"
  by (cases e) (auto simp: en_enabled_def en_view_def Let_def dest!: bridge_field_offers split: option.splits if_splits)

interpretation cn_run: single_flight "fresh create_net_init" cn_enabled cn_handle cn_resume
    cn_submitting "\<lambda>k. k = KCnSubmit"
proof unfold_locales
  show "flight (\<lambda>k. k = KCnSubmit) (fresh create_net_init) = 0 \<and> \<not> cn_submitting (st (fresh create_net_init))"
    by (simp add: create_net_init_def)
next
  fix w :: "(create_net, create_net_kont) world" and e assume "\<not> cn_submitting (st w)" "cn_enabled (st w) e"
  then show "flight (\<lambda>k. k = KCnSubmit) (cn_handle e w) =
      flight (\<lambda>k. k = KCnSubmit) w + (if cn_submitting (st (cn_handle e w)) then 1 else 0)"
    by (cases e) (simp_all add: cn_handle_def cn_submit_def)
next
  fix w :: "(create_net, create_net_kont) world" and e assume "cn_submitting (st w)" "cn_enabled (st w) e"
  with cn_busy_disables obtain b where "e = CnOpen b" by blast
  then show "cn_submitting (st (cn_handle e w)) \<and> flight (\<lambda>k. k = KCnSubmit) (cn_handle e w) = flight (\<lambda>k. k = KCnSubmit) w"
    using \<open>cn_submitting (st w)\<close> by (simp add: cn_handle_def)
next
  fix w :: "(create_net, create_net_kont) world" and k r assume "k = KCnSubmit" "cn_submitting (st w)"
  then show "flight (\<lambda>k. k = KCnSubmit) (cn_resume k r w) =
      flight (\<lambda>k. k = KCnSubmit) w + (if cn_submitting (st (cn_resume k r w)) then 1 else 0)"
    by (simp split: sum.splits)
next
  fix w :: "(create_net, create_net_kont) world" and k r assume "k \<noteq> KCnSubmit"
  then show "cn_submitting (st (cn_resume k r w)) = cn_submitting (st w)
      \<and> flight (\<lambda>k. k = KCnSubmit) (cn_resume k r w) = flight (\<lambda>k. k = KCnSubmit) w"
    by (cases k) simp_all
qed

interpretation en_run: single_flight "fresh edit_net_init" en_enabled en_base en_resume
    en_submitting "\<lambda>k. k = KEnSubmit"
proof unfold_locales
  show "flight (\<lambda>k. k = KEnSubmit) (fresh edit_net_init) = 0 \<and> \<not> en_submitting (st (fresh edit_net_init))"
    by (simp add: edit_net_init_def)
next
  fix w :: "(edit_net, edit_net_kont) world" and e assume "\<not> en_submitting (st w)" "en_enabled (st w) e"
  then show "flight (\<lambda>k. k = KEnSubmit) (en_base e w) =
      flight (\<lambda>k. k = KEnSubmit) w + (if en_submitting (st (en_base e w)) then 1 else 0)"
    by (cases e) (auto simp: en_submit_def dest: en_submit_enabled split: option.splits)
next
  fix w :: "(edit_net, edit_net_kont) world" and e assume "en_submitting (st w)" "en_enabled (st w) e"
  with en_busy_disables obtain n where "e = EnNetwork n" by blast
  then show "en_submitting (st (en_base e w)) \<and> flight (\<lambda>k. k = KEnSubmit) (en_base e w) = flight (\<lambda>k. k = KEnSubmit) w"
    using \<open>en_submitting (st w)\<close> by simp
next
  fix w :: "(edit_net, edit_net_kont) world" and k r assume "k = KEnSubmit" "en_submitting (st w)"
  then show "flight (\<lambda>k. k = KEnSubmit) (en_resume k r w) =
      flight (\<lambda>k. k = KEnSubmit) w + (if en_submitting (st (en_resume k r w)) then 1 else 0)"
    by (simp split: sum.splits)
next
  fix w :: "(edit_net, edit_net_kont) world" and k r assume "k \<noteq> KEnSubmit"
  then show "en_submitting (st (en_resume k r w)) = en_submitting (st w)
      \<and> flight (\<lambda>k. k = KEnSubmit) (en_resume k r w) = flight (\<lambda>k. k = KEnSubmit) w"
    by (cases k) simp_all
qed

subsection \<open>The requests of the create form\<close>

definition net_create_ok :: "network_body \<Rightarrow> bool" where
  "net_create_ok b = (case (nb_name b, nb_mode b) of
     (Some n, Some m) \<Rightarrow> rx_test NAME_RE n \<and> nb_autostart b \<noteq> None \<and>
       (if m = Bridge
        then (case nb_bridgeName b of Some i \<Rightarrow> rx_test IFACE_RE i | None \<Rightarrow> False)
             \<and> nb_cidr b = None \<and> nb_dhcpEnabled b = None
        else (case nb_cidr b of Some c \<Rightarrow> rx_test CIDR_RE c | None \<Rightarrow> False)
             \<and> nb_bridgeName b = None \<and> nb_dhcpEnabled b \<noteq> None)
   | _ \<Rightarrow> False)"

definition cn_requests_ok :: "(create_net, create_net_kont) world \<Rightarrow> bool" where
  "cn_requests_ok w = (\<forall>c \<in> set (calls w). fst c = [GetBridges] \<or>
     (\<exists>b. fst c = [PostNetwork b] \<and> net_create_ok b))"

lemma cn_body_ok: "cn_valid s \<Longrightarrow> net_create_ok (cn_body s)"
  by (auto simp: cn_valid_def cn_nameOk_def cidrOk_def bridgeOk_def cn_body_def net_create_ok_def)

lemma cn_requests_effect: "cn_requests_ok w \<Longrightarrow> cn_requests_ok (cn_effect old w)"
  by (auto simp: cn_requests_ok_def cn_effect_def Let_def)

interpretation cn_requests_run: component "fresh create_net_init" cn_enabled cn_handle cn_resume cn_requests_ok
proof unfold_locales
  show "cn_requests_ok (fresh create_net_init)" by (simp add: cn_requests_ok_def)
next
  fix w :: "(create_net, create_net_kont) world" and e assume I: "cn_requests_ok w" and en: "cn_enabled (st w) e"
  have "cn_requests_ok (cn_base e w)"
    using I en by (cases e) (auto simp: cn_requests_ok_def cn_submit_def dest!: cn_submit_enabled cn_body_ok)
  then show "cn_requests_ok (cn_handle e w)" unfolding cn_handle_def by (rule cn_requests_effect)
next
  fix w :: "(create_net, create_net_kont) world" and i r assume I: "cn_requests_ok w" and i: "i < length (calls w)"
  have "cn_requests_ok (take_call i w)"
    using I set_remove_nth_subset [of i "calls w"] by (auto simp: cn_requests_ok_def)
  then show "cn_requests_ok (cn_resume (snd (calls w ! i)) r (take_call i w))"
    by (cases "snd (calls w ! i)") (auto simp: cn_requests_ok_def split: sum.splits)
qed

text \<open>
  Whatever the user does with the create form, every request it has pending is a load of
  the host bridges or a \<open>POST\<close> of a complete body: an accepted name, and either an accepted
  bridge interface without subnet members or an accepted subnet without a bridge; and at
  most one \<open>POST\<close> is pending, exactly while the form is disabled.
\<close>

theorem create_network_requests:
  assumes "reachable (fresh create_net_init) cn_enabled cn_handle cn_resume w"
  shows "(\<forall>c \<in> set (calls w). fst c = [GetBridges] \<or> (\<exists>b. fst c = [PostNetwork b] \<and> net_create_ok b))
    \<and> flight (\<lambda>k. k = KCnSubmit) w = (if cn_submitting (st w) then 1 else 0)"
  using cn_requests_run.reach_inv [OF assms] cn_run.flight_iff_busy [OF assms]
  by (simp add: cn_requests_ok_def)

definition create_net_script :: "create_net_event stimulus list" where
  "create_net_script = [Ev (CnOpen True), Ev (CnName ''lab-net''), Ev CnSubmit]"

lemma create_net_example:
  "\<exists>w. play cn_enabled cn_handle cn_resume create_net_script (fresh create_net_init) = Some w
     \<and> map fst (calls w) = [[PostNetwork (cn_body (create_net_init\<lparr>cn_name := ''lab-net''\<rparr>))]]"
proof -
  have v: "rx_test NAME_RE ''lab-net''" "rx_test CIDR_RE ''192.168.100.0/24''" by code_simp+
  show ?thesis
    by (simp add: create_net_script_def cn_enabled_def cn_view_def create_net_init_def cn_handle_def cn_effect_def
        Let_def cn_submit_def cn_valid_def cn_nameOk_def cidrOk_def bridgeOk_def v cn_body_def)
qed

theorem create_network_requests_witness:
  "\<exists>w. play cn_enabled cn_handle cn_resume create_net_script (fresh create_net_init) = Some w
     \<and> calls w \<noteq> [] \<and> flight (\<lambda>k. k = KCnSubmit) w = (if cn_submitting (st w) then 1 else 0)"
proof -
  obtain w where w: "play cn_enabled cn_handle cn_resume create_net_script (fresh create_net_init) = Some w"
    "map fst (calls w) \<noteq> []" using create_net_example by auto
  from create_network_requests [OF play_reachable [OF reachable.boot w(1)]] w show ?thesis by auto
qed

subsection \<open>Editing an active network\<close>

definition en_locked :: "edit_net \<Rightarrow> bool" where
  "en_locked s = (case en_network s of None \<Rightarrow> True | Some n \<Rightarrow>
     n_state n = Active \<longrightarrow> en_mode s = orelse (n_mode n) Nat \<and> en_cidr s = edit_cidr n
       \<and> en_bridgeName s = orelse (n_bridge n) '''' \<and> en_dhcp s = n_dhcpEnabled n)"

lemma en_locked_cong:
  "en_network s' = en_network s \<Longrightarrow> en_mode s' = en_mode s \<Longrightarrow> en_cidr s' = en_cidr s \<Longrightarrow>
   en_bridgeName s' = en_bridgeName s \<Longrightarrow> en_dhcp s' = en_dhcp s \<Longrightarrow> en_locked s' = en_locked s"
  by (simp add: en_locked_def split: option.splits)

lemma en_open_locked: "en_locked (st (en_open_network net w))"
  by (simp add: en_open_network_def en_locked_def en_reset_def Let_def split: option.splits)

lemma en_inactive_locked: "\<not> en_active s \<Longrightarrow> en_locked s"
  by (simp add: en_active_def en_locked_def split: option.splits)

lemma en_locked_update [simp]:
  "en_locked (s\<lparr>en_autostart := b\<rparr>) = en_locked s"
  "en_locked (s\<lparr>en_submitting := b\<rparr>) = en_locked s"
  "en_locked (s\<lparr>en_bridges := bl\<rparr>) = en_locked s"
  "en_locked (s\<lparr>en_error := x\<rparr>) = en_locked s"
  by (rule en_locked_cong; simp)+

interpretation en_locked_run: component "fresh edit_net_init" en_enabled en_base en_resume "\<lambda>w. en_locked (st w)"
proof unfold_locales
  show "en_locked (st (fresh edit_net_init))" by (simp add: en_locked_def edit_net_init_def)
next
  fix w :: "(edit_net, edit_net_kont) world" and e assume I: "en_locked (st w)" and en: "en_enabled (st w) e"
  show "en_locked (st (en_base e w))"
  proof (cases "(\<exists>n. e = EnNetwork n) \<or> (\<exists>b. e = EnAutostart b) \<or> e = EnClose \<or> e = EnSubmit")
    case True
    with I show ?thesis by (auto simp: en_open_locked en_submit_def split: option.splits)
  next
    case False
    with en_active_disables [OF _ en] have "\<not> en_active (st w)" by blast
    moreover from False have "en_network (st (en_base e w)) = en_network (st w)"
      by (cases e) simp_all
    ultimately show ?thesis by (intro en_inactive_locked) (simp add: en_active_def)
  qed
next
  fix w :: "(edit_net, edit_net_kont) world" and i r assume I: "en_locked (st w)"
  then show "en_locked (st (en_resume (snd (calls w ! i)) r (take_call i w)))"
    by (cases "snd (calls w ! i)") (auto split: sum.splits)
qed

text \<open>
  The server refuses an update of an active network that holds any of the structural
  members, whatever their values (\<open>UpdateNetwork\<close> of the hypervisor providers).
\<close>

definition update_refused :: "network \<Rightarrow> network_body \<Rightarrow> bool" where
  "update_refused n b = (n_state n = Active \<and>
     (nb_mode b \<noteq> None \<or> nb_bridgeName b \<noteq> None \<or> nb_cidr b \<noteq> None \<or> nb_dhcpEnabled b \<noteq> None))"

text \<open>
  While the edited network is active the form lets only \<open>autostart\<close> change: a save sends
  the values the form was opened with, except for \<open>autostart\<close>. It sends the mode all the
  same, so the server refuses every save of an active network, and the note that
  \<open>autostart\<close> can be changed does not hold.
\<close>

theorem edit_active_network:
  assumes "reachable (fresh edit_net_init) en_enabled en_base en_resume w"
    and "en_network (st w) = Some n" and "n_state n = Active" and "en_enabled (st w) EnSubmit"
  shows "\<exists>b. calls (en_base EnSubmit w) = calls w @ [([PutNetwork (n_id n) b], KEnSubmit)]
    \<and> b = (en_body (en_reset n (st w)))\<lparr>nb_autostart := Some (en_autostart (st w))\<rparr>
    \<and> update_refused n b"
proof -
  have "en_locked (st w)" using assms(1) by (rule en_locked_run.reach_inv)
  with assms(2,3) have "en_body (st w) = (en_body (en_reset n (st w)))\<lparr>nb_autostart := Some (en_autostart (st w))\<rparr>"
    by (simp add: en_locked_def en_body_def en_reset_def Let_def)
  moreover have "update_refused n (en_body (st w))"
    using assms(3) by (simp add: update_refused_def en_body_def Let_def)
  ultimately show ?thesis using assms(2) by (simp add: en_submit_def)
qed

definition demo_network :: network where
  "demo_network = \<lparr>n_id = ''default'', n_name = ''default'', n_state = Active, n_autostart = True,
     n_bridge = Some ''virbr0'', n_ipAddress = Some ''192.168.122.1'', n_ipPrefix = Some 24,
     n_dhcpEnabled = True, n_domainName = None, n_mode = Some Nat\<rparr>"

theorem edit_active_network_witness:
  "\<exists>b. calls (en_base EnSubmit (en_base (EnNetwork (Some demo_network)) (fresh edit_net_init)))
      = [([PutNetwork ''default'' b], KEnSubmit)] \<and> update_refused demo_network b"
proof -
  let ?w = "en_base (EnNetwork (Some demo_network)) (fresh edit_net_init)"
  have r: "reachable (fresh edit_net_init) en_enabled en_base en_resume ?w"
    by (rule reachable.event [OF reachable.boot]) (simp add: en_enabled_def)
  have c: "edit_cidr demo_network = ''192.168.122.1/24''" by code_simp
  have v: "rx_test CIDR_RE ''192.168.122.1/24''" by code_simp
  have s: "en_network (st ?w) = Some demo_network" "n_state demo_network = Active" "calls ?w = []"
    by (simp_all add: en_open_network_def en_reset_def Let_def en_effect_def edit_net_init_def demo_network_def)
  have "en_valid (st ?w)" "\<not> en_submitting (st ?w)"
    by (simp_all add: en_open_network_def en_reset_def Let_def edit_net_init_def en_valid_def cidrOk_def bridgeOk_def c v)
      (simp_all add: demo_network_def)
  with s(1) have "en_enabled (st ?w) EnSubmit"
    by (simp add: en_enabled_def en_view_def Let_def)
  from edit_active_network [OF r s(1,2) this] s(3) show ?thesis by (auto simp: demo_network_def)
qed

end
