(* ===== verification/NetworkPage.thy ===== *)
theory NetworkPage
  imports NetworkForms
begin

text \<open>
  The network page (\<open>frontend/src/pages/Network.tsx\<close>) with the two forms inside it. The page
  polls the networks, keeps the id of the one network an action runs on (\<open>busy\<close>), and shows
  the forms unless the last poll failed: a failed poll replaces the whole page, so the forms
  are unmounted and lose their state, and they are mounted anew when a poll succeeds.
  \<open>np_mount\<close> counts the mounts; what an unmounted form still writes to its state is lost,
  its callbacks to the page are not. The \<open>open\<close> and \<open>network\<close> props of the forms are the
  page's \<open>modalOpen\<close> and \<open>editing\<close> and survive.
\<close>

record network_page =
  np_poll :: "(network list \<times> int) polling"
  np_busy :: "string option"
  np_mount :: nat
  np_create :: create_net
  np_edit :: edit_net

datatype network_page_event =
    NpTick
  | NpOpenCreate
  | NpRun network net_action
  | NpEditNet network
  | NpDelete network bool
  | NpCreateEv create_net_event
  | NpEditEv edit_net_event

datatype network_page_kont =
    NkPoll
  | NkAct network string
  | NkRefresh
  | NkCreate nat create_net_kont
  | NkEdit nat edit_net_kont

definition network_page_init :: network_page where
  "network_page_init = \<lparr>np_poll = poll_init, np_busy = None, np_mount = 0,
     np_create = create_net_init, np_edit = edit_net_init\<rparr>"

definition np_error :: "network_page \<Rightarrow> string option" where
  "np_error s = (case poll_error (np_poll s) of Some m \<Rightarrow> if m = '''' then None else Some m | None \<Rightarrow> None)"

definition np_nets :: "network_page \<Rightarrow> network list" where
  "np_nets s = (case poll_data (np_poll s) of Some d \<Rightarrow> fst d | None \<Rightarrow> [])"

definition np_total :: "network_page \<Rightarrow> int" where
  "np_total s = (case poll_data (np_poll s) of Some d \<Rightarrow> snd d | None \<Rightarrow> 0)"

subsection \<open>The forms inside the page\<close>

definition create_child :: "nat \<Rightarrow> network_page \<Rightarrow> create_net" where
  "create_child m p = (if np_mount p = m then np_create p else create_net_init)"

definition put_create :: "nat \<Rightarrow> create_net \<Rightarrow> network_page \<Rightarrow> network_page" where
  "put_create m c p = (if np_mount p = m then p\<lparr>np_create := c\<rparr> else p)"

definition edit_child :: "nat \<Rightarrow> network_page \<Rightarrow> edit_net" where
  "edit_child m p = (if np_mount p = m then np_edit p else edit_net_init)"

definition put_edit :: "nat \<Rightarrow> edit_net \<Rightarrow> network_page \<Rightarrow> network_page" where
  "put_edit m c p = (if np_mount p = m then p\<lparr>np_edit := c\<rparr> else p)"

fun np_create_effect :: "effect \<Rightarrow> (network_page, network_page_kont) action" where
  "np_create_effect OnSaved w = call [GetNetworks] NkPoll w"
| "np_create_effect OnClose w = upd (\<lambda>s. s\<lparr>np_create := (np_create s)\<lparr>cn_open := False\<rparr>\<rparr>) w"
| "np_create_effect x w = emit x w"

fun np_edit_effect :: "effect \<Rightarrow> (network_page, network_page_kont) action" where
  "np_edit_effect OnSaved w = call [GetNetworks] NkPoll w"
| "np_edit_effect OnClose w = upd (\<lambda>s. s\<lparr>np_edit := (np_edit s)\<lparr>en_network := None\<rparr>\<rparr>) w"
| "np_edit_effect x w = emit x w"

definition in_create ::
  "nat \<Rightarrow> (create_net, create_net_kont) action \<Rightarrow> (network_page, network_page_kont) action" where
  "in_create m a = embed (create_child m) (put_create m) (NkCreate m) np_create_effect a"

definition in_edit ::
  "nat \<Rightarrow> (edit_net, edit_net_kont) action \<Rightarrow> (network_page, network_page_kont) action" where
  "in_edit m a = embed (edit_child m) (put_edit m) (NkEdit m) np_edit_effect a"

text \<open>Leaving the page's body, and mounting it again with the effects of the edit form.\<close>

definition np_unmount :: "network_page \<Rightarrow> network_page" where
  "np_unmount s = s\<lparr>np_mount := Suc (np_mount s),
     np_create := create_net_init\<lparr>cn_open := cn_open (np_create s)\<rparr>,
     np_edit := edit_net_init\<lparr>en_network := en_network (np_edit s)\<rparr>\<rparr>"

definition np_remount :: "(network_page, network_page_kont) action" where
  "np_remount w = (case en_network (np_edit (st w)) of
     None \<Rightarrow> w
   | Some n \<Rightarrow> in_edit (np_mount (st w))
       (\<lambda>e. run [upd (en_mode_update (\<lambda>_. orelse (n_mode n) Nat)),
         if n_mode n = Some Bridge then call [GetBridges] KEnBridges else skip,
         upd (en_reset n)] e) w)"

definition networks_of :: "payload list \<Rightarrow> (network list \<times> int) option" where
  "networks_of ps = (case ps of [PNetworks xs n] \<Rightarrow> Some (xs, n) | _ \<Rightarrow> None)"

definition np_polled :: "reply \<Rightarrow> (network_page, network_page_kont) action" where
  "np_polled r w =
     (let was = np_error (st w);
          w1 = upd (np_poll_update (poll_done (load_with networks_of r))) w;
          now = np_error (st w1) in
      if was = None \<and> now \<noteq> None then upd np_unmount w1
      else if was \<noteq> None \<and> now = None then np_remount w1
      else w1)"

subsection \<open>Handlers\<close>

fun np_handle :: "network_page_event \<Rightarrow> (network_page, network_page_kont) action" where
  "np_handle NpTick w = call [GetNetworks] NkPoll w"
| "np_handle NpOpenCreate w = in_create (np_mount (st w)) (cn_handle (CnOpen True)) w"
| "np_handle (NpRun net a) w = run
     [upd (np_busy_update (\<lambda>_. Some (n_id net))),
      call [PostNetworkAction (n_id net) a] (NkAct net (net_action_str a @ '' requested''))] w"
| "np_handle (NpEditNet net) w = in_edit (np_mount (st w)) (en_base (EnNetwork (Some net))) w"
| "np_handle (NpDelete net confirmed) w =
     (if \<not> confirmed then w
      else run [upd (np_busy_update (\<lambda>_. Some (n_id net))),
                call [DeleteNetwork (n_id net)] (NkAct net ''deleted'')] w)"
| "np_handle (NpCreateEv e) w = in_create (np_mount (st w)) (cn_handle e) w"
| "np_handle (NpEditEv e) w = in_edit (np_mount (st w)) (en_base e) w"

fun np_resume :: "network_page_kont \<Rightarrow> reply \<Rightarrow> (network_page, network_page_kont) action" where
  "np_resume NkPoll r w = np_polled r w"
| "np_resume (NkAct net done) r w = (case r of
     Inr ps \<Rightarrow> run [emit (Toast TSuccess (n_name net @ '': '' @ done)), call [GetNetworks] NkRefresh] w
   | Inl e \<Rightarrow> run [emit (Toast TError (err_named (n_name net) e)), upd (np_busy_update (\<lambda>_. None))] w)"
| "np_resume NkRefresh r w = run [np_polled r, upd (np_busy_update (\<lambda>_. None))] w"
| "np_resume (NkCreate m k) r w = in_create m (cn_resume k r) w"
| "np_resume (NkEdit m k) r w = in_edit m (en_resume k r) w"

definition np_boot :: "(network_page, network_page_kont) world" where
  "np_boot = call [GetNetworks] NkPoll (fresh network_page_init)"

subsection \<open>View\<close>

definition np_menu :: "string option \<Rightarrow> network \<Rightarrow> network_page_event item list" where
  "np_menu busy net =
     [Item ''Start'' None (Some (NpRun net NStart)) (busy = Some (n_id net) \<or> n_state net = Active) None False,
      Item ''Stop'' None (Some (NpRun net NStop)) (busy = Some (n_id net) \<or> n_state net \<noteq> Active) None False,
      Item ''Edit'' None (Some (NpEditNet net)) (busy = Some (n_id net)) None False,
      Item ''Delete'' None (Some (NpDelete net True)) (busy = Some (n_id net) \<or> n_state net = Active) None False]"

definition np_address :: "network \<Rightarrow> string" where
  "np_address net = (case n_ipAddress net of
     Some a \<Rightarrow> if a \<noteq> '''' then a @ ''/'' @ (case n_ipPrefix net of Some p \<Rightarrow> int_str p | None \<Rightarrow> '''')
       else if n_mode net = Some Bridge then ''from LAN DHCP'' else em_dash
   | None \<Rightarrow> if n_mode net = Some Bridge then ''from LAN DHCP'' else em_dash)"

definition np_row :: "string option \<Rightarrow> network \<Rightarrow> network_page_event ui" where
  "np_row busy net = Box (if busy = Some (n_id net) then ''row-busy'' else '''')
     ([Txt (n_name net)] @
      (case n_domainName net of Some d \<Rightarrow> if d = '''' then [] else [Txt d] | None \<Rightarrow> []) @
      [Box (''mode-badge mode-'' @ mode_str (orelse (n_mode net) Nat)) [Txt (mode_str (orelse (n_mode net) Nat))],
       Box (''state'' @ (if n_state net = Active then '' state-running'' else '''')) [Txt (activity_str (n_state net))],
       Txt (orelse (n_bridge net) em_dash),
       Txt (np_address net),
       Txt (if n_dhcpEnabled net then ''yes'' else ''no''),
       Txt (if n_autostart net then ''yes'' else ''no''),
       Menu (''Actions for '' @ n_name net) (np_menu busy net)])"

definition np_view :: "network_page \<Rightarrow> network_page_event ui list" where
  "np_view s = (case np_error s of Some m \<Rightarrow> [Txt (''Failed to reach API: '' @ m)] | None \<Rightarrow>
     (let loading = poll_loading (np_poll s); nets = np_nets s in
     [Txt ''Network'',
      Txt (if loading then ''loading'' @ ellipsis else int_str (np_total s) @ '' virtual networks on this host''),
      Btn ''+ Add Network'' False NpOpenCreate,
      MetricCard ''Networks'' [Txt (int_str (np_total s))] None None None loading ''blue'',
      MetricCard ''Active'' [Txt (nat_str (count_if (\<lambda>n. n_state n = Active) nets))] None (Some ''ok'') None loading ''blue'',
      MetricCard ''Autostart'' [Txt (nat_str (count_if n_autostart nets))] None None None loading ''blue''] @
     (if loading then [TableSkeleton 3 7]
      else if nets = [] then [EmptyState ''No virtual networks'' (Some ''Add a network to attach VMs to.'') []]
      else map (np_row (np_busy s)) nets)))"

text \<open>
  While a form is shown its overlay covers the page. A change of a form's props is the
  page's, not the user's.
\<close>

definition np_overlay :: "network_page \<Rightarrow> bool" where
  "np_overlay s = (cn_open (np_create s) \<or> en_network (np_edit s) \<noteq> None)"

definition np_enabled :: "network_page \<Rightarrow> network_page_event \<Rightarrow> bool" where
  "np_enabled s e = (case e of
     NpTick \<Rightarrow> True
   | NpCreateEv ce \<Rightarrow> np_error s = None \<and> (case ce of CnOpen b \<Rightarrow> False | _ \<Rightarrow> cn_enabled (np_create s) ce)
   | NpEditEv ee \<Rightarrow> np_error s = None \<and> (case ee of EnNetwork n \<Rightarrow> False | _ \<Rightarrow> en_enabled (np_edit s) ee)
   | NpDelete net confirmed \<Rightarrow> \<not> np_overlay s \<and> offers_any (np_view s) (NpDelete net True)
   | _ \<Rightarrow> \<not> np_overlay s \<and> offers_any (np_view s) e)"

abbreviation np_reach :: "(network_page, network_page_kont) world \<Rightarrow> bool" where
  "np_reach \<equiv> reachable np_boot np_enabled np_handle np_resume"

subsection \<open>The forms do not touch the page's own state\<close>

lemma np_child_effects:
  "np_busy (st (np_create_effect x w)) = np_busy (st w)"
  "np_busy (st (np_edit_effect x w)) = np_busy (st w)"
  "np_poll (st (np_create_effect x w)) = np_poll (st w)"
  "np_poll (st (np_edit_effect x w)) = np_poll (st w)"
  by (cases x; simp)+

definition is_action :: "network_page_kont \<Rightarrow> bool" where
  "is_action k = (case k of NkAct n t \<Rightarrow> True | NkRefresh \<Rightarrow> True | _ \<Rightarrow> False)"

lemma is_action_simps [simp]:
  "is_action (NkAct n t)" "is_action NkRefresh" "\<not> is_action NkPoll" "\<not> is_action (NkCreate m k)"
  "\<not> is_action (NkEdit m k')"
  by (simp_all add: is_action_def)

lemma np_child_flight:
  "flight is_action (np_create_effect x w) = flight is_action w"
  "flight is_action (np_edit_effect x w) = flight is_action w"
  by (cases x; simp)+

lemma in_create_keeps [simp]:
  "np_busy (st (in_create m a w)) = np_busy (st w)" "np_poll (st (in_create m a w)) = np_poll (st w)"
  "flight is_action (in_create m a w) = flight is_action w"
  unfolding in_create_def
  using embed_keeps [of np_busy "put_create m" is_action "NkCreate m" np_create_effect]
    embed_keeps [of np_poll "put_create m" is_action "NkCreate m" np_create_effect]
  by (simp_all add: put_create_def np_child_effects np_child_flight)

lemma in_edit_keeps [simp]:
  "np_busy (st (in_edit m a w)) = np_busy (st w)" "np_poll (st (in_edit m a w)) = np_poll (st w)"
  "flight is_action (in_edit m a w) = flight is_action w"
  unfolding in_edit_def
  using embed_keeps [of np_busy "put_edit m" is_action "NkEdit m" np_edit_effect]
    embed_keeps [of np_poll "put_edit m" is_action "NkEdit m" np_edit_effect]
  by (simp_all add: put_edit_def np_child_effects np_child_flight)

lemma np_unmount_keeps [simp]: "np_busy (np_unmount s) = np_busy s" "np_poll (np_unmount s) = np_poll s"
  by (simp_all add: np_unmount_def)

lemma np_remount_keeps [simp]:
  "np_busy (st (np_remount w)) = np_busy (st w)" "np_poll (st (np_remount w)) = np_poll (st w)"
  "flight is_action (np_remount w) = flight is_action w"
  by (simp_all add: np_remount_def split: option.splits)

lemma np_polled_keeps [simp]:
  "np_busy (st (np_polled r w)) = np_busy (st w)"
  "np_poll (st (np_polled r w)) = poll_done (load_with networks_of r) (np_poll (st w))"
  "flight is_action (np_polled r w) = flight is_action w"
  by (simp_all add: np_polled_def Let_def)

subsection \<open>What a row offers\<close>

lemma np_row_offers:
  "offers (np_row busy net) e \<longleftrightarrow> busy \<noteq> Some (n_id net) \<and>
     (e = NpRun net NStart \<and> n_state net \<noteq> Active \<or> e = NpRun net NStop \<and> n_state net = Active
      \<or> e = NpEditNet net \<or> e = NpDelete net True \<and> n_state net \<noteq> Active)"
  by (auto simp: np_row_def np_menu_def split: option.splits)

lemma np_view_offers:
  "offers_any (np_view s) e \<longleftrightarrow> np_error s = None \<and>
     (e = NpOpenCreate \<or> \<not> poll_loading (np_poll s) \<and> (\<exists>net \<in> set (np_nets s). offers (np_row (np_busy s) net) e))"
  by (auto simp: np_view_def Let_def offers_any_map split: option.splits)

lemma np_enabled_row:
  "np_enabled s (NpRun net a) = (\<not> np_overlay s \<and> np_error s = None \<and> \<not> poll_loading (np_poll s)
     \<and> net \<in> set (np_nets s) \<and> np_busy s \<noteq> Some (n_id net) \<and> (n_state net = Active) = (a = NStop))"
  "np_enabled s (NpDelete net confirmed) = (\<not> np_overlay s \<and> np_error s = None \<and> \<not> poll_loading (np_poll s)
     \<and> net \<in> set (np_nets s) \<and> np_busy s \<noteq> Some (n_id net) \<and> n_state net \<noteq> Active)"
  by (cases a) (auto simp: np_enabled_def np_view_offers np_row_offers)

text \<open>
  The page offers the start of a network exactly for a listed network that is not active,
  its stop exactly for an active one and its deletion for one that is not active; never while
  that network's own action runs, under a form, on the error page or before the first load.
\<close>

theorem network_actions_guarded:
  "np_enabled s (NpRun net a) = (\<not> np_overlay s \<and> np_error s = None \<and> \<not> poll_loading (np_poll s)
      \<and> net \<in> set (np_nets s) \<and> np_busy s \<noteq> Some (n_id net) \<and> (n_state net = Active) = (a = NStop))
   \<and> np_enabled s (NpDelete net confirmed) = (\<not> np_overlay s \<and> np_error s = None \<and> \<not> poll_loading (np_poll s)
      \<and> net \<in> set (np_nets s) \<and> np_busy s \<noteq> Some (n_id net) \<and> n_state net \<noteq> Active)"
  unfolding np_enabled_row by simp

subsection \<open>The busy slot\<close>

interpretation np_slot: busy_slot np_boot np_enabled np_handle np_resume "\<lambda>s. np_busy s \<noteq> None" is_action
proof unfold_locales
  show "\<not> np_busy (st np_boot) \<noteq> None" by (simp add: np_boot_def network_page_init_def)
next
  fix w e assume "np_busy (st (np_handle e w)) \<noteq> None"
  then show "flight is_action w \<le> flight is_action (np_handle e w)
      \<and> (np_busy (st w) \<noteq> None \<or> 0 < flight is_action (np_handle e w))"
    by (cases e) (auto split: if_splits)
next
  fix k r w assume "is_action k" "np_busy (st (np_resume k r w)) \<noteq> None"
  then show "0 < flight is_action (np_resume k r w)"
    by (cases k) (auto split: sum.splits)
next
  fix k r w assume "\<not> is_action k" "np_busy (st (np_resume k r w)) \<noteq> None"
  then show "np_busy (st w) \<noteq> None \<and> flight is_action w \<le> flight is_action (np_resume k r w)"
    by (cases k) auto
qed

text \<open>
  A network row shown as busy is never stuck: in every reachable state in which the slot
  is filled, an action or its refresh is pending, and the settling of either ends by clearing
  the slot or by the refresh.
\<close>

theorem network_busy_served:
  assumes "np_reach w" and "np_busy (st w) \<noteq> None"
  shows "0 < flight is_action w
    \<and> np_busy (st (np_resume NkRefresh r w)) = None
    \<and> np_busy (st (np_resume (NkAct net done) (Inl e) w)) = None
    \<and> flight is_action (np_resume (NkAct net done) (Inr ps) w) = Suc (flight is_action w)"
  using np_slot.busy_served [OF assms] by simp

definition net_a :: network where
  "net_a = demo_network\<lparr>n_id := ''a'', n_name := ''a'', n_state := Inactive\<rparr>"

definition net_b :: network where
  "net_b = demo_network\<lparr>n_id := ''b'', n_name := ''b'', n_state := Inactive\<rparr>"

definition two_starts :: "network_page_event stimulus list" where
  "two_starts = [Settle 0 (Inr [PNetworks [net_a, net_b] 2]),
     Ev (NpRun net_a NStart), Ev (NpRun net_b NStart), Ev (NpRun net_a NStart)]"

lemma net_ab [simp]:
  "n_id net_a = ''a''" "n_id net_b = ''b''" "n_state net_a = Inactive" "n_state net_b = Inactive"
  by (simp_all add: net_a_def net_b_def)

lemma two_starts_play:
  "\<exists>w. play np_enabled np_handle np_resume two_starts np_boot = Some w
     \<and> map fst (calls w) = [[PostNetworkAction ''a'' NStart], [PostNetworkAction ''b'' NStart], [PostNetworkAction ''a'' NStart]]
     \<and> np_busy (st w) \<noteq> None"
  by (simp add: two_starts_def np_boot_def network_page_init_def reply_ok_def networks_of_def np_polled_def np_error_def
      np_enabled_row np_overlay_def create_net_init_def edit_net_init_def np_nets_def poll_init_def Let_def)

theorem network_busy_served_witness:
  "\<exists>w. play np_enabled np_handle np_resume two_starts np_boot = Some w \<and> 0 < flight is_action w"
proof -
  obtain w where w: "play np_enabled np_handle np_resume two_starts np_boot = Some w" "np_busy (st w) \<noteq> None"
    using two_starts_play by blast
  from network_busy_served [OF play_reachable [OF reachable.boot w(1)] w(2)] w(1) show ?thesis by blast
qed

text \<open>
  The slot holds one network only: after the start of one network and of a second, the
  first is offered again, so that a reachable state has two starts of the same network
  pending.
\<close>

theorem network_start_twice:
  "\<exists>w. np_reach w \<and> map fst (calls w) =
     [[PostNetworkAction ''a'' NStart], [PostNetworkAction ''b'' NStart], [PostNetworkAction ''a'' NStart]]"
proof -
  obtain w where "play np_enabled np_handle np_resume two_starts np_boot = Some w"
    and c: "map fst (calls w) = [[PostNetworkAction ''a'' NStart], [PostNetworkAction ''b'' NStart], [PostNetworkAction ''a'' NStart]]"
    using two_starts_play by (elim exE conjE)
  from play_reachable [OF reachable.boot this(1)] c show ?thesis by (intro exI conjI)
qed

subsection \<open>A failed poll under an open form\<close>

text \<open>
  A failed poll takes the open create form down and the next successful one mounts an empty
  form that can be sent again, although what the user typed is lost and a submission of the
  first form may still be pending.
\<close>

theorem poll_failure_resets_form:
  assumes "np_error (st w) = None" and "err_message e \<noteq> []"
  shows "(let w1 = np_resume NkPoll (Inl e) w; w2 = np_resume NkPoll (Inr [PNetworks xs n]) w1 in
      np_view (st w1) = [Txt (''Failed to reach API: '' @ err_message e)]
      \<and> np_create (st w2) = create_net_init\<lparr>cn_open := cn_open (np_create (st w))\<rparr>
      \<and> np_nets (st w2) = xs \<and> np_error (st w2) = None
      \<and> flight (\<lambda>k. k = NkCreate m KCnSubmit) w2 = flight (\<lambda>k. k = NkCreate m KCnSubmit) w)"
proof -
  define w1 where "w1 = np_resume NkPoll (Inl e) w"
  have w1: "w1 = upd np_unmount (upd (np_poll_update (poll_done (Inl e))) w)"
    using assms by (simp add: w1_def np_polled_def np_error_def Let_def)
  have p1: "np_error (st w1) = Some (err_message e)" using assms by (simp add: w1 np_error_def)
  have c1: "np_create (st w1) = create_net_init\<lparr>cn_open := cn_open (np_create (st w))\<rparr>"
    "flight (\<lambda>k. k = NkCreate m KCnSubmit) w1 = flight (\<lambda>k. k = NkCreate m KCnSubmit) w"
    by (simp_all add: w1 np_unmount_def)
  define w2 where "w2 = np_resume NkPoll (Inr [PNetworks xs n]) w1"
  have w2: "w2 = np_remount (upd (np_poll_update (poll_done (Inr (Some (xs, n))))) w1)"
    using p1 by (simp add: w2_def np_polled_def np_error_def Let_def networks_of_def)
  have eff: "np_create (st (np_edit_effect x v)) = np_create (st v) \<and>
      flight (\<lambda>k. k = NkCreate m KCnSubmit) (np_edit_effect x v) = flight (\<lambda>k. k = NkCreate m KCnSubmit) v" for x v
    by (cases x) simp_all
  have keep: "np_create (st (in_edit j a v)) = np_create (st v)"
    "flight (\<lambda>k. k = NkCreate m KCnSubmit) (in_edit j a v) = flight (\<lambda>k. k = NkCreate m KCnSubmit) v" for j a v
    using embed_keeps [of np_create "put_edit j" "\<lambda>k. k = NkCreate m KCnSubmit" "NkEdit j" np_edit_effect] eff
    by (simp_all add: put_edit_def in_edit_def)
  have "np_create (st w2) = np_create (st w1)"
    "flight (\<lambda>k. k = NkCreate m KCnSubmit) w2 = flight (\<lambda>k. k = NkCreate m KCnSubmit) w1"
    "np_poll (st w2) = poll_done (Inr (Some (xs, n))) (np_poll (st w1))"
    by (simp_all add: w2 np_remount_def keep split: option.splits)
  moreover from this(3) have "np_error (st w2) = None" "np_nets (st w2) = xs"
    by (simp_all add: np_error_def np_nets_def)
  moreover have "np_view (st w1) = [Txt (''Failed to reach API: '' @ err_message e)]"
    using p1 by (simp add: np_view_def)
  ultimately show ?thesis
    unfolding Let_def w1_def [symmetric] w2_def [symmetric] by (simp add: c1)
qed

theorem poll_failure_resets_form_witness:
  "np_create (st (np_resume NkPoll (Inr [PNetworks [] 0]) (np_resume NkPoll (Inl (OtherError ''TypeError'' ''Failed to fetch''))
     (fresh (network_page_init\<lparr>np_create := create_net_init\<lparr>cn_open := True, cn_name := ''lab''\<rparr>\<rparr>)))))
   = create_net_init\<lparr>cn_open := True\<rparr>"
  using poll_failure_resets_form [of "fresh (network_page_init\<lparr>np_create := create_net_init\<lparr>cn_open := True, cn_name := ''lab''\<rparr>\<rparr>)"
      "OtherError ''TypeError'' ''Failed to fetch''" "[]" 0]
  by (simp add: Let_def network_page_init_def np_error_def poll_init_def create_net_init_def)

end
