(* ===== verification/StorageParts.thy ===== *)
theory StorageParts
  imports NetworkForms
begin

text \<open>
  The parts of the storage page: the form that creates a pool
  (\<open>frontend/src/components/CreatePoolModal.tsx\<close>) and the ISO library with its upload and
  its deletion dialog (\<open>frontend/src/components/IsoLibrary.tsx\<close>).
\<close>

subsection \<open>Creating a pool\<close>

record create_pool =
  cp_open :: bool
  cp_name :: string
  cp_targetPath :: string
  cp_autostart :: bool
  cp_isoLibrary :: bool
  cp_submitting :: bool
  cp_error :: "string option"

definition create_pool_init :: create_pool where
  "create_pool_init = \<lparr>cp_open = False, cp_name = '''', cp_targetPath = '''', cp_autostart = True,
     cp_isoLibrary = False, cp_submitting = False, cp_error = None\<rparr>"

datatype create_pool_event =
    CpOpen bool
  | CpName string
  | CpPath string
  | CpAutostart bool
  | CpIsoLibrary bool
  | CpClose
  | CpSubmit

datatype create_pool_kont = KCpSubmit

definition path_ok :: "string \<Rightarrow> bool" where
  "path_ok p = (rx_test PATH_RE p \<and> \<not> js_includes p ''..'')"

definition cp_nameErr :: "create_pool \<Rightarrow> string" where
  "cp_nameErr s = (if cp_name s \<noteq> '''' \<and> \<not> rx_test NAME_RE (cp_name s)
     then ''Name must start with a letter/digit (a-z0-9._-, max 64 chars)'' else '''')"

definition cp_pathErr :: "create_pool \<Rightarrow> string" where
  "cp_pathErr s = (if cp_targetPath s \<noteq> '''' \<and>
       (\<not> rx_test PATH_RE (cp_targetPath s) \<or> js_includes (cp_targetPath s) ''..'')
     then ''Path must be absolute and cannot contain \"..\"'' else '''')"

definition cp_valid :: "create_pool \<Rightarrow> bool" where
  "cp_valid s = (rx_test NAME_RE (cp_name s) \<and> rx_test PATH_RE (cp_targetPath s)
     \<and> \<not> js_includes (cp_targetPath s) ''..'')"

definition cp_body :: "create_pool \<Rightarrow> pool_create" where
  "cp_body s = \<lparr>pc_name = cp_name s, pc_type = Pool_dir, pc_targetPath = cp_targetPath s,
     pc_autostart = cp_autostart s, pc_isoLibrary = cp_isoLibrary s\<rparr>"

fun cp_handle :: "create_pool_event \<Rightarrow> (create_pool, create_pool_kont) action" where
  "cp_handle (CpOpen b) w = upd (cp_open_update (\<lambda>_. b)) w"
| "cp_handle (CpName v) w = upd (cp_name_update (\<lambda>_. v)) w"
| "cp_handle (CpPath v) w = upd (cp_targetPath_update (\<lambda>_. v)) w"
| "cp_handle (CpAutostart b) w = upd (cp_autostart_update (\<lambda>_. b)) w"
| "cp_handle (CpIsoLibrary b) w = upd (cp_isoLibrary_update (\<lambda>_. b)) w"
| "cp_handle CpClose w = emit OnClose w"
| "cp_handle CpSubmit w = run [upd (\<lambda>s. s\<lparr>cp_submitting := True, cp_error := None\<rparr>),
     call [PostPool (cp_body (st w))] KCpSubmit] w"

fun cp_resume :: "create_pool_kont \<Rightarrow> reply \<Rightarrow> (create_pool, create_pool_kont) action" where
  "cp_resume KCpSubmit r w = (case r of
     Inr ps \<Rightarrow> run [emit OnSaved, emit OnClose, upd (cp_submitting_update (\<lambda>_. False))] w
   | Inl e \<Rightarrow> upd (\<lambda>s. s\<lparr>cp_error := Some (err_colon e), cp_submitting := False\<rparr>) w)"

definition cp_view :: "create_pool \<Rightarrow> create_pool_event ui list" where
  "cp_view s = (if \<not> cp_open s then [] else
     [Txt ''Create Storage Pool'', Btn ''Close'' (cp_submitting s) CpClose] @
     alert (cp_error s) @
     [Field ''Name'' (cp_name s) (cp_submitting s) CpName] @
     (if cp_nameErr s \<noteq> '''' then [Txt (cp_nameErr s)] else []) @
     [Field ''Target path (absolute, created if missing)'' (cp_targetPath s) (cp_submitting s) CpPath] @
     (if cp_pathErr s \<noteq> '''' then [Txt (cp_pathErr s)] else []) @
     [Check ''Start pool automatically on boot (autostart)'' (cp_autostart s) (cp_submitting s) CpAutostart,
      Check ''Use this directory as the ISO library'' (cp_isoLibrary s) (cp_submitting s) CpIsoLibrary] @
     (if cp_isoLibrary s
      then [Txt (''Every .iso already in '' @ (if cp_targetPath s = '''' then ''/path'' else cp_targetPath s) @
              '' will appear in the ISO Library and in the VM creation wizard'')] else []) @
     [Btn ''Cancel'' (cp_submitting s) CpClose,
      Btn (if cp_submitting s then ''Creating'' @ ellipsis else ''Create Pool'')
        (\<not> cp_valid s \<or> cp_submitting s) CpSubmit])"

definition cp_enabled :: "create_pool \<Rightarrow> create_pool_event \<Rightarrow> bool" where
  "cp_enabled s e = (case e of CpOpen b \<Rightarrow> True | _ \<Rightarrow> offers_any (cp_view s) e)"

lemma cp_busy_disables: "cp_submitting s \<Longrightarrow> cp_enabled s e \<Longrightarrow> \<exists>b. e = CpOpen b"
  by (cases e) (auto simp: cp_enabled_def cp_view_def split: if_splits)

lemma cp_submit_enabled: "cp_enabled s CpSubmit \<Longrightarrow> cp_valid s \<and> \<not> cp_submitting s"
  by (auto simp: cp_enabled_def cp_view_def split: if_splits)

interpretation cp_run: single_flight "fresh create_pool_init" cp_enabled cp_handle cp_resume
    cp_submitting "any_kont :: create_pool_kont \<Rightarrow> bool"
proof unfold_locales
  show "flight any_kont (fresh create_pool_init :: (create_pool, create_pool_kont) world) = 0
      \<and> \<not> cp_submitting (st (fresh create_pool_init :: (create_pool, create_pool_kont) world))"
    by (simp add: create_pool_init_def)
next
  fix w :: "(create_pool, create_pool_kont) world" and e assume "\<not> cp_submitting (st w)" "cp_enabled (st w) e"
  then show "flight any_kont (cp_handle e w) =
      flight any_kont w + (if cp_submitting (st (cp_handle e w)) then 1 else 0)"
    by (cases e) simp_all
next
  fix w :: "(create_pool, create_pool_kont) world" and e assume "cp_submitting (st w)" "cp_enabled (st w) e"
  then show "cp_submitting (st (cp_handle e w)) \<and> flight any_kont (cp_handle e w) = flight any_kont w"
    using cp_busy_disables by fastforce
next
  fix w :: "(create_pool, create_pool_kont) world" and k r assume "cp_submitting (st w)"
  then show "flight any_kont (cp_resume k r w) =
      flight any_kont w + (if cp_submitting (st (cp_resume k r w)) then 1 else 0)"
    by (cases k) (simp split: sum.splits)
qed simp

definition pool_create_ok :: "pool_create \<Rightarrow> bool" where
  "pool_create_ok b = (rx_test NAME_RE (pc_name b) \<and> pc_type b = Pool_dir \<and> pc_targetPath b \<noteq> ''''
     \<and> hd (pc_targetPath b) = CHR ''/'' \<and> length (pc_targetPath b) \<le> 255
     \<and> \<not> sublist ''..'' (pc_targetPath b))"

lemma cp_body_ok: "cp_valid s \<Longrightarrow> pool_create_ok (cp_body s)"
  by (simp add: cp_valid_def cp_body_def pool_create_ok_def path_accepted js_includes_sublist)

interpretation cp_requests_run: component "fresh create_pool_init" cp_enabled cp_handle cp_resume
    "\<lambda>w. \<forall>c \<in> set (calls w). \<exists>b. fst c = [PostPool b] \<and> pool_create_ok b"
proof unfold_locales
  fix w :: "(create_pool, create_pool_kont) world" and e
  assume "\<forall>c \<in> set (calls w). \<exists>b. fst c = [PostPool b] \<and> pool_create_ok b" "cp_enabled (st w) e"
  then show "\<forall>c \<in> set (calls (cp_handle e w)). \<exists>b. fst c = [PostPool b] \<and> pool_create_ok b"
    by (cases e) (auto dest!: cp_submit_enabled cp_body_ok)
next
  fix w :: "(create_pool, create_pool_kont) world" and i r
  assume "\<forall>c \<in> set (calls w). \<exists>b. fst c = [PostPool b] \<and> pool_create_ok b"
  then show "\<forall>c \<in> set (calls (cp_resume (snd (calls w ! i)) r (take_call i w))).
      \<exists>b. fst c = [PostPool b] \<and> pool_create_ok b"
    using set_remove_nth_subset [of i "calls w"]
    by (cases "snd (calls w ! i)") (auto split: sum.splits)
qed simp

text \<open>
  The only request the pool form ever has pending is one \<open>POST\<close>, exactly while the form is
  disabled, and its body is a directory pool with an accepted name and an absolute path of
  at most 255 characters without two dots in a row.
\<close>

theorem create_pool_requests:
  assumes "reachable (fresh create_pool_init) cp_enabled cp_handle cp_resume w"
  shows "length (calls w) = (if cp_submitting (st w) then 1 else 0)
    \<and> (\<forall>c \<in> set (calls w). \<exists>b. fst c = [PostPool b] \<and> pool_create_ok b)"
  using cp_run.flight_iff_busy [OF assms] cp_requests_run.reach_inv [OF assms] by (simp add: flight_any)

definition create_pool_script :: "create_pool_event stimulus list" where
  "create_pool_script = [Ev (CpOpen True), Ev (CpName ''isos''), Ev (CpPath ''/srv/isos''), Ev CpSubmit]"

lemma create_pool_example:
  "\<exists>w. play cp_enabled cp_handle cp_resume create_pool_script (fresh create_pool_init) = Some w \<and> cp_submitting (st w)"
proof -
  have v: "rx_test NAME_RE ''isos''" "rx_test PATH_RE ''/srv/isos''" "\<not> js_includes ''/srv/isos'' ''..''"
    by code_simp+
  show ?thesis
    by (simp add: create_pool_script_def cp_enabled_def cp_view_def create_pool_init_def cp_valid_def v del: js_includes.simps)
qed

theorem create_pool_requests_witness:
  "\<exists>w. play cp_enabled cp_handle cp_resume create_pool_script (fresh create_pool_init) = Some w \<and> length (calls w) = 1"
proof -
  obtain w where w: "play cp_enabled cp_handle cp_resume create_pool_script (fresh create_pool_init) = Some w"
    "cp_submitting (st w)" using create_pool_example by blast
  from create_pool_requests [OF play_reachable [OF reachable.boot w(1)]] w show ?thesis by auto
qed

subsection \<open>The ISO library\<close>

record iso_library =
  il_poll :: "(iso list \<times> int) polling"
  il_confirmDel :: "iso option"
  il_uploading :: "string option"
  il_pct :: int
  il_error :: "string option"
  il_deleting :: "string option"

definition iso_library_init :: iso_library where
  "iso_library_init = \<lparr>il_poll = poll_init, il_confirmDel = None, il_uploading = None, il_pct = 0,
     il_error = None, il_deleting = None\<rparr>"

text \<open>\<open>IlProgress loaded total\<close> is a progress event of the upload whose length is computable.\<close>

datatype iso_library_event =
    IlTick
  | IlFile string
  | IlProgress int int
  | IlAskDelete iso
  | IlCancelDelete
  | IlConfirmDelete

datatype iso_library_kont = IkPoll | IkUpload string | IkUploaded | IkDelete iso | IkDeleted

definition isos_of :: "payload list \<Rightarrow> (iso list \<times> int) option" where
  "isos_of ps = (case ps of [PIsos xs n] \<Rightarrow> Some (xs, n) | _ \<Rightarrow> None)"

definition il_isos :: "iso_library \<Rightarrow> iso list" where
  "il_isos s = (case poll_data (il_poll s) of Some d \<Rightarrow> fst d | None \<Rightarrow> [])"

definition il_polled :: "reply \<Rightarrow> (iso_library, iso_library_kont) action" where
  "il_polled r = upd (il_poll_update (poll_done (load_with isos_of r)))"

definition onFile :: "string \<Rightarrow> (iso_library, iso_library_kont) action" where
  "onFile name w =
     (if \<not> js_ends_with (js_lower name) ''.iso''
      then upd (il_error_update (\<lambda>_. Some ''Only .iso files are accepted'')) w
      else run [upd (\<lambda>s. s\<lparr>il_error := None, il_uploading := Some name, il_pct := 0\<rparr>),
                call [PostIso name] (IkUpload name)] w)"

definition del_iso :: "iso \<Rightarrow> (iso_library, iso_library_kont) action" where
  "del_iso img = run [upd (\<lambda>s. s\<lparr>il_deleting := Some (i_id img), il_error := None\<rparr>),
     call [DeleteIso (i_id img)] (IkDelete img)]"

fun il_handle :: "iso_library_event \<Rightarrow> (iso_library, iso_library_kont) action" where
  "il_handle IlTick w = call [GetIsos] IkPoll w"
| "il_handle (IlFile name) w = onFile name w"
| "il_handle (IlProgress loaded tot) w = upd (il_pct_update (\<lambda>_. upload_pct loaded tot)) w"
| "il_handle (IlAskDelete img) w = upd (il_confirmDel_update (\<lambda>_. Some img)) w"
| "il_handle IlCancelDelete w = upd (il_confirmDel_update (\<lambda>_. None)) w"
| "il_handle IlConfirmDelete w = (case il_confirmDel (st w) of Some img \<Rightarrow> del_iso img w | None \<Rightarrow> w)"

fun il_resume :: "iso_library_kont \<Rightarrow> reply \<Rightarrow> (iso_library, iso_library_kont) action" where
  "il_resume IkPoll r w = il_polled r w"
| "il_resume (IkUpload name) r w = (case r of
     Inr ps \<Rightarrow> run [emit (Toast TSuccess (name @ '': upload complete'')), call [GetIsos] IkUploaded] w
   | Inl e \<Rightarrow> run [upd (il_error_update (\<lambda>_. Some (err_message e))),
       emit (Toast TError (name @ '': upload failed'')), upd (il_uploading_update (\<lambda>_. None))] w)"
| "il_resume IkUploaded r w = run [il_polled r, upd (il_uploading_update (\<lambda>_. None))] w"
| "il_resume (IkDelete img) r w = (case r of
     Inr ps \<Rightarrow> run [emit (Toast TSuccess (i_fileName img @ '': deleted'')), call [GetIsos] IkDeleted] w
   | Inl e \<Rightarrow> run [upd (il_error_update (\<lambda>_. Some (err_colon e))),
       emit (Toast TError (i_fileName img @ '': '' @ err_colon e)),
       upd (\<lambda>s. s\<lparr>il_deleting := None, il_confirmDel := None\<rparr>)] w)"
| "il_resume IkDeleted r w = run [il_polled r, upd (\<lambda>s. s\<lparr>il_deleting := None, il_confirmDel := None\<rparr>)] w"

definition il_boot :: "(iso_library, iso_library_kont) world" where
  "il_boot = call [GetIsos] IkPoll (fresh iso_library_init)"

text \<open>\<open>fmt\<close> renders a timestamp in the browser's locale.\<close>

definition il_row :: "(string \<Rightarrow> string) \<Rightarrow> iso_library \<Rightarrow> iso \<Rightarrow> iso_library_event ui" where
  "il_row fmt s img = Box ''row''
     [Txt (i_fileName img), Txt (formatSize (i_sizeBytes img)),
      Txt (case i_uploadedAt img of Some t \<Rightarrow> if t = '''' then em_dash else fmt t | None \<Rightarrow> em_dash),
      Menu (''Actions for '' @ i_fileName img)
        [Item ''Delete'' None (Some (IlAskDelete img)) (il_deleting s = Some (i_id img) \<or> il_uploading s \<noteq> None) None True]]"

definition il_dialog :: "iso_library \<Rightarrow> iso_library_event ui list" where
  "il_dialog s = ConfirmDialog (il_confirmDel s \<noteq> None)
     (''Delete \"'' @ (case il_confirmDel s of Some i \<Rightarrow> i_fileName i | None \<Rightarrow> '''') @ ''\"?'')
     ''The ISO file will be permanently removed from the library. VMs currently using it as install media will be affected.''
     ''Delete'' IlConfirmDelete IlCancelDelete
     (case il_confirmDel s of Some i \<Rightarrow> il_deleting s = Some (i_id i) | None \<Rightarrow> False)"

definition il_view :: "(string \<Rightarrow> string) \<Rightarrow> iso_library \<Rightarrow> iso_library_event ui list" where
  "il_view fmt s =
     [Txt ''ISO Library'',
      Field (if il_uploading s \<noteq> None then ''Uploading '' @ int_str (il_pct s) @ ''%'' else ''Upload ISO'') ''''
        (il_uploading s \<noteq> None) IlFile] @
     (if il_uploading s \<noteq> None then [Box ''iso-progress-fill'' [Num (of_int (il_pct s))]] else []) @
     alert (il_error s) @
     map (il_row fmt s) (il_isos s) @
     (case poll_data (il_poll s) of Some d \<Rightarrow> if snd d = 0 then [Txt ''No ISO images yet''] else [] | None \<Rightarrow> [])"

text \<open>
  The dialog's overlay covers the page. Progress events come only while an upload runs, with
  \<open>0 \<le> loaded \<le> total\<close> and a positive total.
\<close>

definition il_enabled :: "(string \<Rightarrow> string) \<Rightarrow> iso_library \<Rightarrow> iso_library_event \<Rightarrow> bool" where
  "il_enabled fmt s e = (case e of
     IlTick \<Rightarrow> True
   | IlProgress loaded tot \<Rightarrow> il_uploading s \<noteq> None \<and> 0 \<le> loaded \<and> loaded \<le> tot \<and> 0 < tot
   | _ \<Rightarrow> if il_confirmDel s \<noteq> None then offers_any (il_dialog s) e else offers_any (il_view fmt s) e)"

abbreviation il_reach :: "(string \<Rightarrow> string) \<Rightarrow> (iso_library, iso_library_kont) world \<Rightarrow> bool" where
  "il_reach fmt \<equiv> reachable il_boot (il_enabled fmt) il_handle il_resume"

lemma il_file_enabled: "il_enabled fmt s (IlFile name) \<Longrightarrow> il_uploading s = None"
  by (auto simp: il_enabled_def il_dialog_def ConfirmDialog_offers il_view_def offers_any_map il_row_def
      split: if_splits option.splits)

lemma il_confirm_enabled:
  "il_enabled fmt s IlConfirmDelete = (\<exists>i. il_confirmDel s = Some i \<and> il_deleting s \<noteq> Some (i_id i))"
  by (auto simp: il_enabled_def il_dialog_def ConfirmDialog_offers il_view_def offers_any_map il_row_def
      split: if_splits option.splits)

definition is_upload :: "iso_library_kont \<Rightarrow> bool" where
  "is_upload k = (case k of IkUpload n \<Rightarrow> True | IkUploaded \<Rightarrow> True | _ \<Rightarrow> False)"

definition is_delete :: "iso_library_kont \<Rightarrow> bool" where
  "is_delete k = (case k of IkDelete i \<Rightarrow> True | IkDeleted \<Rightarrow> True | _ \<Rightarrow> False)"

lemma iso_konts [simp]:
  "is_upload (IkUpload n)" "is_upload IkUploaded" "\<not> is_upload IkPoll" "\<not> is_upload (IkDelete i)" "\<not> is_upload IkDeleted"
  "\<not> is_delete (IkUpload n)" "\<not> is_delete IkUploaded" "\<not> is_delete IkPoll" "is_delete (IkDelete i)" "is_delete IkDeleted"
  by (simp_all add: is_upload_def is_delete_def)

interpretation il_run: single_flight il_boot "il_enabled fmt" il_handle il_resume "\<lambda>s. il_uploading s \<noteq> None" is_upload
  for fmt
proof unfold_locales
  show "flight is_upload il_boot = 0 \<and> \<not> il_uploading (st il_boot) \<noteq> None"
    by (simp add: il_boot_def iso_library_init_def)
next
  fix w :: "(iso_library, iso_library_kont) world" and e
  assume "\<not> il_uploading (st w) \<noteq> None" "il_enabled fmt (st w) e"
  then show "flight is_upload (il_handle e w) =
      flight is_upload w + (if il_uploading (st (il_handle e w)) \<noteq> None then 1 else 0)"
    by (cases e) (auto simp: onFile_def del_iso_def split: option.splits)
next
  fix w :: "(iso_library, iso_library_kont) world" and e
  assume "il_uploading (st w) \<noteq> None" "il_enabled fmt (st w) e"
  then show "il_uploading (st (il_handle e w)) \<noteq> None \<and> flight is_upload (il_handle e w) = flight is_upload w"
    by (cases e) (auto simp: del_iso_def dest: il_file_enabled split: option.splits)
next
  fix w :: "(iso_library, iso_library_kont) world" and k r
  assume "is_upload k" "il_uploading (st w) \<noteq> None"
  then show "flight is_upload (il_resume k r w) =
      flight is_upload w + (if il_uploading (st (il_resume k r w)) \<noteq> None then 1 else 0)"
    by (cases k) (auto simp: il_polled_def split: sum.splits)
next
  fix w :: "(iso_library, iso_library_kont) world" and k r
  assume "\<not> is_upload k"
  then show "(il_uploading (st (il_resume k r w)) \<noteq> None) = (il_uploading (st w) \<noteq> None)
      \<and> flight is_upload (il_resume k r w) = flight is_upload w"
    by (cases k) (auto simp: il_polled_def split: sum.splits)
qed

interpretation il_slot: busy_slot il_boot "il_enabled fmt" il_handle il_resume "\<lambda>s. il_deleting s \<noteq> None" is_delete
  for fmt
proof unfold_locales
  show "\<not> il_deleting (st il_boot) \<noteq> None" by (simp add: il_boot_def iso_library_init_def)
next
  fix w :: "(iso_library, iso_library_kont) world" and e
  assume "il_deleting (st (il_handle e w)) \<noteq> None"
  then show "flight is_delete w \<le> flight is_delete (il_handle e w)
      \<and> (il_deleting (st w) \<noteq> None \<or> 0 < flight is_delete (il_handle e w))"
    by (cases e) (auto simp: onFile_def del_iso_def split: option.splits if_splits)
next
  fix w :: "(iso_library, iso_library_kont) world" and k r
  assume "is_delete k" "il_deleting (st (il_resume k r w)) \<noteq> None"
  then show "0 < flight is_delete (il_resume k r w)"
    by (cases k) (auto simp: il_polled_def split: sum.splits)
next
  fix w :: "(iso_library, iso_library_kont) world" and k r
  assume "\<not> is_delete k" "il_deleting (st (il_resume k r w)) \<noteq> None"
  then show "il_deleting (st w) \<noteq> None \<and> flight is_delete w \<le> flight is_delete (il_resume k r w)"
    by (cases k) (auto simp: il_polled_def split: sum.splits)
qed

lemma upload_pct_range: "0 \<le> loaded \<Longrightarrow> loaded \<le> tot \<Longrightarrow> 0 < tot \<Longrightarrow> upload_pct loaded tot \<in> {0..100}"
proof -
  assume a: "0 \<le> loaded" "loaded \<le> tot" "0 < tot"
  then have "(0 :: rat) \<le> of_int loaded / of_int tot * 100" "of_int loaded / of_int tot * 100 \<le> (100 :: rat)"
    by (simp_all add: divide_le_eq)
  then show ?thesis
    by (simp add: upload_pct_def math_round_def le_floor_iff floor_le_iff)
qed

definition il_inv :: "(iso_library, iso_library_kont) world \<Rightarrow> bool" where
  "il_inv w \<longleftrightarrow> il_pct (st w) \<in> {0..100} \<and> (\<forall>c \<in> set (calls w). \<forall>name. PostIso name \<in> set (fst c) \<longrightarrow>
     suffix ''.iso'' (js_lower name))"

interpretation il_inv_run: component il_boot "il_enabled fmt" il_handle il_resume il_inv for fmt
proof unfold_locales
  show "il_inv il_boot" by (simp add: il_inv_def il_boot_def iso_library_init_def)
next
  fix w :: "(iso_library, iso_library_kont) world" and e
  assume I: "il_inv w" and en: "il_enabled fmt (st w) e"
  have pct: "il_pct (st (il_handle e w)) \<in> {0..100}"
    using I en upload_pct_range by (cases e) (auto simp: il_inv_def il_enabled_def onFile_def del_iso_def split: option.splits)
  have "calls (il_handle e w) = calls w \<or> (\<exists>c. calls (il_handle e w) = calls w @ [c] \<and>
      (\<forall>name. PostIso name \<in> set (fst c) \<longrightarrow> suffix ''.iso'' (js_lower name)))"
    by (cases e) (auto simp: onFile_def del_iso_def js_ends_with_suffix split: option.splits)
  with I pct show "il_inv (il_handle e w)" by (auto simp: il_inv_def)
next
  fix w :: "(iso_library, iso_library_kont) world" and i r
  assume I: "il_inv w"
  then have T: "il_inv (take_call i w)"
    using set_remove_nth_subset [of i "calls w"] by (auto simp: il_inv_def)
  have "il_pct (st (il_resume k r v)) = il_pct (st v) \<and> (calls (il_resume k r v) = calls v \<or>
      (\<exists>j. calls (il_resume k r v) = calls v @ [([GetIsos], j)]))" for k v
    by (cases k) (auto simp: il_polled_def split: sum.splits)
  from this [of "snd (calls w ! i)" "take_call i w"] T
  show "il_inv (il_resume (snd (calls w ! i)) r (take_call i w))" by (auto simp: il_inv_def)
qed

text \<open>
  In every reachable state of the ISO library at most one upload is in progress, exactly
  while the upload control is disabled; only files whose name ends in \<open>.iso\<close> in any case are
  uploaded; the progress shown is a whole percentage from 0 to 100; and a file marked as
  being deleted has its deletion pending.
\<close>

theorem iso_library_safe:
  assumes "il_reach fmt w"
  shows "flight is_upload w = (if il_uploading (st w) \<noteq> None then 1 else 0)
    \<and> (\<forall>c \<in> set (calls w). \<forall>name. PostIso name \<in> set (fst c) \<longrightarrow> suffix ''.iso'' (js_lower name))
    \<and> 0 \<le> il_pct (st w) \<and> il_pct (st w) \<le> 100
    \<and> (il_deleting (st w) \<noteq> None \<longrightarrow> 0 < flight is_delete w)"
  using il_run.flight_iff_busy [OF assms] il_inv_run.reach_inv [OF assms] il_slot.busy_served [OF assms]
  by (auto simp: il_inv_def)

theorem iso_library_safe_witness:
  "flight is_upload (il_handle (IlProgress 1 3) (il_handle (IlFile ''Debian.ISO'') il_boot)) = 1"
proof -
  let ?w1 = "il_handle (IlFile ''Debian.ISO'') il_boot"
  have n: "js_ends_with (js_lower ''Debian.ISO'') ''.iso''" by code_simp
  have "il_enabled id (st il_boot) (IlFile ''Debian.ISO'')"
    by (simp add: il_enabled_def il_boot_def iso_library_init_def il_view_def)
  then have r1: "il_reach id ?w1" by (rule reachable.event [OF reachable.boot])
  have u: "il_uploading (st ?w1) = Some ''Debian.ISO''" using n by (simp add: onFile_def)
  then have "il_reach id (il_handle (IlProgress 1 3) ?w1)"
    by (intro reachable.event [OF r1]) (simp add: il_enabled_def)
  from iso_library_safe [OF this] u show ?thesis by simp
qed

end
