(* ===== verification/StoragePage.thy ===== *)
theory StoragePage
  imports StorageParts
begin

text \<open>
  The storage page (\<open>frontend/src/pages/Storage.tsx\<close>): the polled pools with their actions and
  totals, the dialog that removes a pool from the listing, and inside it the pool form and
  the ISO library. As on the network page a failed poll unmounts the inner components.
\<close>

record storage_page =
  sp_poll :: "(storage_pool list \<times> int) polling"
  sp_busy :: "string option"
  sp_mount :: nat
  sp_remove :: "storage_pool option"
  sp_pool :: create_pool
  sp_iso :: iso_library

datatype storage_page_event =
    SpTick
  | SpOpenPool
  | SpRefresh storage_pool
  | SpAskRemove storage_pool
  | SpCancelRemove
  | SpConfirmRemove
  | SpPoolEv create_pool_event
  | SpIsoEv iso_library_event

datatype storage_page_kont =
    SkPoll
  | SkAct storage_pool string
  | SkRefresh
  | SkPool nat create_pool_kont
  | SkIso nat iso_library_kont

definition storage_page_init :: storage_page where
  "storage_page_init = \<lparr>sp_poll = poll_init, sp_busy = None, sp_mount = 0, sp_remove = None,
     sp_pool = create_pool_init, sp_iso = iso_library_init\<rparr>"

definition sp_error :: "storage_page \<Rightarrow> string option" where
  "sp_error s = (case poll_error (sp_poll s) of Some m \<Rightarrow> if m = '''' then None else Some m | None \<Rightarrow> None)"

definition sp_pools :: "storage_page \<Rightarrow> storage_pool list" where
  "sp_pools s = (case poll_data (sp_poll s) of Some d \<Rightarrow> fst d | None \<Rightarrow> [])"

definition sp_total :: "storage_page \<Rightarrow> int" where
  "sp_total s = (case poll_data (sp_poll s) of Some d \<Rightarrow> snd d | None \<Rightarrow> 0)"

definition totalCap :: "storage_pool list \<Rightarrow> int" where
  "totalCap pools = sum_by p_capacityBytes pools"

definition totalAlloc :: "storage_pool list \<Rightarrow> int" where
  "totalAlloc pools = sum_by p_allocationBytes pools"

definition sp_used :: "storage_pool list \<Rightarrow> rat option" where
  "sp_used pools = (if totalCap pools \<noteq> 0
     then Some (of_int (totalAlloc pools) / of_int (totalCap pools) * 100) else None)"

subsection \<open>The inner components\<close>

fun sp_pool_effect :: "effect \<Rightarrow> (storage_page, storage_page_kont) action" where
  "sp_pool_effect OnSaved w = call [GetPools] SkPoll w"
| "sp_pool_effect OnClose w = upd (\<lambda>s. s\<lparr>sp_pool := (sp_pool s)\<lparr>cp_open := False\<rparr>\<rparr>) w"
| "sp_pool_effect x w = emit x w"

definition in_pool ::
  "nat \<Rightarrow> (create_pool, create_pool_kont) action \<Rightarrow> (storage_page, storage_page_kont) action" where
  "in_pool m a = embed (\<lambda>p. if sp_mount p = m then sp_pool p else create_pool_init)
     (\<lambda>c p. if sp_mount p = m then p\<lparr>sp_pool := c\<rparr> else p) (SkPool m) sp_pool_effect a"

definition in_iso ::
  "nat \<Rightarrow> (iso_library, iso_library_kont) action \<Rightarrow> (storage_page, storage_page_kont) action" where
  "in_iso m a = embed (\<lambda>p. if sp_mount p = m then sp_iso p else iso_library_init)
     (\<lambda>c p. if sp_mount p = m then p\<lparr>sp_iso := c\<rparr> else p) (SkIso m) emit a"

definition sp_unmount :: "storage_page \<Rightarrow> storage_page" where
  "sp_unmount s = s\<lparr>sp_mount := Suc (sp_mount s),
     sp_pool := create_pool_init\<lparr>cp_open := cp_open (sp_pool s)\<rparr>, sp_iso := iso_library_init\<rparr>"

definition sp_remount :: "(storage_page, storage_page_kont) action" where
  "sp_remount w = call [GetIsos] (SkIso (sp_mount (st w)) IkPoll) w"

definition pools_of :: "payload list \<Rightarrow> (storage_pool list \<times> int) option" where
  "pools_of ps = (case ps of [PPools xs n] \<Rightarrow> Some (xs, n) | _ \<Rightarrow> None)"

definition sp_polled :: "reply \<Rightarrow> (storage_page, storage_page_kont) action" where
  "sp_polled r w =
     (let was = sp_error (st w);
          w1 = upd (sp_poll_update (poll_done (load_with pools_of r))) w;
          now = sp_error (st w1) in
      if was = None \<and> now \<noteq> None then upd sp_unmount w1
      else if was \<noteq> None \<and> now = None then sp_remount w1
      else w1)"

subsection \<open>Handlers\<close>

definition refreshPool :: "storage_pool \<Rightarrow> (storage_page, storage_page_kont) action" where
  "refreshPool pool = run [upd (sp_busy_update (\<lambda>_. Some (p_id pool))),
     call [PostPoolRefresh (p_id pool)] (SkAct pool ''refresh requested'')]"

definition removePool :: "storage_pool \<Rightarrow> (storage_page, storage_page_kont) action" where
  "removePool pool = run [upd (sp_busy_update (\<lambda>_. Some (p_id pool))),
     call [DeletePool (p_id pool)] (SkAct pool ''removed from the listing (data kept)'')]"

fun sp_handle :: "storage_page_event \<Rightarrow> (storage_page, storage_page_kont) action" where
  "sp_handle SpTick w = call [GetPools] SkPoll w"
| "sp_handle SpOpenPool w = in_pool (sp_mount (st w)) (cp_handle (CpOpen True)) w"
| "sp_handle (SpRefresh pool) w = refreshPool pool w"
| "sp_handle (SpAskRemove pool) w = upd (sp_remove_update (\<lambda>_. Some pool)) w"
| "sp_handle SpCancelRemove w = upd (sp_remove_update (\<lambda>_. None)) w"
| "sp_handle SpConfirmRemove w = (case sp_remove (st w) of
     None \<Rightarrow> upd (sp_remove_update (\<lambda>_. None)) w
   | Some p \<Rightarrow> run [upd (sp_remove_update (\<lambda>_. None)), removePool p] w)"
| "sp_handle (SpPoolEv e) w = in_pool (sp_mount (st w)) (cp_handle e) w"
| "sp_handle (SpIsoEv e) w = in_iso (sp_mount (st w)) (il_handle e) w"

fun sp_resume :: "storage_page_kont \<Rightarrow> reply \<Rightarrow> (storage_page, storage_page_kont) action" where
  "sp_resume SkPoll r w = sp_polled r w"
| "sp_resume (SkAct pool done) r w = (case r of
     Inr ps \<Rightarrow> run [emit (Toast TSuccess (p_name pool @ '': '' @ done)), call [GetPools] SkRefresh] w
   | Inl e \<Rightarrow> run [emit (Toast TError (err_named (p_name pool) e)), upd (sp_busy_update (\<lambda>_. None))] w)"
| "sp_resume SkRefresh r w = run [sp_polled r, upd (sp_busy_update (\<lambda>_. None))] w"
| "sp_resume (SkPool m k) r w = in_pool m (cp_resume k r) w"
| "sp_resume (SkIso m k) r w = in_iso m (il_resume k r) w"

definition sp_boot :: "(storage_page, storage_page_kont) world" where
  "sp_boot = run [call [GetPools] SkPoll, call [GetIsos] (SkIso 0 IkPoll)] (fresh storage_page_init)"

subsection \<open>View\<close>

definition pool_pct :: "storage_pool \<Rightarrow> rat" where
  "pool_pct pool = (if p_capacityBytes pool \<noteq> 0
     then of_int (p_allocationBytes pool) / of_int (p_capacityBytes pool) * 100 else 0)"

definition sp_row :: "string option \<Rightarrow> storage_pool \<Rightarrow> storage_page_event ui" where
  "sp_row busy pool = Box (if busy = Some (p_id pool) then ''row-busy'' else '''')
     [Txt (p_name pool), Txt (pool_type_str (p_type pool)),
      Box (''state'' @ (if p_state pool = Active then '' state-running'' else '''')) [Txt (activity_str (p_state pool))],
      Txt (formatBytes (p_capacityBytes pool) 0),
      Txt (int_str (math_round (pool_pct pool)) @ ''%''),
      Box (''metric-bar-fill'' @ (if 85 < pool_pct pool then '' high'' else '''')) [Num (min 100 (pool_pct pool))],
      Txt (formatBytes (p_allocationBytes pool) 0),
      Txt (orelse (p_targetPath pool) em_dash),
      Menu (''Actions for '' @ p_name pool)
        [Item ''Refresh'' None (Some (SpRefresh pool)) (busy = Some (p_id pool) \<or> p_state pool \<noteq> Active)
           (Some ''Re-sync pool usage with the backing storage'') False,
         Item ''Remove from list'' None (Some (SpAskRemove pool)) (busy = Some (p_id pool))
           (Some ''Undefine the pool; files and volumes on disk are kept'') True]]"

definition sp_dialog :: "storage_page \<Rightarrow> storage_page_event ui list" where
  "sp_dialog s = ConfirmDialog (sp_remove s \<noteq> None)
     (''Remove \"'' @ (case sp_remove s of Some p \<Rightarrow> p_name p | None \<Rightarrow> '''') @ ''\" from the listing?'')
     ''The storage pool definition will be removed and it will disappear from this list.''
     ''Remove Pool'' SpConfirmRemove SpCancelRemove
     (case sp_remove s of Some p \<Rightarrow> sp_busy s = Some (p_id p) | None \<Rightarrow> False)"

definition sp_view :: "storage_page \<Rightarrow> storage_page_event ui list" where
  "sp_view s = (case sp_error s of Some m \<Rightarrow> [Txt (''Failed to reach API: '' @ m)] | None \<Rightarrow>
     (let loading = poll_loading (sp_poll s); pools = sp_pools s in
     [Txt ''Storage'',
      Txt (if loading then ''loading'' @ ellipsis else int_str (sp_total s) @ '' storage pools on this host''),
      Btn ''+ Add Pool'' False SpOpenPool,
      MetricCard ''Pools'' [Txt (int_str (sp_total s))]
        (Some [Txt (nat_str (count_if (\<lambda>p. p_state p = Active) pools) @ '' active'')]) None None loading ''blue'',
      MetricCard ''Capacity'' [Txt (formatBytes (totalCap pools) 1)] None None None loading ''blue'',
      MetricCard ''Allocated'' [Txt (formatBytes (totalAlloc pools) 1)]
        (map_option (\<lambda>u. [Txt (int_str (math_round u) @ ''% used'')]) (sp_used pools)) None (sp_used pools) loading ''purple''] @
     (if loading then [TableSkeleton 3 6]
      else if pools = [] then [EmptyState ''No storage pools'' (Some ''Add a pool to store VM disk images.'') []]
      else map (sp_row (sp_busy s)) pools)))"

text \<open>
  The overlays: the dialog of the page, the pool form and the dialog of the ISO library. While
  one is shown the rest of the page cannot be reached.
\<close>

definition sp_overlay :: "storage_page \<Rightarrow> bool" where
  "sp_overlay s = (sp_remove s \<noteq> None \<or> cp_open (sp_pool s) \<or> il_confirmDel (sp_iso s) \<noteq> None)"

definition sp_enabled :: "(string \<Rightarrow> string) \<Rightarrow> storage_page \<Rightarrow> storage_page_event \<Rightarrow> bool" where
  "sp_enabled fmt s e = (case e of
     SpTick \<Rightarrow> True
   | SpPoolEv ce \<Rightarrow> sp_error s = None \<and> (case ce of CpOpen b \<Rightarrow> False | _ \<Rightarrow> cp_enabled (sp_pool s) ce)
   | SpIsoEv ie \<Rightarrow> sp_error s = None \<and> il_enabled fmt (sp_iso s) ie \<and>
       (sp_overlay s \<longrightarrow> il_confirmDel (sp_iso s) \<noteq> None \<or> ie = IlTick \<or> (\<exists>l t. ie = IlProgress l t))
   | SpCancelRemove \<Rightarrow> sp_error s = None \<and> offers_any (sp_dialog s) e
   | SpConfirmRemove \<Rightarrow> sp_error s = None \<and> offers_any (sp_dialog s) e
   | _ \<Rightarrow> \<not> sp_overlay s \<and> offers_any (sp_view s) e)"

abbreviation sp_reach :: "(string \<Rightarrow> string) \<Rightarrow> (storage_page, storage_page_kont) world \<Rightarrow> bool" where
  "sp_reach fmt \<equiv> reachable sp_boot (sp_enabled fmt) sp_handle sp_resume"

subsection \<open>The inner components do not touch the page's own state\<close>

definition is_pool_action :: "storage_page_kont \<Rightarrow> bool" where
  "is_pool_action k = (case k of SkAct n t \<Rightarrow> True | SkRefresh \<Rightarrow> True | _ \<Rightarrow> False)"

lemma is_pool_action_simps [simp]:
  "is_pool_action (SkAct n t)" "is_pool_action SkRefresh" "\<not> is_pool_action SkPoll"
  "\<not> is_pool_action (SkPool m k)" "\<not> is_pool_action (SkIso m k')"
  by (simp_all add: is_pool_action_def)

lemma sp_pool_effect_keeps:
  "sp_busy (st (sp_pool_effect x w)) = sp_busy (st w) \<and> flight is_pool_action (sp_pool_effect x w) = flight is_pool_action w"
  by (cases x) simp_all

lemma in_pool_keeps:
  "sp_busy (st (in_pool m a w)) = sp_busy (st w) \<and> flight is_pool_action (in_pool m a w) = flight is_pool_action w"
  unfolding in_pool_def by (rule embed_keeps) (simp_all add: sp_pool_effect_keeps)

lemma in_iso_keeps:
  "sp_busy (st (in_iso m a w)) = sp_busy (st w) \<and> flight is_pool_action (in_iso m a w) = flight is_pool_action w"
  unfolding in_iso_def by (rule embed_keeps) simp_all

lemmas inner_keeps [simp] =
  in_pool_keeps [THEN conjunct1] in_pool_keeps [THEN conjunct2] in_iso_keeps [THEN conjunct1] in_iso_keeps [THEN conjunct2]

lemma sp_polled_keeps [simp]:
  "sp_busy (st (sp_polled r w)) = sp_busy (st w)" "flight is_pool_action (sp_polled r w) = flight is_pool_action w"
  by (simp_all add: sp_polled_def Let_def sp_unmount_def sp_remount_def)

interpretation sp_slot: busy_slot sp_boot "sp_enabled fmt" sp_handle sp_resume "\<lambda>s. sp_busy s \<noteq> None" is_pool_action
  for fmt
proof unfold_locales
  show "\<not> sp_busy (st sp_boot) \<noteq> None" by (simp add: sp_boot_def storage_page_init_def)
next
  fix w :: "(storage_page, storage_page_kont) world" and e
  assume "sp_busy (st (sp_handle e w)) \<noteq> None"
  then show "flight is_pool_action w \<le> flight is_pool_action (sp_handle e w)
      \<and> (sp_busy (st w) \<noteq> None \<or> 0 < flight is_pool_action (sp_handle e w))"
    by (cases e) (auto simp: refreshPool_def removePool_def split: option.splits)
next
  fix w :: "(storage_page, storage_page_kont) world" and k r
  assume "is_pool_action k" "sp_busy (st (sp_resume k r w)) \<noteq> None"
  then show "0 < flight is_pool_action (sp_resume k r w)"
    by (cases k) (auto split: sum.splits)
next
  fix w :: "(storage_page, storage_page_kont) world" and k r
  assume "\<not> is_pool_action k" "sp_busy (st (sp_resume k r w)) \<noteq> None"
  then show "sp_busy (st w) \<noteq> None \<and> flight is_pool_action w \<le> flight is_pool_action (sp_resume k r w)"
    by (cases k) auto
qed

subsection \<open>Removing a pool\<close>

lemma sp_row_offers:
  "offers (sp_row busy pool) e \<longleftrightarrow> busy \<noteq> Some (p_id pool) \<and>
     (e = SpRefresh pool \<and> p_state pool = Active \<or> e = SpAskRemove pool)"
  by (auto simp: sp_row_def)

lemma sp_view_offers:
  "offers_any (sp_view s) e \<longleftrightarrow> sp_error s = None \<and>
     (e = SpOpenPool \<or> \<not> poll_loading (sp_poll s) \<and> (\<exists>pool \<in> set (sp_pools s). offers (sp_row (sp_busy s) pool) e))"
  by (auto simp: sp_view_def Let_def offers_any_map orelse_def split: option.splits)

text \<open>
  Removing a pool takes two steps: the menu of a listed pool that is not busy opens the
  dialog without a request, the dialog is confirmed only while the pool is not busy, and the
  confirmation closes it, marks the pool as busy and sends exactly the deletion of the pool
  the dialog named. A busy pool always has its action or the refresh pending.
\<close>

theorem remove_pool_confirmed:
  assumes "sp_reach fmt w"
  shows "sp_enabled fmt (st w) (SpAskRemove pool) = (\<not> sp_overlay (st w) \<and> sp_error (st w) = None
      \<and> \<not> poll_loading (sp_poll (st w)) \<and> pool \<in> set (sp_pools (st w)) \<and> sp_busy (st w) \<noteq> Some (p_id pool))
    \<and> calls (sp_handle (SpAskRemove pool) w) = calls w
    \<and> (sp_enabled fmt (st w) SpConfirmRemove \<longrightarrow> (\<exists>p. sp_remove (st w) = Some p \<and> sp_busy (st w) \<noteq> Some (p_id p)
         \<and> sp_remove (st (sp_handle SpConfirmRemove w)) = None
         \<and> sp_busy (st (sp_handle SpConfirmRemove w)) = Some (p_id p)
         \<and> map fst (calls (sp_handle SpConfirmRemove w)) = map fst (calls w) @ [[DeletePool (p_id p)]]))
    \<and> (sp_busy (st w) \<noteq> None \<longrightarrow> 0 < flight is_pool_action w)"
proof (intro conjI impI)
  show "sp_enabled fmt (st w) (SpAskRemove pool) = (\<not> sp_overlay (st w) \<and> sp_error (st w) = None
      \<and> \<not> poll_loading (sp_poll (st w)) \<and> pool \<in> set (sp_pools (st w)) \<and> sp_busy (st w) \<noteq> Some (p_id pool))"
    by (auto simp: sp_enabled_def sp_view_offers sp_row_offers)
  assume "sp_enabled fmt (st w) SpConfirmRemove"
  then obtain p where "sp_remove (st w) = Some p" "sp_busy (st w) \<noteq> Some (p_id p)"
    by (auto simp: sp_enabled_def sp_dialog_def ConfirmDialog_offers)
  then show "\<exists>p. sp_remove (st w) = Some p \<and> sp_busy (st w) \<noteq> Some (p_id p)
         \<and> sp_remove (st (sp_handle SpConfirmRemove w)) = None
         \<and> sp_busy (st (sp_handle SpConfirmRemove w)) = Some (p_id p)
         \<and> map fst (calls (sp_handle SpConfirmRemove w)) = map fst (calls w) @ [[DeletePool (p_id p)]]"
    by (simp add: removePool_def)
qed (simp_all add: sp_slot.busy_served [OF assms])

definition pool0 :: storage_pool where
  "pool0 = \<lparr>p_id = ''default'', p_name = ''default'', p_type = Pool_dir, p_state = Active, p_autostart = Some True,
     p_capacityBytes = 4096, p_allocationBytes = 1024, p_availableBytes = 3072, p_targetPath = None\<rparr>"

theorem remove_pool_confirmed_witness:
  "calls (sp_handle (SpAskRemove pool0) sp_boot) = calls sp_boot \<and> \<not> sp_enabled id (st sp_boot) (SpAskRemove pool0)"
  using remove_pool_confirmed [OF reachable.boot, of id pool0]
  by (simp add: sp_boot_def storage_page_init_def poll_init_def)

subsection \<open>The totals\<close>

text \<open>
  For pools whose allocation lies between 0 and their capacity, the share shown on the
  page's allocation card is a percentage between 0 and 100 and is not clamped by the bar, and
  no share is shown exactly when there is no capacity at all.
\<close>

theorem storage_share_bounds:
  assumes "\<forall>p \<in> set pools. 0 \<le> p_allocationBytes p \<and> p_allocationBytes p \<le> p_capacityBytes p"
  shows "(case sp_used pools of
      None \<Rightarrow> \<forall>p \<in> set pools. p_capacityBytes p = 0
    | Some u \<Rightarrow> 0 \<le> u \<and> u \<le> 100 \<and> clamp_pct u = u \<and> u * of_int (totalCap pools) = 100 * of_int (totalAlloc pools))"
proof -
  have le: "0 \<le> totalAlloc pools" "totalAlloc pools \<le> totalCap pools"
    using assms sum_by_nonneg [of pools p_allocationBytes] sum_list_mono [of pools p_allocationBytes p_capacityBytes]
    by (simp_all add: totalAlloc_def totalCap_def sum_by_sum_list)
  show ?thesis
  proof (cases "totalCap pools = 0")
    case True
    then have "\<forall>p \<in> set pools. p_capacityBytes p = 0"
      using assms sum_list_nonneg_eq_0_iff [of "map p_capacityBytes pools"]
      by (fastforce simp: totalCap_def sum_by_sum_list)
    with True show ?thesis by (simp add: sp_used_def)
  next
    case False
    with le have pos: "0 < totalCap pools" by simp
    define u :: rat where "u = of_int (totalAlloc pools) / of_int (totalCap pools) * 100"
    have "0 \<le> u" "u \<le> 100" using le pos by (simp_all add: u_def divide_le_eq)
    moreover have "u * of_int (totalCap pools) = 100 * of_int (totalAlloc pools)"
      using pos by (simp add: u_def)
    moreover have "sp_used pools = Some u" using False by (simp add: sp_used_def u_def)
    ultimately show ?thesis by (simp add: clamp_pct_id)
  qed
qed

theorem storage_share_bounds_witness: "sp_used [pool0] = Some 25"
proof -
  have "\<forall>p \<in> set [pool0]. 0 \<le> p_allocationBytes p \<and> p_allocationBytes p \<le> p_capacityBytes p"
    by (simp add: pool0_def)
  from storage_share_bounds [OF this] show ?thesis
    by (simp add: sp_used_def totalCap_def totalAlloc_def sum_by_def pool0_def)
qed

end
