(* ===== verification/Wizard.thy ===== *)
theory Wizard
  imports NetworkForms
begin

text \<open>
  The wizard that creates a virtual machine
  (\<open>frontend/src/components/CreateVMWizard.tsx\<close>): its form, the five steps with their
  errors, the load of pools, networks and ISOs when it is opened, and the request it sends.
\<close>

subsection \<open>State\<close>

record wizard_form =
  wf_name :: string
  wf_vcpus :: rat
  wf_memoryGiB :: rat
  wf_poolId :: string
  wf_diskGiB :: rat
  wf_format :: disk_format
  wf_networkId :: string
  wf_isoId :: "string option"
  wf_osType :: os_type
  wf_nicModel :: "nic_model option"
  wf_virtioDriversIsoId :: "string option"
  wf_start :: bool

record wizard =
  wz_open :: bool
  wz_step :: nat
  wz_submitting :: bool
  wz_error :: "string option"
  wz_pools :: "storage_pool list"
  wz_networks :: "network list"
  wz_isos :: "iso list"
  wz_form :: wizard_form

definition wizard_form_init :: wizard_form where
  "wizard_form_init = \<lparr>wf_name = '''', wf_vcpus = 2, wf_memoryGiB = 4, wf_poolId = '''', wf_diskGiB = 40,
     wf_format = Qcow2, wf_networkId = ''default'', wf_isoId = None, wf_osType = Linux, wf_nicModel = None,
     wf_virtioDriversIsoId = None, wf_start = False\<rparr>"

definition wizard_init :: wizard where
  "wizard_init = \<lparr>wz_open = False, wz_step = 0, wz_submitting = False, wz_error = None, wz_pools = [],
     wz_networks = [], wz_isos = [], wz_form = wizard_form_init\<rparr>"

definition STEPS :: "string list" where
  "STEPS = [''General'', ''Storage'', ''Network'', ''Media'', ''Review'']"

definition GiB :: rat where
  "GiB = 1024 * 1024 * 1024"

datatype wizard_event =
    WzOpen bool
  | WzName string
  | WzOs os_type
  | WzVcpus string
  | WzMemory string
  | WzPool string
  | WzDisk string
  | WzFormat disk_format
  | WzNetwork string
  | WzNic "nic_model option"
  | WzIso string
  | WzVirtio string
  | WzStart bool
  | WzStep nat
  | WzBack
  | WzNext
  | WzClose
  | WzSubmit

datatype wizard_kont = KWzLoad | KWzSubmit string

subsection \<open>Derived values\<close>

definition autoNic :: "wizard_form \<Rightarrow> nic_model" where
  "autoNic f = (if wf_osType f = Other then E1000e else Virtio)"

definition effectiveNic :: "wizard_form \<Rightarrow> nic_model" where
  "effectiveNic f = orelse (wf_nicModel f) (autoNic f)"

text \<open>The entries of \<open>stepErrors\<close>; the last two stay empty.\<close>

definition stepErrors :: "wizard_form \<Rightarrow> string list" where
  "stepErrors f =
     [if \<not> rx_test NAME_RE (wf_name f) then ''Name must start with a letter/digit (a-z0-9._-, max 64 chars)''
      else if wf_vcpus f < 1 \<or> wf_vcpus f > 64 then ''vCPUs must be between 1 and 64''
      else if wf_memoryGiB f < 16 / 1000 then ''Memory must be at least 16 MiB''
      else '''',
      if wf_poolId f = '''' then ''Select a storage pool''
      else if wf_diskGiB f < 1 then ''Disk size must be at least 1 GiB''
      else '''',
      if wf_networkId f = '''' then ''Select a network'' else '''',
      '''',
      '''']"

definition selectedPool :: "wizard \<Rightarrow> storage_pool option" where
  "selectedPool s = find (\<lambda>p. p_id p = wf_poolId (wz_form s)) (wz_pools s)"

definition poolFull :: "wizard \<Rightarrow> bool" where
  "poolFull s = (case selectedPool s of
     Some p \<Rightarrow> wf_diskGiB (wz_form s) * GiB > of_int (p_availableBytes p) | None \<Rightarrow> False)"

text \<open>\<open>current || first active || first || ''\<close>.\<close>

definition pick_id :: "string \<Rightarrow> ('a \<Rightarrow> string) \<Rightarrow> ('a \<Rightarrow> activity) \<Rightarrow> 'a list \<Rightarrow> string" where
  "pick_id cur ident state items =
     (if cur \<noteq> '''' then cur
      else (case find (\<lambda>x. state x = Active) items of
          Some x \<Rightarrow> if ident x \<noteq> '''' then ident x else (case items of y # _ \<Rightarrow> ident y | [] \<Rightarrow> '''')
        | None \<Rightarrow> (case items of y # _ \<Rightarrow> ident y | [] \<Rightarrow> '''')))"

subsection \<open>Opening and loading\<close>

definition wz_defaults :: "storage_pool list \<Rightarrow> network list \<Rightarrow> wizard_form \<Rightarrow> wizard_form" where
  "wz_defaults ps ns f = f\<lparr>wf_poolId := pick_id (wf_poolId f) p_id p_state ps,
     wf_networkId := pick_id (wf_networkId f) n_id n_state ns\<rparr>"

definition wz_fail :: "js_error \<Rightarrow> wizard \<Rightarrow> wizard" where
  "wz_fail e s = s\<lparr>wz_error := Some (err_colon e)\<rparr>"

text \<open>
  The three answers are taken in order; one that is \<open>undefined\<close> throws when its \<open>items\<close>
  are read, and what was set before stays.
\<close>

definition wz_loaded :: "reply \<Rightarrow> wizard \<Rightarrow> wizard" where
  "wz_loaded r s = (case r of
     Inl e \<Rightarrow> wz_fail e s
   | Inr [PPools ps a, PNetworks ns b, PIsos is c] \<Rightarrow>
       s\<lparr>wz_pools := ps, wz_networks := ns, wz_isos := is, wz_form := wz_defaults ps ns (wz_form s)\<rparr>
   | Inr [PPools ps a, PNetworks ns b, q] \<Rightarrow>
       wz_fail (reading_undefined ''items'') (s\<lparr>wz_pools := ps, wz_networks := ns\<rparr>)
   | Inr [PPools ps a, p, q] \<Rightarrow> wz_fail (reading_undefined ''items'') (s\<lparr>wz_pools := ps\<rparr>)
   | _ \<Rightarrow> wz_fail (reading_undefined ''items'') s)"

definition wz_open_changed :: "bool \<Rightarrow> (wizard, wizard_kont) action" where
  "wz_open_changed b w =
     (let w1 = upd (wz_open_update (\<lambda>_. b)) w in
      if b \<and> \<not> wz_open (st w)
      then run [upd (\<lambda>s. s\<lparr>wz_step := 0, wz_error := None\<rparr>), call [GetPools, GetNetworks, GetIsos] KWzLoad] w1
      else w1)"

subsection \<open>The request\<close>

definition wz_body :: "wizard_form \<Rightarrow> vm_create" where
  "wz_body f = \<lparr>vc_name = wf_name f, vc_vcpus = wf_vcpus f, vc_memoryBytes = math_round (wf_memoryGiB f * GiB),
     vc_disk = \<lparr>dc_poolId = wf_poolId f, dc_sizeBytes = math_round (wf_diskGiB f * GiB), dc_format = Some (wf_format f)\<rparr>,
     vc_networkId = Some (wf_networkId f), vc_isoId = Some (wf_isoId f), vc_osType = wf_osType f,
     vc_nicModel = wf_nicModel f,
     vc_virtioDriversIsoId = (if wf_osType f = Windows then Some (wf_virtioDriversIsoId f) else None),
     vc_start = Some (wf_start f)\<rparr>"

definition wz_submit :: "(wizard, wizard_kont) action" where
  "wz_submit w = run [upd (\<lambda>s. s\<lparr>wz_submitting := True, wz_error := None\<rparr>),
     call [PostVm (wz_body (wz_form (st w)))] (KWzSubmit (wf_name (wz_form (st w))))] w"

definition task_id_text :: "payload list \<Rightarrow> string" where
  "task_id_text ps = (case ps of [PTask t] \<Rightarrow> t_id t | _ \<Rightarrow> ''undefined'')"

subsection \<open>Handlers\<close>

definition set_form :: "(wizard_form \<Rightarrow> wizard_form) \<Rightarrow> (wizard, wizard_kont) action" where
  "set_form f = upd (\<lambda>s. s\<lparr>wz_form := f (wz_form s)\<rparr>)"

definition or_null :: "string \<Rightarrow> string option" where
  "or_null v = (if v = '''' then None else Some v)"

fun wz_handle :: "wizard_event \<Rightarrow> (wizard, wizard_kont) action" where
  "wz_handle (WzOpen b) w = wz_open_changed b w"
| "wz_handle (WzName v) w = set_form (wf_name_update (\<lambda>_. v)) w"
| "wz_handle (WzOs v) w = set_form (\<lambda>f. f\<lparr>wf_osType := v,
     wf_virtioDriversIsoId := (if v = Windows then wf_virtioDriversIsoId f else None)\<rparr>) w"
| "wz_handle (WzVcpus v) w = set_form (wf_vcpus_update (\<lambda>_. number_or_0 v)) w"
| "wz_handle (WzMemory v) w = set_form (wf_memoryGiB_update (\<lambda>_. number_or_0 v)) w"
| "wz_handle (WzPool v) w = set_form (wf_poolId_update (\<lambda>_. v)) w"
| "wz_handle (WzDisk v) w = set_form (wf_diskGiB_update (\<lambda>_. number_or_0 v)) w"
| "wz_handle (WzFormat v) w = set_form (wf_format_update (\<lambda>_. v)) w"
| "wz_handle (WzNetwork v) w = set_form (wf_networkId_update (\<lambda>_. v)) w"
| "wz_handle (WzNic v) w = set_form (wf_nicModel_update (\<lambda>_. v)) w"
| "wz_handle (WzIso v) w = set_form (wf_isoId_update (\<lambda>_. or_null v)) w"
| "wz_handle (WzVirtio v) w = set_form (wf_virtioDriversIsoId_update (\<lambda>_. or_null v)) w"
| "wz_handle (WzStart b) w = set_form (wf_start_update (\<lambda>_. b)) w"
| "wz_handle (WzStep i) w = (if i < wz_step (st w) then upd (wz_step_update (\<lambda>_. i)) w else w)"
| "wz_handle WzBack w = upd (\<lambda>s. s\<lparr>wz_step := wz_step s - 1\<rparr>) w"
| "wz_handle WzNext w = upd (\<lambda>s. s\<lparr>wz_step := wz_step s + 1\<rparr>) w"
| "wz_handle WzClose w = emit OnClose w"
| "wz_handle WzSubmit w = wz_submit w"

fun wz_resume :: "wizard_kont \<Rightarrow> reply \<Rightarrow> (wizard, wizard_kont) action" where
  "wz_resume KWzLoad r w = upd (wz_loaded r) w"
| "wz_resume (KWzSubmit name) r w = (case r of
     Inr ps \<Rightarrow> run [emit OnSaved,
       emit (Toast TSuccess (''Creation of '' @ name @ '' started (task '' @ task_id_text ps @ ''). Follow the progress in Tasks.'')),
       emit OnClose, upd (wz_submitting_update (\<lambda>_. False))] w
   | Inl e \<Rightarrow> upd (\<lambda>s. s\<lparr>wz_error := Some (err_colon e), wz_submitting := False\<rparr>) w)"

subsection \<open>View\<close>

definition os_of :: "string \<Rightarrow> os_type" where
  "os_of v = (if v = ''windows'' then Windows else if v = ''other'' then Other else Linux)"

definition format_of :: "string \<Rightarrow> disk_format" where
  "format_of v = (if v = ''raw'' then Raw else Qcow2)"

definition nic_of :: "string \<Rightarrow> nic_model option" where
  "nic_of v = (if v = ''virtio'' then Some Virtio else if v = ''e1000e'' then Some E1000e
     else if v = ''rtl8139'' then Some Rtl8139 else None)"

definition iso_option :: "iso \<Rightarrow> string \<times> string \<times> bool" where
  "iso_option i = (i_id i, i_fileName i @ '' ('' @ formatBytes (i_sizeBytes i) 0 @ '')'', False)"

definition wz_general :: "wizard \<Rightarrow> wizard_event ui list" where
  "wz_general s = (let f = wz_form s; dis = wz_submitting s in
     [Field ''Name'' (wf_name f) dis WzName,
      Sel ''Operating system'' (os_str (wf_osType f)) dis
        [(''linux'', ''Linux'', False), (''windows'', ''Windows'', False), (''other'', ''Other (max compatibility)'', False)]
        (\<lambda>v. WzOs (os_of v)),
      Field ''vCPUs'' (num_str (wf_vcpus f)) dis WzVcpus,
      Field ''Memory (GiB)'' (num_str (wf_memoryGiB f)) dis WzMemory])"

definition wz_storage :: "wizard \<Rightarrow> wizard_event ui list" where
  "wz_storage s = (let f = wz_form s; dis = wz_submitting s in
     [Sel ''Storage pool'' (wf_poolId f) dis
        (map (\<lambda>p. (p_id p, p_name p @ '' ('' @ activity_str (p_state p) @ '', '' @ formatBytes (p_availableBytes p) 1 @ '' free)'', False))
           (wz_pools s) @ (if wz_pools s = [] then [('''', ''No pools available'', False)] else [])) WzPool,
      Field ''Disk size (GiB)'' (num_str (wf_diskGiB f)) dis WzDisk,
      Sel ''Format'' (format_str (wf_format f)) dis [(''qcow2'', ''qcow2'', False), (''raw'', ''raw'', False)] (\<lambda>v. WzFormat (format_of v))] @
     (if poolFull s then [Txt (''Disk size exceeds the free space in '' @
        (case selectedPool s of Some p \<Rightarrow> p_name p @ '' ('' @ formatBytes (p_availableBytes p) 1 | None \<Rightarrow> '''') @ '').'')] else []))"

definition wz_network :: "wizard \<Rightarrow> wizard_event ui list" where
  "wz_network s = (let f = wz_form s; dis = wz_submitting s in
     [Sel ''Network'' (wf_networkId f) dis
        (map (\<lambda>n. (n_id n, n_name n @ '' ('' @ activity_str (n_state n) @
             (case n_ipAddress n of Some a \<Rightarrow> if a = '''' then '''' else '', '' @ a @ ''/'' @
                 (case n_ipPrefix n of Some p \<Rightarrow> int_str p | None \<Rightarrow> ''null'') | None \<Rightarrow> '''') @ '')'', False))
           (wz_networks s) @ (if wz_networks s = [] then [('''', ''No networks available'', False)] else [])) WzNetwork,
      Sel ''Adapter model'' (case wf_nicModel f of Some m \<Rightarrow> nic_str m | None \<Rightarrow> '''') dis
        [('''', ''Automatic '' @ em_dash @ '' '' @ nic_str (autoNic f) @ '' (from the '' @ os_str (wf_osType f) @ '' profile)'', False),
         (''virtio'', ''virtio'', False), (''e1000e'', ''e1000e'', False), (''rtl8139'', ''rtl8139'', False)]
        (\<lambda>v. WzNic (nic_of v)),
      Txt (''The VM gets one '' @ nic_str (effectiveNic f) @ '' NIC on the selected network.'')] @
     (if wf_osType f = Windows \<and> effectiveNic f = Virtio then [Txt ''Windows has no in-box virtio driver''] else []))"

definition wz_media :: "wizard \<Rightarrow> wizard_event ui list" where
  "wz_media s = (let f = wz_form s; dis = wz_submitting s in
     [Sel ''Installation media (ISO)'' (orelse (wf_isoId f) '''') dis
        (('''', ''None'', False) # map iso_option (wz_isos s)) WzIso] @
     (if wz_isos s = [] then [Txt ''No ISOs in the library yet''] else []) @
     (if wf_isoId f \<noteq> None \<and> wf_isoId f \<noteq> Some '''' then [Txt ''The ISO is attached as a SATA CD-ROM and set as the first boot device''] else []) @
     (if wf_osType f = Windows
      then [Sel ''VirtIO drivers ISO (Windows)'' (orelse (wf_virtioDriversIsoId f) '''') dis
          (('''', ''None'', False) # map iso_option (filter (\<lambda>i. js_includes (js_lower (i_fileName i)) ''virtio'') (wz_isos s))) WzVirtio,
        Txt ''Without the drivers ISO the Windows installer cannot see the virtio-scsi disk.'']
      else []))"

definition wz_review :: "wizard \<Rightarrow> wizard_event ui list" where
  "wz_review s = (let f = wz_form s in
     [KV ''Name'' (Some [Txt (wf_name f)]), KV ''vCPUs'' (Some [Txt (num_str (wf_vcpus f))]),
      KV ''Memory'' (Some [Txt (num_str (wf_memoryGiB f) @ '' GiB'')]),
      KV ''Disk'' (Some [Txt (num_str (wf_diskGiB f) @ '' GiB '' @ format_str (wf_format f) @ '' '' @ mid_dot @ '' pool '' @ wf_poolId f)]),
      KV ''Network'' (Some [Txt (wf_networkId f @ '' ('' @ nic_str (effectiveNic f) @ '')'')]),
      KV ''Install media'' (Some [Txt (orelse (wf_isoId f) ''none'')]),
      Check ''Power on immediately after creation'' (wf_start f) (wz_submitting s) WzStart,
      KV ''Power on'' (Some [Txt (if wf_start f then ''yes'' else ''no (left stopped)'')])])"

definition wz_foot :: "wizard \<Rightarrow> wizard_event ui list" where
  "wz_foot s = (let step = wz_step s; last = (step = length STEPS - 1) in
     [Btn ''Cancel'' (wz_submitting s) WzClose] @
     (if step > 0 then [Btn ''Back'' (wz_submitting s) WzBack] else []) @
     (if last
      then [Btn (if wz_submitting s then ''Creating'' @ ellipsis else ''Create VM'') (wz_submitting s \<or> poolFull s) WzSubmit]
      else [Btn ''Next'' (stepErrors (wz_form s) ! step \<noteq> '''' \<or> wz_submitting s) WzNext]))"

definition wz_view :: "wizard \<Rightarrow> wizard_event ui list" where
  "wz_view s = (if \<not> wz_open s then [] else
     (let step = wz_step s in
     [Txt ''Create Virtual Machine'', Btn ''Close'' (wz_submitting s) WzClose] @
     map (\<lambda>i. Btn (STEPS ! i) (\<not> i < step) (WzStep i)) [0..<length STEPS] @
     alert (wz_error s) @
     (if step = 0 then wz_general s else []) @
     (if step = 1 then wz_storage s else []) @
     (if step = 2 then wz_network s else []) @
     (if step = 3 then wz_media s else []) @
     (if step = 4 then wz_review s else []) @
     (if stepErrors (wz_form s) ! step \<noteq> '''' \<and> step \<noteq> length STEPS - 1 then [Txt (stepErrors (wz_form s) ! step)] else []) @
     wz_foot s))"

definition wz_enabled :: "wizard \<Rightarrow> wizard_event \<Rightarrow> bool" where
  "wz_enabled s e = (case e of WzOpen b \<Rightarrow> True | _ \<Rightarrow> offers_any (wz_view s) e)"

abbreviation wz_reach :: "(wizard, wizard_kont) world \<Rightarrow> bool" where
  "wz_reach \<equiv> reachable (fresh wizard_init) wz_enabled wz_handle wz_resume"

subsection \<open>What each step offers\<close>

lemma wz_general_offers: "offers_any (wz_general s) e \<Longrightarrow> \<not> wz_submitting s \<and>
    ((\<exists>v. e = WzName v) \<or> (\<exists>v. e = WzOs v) \<or> (\<exists>v. e = WzVcpus v) \<or> (\<exists>v. e = WzMemory v))"
  by (auto simp: wz_general_def Let_def)

lemma wz_storage_offers: "offers_any (wz_storage s) e \<Longrightarrow> \<not> wz_submitting s \<and>
    ((\<exists>v. e = WzPool v) \<or> (\<exists>v. e = WzDisk v) \<or> (\<exists>v. e = WzFormat v))"
  by (auto simp: wz_storage_def Let_def list_ex_iff split: if_splits)

lemma wz_network_offers: "offers_any (wz_network s) e \<Longrightarrow> \<not> wz_submitting s \<and>
    ((\<exists>v. e = WzNetwork v) \<or> (\<exists>v. e = WzNic v))"
  by (auto simp: wz_network_def Let_def list_ex_iff split: if_splits)

lemma wz_media_offers: "offers_any (wz_media s) e \<Longrightarrow> \<not> wz_submitting s \<and>
    ((\<exists>v. e = WzIso v) \<or> (\<exists>v. e = WzVirtio v))"
  by (auto simp: wz_media_def Let_def list_ex_iff iso_option_def split: if_splits)

lemma wz_review_offers: "offers_any (wz_review s) e \<Longrightarrow> \<not> wz_submitting s \<and> (\<exists>b. e = WzStart b)"
  by (auto simp: wz_review_def Let_def)

lemmas wz_step_offers = wz_general_offers wz_storage_offers wz_network_offers wz_media_offers wz_review_offers

lemma length_STEPS [simp]: "length STEPS = 5"
  by (simp add: STEPS_def)

definition wz_event_ok :: "wizard \<Rightarrow> wizard_event \<Rightarrow> bool" where
  "wz_event_ok s e = (case e of
     WzOpen b \<Rightarrow> True
   | WzName v \<Rightarrow> wz_step s = 0 | WzOs v \<Rightarrow> wz_step s = 0 | WzVcpus v \<Rightarrow> wz_step s = 0 | WzMemory v \<Rightarrow> wz_step s = 0
   | WzPool v \<Rightarrow> wz_step s = 1 | WzDisk v \<Rightarrow> wz_step s = 1 | WzFormat v \<Rightarrow> wz_step s = 1
   | WzNetwork v \<Rightarrow> wz_step s = 2 | WzNic v \<Rightarrow> wz_step s = 2
   | WzIso v \<Rightarrow> wz_step s = 3 | WzVirtio v \<Rightarrow> wz_step s = 3
   | WzStart b \<Rightarrow> wz_step s = 4
   | WzStep i \<Rightarrow> i < wz_step s
   | WzBack \<Rightarrow> 0 < wz_step s
   | WzNext \<Rightarrow> wz_step s \<noteq> 4 \<and> stepErrors (wz_form s) ! wz_step s = ''''
   | WzClose \<Rightarrow> True
   | WzSubmit \<Rightarrow> wz_step s = 4 \<and> \<not> poolFull s)"

lemma wz_view_offers:
  assumes "offers_any (wz_view s) e"
  shows "(\<exists>i. e = WzStep i \<and> i < wz_step s) \<or> \<not> wz_submitting s \<and>
    (e = WzClose \<or> wz_step s = 0 \<and> offers_any (wz_general s) e \<or> wz_step s = 1 \<and> offers_any (wz_storage s) e
     \<or> wz_step s = 2 \<and> offers_any (wz_network s) e \<or> wz_step s = 3 \<and> offers_any (wz_media s) e
     \<or> wz_step s = 4 \<and> offers_any (wz_review s) e \<or> e = WzBack \<and> 0 < wz_step s
     \<or> e = WzSubmit \<and> wz_step s = 4 \<and> \<not> poolFull s
     \<or> e = WzNext \<and> wz_step s \<noteq> 4 \<and> stepErrors (wz_form s) ! wz_step s = '''')"
  using assms by (auto simp: wz_view_def wz_foot_def Let_def offers_any_map split: if_splits dest: wz_step_offers)

lemma wz_enabled_event: "wz_enabled s e \<Longrightarrow> wz_event_ok s e"
  by (cases e) (auto simp: wz_enabled_def wz_event_ok_def dest!: wz_view_offers wz_step_offers)

lemma wz_busy_disables: "wz_submitting s \<Longrightarrow> wz_enabled s e \<Longrightarrow> (\<exists>b. e = WzOpen b) \<or> (\<exists>i. e = WzStep i)"
  by (cases e) (auto simp: wz_enabled_def dest!: wz_view_offers)

subsection \<open>One submission at a time\<close>

lemma wz_loaded_frame [simp]:
  "wz_submitting (wz_loaded r s) = wz_submitting s" "wz_step (wz_loaded r s) = wz_step s"
  by (auto simp: wz_loaded_def wz_fail_def split: sum.splits list.splits payload.splits)

interpretation wz_run: single_flight "fresh wizard_init" wz_enabled wz_handle wz_resume
    wz_submitting "\<lambda>k. k \<noteq> KWzLoad"
proof unfold_locales
  show "flight (\<lambda>k. k \<noteq> KWzLoad) (fresh wizard_init) = 0 \<and> \<not> wz_submitting (st (fresh wizard_init))"
    by (simp add: wizard_init_def)
next
  fix w :: "(wizard, wizard_kont) world" and e assume "\<not> wz_submitting (st w)" "wz_enabled (st w) e"
  then show "flight (\<lambda>k. k \<noteq> KWzLoad) (wz_handle e w) =
      flight (\<lambda>k. k \<noteq> KWzLoad) w + (if wz_submitting (st (wz_handle e w)) then 1 else 0)"
    by (cases e) (simp_all add: set_form_def wz_submit_def wz_open_changed_def Let_def)
next
  fix w :: "(wizard, wizard_kont) world" and e assume "wz_submitting (st w)" "wz_enabled (st w) e"
  then show "wz_submitting (st (wz_handle e w)) \<and> flight (\<lambda>k. k \<noteq> KWzLoad) (wz_handle e w) = flight (\<lambda>k. k \<noteq> KWzLoad) w"
    using wz_busy_disables [of "st w" e] by (auto simp: wz_open_changed_def Let_def)
next
  fix w :: "(wizard, wizard_kont) world" and k r assume "k \<noteq> KWzLoad" "wz_submitting (st w)"
  then show "flight (\<lambda>k. k \<noteq> KWzLoad) (wz_resume k r w) =
      flight (\<lambda>k. k \<noteq> KWzLoad) w + (if wz_submitting (st (wz_resume k r w)) then 1 else 0)"
    by (cases k) (auto split: sum.splits)
next
  fix w :: "(wizard, wizard_kont) world" and k r assume "\<not> k \<noteq> KWzLoad"
  then show "wz_submitting (st (wz_resume k r w)) = wz_submitting (st w)
      \<and> flight (\<lambda>k. k \<noteq> KWzLoad) (wz_resume k r w) = flight (\<lambda>k. k \<noteq> KWzLoad) w"
    by simp
qed

subsection \<open>Past steps have no errors\<close>

definition steps_ok :: "wizard \<Rightarrow> bool" where
  "steps_ok s \<longleftrightarrow> wz_step s \<le> 4 \<and> (\<forall>j < wz_step s. stepErrors (wz_form s) ! j = '''')"

lemma less_numerals: "j < 4 \<longleftrightarrow> j = 0 \<or> j = 1 \<or> j = 2 \<or> j = (3 :: nat)" "j < 3 \<longleftrightarrow> j = 0 \<or> j = 1 \<or> j = (2 :: nat)"
  "j < 2 \<longleftrightarrow> j = 0 \<or> j = (1 :: nat)"
  by auto

lemma steps_ok_cong: "steps_ok s \<Longrightarrow> wz_step s' = wz_step s \<Longrightarrow>
    (\<And>j. j < wz_step s \<Longrightarrow> stepErrors (wz_form s') ! j = stepErrors (wz_form s) ! j) \<Longrightarrow> steps_ok s'"
  by (simp add: steps_ok_def)

lemma pick_id_kept: "cur \<noteq> '''' \<Longrightarrow> pick_id cur ident state items = cur"
  by (simp add: pick_id_def)

lemma step_error_pool: "stepErrors f ! 1 = '''' \<longleftrightarrow> wf_poolId f \<noteq> '''' \<and> 1 \<le> wf_diskGiB f"
  by (auto simp: stepErrors_def)

lemma step_error_network: "stepErrors f ! 2 = '''' \<longleftrightarrow> wf_networkId f \<noteq> ''''"
  by (auto simp: stepErrors_def)

lemma step_error_general: "stepErrors f ! 0 = '''' \<longleftrightarrow>
    rx_test NAME_RE (wf_name f) \<and> 1 \<le> wf_vcpus f \<and> wf_vcpus f \<le> 64 \<and> 16 / 1000 \<le> wf_memoryGiB f"
  by (auto simp: stepErrors_def)

lemma step_error_rest [simp]: "stepErrors f ! 3 = ''''" "stepErrors f ! 4 = ''''"
  by (simp_all add: stepErrors_def)

lemma steps_ok_loaded: "steps_ok s \<Longrightarrow> steps_ok (wz_loaded r s)"
proof -
  assume ok: "steps_ok s"
  have keep: "stepErrors (wz_defaults ps ns f) ! j = ''''" if "j < n" "n \<le> 4" "\<forall>j < n. stepErrors f ! j = ''''" for ps ns f j n
  proof -
    have j: "j = 0 \<or> j = 1 \<or> j = 2 \<or> j = 3" "stepErrors f ! j = ''''" using that by (auto simp: less_numerals)
    from j(1) show ?thesis
    proof (elim disjE)
      assume "j = 0" with j(2) show ?thesis by (simp add: step_error_general wz_defaults_def)
    next
      assume "j = 1" with j(2) show ?thesis by (simp only: step_error_pool) (simp add: wz_defaults_def pick_id_kept)
    next
      assume "j = 2" with j(2) show ?thesis by (simp only: step_error_network) (simp add: wz_defaults_def pick_id_kept)
    qed simp
  qed
  have "wz_form (wz_loaded r s) = wz_form s \<or> (\<exists>ps ns. wz_form (wz_loaded r s) = wz_defaults ps ns (wz_form s))"
    by (auto simp: wz_loaded_def wz_fail_def split: sum.splits list.splits payload.splits)
  with ok keep show ?thesis unfolding steps_ok_def by auto
qed

lemma steps_ok_event: "steps_ok (st w) \<Longrightarrow> wz_event_ok (st w) e \<Longrightarrow> steps_ok (st (wz_handle e w))"
proof (cases e)
  case WzNext
  assume "steps_ok (st w)" "wz_event_ok (st w) e"
  with WzNext show ?thesis by (auto simp: steps_ok_def wz_event_ok_def less_Suc_eq)
next
  case (WzOpen b)
  assume "steps_ok (st w)"
  with WzOpen show ?thesis by (simp add: steps_ok_def wz_open_changed_def Let_def)
next
  case WzBack
  assume "steps_ok (st w)" "wz_event_ok (st w) e"
  with WzBack show ?thesis by (auto simp: steps_ok_def)
next
  case (WzStep i)
  assume "steps_ok (st w)"
  with WzStep show ?thesis by (auto simp: steps_ok_def)
qed (auto simp: steps_ok_def wz_event_ok_def set_form_def wz_submit_def less_numerals step_error_general
    step_error_pool step_error_network simp del: One_nat_def)

interpretation wz_steps_run: component "fresh wizard_init" wz_enabled wz_handle wz_resume "\<lambda>w. steps_ok (st w)"
proof unfold_locales
  show "steps_ok (st (fresh wizard_init))" by (simp add: steps_ok_def wizard_init_def)
next
  fix w :: "(wizard, wizard_kont) world" and e assume "steps_ok (st w)" "wz_enabled (st w) e"
  then show "steps_ok (st (wz_handle e w))" using wz_enabled_event by (intro steps_ok_event)
next
  fix w :: "(wizard, wizard_kont) world" and i r assume "steps_ok (st w)"
  then show "steps_ok (st (wz_resume (snd (calls w ! i)) r (take_call i w)))"
    using steps_ok_loaded [of "st w" r] by (cases "snd (calls w ! i)") (auto simp: steps_ok_def split: sum.splits)
qed

subsection \<open>The requests of the wizard\<close>

definition vm_create_ok :: "vm_create \<Rightarrow> bool" where
  "vm_create_ok b = (rx_test NAME_RE (vc_name b) \<and> 1 \<le> vc_vcpus b \<and> vc_vcpus b \<le> 64
     \<and> 17179869 \<le> vc_memoryBytes b
     \<and> dc_poolId (vc_disk b) \<noteq> '''' \<and> 1024 ^ 3 \<le> dc_sizeBytes (vc_disk b)
     \<and> (\<exists>n. vc_networkId b = Some n \<and> n \<noteq> '''')
     \<and> (vc_virtioDriversIsoId b \<noteq> None) = (vc_osType b = Windows))"

lemma wz_body_ok:
  assumes "steps_ok s" "wz_step s = 4"
  shows "vm_create_ok (wz_body (wz_form s))"
proof -
  let ?f = "wz_form s"
  have e: "stepErrors ?f ! 0 = ''''" "stepErrors ?f ! 1 = ''''" "stepErrors ?f ! 2 = ''''"
    using assms by (simp_all add: steps_ok_def del: One_nat_def)
  have g: "rx_test NAME_RE (wf_name ?f)" "1 \<le> wf_vcpus ?f" "wf_vcpus ?f \<le> 64" "16 / 1000 \<le> wf_memoryGiB ?f"
    using e(1) unfolding step_error_general by auto
  have p: "wf_poolId ?f \<noteq> ''''" "1 \<le> wf_diskGiB ?f" using e(2) unfolding step_error_pool by auto
  have n: "wf_networkId ?f \<noteq> ''''" using e(3) unfolding step_error_network by auto
  have "17179869 \<le> math_round (wf_memoryGiB ?f * GiB)"
    using g(4) by (simp add: math_round_def le_floor_iff GiB_def)
  moreover have "1024 ^ 3 \<le> math_round (wf_diskGiB ?f * GiB)"
    using p(2) by (simp add: math_round_def le_floor_iff GiB_def)
  ultimately show ?thesis using g p n by (simp add: vm_create_ok_def wz_body_def)
qed

definition wz_requests_ok :: "(wizard, wizard_kont) world \<Rightarrow> bool" where
  "wz_requests_ok w = (steps_ok (st w) \<and> (\<forall>c \<in> set (calls w). fst c = [GetPools, GetNetworks, GetIsos] \<or>
     (\<exists>b. fst c = [PostVm b] \<and> vm_create_ok b)))"

interpretation wz_requests_run: component "fresh wizard_init" wz_enabled wz_handle wz_resume wz_requests_ok
proof unfold_locales
  show "wz_requests_ok (fresh wizard_init)"
    using wz_steps_run.inv_boot by (simp add: wz_requests_ok_def)
next
  fix w :: "(wizard, wizard_kont) world" and e assume I: "wz_requests_ok w" and en: "wz_enabled (st w) e"
  have "steps_ok (st (wz_handle e w))" using I en wz_steps_run.inv_event by (auto simp: wz_requests_ok_def)
  moreover have "calls (wz_handle e w) = calls w \<or> (\<exists>c. calls (wz_handle e w) = calls w @ [c] \<and>
      (fst c = [GetPools, GetNetworks, GetIsos] \<or> (\<exists>b. fst c = [PostVm b] \<and> vm_create_ok b)))"
    using I wz_enabled_event [OF en] wz_body_ok [of "st w"]
    by (cases e) (auto simp: set_form_def wz_submit_def wz_open_changed_def Let_def wz_requests_ok_def wz_event_ok_def)
  ultimately show "wz_requests_ok (wz_handle e w)" using I by (auto simp: wz_requests_ok_def)
next
  fix w :: "(wizard, wizard_kont) world" and i r assume I: "wz_requests_ok w" and i: "i < length (calls w)"
    and r: "reply_ok (fst (calls w ! i)) r"
  have "steps_ok (st (wz_resume (snd (calls w ! i)) r (take_call i w)))"
    using I i r wz_steps_run.inv_reply by (auto simp: wz_requests_ok_def)
  moreover have "calls (wz_resume (snd (calls w ! i)) r (take_call i w)) = remove_nth i (calls w)"
    by (cases "snd (calls w ! i)") (auto split: sum.splits)
  ultimately show "wz_requests_ok (wz_resume (snd (calls w ! i)) r (take_call i w))"
    using I set_remove_nth_subset [of i "calls w"] by (auto simp: wz_requests_ok_def)
qed

text \<open>
  C3. However the user moves between the steps, and whenever the lists arrive, every machine
  the wizard asks for has an accepted name, 1 to 64 virtual CPUs, at least 0.016 GiB of
  memory, a disk of at least one GiB in some pool, a network, and a drivers ISO member
  exactly for Windows; and at most one such request is pending, exactly while the wizard is
  disabled.
\<close>

theorem wizard_requests:
  assumes "wz_reach w"
  shows "(\<forall>c \<in> set (calls w). fst c = [GetPools, GetNetworks, GetIsos] \<or> (\<exists>b. fst c = [PostVm b] \<and> vm_create_ok b))
    \<and> flight (\<lambda>k. k \<noteq> KWzLoad) w = (if wz_submitting (st w) then 1 else 0)
    \<and> wz_step (st w) < length STEPS"
  using wz_requests_run.reach_inv [OF assms] wz_run.flight_iff_busy [OF assms]
  by (simp add: wz_requests_ok_def steps_ok_def)

definition pool_x :: storage_pool where
  "pool_x = \<lparr>p_id = ''default'', p_name = ''default'', p_type = Pool_dir, p_state = Active, p_autostart = None,
     p_capacityBytes = 10 ^ 12, p_allocationBytes = 0, p_availableBytes = 10 ^ 12, p_targetPath = None\<rparr>"

definition wizard_script :: "wizard_event stimulus list" where
  "wizard_script =
    [Ev (WzOpen True), Ev (WzName ''app01''), Settle 0 (Inr [PPools [pool_x] 1, PNetworks [] 0, PIsos [] 0]),
     Ev WzNext, Ev WzNext, Ev WzNext, Ev WzNext, Ev WzSubmit]"

lemma wizard_example:
  "\<exists>w. play wz_enabled wz_handle wz_resume wizard_script (fresh wizard_init) = Some w \<and> length (calls w) = 1"
proof -
  have v: "rx_test NAME_RE ''app01''" by code_simp
  have p: "p_id pool_x = ''default''" "p_state pool_x = Active" "p_availableBytes pool_x = 10 ^ 12"
    by (simp_all add: pool_x_def)
  show ?thesis
    by (simp add: wizard_script_def wz_enabled_def wz_view_def wz_foot_def Let_def wizard_init_def wizard_form_init_def wz_open_changed_def
        wz_general_def set_form_def wz_loaded_def wz_defaults_def pick_id_def stepErrors_def STEPS_def v p
        poolFull_def selectedPool_def GiB_def wz_submit_def reply_ok_def upt_rec)
qed

theorem wizard_requests_witness:
  "\<exists>w. play wz_enabled wz_handle wz_resume wizard_script (fresh wizard_init) = Some w
     \<and> length (calls w) = 1 \<and> wz_step (st w) < length STEPS"
proof -
  obtain w where w: "play wz_enabled wz_handle wz_resume wizard_script (fresh wizard_init) = Some w" "length (calls w) = 1"
    using wizard_example by blast
  from wizard_requests [OF play_reachable [OF reachable.boot w(1)]] w show ?thesis by blast
qed

subsection \<open>Defaults and limits\<close>

text \<open>
  When the lists arrive in a form that has no pool yet, the first active pool is chosen,
  or the first one if none is active. The form starts with the network named \<open>default\<close>, so
  the same rule never chooses a network: whatever networks there are, \<open>default\<close> stays and
  the network step shows no error.
\<close>

theorem wizard_defaults:
  assumes "\<forall>p \<in> set ps. p_id p \<noteq> []"
  shows "wf_poolId (wz_defaults ps ns wizard_form_init) =
      (case filter (\<lambda>p. p_state p = Active) ps of p # _ \<Rightarrow> p_id p | [] \<Rightarrow> (case ps of p # _ \<Rightarrow> p_id p | [] \<Rightarrow> []))
    \<and> wf_networkId (wz_defaults ps ns wizard_form_init) = ''default''
    \<and> stepErrors (wz_defaults ps ns wizard_form_init) ! 2 = []"
proof -
  have f: "find P xs = (case filter P xs of x # _ \<Rightarrow> Some x | [] \<Rightarrow> None)" for P and xs :: "storage_pool list"
    by (induction xs) auto
  have "p_id p \<noteq> []" if "filter (\<lambda>p. p_state p = Active) ps = p # rest" for p rest
  proof -
    have "p \<in> set (filter (\<lambda>p. p_state p = Active) ps)" by (simp add: that)
    with assms show ?thesis by simp
  qed
  then show ?thesis unfolding step_error_network
    by (auto simp: wz_defaults_def wizard_form_init_def pick_id_def f split: list.splits)
qed

theorem wizard_defaults_witness:
  "wf_poolId (wz_defaults [pool_x\<lparr>p_id := ''off'', p_state := Inactive\<rparr>, pool_x] [] wizard_form_init) = ''default''"
  using wizard_defaults [of "[pool_x\<lparr>p_id := ''off'', p_state := Inactive\<rparr>, pool_x]" "[]"]
  by (simp add: pool_x_def)

text \<open>
  The checks of the first step are not the ones its messages name: 16 MiB of memory, the
  stated minimum, are refused, and a fractional number of virtual CPUs is accepted and sent.
\<close>

theorem wizard_limits:
  "stepErrors (f\<lparr>wf_name := ''app01'', wf_vcpus := 2, wf_memoryGiB := 16 / 1024\<rparr>) ! 0 = ''Memory must be at least 16 MiB''
   \<and> math_round (16 / 1024 * GiB) = 16 * 1024 * 1024
   \<and> stepErrors (f\<lparr>wf_name := ''app01'', wf_vcpus := 3 / 2, wf_memoryGiB := 4\<rparr>) ! 0 = []
   \<and> vc_vcpus (wz_body (f\<lparr>wf_vcpus := number_or_0 ''1.5''\<rparr>)) = 3 / 2"
proof -
  have v: "rx_test NAME_RE ''app01''" by code_simp
  have n: "number_or_0 ''1.5'' = 3 / 2" by code_simp
  have m: "math_round (16 / 1024 * GiB) = 16 * 1024 * 1024" by (simp add: math_round_def GiB_def floor_eq_iff)
  show ?thesis by (intro conjI m) (simp_all add: stepErrors_def v n wz_body_def)
qed

end
