(* ===== verification/VmsPage.thy ===== *)
theory VmsPage
  imports Wizard
begin

text \<open>
  The list of virtual machines (\<open>frontend/src/pages/VirtualMachines.tsx\<close>): the polled machines
  and host, search, filter and order, the actions of a row with their dialogs, and the
  wizard inside the page. \<open>localeCompare\<close> is a parameter \<open>lc\<close>.
\<close>

subsection \<open>State\<close>

datatype status_filter = FAll | FRunning | FStopped | FOther

datatype sort_key = ByName | ByState | ByVcpus | ByMemory | ByUptime

datatype confirm_action = CStop | CDelete | CDeleteDisks

datatype view_mode = VTable | VGrid

record vms_data =
  vd_vms :: "(vm list \<times> int) option"
  vd_host :: "host option"

record vms_page =
  vp_query :: string
  vp_status :: status_filter
  vp_sort :: sort_key
  vp_mode :: view_mode
  vp_busy :: "string option"
  vp_confirm :: "(vm \<times> confirm_action) option"
  vp_poll :: "vms_data polling"
  vp_wizard :: wizard

definition vms_page_init :: "string option \<Rightarrow> vms_page" where
  "vms_page_init q = \<lparr>vp_query = orelse q '''', vp_status = FAll, vp_sort = ByName, vp_mode = VTable,
     vp_busy = None, vp_confirm = None, vp_poll = poll_init, vp_wizard = wizard_init\<rparr>"

datatype vms_page_event =
    VpTick
  | VpRefresh
  | VpQuery string
  | VpStatus status_filter
  | VpSort sort_key
  | VpMode view_mode
  | VpOpenWizard
  | VpOpenVm vm
  | VpRun vm power_action
  | VpAsk vm confirm_action
  | VpCancel
  | VpConfirm
  | VpWizardEv wizard_event

datatype vms_page_kont = VkPoll | VkAct vm string | VkRefresh | VkWizard wizard_kont

text \<open>
  Reading the machines of an answer that was \<open>undefined\<close> throws while the page renders, and
  the page is gone.
\<close>

definition vp_crashed :: "vms_page \<Rightarrow> bool" where
  "vp_crashed s = (case poll_data (vp_poll s) of Some d \<Rightarrow> vd_vms d = None | None \<Rightarrow> False)"

definition vp_items :: "vms_page \<Rightarrow> vm list" where
  "vp_items s = (case poll_data (vp_poll s) of
     Some d \<Rightarrow> (case vd_vms d of Some (vs, n) \<Rightarrow> vs | None \<Rightarrow> []) | None \<Rightarrow> [])"

definition vp_host :: "vms_page \<Rightarrow> host option" where
  "vp_host s = (case poll_data (vp_poll s) of Some d \<Rightarrow> vd_host d | None \<Rightarrow> None)"

subsection \<open>Search, filter and order\<close>

definition vm_matches :: "string \<Rightarrow> status_filter \<Rightarrow> vm \<Rightarrow> bool" where
  "vm_matches query status v =
     (let q = js_lower (js_trim query) in
      if q \<noteq> '''' \<and> \<not> js_includes (js_lower (v_name v)) q \<and> \<not> js_includes (js_lower (orelse (v_os v) '''')) q then False
      else (case status of
          FRunning \<Rightarrow> v_state v = Running
        | FStopped \<Rightarrow> v_state v = Stopped
        | FOther \<Rightarrow> v_state v \<noteq> Running \<and> v_state v \<noteq> Stopped
        | FAll \<Rightarrow> True))"

definition vm_compare :: "(string \<Rightarrow> string \<Rightarrow> int) \<Rightarrow> sort_key \<Rightarrow> vm \<Rightarrow> vm \<Rightarrow> int" where
  "vm_compare lc key a b = (case key of
     ByState \<Rightarrow> lc (vm_state_str (v_state a)) (vm_state_str (v_state b))
   | ByVcpus \<Rightarrow> v_vcpus b - v_vcpus a
   | ByMemory \<Rightarrow> v_memoryBytes b - v_memoryBytes a
   | ByUptime \<Rightarrow> orelse (v_uptimeSeconds b) 0 - orelse (v_uptimeSeconds a) 0
   | ByName \<Rightarrow> lc (v_name a) (v_name b))"

definition vp_filtered :: "(string \<Rightarrow> string \<Rightarrow> int) \<Rightarrow> vms_page \<Rightarrow> vm list" where
  "vp_filtered lc s = js_sort (vm_compare lc (vp_sort s))
     (filter (vm_matches (vp_query s) (vp_status s)) (vp_items s))"

subsection \<open>The wizard inside the page\<close>

fun vp_wizard_effect :: "effect \<Rightarrow> (vms_page, vms_page_kont) action" where
  "vp_wizard_effect OnSaved w = call [GetVms, GetHost] VkPoll w"
| "vp_wizard_effect OnClose w = upd (\<lambda>s. s\<lparr>vp_wizard := (vp_wizard s)\<lparr>wz_open := False\<rparr>\<rparr>) w"
| "vp_wizard_effect x w = emit x w"

definition in_wizard :: "(wizard, wizard_kont) action \<Rightarrow> (vms_page, vms_page_kont) action" where
  "in_wizard a = embed vp_wizard (\<lambda>c s. s\<lparr>vp_wizard := c\<rparr>) VkWizard vp_wizard_effect a"

subsection \<open>Handlers\<close>

definition vms_data_of :: "payload list \<Rightarrow> vms_data option" where
  "vms_data_of ps = Some (case ps of
     [p, q] \<Rightarrow> \<lparr>vd_vms = (case p of PVms vs n \<Rightarrow> Some (vs, n) | _ \<Rightarrow> None),
                vd_host = (case q of PHost h \<Rightarrow> Some h | _ \<Rightarrow> None)\<rparr>
   | _ \<Rightarrow> \<lparr>vd_vms = None, vd_host = None\<rparr>)"

definition vp_polled :: "reply \<Rightarrow> (vms_page, vms_page_kont) action" where
  "vp_polled r = upd (vp_poll_update (poll_done (load_with vms_data_of r)))"

definition vm_path :: "vm \<Rightarrow> string" where
  "vm_path v = ''/vms/'' @ v_id v"

definition run_vm_action :: "vm \<Rightarrow> power_action \<Rightarrow> (vms_page, vms_page_kont) action" where
  "run_vm_action v a = run [upd (vp_busy_update (\<lambda>_. Some (v_id v))),
     call [PostVmAction (v_id v) a]
       (VkAct v ((if a = AStop then ''force stop'' else action_str a) @ '' requested''))]"

definition delete_vm :: "vm \<Rightarrow> bool \<Rightarrow> (vms_page, vms_page_kont) action" where
  "delete_vm v deleteDisks = run [upd (vp_busy_update (\<lambda>_. Some (v_id v))),
     call [DeleteVm (v_id v) deleteDisks]
       (VkAct v (''deleted'' @ (if deleteDisks then '' (disks removed)'' else '''')))]"

definition vp_settle :: "(vms_page, vms_page_kont) action" where
  "vp_settle = upd (\<lambda>s. s\<lparr>vp_busy := None, vp_confirm := None\<rparr>)"

fun vp_handle :: "vms_page_event \<Rightarrow> (vms_page, vms_page_kont) action" where
  "vp_handle VpTick w = call [GetVms, GetHost] VkPoll w"
| "vp_handle VpRefresh w = call [GetVms, GetHost] VkPoll w"
| "vp_handle (VpQuery q) w = upd (vp_query_update (\<lambda>_. q)) w"
| "vp_handle (VpStatus f) w = upd (vp_status_update (\<lambda>_. f)) w"
| "vp_handle (VpSort k) w = upd (vp_sort_update (\<lambda>_. k)) w"
| "vp_handle (VpMode m) w = upd (vp_mode_update (\<lambda>_. m)) w"
| "vp_handle VpOpenWizard w = in_wizard (wz_handle (WzOpen True)) w"
| "vp_handle (VpOpenVm v) w = emit (Navigate (vm_path v)) w"
| "vp_handle (VpRun v a) w = run_vm_action v a w"
| "vp_handle (VpAsk v a) w = upd (vp_confirm_update (\<lambda>_. Some (v, a))) w"
| "vp_handle VpCancel w = upd (vp_confirm_update (\<lambda>_. None)) w"
| "vp_handle VpConfirm w = (case vp_confirm (st w) of
     Some (v, CStop) \<Rightarrow> run_vm_action v AStop w
   | Some (v, CDelete) \<Rightarrow> delete_vm v False w
   | Some (v, CDeleteDisks) \<Rightarrow> delete_vm v True w
   | None \<Rightarrow> w)"
| "vp_handle (VpWizardEv e) w = in_wizard (wz_handle e) w"

fun vp_resume :: "vms_page_kont \<Rightarrow> reply \<Rightarrow> (vms_page, vms_page_kont) action" where
  "vp_resume VkPoll r w = vp_polled r w"
| "vp_resume (VkAct v done) r w = (case r of
     Inr ps \<Rightarrow> run [emit (Toast TSuccess (v_name v @ '': '' @ done)), call [GetVms, GetHost] VkRefresh] w
   | Inl e \<Rightarrow> run [emit (Toast TError (err_named (v_name v) e)), vp_settle] w)"
| "vp_resume VkRefresh r w = run [vp_polled r, vp_settle] w"
| "vp_resume (VkWizard k) r w = in_wizard (wz_resume k r) w"

definition vp_boot :: "string option \<Rightarrow> (vms_page, vms_page_kont) world" where
  "vp_boot q = call [GetVms, GetHost] VkPoll (fresh (vms_page_init q))"

text \<open>
  A row opens the machine on a click outside its links, buttons and menu, and on Enter
  wherever the focus is in the row.
\<close>

definition row_click :: "bool \<Rightarrow> vm \<Rightarrow> vms_page_event option" where
  "row_click on_control v = (if on_control then None else Some (VpOpenVm v))"

definition row_keydown :: "string \<Rightarrow> vm \<Rightarrow> vms_page_event option" where
  "row_keydown key v = (if key = ''Enter'' then Some (VpOpenVm v) else None)"

subsection \<open>View\<close>

definition vm_menu :: "string option \<Rightarrow> vm \<Rightarrow> vms_page_event item list" where
  "vm_menu busy v =
     (let running = (v_state v = Running);
          startable = (v_state v = Stopped \<or> v_state v = Error_state);
          b = (busy = Some (v_id v)) in
      [Item ''Open'' (Some (vm_path v)) None False None False,
       Item ''Open Console'' None None True (Some ''Console access is not available yet'') False,
       Separator,
       Item ''Start'' None (Some (VpRun v AStart)) (b \<or> \<not> startable)
         (Some (if startable then ''Power on'' else ''VM is not stopped'')) False,
       Item ''Shutdown'' None (Some (VpRun v AShutdown)) (b \<or> \<not> running) (Some ''Graceful ACPI shutdown'') False,
       Item ''Reboot'' None (Some (VpRun v AReboot)) (b \<or> \<not> running) (Some ''Graceful ACPI reboot'') False,
       Separator,
       Item ''Force Stop'' None (Some (VpAsk v CStop)) (b \<or> \<not> running)
         (Some (''Pull the power cable '' @ em_dash @ '' data loss possible'')) True,
       Separator,
       Item ''Delete (keep disks)'' None (Some (VpAsk v CDelete)) (b \<or> \<not> startable)
         (Some (if startable then ''Remove the VM configuration; disk volumes stay in the pool'' else ''VM must be stopped to delete'')) True,
       Item ''Delete + disks'' None (Some (VpAsk v CDeleteDisks)) (b \<or> \<not> startable)
         (Some (if startable then ''Remove the VM configuration AND delete its disk volumes (frees space)'' else ''VM must be stopped to delete'')) True])"

definition vm_cpu :: "vm \<Rightarrow> rat option" where
  "vm_cpu v = (case v_metrics v of Some m \<Rightarrow> m_cpuPercent m | None \<Rightarrow> None)"

definition vm_mem_used :: "vm \<Rightarrow> int option" where
  "vm_mem_used v = (case v_metrics v of Some m \<Rightarrow> m_memoryUsedBytes m | None \<Rightarrow> None)"

definition vp_row :: "host option \<Rightarrow> string option \<Rightarrow> vm \<Rightarrow> vms_page_event ui" where
  "vp_row host busy v = Box (''row-clickable'' @ (if busy = Some (v_id v) then '' row-busy'' else ''''))
     ([Btn (''Open '' @ v_name v @ '' details'') False (VpOpenVm v), Lnk (v_name v) (vm_path v)] @
      (case v_os v of Some os \<Rightarrow> if os = '''' then [] else [Txt os] | None \<Rightarrow> []) @
      [StateBadge (v_state v), Txt (int_str (v_vcpus v)),
       ProgressMetric (vm_cpu v) ''CPU'' False None,
       Txt (formatBytes (orelse (vm_mem_used v) (v_memoryBytes v)) 1),
       Txt (if vm_mem_used v \<noteq> None then ''of '' @ formatBytes (v_memoryBytes v) 1 else ''allocated''),
       Txt (orelse (v_ipAddress v) ''n/a''),
       Txt (if v_state v = Running then formatUptime (v_uptimeSeconds v) else em_dash),
       Txt (case host of Some h \<Rightarrow> h_hostname h | None \<Rightarrow> em_dash),
       Txt em_dash,
       Menu (''Actions for '' @ v_name v) (vm_menu busy v)])"

definition vp_card :: "vm \<Rightarrow> vms_page_event ui" where
  "vp_card v = Box ''vm-grid-card'' [Lnk (v_name v) (vm_path v), StateBadge (v_state v), Txt (orelse (v_os v) ''Unknown OS''),
     Txt (int_str (v_vcpus v) @ '' vCPU''), Txt (formatBytes (v_memoryBytes v) 0), Txt (orelse (v_ipAddress v) ''no IP'')]"

definition ratio_pct :: "int \<Rightarrow> int \<Rightarrow> rat" where
  "ratio_pct part whole = of_int part / of_int whole * 100"

definition stor_pct :: "host option \<Rightarrow> rat option" where
  "stor_pct host = (case host of None \<Rightarrow> None | Some h \<Rightarrow>
     (case (h_storageTotalBytes h, h_storageUsedBytes h) of
        (Some t, Some u) \<Rightarrow> if t \<noteq> 0 then Some (ratio_pct u t) else None
      | _ \<Rightarrow> None))"

text \<open>The host's total memory is positive.\<close>

definition vp_metrics :: "vms_page \<Rightarrow> vms_page_event ui list" where
  "vp_metrics s =
     (let loading = poll_loading (vp_poll s); host = vp_host s; items = vp_items s;
          cpu = map_option (\<lambda>h. orelse (c_usagePercent (h_cpu h)) 0) host;
          mem = map_option (\<lambda>h. ratio_pct (h_memoryUsedBytes h) (h_memoryTotalBytes h)) host;
          bytes = (\<lambda>f d. case host of Some h \<Rightarrow> formatBytes (f h) d | None \<Rightarrow> em_dash);
          pct_used = map_option (\<lambda>p. [Txt (int_str (math_round p) @ ''% used'')]) in
      [MetricCard ''Total VMs'' [Txt (if loading then '''' else nat_str (length items))] None None None loading ''blue'',
       MetricCard ''Running'' [Txt (nat_str (count_if (\<lambda>v. v_state v = Running) items))] None (Some ''ok'') None loading ''blue'',
       MetricCard ''CPU Usage'' [Txt (case cpu of Some c \<Rightarrow> to_fixed c 0 @ ''%'' | None \<Rightarrow> em_dash)]
         (map_option (\<lambda>h. [Txt (int_str (c_threads (h_cpu h)) @ '' threads'')]) host) None cpu loading ''blue'',
       MetricCard ''Memory Usage'' [Txt (bytes h_memoryUsedBytes 0 @ '' / '' @ bytes h_memoryTotalBytes 0)]
         (pct_used mem) None mem loading ''violet'',
       MetricCard ''Storage Usage''
         [Txt (bytes (\<lambda>h. orelse (h_storageUsedBytes h) 0) 1 @ '' / '' @ bytes (\<lambda>h. orelse (h_storageTotalBytes h) 0) 1)]
         (pct_used (stor_pct host)) None (stor_pct host) loading ''purple''])"

definition status_of :: "string \<Rightarrow> status_filter" where
  "status_of v = (if v = ''running'' then FRunning else if v = ''stopped'' then FStopped
     else if v = ''other'' then FOther else FAll)"

fun status_str :: "status_filter \<Rightarrow> string" where
  "status_str FAll = ''all''" | "status_str FRunning = ''running''"
| "status_str FStopped = ''stopped''" | "status_str FOther = ''other''"

definition sort_of :: "string \<Rightarrow> sort_key" where
  "sort_of v = (if v = ''state'' then ByState else if v = ''vcpus'' then ByVcpus
     else if v = ''memory'' then ByMemory else if v = ''uptime'' then ByUptime else ByName)"

fun sort_str :: "sort_key \<Rightarrow> string" where
  "sort_str ByName = ''name''" | "sort_str ByState = ''state''" | "sort_str ByVcpus = ''vcpus''"
| "sort_str ByMemory = ''memory''" | "sort_str ByUptime = ''uptime''"

definition vp_filters :: "vms_page \<Rightarrow> vms_page_event ui list" where
  "vp_filters s =
     [Field ''Search VMs'' (vp_query s) False VpQuery,
      Sel ''Filter by status'' (status_str (vp_status s)) False
        [(''all'', ''All statuses'', False), (''running'', ''Running'', False), (''stopped'', ''Stopped'', False), (''other'', ''Other'', False)]
        (\<lambda>v. VpStatus (status_of v)),
      Txt ''All tags (n/a)'',
      Sel ''Sort by'' (sort_str (vp_sort s)) False
        [(''name'', ''Sort: Name'', False), (''state'', ''Sort: Status'', False), (''vcpus'', ''Sort: vCPU'', False),
         (''memory'', ''Sort: Memory'', False), (''uptime'', ''Sort: Uptime'', False)]
        (\<lambda>v. VpSort (sort_of v)),
      Btn ''table'' False (VpMode VTable), Btn ''grid'' False (VpMode VGrid), Btn ''Refresh'' False VpRefresh]"

definition vp_list :: "(string \<Rightarrow> string \<Rightarrow> int) \<Rightarrow> vms_page \<Rightarrow> vms_page_event ui list" where
  "vp_list lc s =
     (let filtered = vp_filtered lc s; items = vp_items s in
      if poll_loading (vp_poll s) then [TableSkeleton 5 8]
      else if filtered = [] then
        [EmptyState (if items = [] then ''No virtual machines yet'' else ''No VMs match the current filters'')
           (Some (if items = [] then ''Create your first virtual machine to get started.'' else ''Try adjusting the search or status filter.''))
           (if items = [] then [Btn ''+ Create VM'' False VpOpenWizard] else [])]
      else if vp_mode s = VGrid then map vp_card filtered
      else map (vp_row (vp_host s) (vp_busy s)) filtered)"

definition vp_view :: "(string \<Rightarrow> string \<Rightarrow> int) \<Rightarrow> vms_page \<Rightarrow> vms_page_event ui list" where
  "vp_view lc s = (if vp_crashed s then [] else
     [Txt ''Virtual Machines'',
      Txt (''Manage and monitor your virtual machines on '' @ (case vp_host s of Some h \<Rightarrow> h_hostname h | None \<Rightarrow> ellipsis) @ ''.''),
      Btn ''+ Create VM'' False VpOpenWizard] @
     (case poll_error (vp_poll s) of Some m \<Rightarrow> if m = '''' then [] else [Txt (''Failed to reach API: '' @ m)] | None \<Rightarrow> []) @
     vp_metrics s @ vp_filters s @ vp_list lc s)"

definition vp_dialog :: "vms_page \<Rightarrow> vms_page_event ui list" where
  "vp_dialog s = (case vp_confirm s of
     None \<Rightarrow> []
   | Some (v, a) \<Rightarrow>
       (let b = (vp_busy s = Some (v_id v)) in
        ConfirmDialog (a = CStop) (''Force stop \"'' @ v_name v @ ''\"?'')
          ''This is equivalent to pulling the power cable.'' ''Force Stop'' VpConfirm VpCancel b @
        ConfirmDialog (a = CDelete) (''Delete \"'' @ v_name v @ ''\"?'')
          ''The virtual machine definition will be removed. Its disk volumes remain in the storage pool.'' ''Delete VM'' VpConfirm VpCancel b @
        ConfirmDialog (a = CDeleteDisks) (''Delete \"'' @ v_name v @ ''\" and its disks?'')
          ''The virtual machine and all of its disk volumes will be permanently deleted.'' ''Delete + Disks'' VpConfirm VpCancel b))"

definition vp_enabled :: "(string \<Rightarrow> string \<Rightarrow> int) \<Rightarrow> vms_page \<Rightarrow> vms_page_event \<Rightarrow> bool" where
  "vp_enabled lc s e = (\<not> vp_crashed s \<and> (case e of
     VpTick \<Rightarrow> True
   | VpWizardEv we \<Rightarrow> (case we of WzOpen b \<Rightarrow> False | _ \<Rightarrow> wz_enabled (vp_wizard s) we)
   | VpConfirm \<Rightarrow> offers_any (vp_dialog s) e
   | VpCancel \<Rightarrow> offers_any (vp_dialog s) e
   | _ \<Rightarrow> \<not> wz_open (vp_wizard s) \<and> vp_confirm s = None \<and> offers_any (vp_view lc s) e))"

abbreviation vp_reach :: "(string \<Rightarrow> string \<Rightarrow> int) \<Rightarrow> string option \<Rightarrow> (vms_page, vms_page_kont) world \<Rightarrow> bool" where
  "vp_reach lc q \<equiv> reachable (vp_boot q) (vp_enabled lc) vp_handle vp_resume"

subsection \<open>Search, filter and order\<close>

lemma comparator_map: "comparator lc \<Longrightarrow> comparator (\<lambda>a b. lc (f a) (f b))"
  unfolding comparator_def by blast

lemma comparator_vm: "comparator lc \<Longrightarrow> comparator (vm_compare lc key)"
  using comparator_map [of lc v_name] comparator_map [of lc "\<lambda>v. vm_state_str (v_state v)"]
    comparator_key [of v_vcpus] comparator_key [of v_memoryBytes] comparator_key [of "\<lambda>v. orelse (v_uptimeSeconds v) 0"]
  by (cases key) (simp_all add: vm_compare_def [abs_def])


text \<open>A comparison by character codes, to have an instance of \<open>localeCompare\<close>.\<close>

definition char_code :: "char \<Rightarrow> nat" where
  "char_code c = of_char c"

fun code_compare :: "string \<Rightarrow> string \<Rightarrow> int" where
  "code_compare [] [] = 0"
| "code_compare [] (b # t) = -1"
| "code_compare (a # s) [] = 1"
| "code_compare (a # s) (b # t) =
     (if char_code a < char_code b then -1 else if char_code b < char_code a then 1 else code_compare s t)"

lemma code_compare_total: "code_compare s t \<le> 0 \<or> code_compare t s \<le> 0"
  by (induction s t rule: code_compare.induct) auto

lemma code_compare_trans: "code_compare s t \<le> 0 \<Longrightarrow> code_compare t u \<le> 0 \<Longrightarrow> code_compare s u \<le> 0"
proof (induction s t arbitrary: u rule: code_compare.induct)
  case (2 b t)
  then show ?case by (cases u) auto
next
  case (4 a s b t)
  show ?case
  proof (cases u)
    case Nil
    then show ?thesis using "4.prems" by simp
  next
    case (Cons c v)
    have ab: "char_code a \<le> char_code b" "char_code a = char_code b \<Longrightarrow> code_compare s t \<le> 0"
      and bc: "char_code b \<le> char_code c" "char_code b = char_code c \<Longrightarrow> code_compare t v \<le> 0"
      using "4.prems" Cons by (simp_all split: if_splits)
    show ?thesis
    proof (cases "char_code a < char_code c")
      case True
      with Cons show ?thesis by simp
    next
      case False
      with ab bc have eq: "char_code a = char_code b" "char_code b = char_code c" by linarith+
      with "4.IH" [of v] ab(2) bc(2) have "code_compare s v \<le> 0" by simp
      with eq Cons show ?thesis by simp
    qed
  qed
qed auto

lemma comparator_code: "comparator code_compare"
  unfolding comparator_def using code_compare_total code_compare_trans by blast

definition vm0 :: vm where
  "vm0 = \<lparr>v_id = ''app'', v_name = ''app'', v_state = Stopped, v_vcpus = 2, v_memoryBytes = 1024, v_uptimeSeconds = None,
     v_os = None, v_ipAddress = None, v_isoId = None, v_disks = [], v_networkInterfaces = [], v_metrics = None,
     v_bootTime = None, v_osType = None, v_performanceProfile = None, v_warnings = None\<rparr>"

definition vms_example :: vms_page where
  "vms_example = (vms_page_init None)\<lparr>vp_sort := ByVcpus,
     vp_poll := \<lparr>poll_data = Some \<lparr>vd_vms = Some ([vm0, vm0\<lparr>v_name := ''db'', v_vcpus := 4\<rparr>], 2), vd_host = None\<rparr>,
       poll_error = None, poll_loading = False\<rparr>\<rparr>"


subsection \<open>What a row offers\<close>

definition vm_startable :: "vm \<Rightarrow> bool" where
  "vm_startable v = (v_state v = Stopped \<or> v_state v = Error_state)"

lemma vm_menu_offers [simp]:
  "list_ex (\<lambda>it. item_offers it e) (vm_menu busy v) \<longleftrightarrow> busy \<noteq> Some (v_id v) \<and>
     (vm_startable v \<and> e \<in> {VpRun v AStart, VpAsk v CDelete, VpAsk v CDeleteDisks}
      \<or> v_state v = Running \<and> e \<in> {VpRun v AShutdown, VpRun v AReboot, VpAsk v CStop})"
  by (auto simp: vm_menu_def Let_def vm_startable_def)

lemma vp_row_offers:
  "offers (vp_row host busy v) e \<longleftrightarrow> e = VpOpenVm v \<or> list_ex (\<lambda>it. item_offers it e) (vm_menu busy v)"
  unfolding vp_row_def by (cases "v_os v") (simp_all del: vm_menu_offers)

lemma vp_card_offers [simp]: "\<not> offers (vp_card v) e"
  by (simp add: vp_card_def)

lemma vp_metrics_offers [simp]: "\<not> offers_any (vp_metrics s) e"
  by (auto simp: vp_metrics_def Let_def orelse_def split: option.splits)

lemma set_vp_filtered: "set (vp_filtered lc s) = {v \<in> set (vp_items s). vm_matches (vp_query s) (vp_status s) v}"
  by (auto simp: vp_filtered_def set_js_sort)

definition is_row_event :: "vms_page_event \<Rightarrow> bool" where
  "is_row_event e = (case e of VpRun v a \<Rightarrow> True | VpAsk v a \<Rightarrow> True | _ \<Rightarrow> False)"

lemma vp_filters_offers: "is_row_event e \<Longrightarrow> \<not> offers_any (vp_filters s) e"
  by (cases e) (auto simp: vp_filters_def is_row_event_def)

lemma vp_list_offers: "is_row_event e \<Longrightarrow> offers_any (vp_list lc s) e \<longleftrightarrow>
    \<not> poll_loading (vp_poll s) \<and> vp_mode s = VTable \<and>
    (\<exists>v \<in> set (vp_filtered lc s). list_ex (\<lambda>it. item_offers it e) (vm_menu (vp_busy s) v))"
  by (cases "vp_mode s"; cases e)
    (auto simp: vp_list_def Let_def offers_any_map vp_row_offers is_row_event_def simp del: vm_menu_offers)

lemma vp_view_offers: "is_row_event e \<Longrightarrow> offers_any (vp_view lc s) e \<longleftrightarrow> \<not> vp_crashed s \<and> offers_any (vp_list lc s) e"
  using vp_filters_offers [of e s]
  by (cases e) (auto simp: vp_view_def is_row_event_def split: option.splits)

lemma vp_view_row:
  "offers_any (vp_view lc s) (VpRun v a) \<longleftrightarrow> \<not> vp_crashed s \<and> \<not> poll_loading (vp_poll s) \<and> vp_mode s = VTable
     \<and> v \<in> set (vp_items s) \<and> vm_matches (vp_query s) (vp_status s) v \<and> vp_busy s \<noteq> Some (v_id v)
     \<and> (vm_startable v \<and> a = AStart \<or> v_state v = Running \<and> a \<in> {AShutdown, AReboot})"
  "offers_any (vp_view lc s) (VpAsk v c) \<longleftrightarrow> \<not> vp_crashed s \<and> \<not> poll_loading (vp_poll s) \<and> vp_mode s = VTable
     \<and> v \<in> set (vp_items s) \<and> vm_matches (vp_query s) (vp_status s) v \<and> vp_busy s \<noteq> Some (v_id v)
     \<and> (vm_startable v \<and> c \<in> {CDelete, CDeleteDisks} \<or> v_state v = Running \<and> c = CStop)"
  by (auto simp: vp_view_offers vp_list_offers is_row_event_def set_vp_filtered)

definition row_visible :: "vms_page \<Rightarrow> vm \<Rightarrow> bool" where
  "row_visible s v = (\<not> vp_crashed s \<and> \<not> wz_open (vp_wizard s) \<and> vp_confirm s = None \<and> \<not> poll_loading (vp_poll s)
     \<and> vp_mode s = VTable \<and> v \<in> set (vp_items s) \<and> vm_matches (vp_query s) (vp_status s) v
     \<and> vp_busy s \<noteq> Some (v_id v))"

lemma vp_enabled_row:
  "vp_enabled lc s (VpRun v a) = (row_visible s v \<and> (case a of
       AStart \<Rightarrow> v_state v \<in> {Stopped, Error_state} | AStop \<Rightarrow> False | _ \<Rightarrow> v_state v = Running))"
  "vp_enabled lc s (VpAsk v c) = (row_visible s v \<and> (case c of
       CStop \<Rightarrow> v_state v = Running | _ \<Rightarrow> v_state v \<in> {Stopped, Error_state}))"
  unfolding vp_enabled_def row_visible_def
  by ((cases a; auto simp: vp_view_row vm_startable_def), (cases c; auto simp: vp_view_row vm_startable_def))

text \<open>
  The actions of a machine's row: start and both deletions exactly for a machine that is
  stopped or in error, shutdown, reboot and force stop exactly for a running one; a force
  stop never without the dialog; nothing while the machine is busy, under a dialog or the
  wizard, before the first load, in the grid, or for a machine that the filters hide.
\<close>

theorem vm_actions_guarded:
  "let visible = (\<not> vp_crashed s \<and> \<not> wz_open (vp_wizard s) \<and> vp_confirm s = None \<and> \<not> poll_loading (vp_poll s)
       \<and> vp_mode s = VTable \<and> v \<in> set (vp_items s) \<and> vm_matches (vp_query s) (vp_status s) v
       \<and> vp_busy s \<noteq> Some (v_id v))
   in vp_enabled lc s (VpRun v a) = (visible \<and> (case a of
          AStart \<Rightarrow> v_state v \<in> {Stopped, Error_state} | AStop \<Rightarrow> False | _ \<Rightarrow> v_state v = Running))
    \<and> vp_enabled lc s (VpAsk v c) = (visible \<and> (case c of
          CStop \<Rightarrow> v_state v = Running | _ \<Rightarrow> v_state v \<in> {Stopped, Error_state}))"
  by (simp add: Let_def vp_enabled_row row_visible_def)

subsection \<open>Destructive requests\<close>

definition destructive :: "request \<Rightarrow> bool" where
  "destructive r = (fst (operation r) = DELETE \<or> (\<exists>i. r = PostVmAction i AStop))"

definition confirmed_request :: "vm \<times> confirm_action \<Rightarrow> request" where
  "confirmed_request c = (case c of
     (v, CStop) \<Rightarrow> PostVmAction (v_id v) AStop
   | (v, CDelete) \<Rightarrow> DeleteVm (v_id v) False
   | (v, CDeleteDisks) \<Rightarrow> DeleteVm (v_id v) True)"

lemma in_wizard_calls:
  "\<exists>new. calls (in_wizard (wz_handle e) w) = calls w @ new \<and> (\<forall>c \<in> set new. \<forall>r \<in> set (fst c). \<not> destructive r)"
  by (cases e) (auto simp: in_wizard_def embed_def Let_def wz_open_changed_def set_form_def wz_submit_def destructive_def)



subsection \<open>The busy slot\<close>

definition is_vm_action :: "vms_page_kont \<Rightarrow> bool" where
  "is_vm_action k = (case k of VkAct v t \<Rightarrow> True | VkRefresh \<Rightarrow> True | _ \<Rightarrow> False)"

lemma is_vm_action_simps [simp]:
  "is_vm_action (VkAct v t)" "is_vm_action VkRefresh" "\<not> is_vm_action VkPoll" "\<not> is_vm_action (VkWizard k)"
  by (simp_all add: is_vm_action_def)

lemma vp_wizard_effect_keeps:
  "vp_busy (st (vp_wizard_effect x w)) = vp_busy (st w) \<and> flight is_vm_action (vp_wizard_effect x w) = flight is_vm_action w"
  by (cases x) simp_all

lemma in_wizard_keeps:
  "vp_busy (st (in_wizard a w)) = vp_busy (st w) \<and> flight is_vm_action (in_wizard a w) = flight is_vm_action w"
  unfolding in_wizard_def by (rule embed_keeps) (simp_all add: vp_wizard_effect_keeps)

lemmas in_wizard_simps [simp] = in_wizard_keeps [THEN conjunct1] in_wizard_keeps [THEN conjunct2]

interpretation vp_slot: busy_slot "vp_boot q" "vp_enabled lc" vp_handle vp_resume "\<lambda>s. vp_busy s \<noteq> None" is_vm_action
  for q lc
proof unfold_locales
  show "\<not> vp_busy (st (vp_boot q)) \<noteq> None" by (simp add: vp_boot_def vms_page_init_def)
next
  fix w :: "(vms_page, vms_page_kont) world" and e
  assume "vp_busy (st (vp_handle e w)) \<noteq> None"
  then show "flight is_vm_action w \<le> flight is_vm_action (vp_handle e w)
      \<and> (vp_busy (st w) \<noteq> None \<or> 0 < flight is_vm_action (vp_handle e w))"
    by (cases e) (auto simp: run_vm_action_def delete_vm_def split: option.splits confirm_action.splits prod.splits)
next
  fix w :: "(vms_page, vms_page_kont) world" and k r
  assume "is_vm_action k" "vp_busy (st (vp_resume k r w)) \<noteq> None"
  then show "0 < flight is_vm_action (vp_resume k r w)"
    by (cases k) (auto simp: vp_settle_def split: sum.splits)
next
  fix w :: "(vms_page, vms_page_kont) world" and k r
  assume "\<not> is_vm_action k" "vp_busy (st (vp_resume k r w)) \<noteq> None"
  then show "vp_busy (st w) \<noteq> None \<and> flight is_vm_action w \<le> flight is_vm_action (vp_resume k r w)"
    by (cases k) (auto simp: vp_polled_def)
qed

text \<open>
  A machine shown as busy is never stuck: in every reachable state in which the slot is
  filled, a power action, a deletion or its refresh is pending; a settled refresh and a
  failed action clear the slot and close the dialog, and a settled action starts the
  refresh.
\<close>

theorem vms_busy_served:
  assumes "vp_reach lc q w" and "vp_busy (st w) \<noteq> None"
  shows "0 < flight is_vm_action w
    \<and> vp_busy (st (vp_resume VkRefresh r w)) = None \<and> vp_confirm (st (vp_resume VkRefresh r w)) = None
    \<and> vp_busy (st (vp_resume (VkAct v done) (Inl e) w)) = None
    \<and> flight is_vm_action (vp_resume (VkAct v done) (Inr ps) w) = Suc (flight is_vm_action w)"
  using vp_slot.busy_served [OF assms] by (simp add: vp_settle_def)

definition vm_start_script :: "vms_page_event stimulus list" where
  "vm_start_script = [Settle 0 (Inr [PVms [vm0] 1, PUndefined]), Ev (VpRun vm0 AStart)]"

lemma vm_start_play:
  "\<exists>w. play (vp_enabled code_compare) vp_handle vp_resume vm_start_script (vp_boot None) = Some w \<and> vp_busy (st w) \<noteq> None"
proof -
  have m: "vm_matches [] FAll vm0" by (simp add: vm_matches_def js_lower_def)
  show ?thesis
    by (simp add: vm_start_script_def vp_boot_def vms_page_init_def reply_ok_def vms_data_of_def vp_polled_def
        vp_enabled_row row_visible_def vp_crashed_def wizard_init_def vp_items_def poll_init_def m
        run_vm_action_def) (simp add: vm0_def)
qed

theorem vms_busy_served_witness:
  "\<exists>w. play (vp_enabled code_compare) vp_handle vp_resume vm_start_script (vp_boot None) = Some w
     \<and> 0 < flight is_vm_action w"
proof -
  obtain w where w: "play (vp_enabled code_compare) vp_handle vp_resume vm_start_script (vp_boot None) = Some w"
    "vp_busy (st w) \<noteq> None" using vm_start_play by blast
  from vms_busy_served [OF play_reachable [OF reachable.boot w(1)] w(2)] w(1) show ?thesis by blast
qed

end
