(* ===== verification/VmSettings.thy ===== *)
theory VmSettings
  imports Wizard
begin

text \<open>
  The settings tab of a machine (\<open>SettingsTab\<close> in \<open>frontend/src/pages/VMDetails.tsx\<close>). The form
  is filled from the machine when the tab is opened and compared with the machine as it is
  now, which polls may have changed; a save sends the differences.
\<close>

subsection \<open>State\<close>

record vm_settings =
  vs_vcpus :: string
  vs_memoryGiB :: string
  vs_isoId :: string
  vs_networkId :: string
  vs_isos :: "iso list option"
  vs_networks :: "network list option"
  vs_saving :: bool
  vs_error :: "string option"

datatype vm_settings_event =
    VsVcpus string
  | VsMemory string
  | VsIso string
  | VsNetwork string
  | VsSubmit

datatype vm_settings_kont = KVsIsos | KVsNetworks | KVsSave string

definition first_network :: "vm \<Rightarrow> string" where
  "first_network v = (case v_networkInterfaces v of n # _ \<Rightarrow> orelse (ni_network n) '''' | [] \<Rightarrow> '''')"

text \<open>\<open>+(bytes / GiB).toFixed(2)\<close>.\<close>

definition memory_shown :: "int \<Rightarrow> rat" where
  "memory_shown bytes = orelse (js_number (to_fixed (of_int bytes / GiB) 2)) 0"

definition vs_init :: "vm \<Rightarrow> vm_settings" where
  "vs_init v = \<lparr>vs_vcpus = int_str (v_vcpus v), vs_memoryGiB = num_str (memory_shown (v_memoryBytes v)),
     vs_isoId = orelse (v_isoId v) '''', vs_networkId = first_network v, vs_isos = None, vs_networks = None,
     vs_saving = False, vs_error = None\<rparr>"

text \<open>A number too large for a double is infinite.\<close>

definition js_finite :: "rat \<Rightarrow> bool" where
  "js_finite x = (\<bar>x\<bar> < 2 ^ 1024 - 2 ^ 970)"

definition vcpusNum :: "vm_settings \<Rightarrow> rat option" where
  "vcpusNum s = js_number (vs_vcpus s)"

definition memoryBytes :: "vm_settings \<Rightarrow> int option" where
  "memoryBytes s = map_option (\<lambda>g. math_round (g * GiB)) (js_number (vs_memoryGiB s))"

definition hardwareDirty :: "vm \<Rightarrow> vm_settings \<Rightarrow> bool" where
  "hardwareDirty v s = (vcpusNum s \<noteq> Some (of_int (v_vcpus v)) \<or> memoryBytes s \<noteq> Some (v_memoryBytes v))"

definition isoDirty :: "vm \<Rightarrow> vm_settings \<Rightarrow> bool" where
  "isoDirty v s = (vs_isoId s \<noteq> orelse (v_isoId v) '''')"

definition networkDirty :: "vm \<Rightarrow> vm_settings \<Rightarrow> bool" where
  "networkDirty v s = (vs_networkId s \<noteq> first_network v)"

definition vs_valid :: "vm_settings \<Rightarrow> bool" where
  "vs_valid s =
     ((case vcpusNum s of Some n \<Rightarrow> js_finite n \<and> 1 \<le> n \<and> n \<le> 64 | None \<Rightarrow> False) \<and>
      (case memoryBytes s of Some b \<Rightarrow> js_finite (of_int b) \<and> 16 * 1024 * 1024 \<le> b | None \<Rightarrow> False))"

definition vs_stopped :: "vm \<Rightarrow> bool" where
  "vs_stopped v = (v_state v = Stopped)"

subsection \<open>Saving\<close>

definition vs_body :: "vm \<Rightarrow> vm_settings \<Rightarrow> vm_update" where
  "vs_body v s =
     \<lparr>vu_vcpus = (if hardwareDirty v s \<and> vcpusNum s \<noteq> Some (of_int (v_vcpus v)) then vcpusNum s else None),
      vu_memoryBytes = (if hardwareDirty v s \<and> memoryBytes s \<noteq> Some (v_memoryBytes v) then memoryBytes s else None),
      vu_isoId = (if isoDirty v s then Some (vs_isoId s) else None),
      vu_networkId = (if networkDirty v s then Some (vs_networkId s) else None)\<rparr>"

definition vs_done :: "vm \<Rightarrow> vm_settings \<Rightarrow> string" where
  "vs_done v s = v_name v @ '': settings updated'' @
     (if \<not> vs_stopped v \<and> (hardwareDirty v s \<or> isoDirty v s) then '' (applies on next boot)'' else '''')"

definition vs_save :: "vm \<Rightarrow> (vm_settings, vm_settings_kont) action" where
  "vs_save v w = run [upd (\<lambda>s. s\<lparr>vs_saving := True, vs_error := None\<rparr>),
     call [PatchVm (v_id v) (vs_body v (st w))] (KVsSave (vs_done v (st w)))] w"

fun vs_handle :: "vm \<Rightarrow> vm_settings_event \<Rightarrow> (vm_settings, vm_settings_kont) action" where
  "vs_handle v (VsVcpus x) w = upd (vs_vcpus_update (\<lambda>_. x)) w"
| "vs_handle v (VsMemory x) w = upd (vs_memoryGiB_update (\<lambda>_. x)) w"
| "vs_handle v (VsIso x) w = upd (vs_isoId_update (\<lambda>_. x)) w"
| "vs_handle v (VsNetwork x) w = upd (vs_networkId_update (\<lambda>_. x)) w"
| "vs_handle v VsSubmit w = (if vs_valid (st w) then vs_save v w else w)"

definition iso_items :: "reply \<Rightarrow> iso list option" where
  "iso_items r = (case r of Inl e \<Rightarrow> Some [] | Inr [PIsos xs n] \<Rightarrow> Some xs | _ \<Rightarrow> None)"

definition network_items :: "reply \<Rightarrow> network list option" where
  "network_items r = (case r of Inl e \<Rightarrow> Some [] | Inr [PNetworks xs n] \<Rightarrow> Some xs | _ \<Rightarrow> None)"

fun vs_resume :: "vm_settings_kont \<Rightarrow> reply \<Rightarrow> (vm_settings, vm_settings_kont) action" where
  "vs_resume KVsIsos r w = upd (vs_isos_update (\<lambda>_. iso_items r)) w"
| "vs_resume KVsNetworks r w = upd (vs_networks_update (\<lambda>_. network_items r)) w"
| "vs_resume (KVsSave done) r w = (case r of
     Inr ps \<Rightarrow> run [emit (Toast TSuccess done), emit OnSaved, upd (vs_saving_update (\<lambda>_. False))] w
   | Inl e \<Rightarrow> upd (\<lambda>s. s\<lparr>vs_error := Some (err_dash e), vs_saving := False\<rparr>) w)"

definition vs_load :: "(vm_settings, vm_settings_kont) action" where
  "vs_load = run [call [GetIsos] KVsIsos, call [GetNetworks] KVsNetworks]"

definition vs_boot :: "vm \<Rightarrow> (vm_settings, vm_settings_kont) world" where
  "vs_boot v = vs_load (fresh (vs_init v))"

subsection \<open>View\<close>

definition net_option :: "network \<Rightarrow> string \<times> string \<times> bool" where
  "net_option n = (n_id n,
     n_name n @ '' ('' @ (case n_mode n of Some m \<Rightarrow> mode_str m | None \<Rightarrow> '''') @ '')''
       @ (if n_state n \<noteq> Active then '' '' @ em_dash @ '' inactive'' else ''''), n_state n \<noteq> Active)"

definition vs_view :: "vm \<Rightarrow> vm_settings \<Rightarrow> vm_settings_event ui list" where
  "vs_view v s =
     (let stopped = vs_stopped v; locked = (\<not> stopped \<or> vs_saving s) in
      [Txt ''VM settings''] @
      (if stopped then [] else [Txt ''vCPU and memory can only be changed while the VM is stopped. ISO changes apply on the next boot.'']) @
      alert (vs_error s) @
      [Field ''vCPUs'' (vs_vcpus s) locked VsVcpus,
       Field ''Memory (GiB)'' (vs_memoryGiB s) locked VsMemory,
       Sel ''Install media (ISO)'' (vs_isoId s) (vs_saving s)
         (('''', em_dash @ '' No ISO attached '' @ em_dash, False)
           # map (\<lambda>i. (i_id i, i_fileName i @ '' ('' @ formatBytes (i_sizeBytes i) 1 @ '')'', False)) (orelse (vs_isos s) [])) VsIso,
       Sel ''Network'' (vs_networkId s) locked (map net_option (orelse (vs_networks s) [])) VsNetwork] @
      (if stopped then [] else [Txt ''Stop the VM to change its network.'']) @
      [Btn (if vs_saving s then ''Saving'' @ ellipsis else ''Save changes'')
         (\<not> vs_valid s \<or> vs_saving s \<or> \<not> hardwareDirty v s \<and> \<not> isoDirty v s \<and> \<not> networkDirty v s) VsSubmit] @
      (if \<not> stopped \<and> hardwareDirty v s then [Txt ''Stop the VM to edit vCPU / memory''] else []))"

text \<open>
  What the browser checks before it submits: the two number fields, when they are not disabled.
  An empty field is not required; \<open>min\<close> and the default step ask for a whole number of vCPUs.
\<close>

definition vs_constraints :: "vm \<Rightarrow> vm_settings \<Rightarrow> bool" where
  "vs_constraints v s =
     (\<not> vs_stopped v \<or> vs_saving s \<or>
      (vs_vcpus s = '''' \<or> (case vcpusNum s of Some n \<Rightarrow> 1 \<le> n \<and> n \<le> 64 \<and> n = of_int \<lfloor>n\<rfloor> | None \<Rightarrow> False)) \<and>
      (vs_memoryGiB s = '''' \<or> (case js_number (vs_memoryGiB s) of Some g \<Rightarrow> 16 / 1024 \<le> g | None \<Rightarrow> False)))"

definition vs_enabled :: "vm \<Rightarrow> vm_settings \<Rightarrow> vm_settings_event \<Rightarrow> bool" where
  "vs_enabled v s e = (offers_any (vs_view v s) e \<and> (e = VsSubmit \<longrightarrow> vs_constraints v s))"

text \<open>
  What the server refuses (\<open>UpdateVirtualMachine\<close> of both hypervisor providers): any member but
  the ISO for a machine that is not stopped.
\<close>

definition patch_refused :: "vm \<Rightarrow> vm_update \<Rightarrow> bool" where
  "patch_refused v b = (v_state v \<noteq> Stopped \<and> (vu_vcpus b \<noteq> None \<or> vu_memoryBytes b \<noteq> None \<or> vu_networkId b \<noteq> None))"

subsection \<open>Numbers with two decimals survive the form\<close>

lemma of_nat_split: "(of_nat n :: rat) = of_nat (n div d) * of_nat d + of_nat (n mod d)"
  by (metis div_mult_mod_eq of_nat_add of_nat_mult)

lemma frac_digits_tenths:
  "k < 10 \<Longrightarrow> frac_digits (Suc (Suc f)) (of_nat k / 10) = (if k = 0 then [] else [digit_char k])"
  by (simp add: floor_of_nat)

lemma frac_digits_hundredths:
  assumes "k < 100"
  shows "frac_digits (Suc (Suc (Suc f))) (of_nat k / 100) =
    (if k = 0 then [] else digit_char (k div 10) # (if k mod 10 = 0 then [] else [digit_char (k mod 10)]))"
proof (cases "k = 0")
  case False
  let ?x = "of_nat k / 100 :: rat"
  have "10 * ?x = of_nat k / of_nat 10" by simp
  then have f: "\<lfloor>10 * ?x\<rfloor> = int (k div 10)" by (simp only: floor_divide_of_nat_eq)
  have r: "10 * ?x - of_int (int (k div 10)) = of_nat (k mod 10) / 10"
    using of_nat_split [of k 10] by (simp add: add_divide_distrib)
  have "frac_digits (Suc (Suc (Suc f))) ?x =
      digit_char (nat \<lfloor>10 * ?x\<rfloor>) # frac_digits (Suc (Suc f)) (10 * ?x - of_int \<lfloor>10 * ?x\<rfloor>)"
    using False by simp
  also have "\<dots> = digit_char (k div 10) # frac_digits (Suc (Suc f)) (of_nat (k mod 10) / 10)"
    by (simp only: f r nat_int)
  finally show ?thesis using False frac_digits_tenths [of "k mod 10" f] by (simp del: frac_digits.simps)
qed simp

lemma num_str_hundredths:
  "num_str (of_nat n / 100) = nat_str (n div 100) @
    (if n mod 100 = 0 then '''' else CHR ''.'' # digit_char (n mod 100 div 10)
       # (if n mod 10 = 0 then [] else [digit_char (n mod 10)]))"
proof -
  let ?x = "of_nat n / 100 :: rat"
  have "?x = of_nat n / of_nat 100" by simp
  then have f: "\<lfloor>?x\<rfloor> = int (n div 100)" by (simp only: floor_divide_of_nat_eq)
  have r: "?x - of_int (int (n div 100)) = of_nat (n mod 100) / 100"
    using of_nat_split [of n 100] by (simp add: add_divide_distrib)
  have m: "n mod 100 mod 10 = n mod 10" by (simp add: mod_mod_cancel)
  have t: "(20 :: nat) = Suc (Suc (Suc 17))" by simp
  have d: "frac_digits 20 (of_nat (n mod 100) / 100) =
      (if n mod 100 = 0 then [] else digit_char (n mod 100 div 10) # (if n mod 10 = 0 then [] else [digit_char (n mod 10)]))"
    unfolding t by (subst frac_digits_hundredths) (simp_all only: m mod_less_divisor zero_less_numeral)
  have a: "\<bar>?x\<bar> = ?x" "\<not> ?x < 0" by (simp_all add: not_less)
  show ?thesis unfolding num_str_def Let_def a f r d by (simp add: a(2))
qed

lemma unsigned_number_decimal:
  assumes "list_all is_digit fp" "fp \<noteq> []"
  shows "unsigned_number (nat_str q @ CHR ''.'' # fp) = Some (of_nat q + of_nat (parse_digits fp) / 10 ^ length fp)"
proof -
  have "take_digits (nat_str q @ CHR ''.'' # fp) = (nat_str q, CHR ''.'' # fp)"
    using digits_nat_str not_digit_facts(1) by (rule take_digits_append)
  with assms show ?thesis
    by (simp add: unsigned_number_def take_digits_all parse_digits_append add_divide_distrib)
qed

lemma nat_str_ends: "is_digit (hd (nat_str n))" "is_digit (last (nat_str n))"
  using digits_nat_str [of n] by (cases "nat_str n"; simp add: list_all_iff)+

lemma js_number_nat_str: "js_number (nat_str n) = Some (of_nat n)"
  using digits_nat_str [of n]
  by (simp add: js_number_unsigned nat_str_ends unsigned_number_def take_digits_all)

lemma js_number_num_str_hundredths: "js_number (num_str (of_nat n / 100)) = Some (of_nat n / 100)"
proof (cases "n mod 100 = 0")
  case True
  then have "of_nat n / 100 = (of_nat (n div 100) :: rat)" using of_nat_split [of n 100] by simp
  moreover have "num_str (of_nat n / 100) = nat_str (n div 100)" using True unfolding num_str_hundredths by simp
  ultimately show ?thesis by (simp only: js_number_nat_str)
next
  case False
  define fp where "fp = digit_char (n mod 100 div 10) # (if n mod 10 = 0 then [] else [digit_char (n mod 10)])"
  have d: "n mod 100 div 10 < 10" by (simp add: less_mult_imp_div_less)
  have fp: "list_all is_digit fp" "fp \<noteq> []" "is_digit (last fp)" using d by (auto simp: fp_def)
  have "(n mod 100) mod 10 = n mod 10" by (simp add: mod_mod_cancel)
  then have "(of_nat (n mod 100) :: rat) = of_nat (n mod 100 div 10) * 10 + of_nat (n mod 10)"
    using of_nat_split [of "n mod 100" 10] by simp
  then have "of_nat (parse_digits fp) / 10 ^ length fp = (of_nat (n mod 100) / 100 :: rat)"
    using d by (simp add: fp_def parse_digits_def add_divide_distrib)
  moreover have "(of_nat n / 100 :: rat) = of_nat (n div 100) + of_nat (n mod 100) / 100"
    using of_nat_split [of n 100] by (simp add: add_divide_distrib)
  moreover have "num_str (of_nat n / 100) = nat_str (n div 100) @ CHR ''.'' # fp"
    using False by (simp add: num_str_hundredths fp_def)
  ultimately show ?thesis
    using unsigned_number_decimal [OF fp(1,2), of "n div 100"] fp
    by (simp add: js_number_unsigned nat_str_ends)
qed

subsection \<open>The form as opened\<close>

lemma memory_shown: "0 \<le> b \<Longrightarrow> memory_shown b = of_nat (nat (math_round (of_int b / GiB * 100))) / 100"
  by (simp add: memory_shown_def js_number_to_fixed GiB_def math_round_def)

lemma opened_numbers:
  assumes "0 \<le> v_vcpus v" "0 \<le> v_memoryBytes v"
  shows "vcpusNum (vs_init v) = Some (of_int (v_vcpus v))"
    and "memoryBytes (vs_init v) = Some (math_round (of_int (math_round (of_int (v_memoryBytes v) / GiB * 100)) / 100 * GiB))"
proof -
  let ?m = "math_round (of_int (v_memoryBytes v) / GiB * 100)"
  show "vcpusNum (vs_init v) = Some (of_int (v_vcpus v))"
    using assms by (simp add: vcpusNum_def vs_init_def int_str_def js_number_nat_str)
  have "0 \<le> ?m" using assms by (simp add: math_round_def GiB_def)
  then have "js_number (num_str (memory_shown (v_memoryBytes v))) = Some (of_int ?m / 100)"
    unfolding memory_shown [OF assms(2)] js_number_num_str_hundredths by simp
  then show "memoryBytes (vs_init v) = Some (math_round (of_int ?m / 100 * GiB))"
    by (simp only: memoryBytes_def vs_init_def vm_settings.simps option.map)
qed

definition memory_survives :: "int \<Rightarrow> bool" where
  "memory_survives b = (math_round (of_int (math_round (of_int b / GiB * 100)) / 100 * GiB) = b)"

lemma opened_dirty:
  assumes "0 \<le> v_vcpus v" "0 \<le> v_memoryBytes v"
  shows "hardwareDirty v (vs_init v) = (\<not> memory_survives (v_memoryBytes v))"
    and "\<not> isoDirty v (vs_init v)" "\<not> networkDirty v (vs_init v)"
  using opened_numbers [OF assms]
  by (simp_all add: hardwareDirty_def memory_survives_def isoDirty_def networkDirty_def vs_init_def)

lemma math_round_int [simp]: "math_round (of_int k) = k"
  by (simp add: math_round_def floor_eq_iff)

lemma quarter_survives:
  assumes "268435456 dvd b"
  shows "memory_survives b"
proof -
  obtain k where k: "b = 268435456 * k" using assms by blast
  have "of_int b / GiB * 100 = (of_int (25 * k) :: rat)" by (simp add: k GiB_def)
  moreover have "of_int (25 * k) / 100 * GiB = (of_int b :: rat)" by (simp add: k GiB_def)
  ultimately show ?thesis by (simp only: memory_survives_def math_round_int)
qed

text \<open>
  A machine that is not stopped may change its installation medium, and only that. On the
  form as it was opened, with another ISO chosen, the server refuses the save exactly when
  the machine's memory is not what its size in GiB with two decimals reads back to: the save
  then sends that memory too. Multiples of 256 MiB survive.
\<close>

theorem settings_iso_change:
  assumes "0 \<le> v_vcpus v" and "0 \<le> v_memoryBytes v" and "v_state v \<noteq> Stopped"
  shows "patch_refused v (vs_body v ((vs_init v)\<lparr>vs_isoId := i\<rparr>)) = (\<not> memory_survives (v_memoryBytes v))
    \<and> (268435456 dvd v_memoryBytes v \<longrightarrow> \<not> patch_refused v (vs_body v ((vs_init v)\<lparr>vs_isoId := i\<rparr>)))"
proof -
  let ?s = "(vs_init v)\<lparr>vs_isoId := i\<rparr>"
  have n: "vcpusNum ?s = vcpusNum (vs_init v)" "memoryBytes ?s = memoryBytes (vs_init v)" "\<not> networkDirty v ?s"
    by (simp_all add: vcpusNum_def memoryBytes_def networkDirty_def vs_init_def)
  then have "patch_refused v (vs_body v ?s) = (\<not> memory_survives (v_memoryBytes v))"
    using assms opened_numbers [OF assms(1,2)]
    by (auto simp: patch_refused_def vs_body_def hardwareDirty_def memory_survives_def)
  with quarter_survives show ?thesis by auto
qed

definition small_vm :: vm where
  "small_vm = \<lparr>v_id = ''alpine'', v_name = ''alpine'', v_state = Running, v_vcpus = 1, v_memoryBytes = 134217728, v_uptimeSeconds = None,
     v_os = None, v_ipAddress = None, v_isoId = None, v_disks = [], v_networkInterfaces = [], v_metrics = None,
     v_bootTime = None, v_osType = None, v_performanceProfile = None, v_warnings = None\<rparr>"

lemma small_vm_sel [simp]:
  "v_id small_vm = ''alpine''" "v_vcpus small_vm = 1" "v_memoryBytes small_vm = 134217728" "v_state small_vm = Running"
  "v_isoId small_vm = None" "v_networkInterfaces small_vm = []"
  by (simp_all add: small_vm_def)

theorem settings_iso_change_witness:
  "patch_refused small_vm (vs_body small_vm ((vs_init small_vm)\<lparr>vs_isoId := ''debian.iso''\<rparr>))
   \<and> \<not> patch_refused (small_vm\<lparr>v_memoryBytes := 268435456\<rparr>)
       (vs_body (small_vm\<lparr>v_memoryBytes := 268435456\<rparr>) ((vs_init (small_vm\<lparr>v_memoryBytes := 268435456\<rparr>))\<lparr>vs_isoId := ''debian.iso''\<rparr>))"
proof -
  have "math_round (of_int 134217728 / GiB * 100) = 13" by (simp add: math_round_def GiB_def floor_eq_iff)
  moreover have "math_round (of_int 13 / 100 * GiB) = 139586437" by (simp add: math_round_def GiB_def floor_eq_iff)
  ultimately have "\<not> memory_survives 134217728" unfolding memory_survives_def by simp
  then show ?thesis
    using settings_iso_change [of small_vm "''debian.iso''"] settings_iso_change [of "small_vm\<lparr>v_memoryBytes := 268435456\<rparr>" "''debian.iso''"]
      quarter_survives [of 268435456] by simp
qed

subsection \<open>What a save sends\<close>

lemma vs_submit_offered:
  "offers_any (vs_view v s) VsSubmit \<longleftrightarrow>
    vs_valid s \<and> \<not> vs_saving s \<and> (hardwareDirty v s \<or> isoDirty v s \<or> networkDirty v s)"
  by (auto simp: vs_view_def Let_def alert_def list_ex_iff split: option.splits)

lemma vs_whole_vcpus:
  assumes "vs_enabled v s VsSubmit" "v_state v = Stopped"
  shows "\<exists>k. vcpusNum s = Some (of_int k) \<and> 1 \<le> k \<and> k \<le> 64"
proof -
  from assms(1) have o: "vs_valid s" "\<not> vs_saving s" and c: "vs_constraints v s"
    by (simp_all add: vs_enabled_def vs_submit_offered)
  from o(1) obtain n where n: "vcpusNum s = Some n" "1 \<le> n"
    by (auto simp: vs_valid_def split: option.splits)
  have ne: "vs_vcpus s \<noteq> ''''" using n by (auto simp: vcpusNum_def js_number_def)
  with c n o(2) assms(2) have f: "n \<le> 64" "n = of_int \<lfloor>n\<rfloor>" by (simp_all add: vs_constraints_def vs_stopped_def)
  have "(1 :: rat) \<le> of_int \<lfloor>n\<rfloor>" "of_int \<lfloor>n\<rfloor> \<le> (64 :: rat)" using f n(2) by simp_all
  then show ?thesis using f(2) n(1) by (intro exI [of _ "\<lfloor>n\<rfloor>"]) simp
qed

text \<open>
  C17. A save the browser lets through sends one PATCH to the machine with exactly the
  differences between the form and the machine as it is now: putting the members it has over
  the machine's values gives the values of the form, no member repeats a current value, there
  is at least one, and a number of vCPUs it changes on a stopped machine is whole and between
  1 and 64.
\<close>

theorem settings_patch_exact:
  assumes "vs_enabled v (st w) VsSubmit"
  defines "b \<equiv> vs_body v (st w)"
  shows "map fst (calls (vs_handle v VsSubmit w)) = map fst (calls w) @ [[PatchVm (v_id v) b]]
    \<and> vcpusNum (st w) = Some (orelse (vu_vcpus b) (of_int (v_vcpus v)))
    \<and> memoryBytes (st w) = Some (orelse (vu_memoryBytes b) (v_memoryBytes v))
    \<and> vs_isoId (st w) = orelse (vu_isoId b) (orelse (v_isoId v) '''')
    \<and> vs_networkId (st w) = orelse (vu_networkId b) (first_network v)
    \<and> vu_vcpus b \<noteq> Some (of_int (v_vcpus v)) \<and> vu_memoryBytes b \<noteq> Some (v_memoryBytes v)
    \<and> vu_isoId b \<noteq> Some (orelse (v_isoId v) '''') \<and> vu_networkId b \<noteq> Some (first_network v)
    \<and> b \<noteq> \<lparr>vu_vcpus = None, vu_memoryBytes = None, vu_isoId = None, vu_networkId = None\<rparr>
    \<and> (v_state v = Stopped \<longrightarrow> (\<exists>n. vcpusNum (st w) = Some (of_int n) \<and> 1 \<le> n \<and> n \<le> 64))"
proof -
  from assms(1) have o: "vs_valid (st w)" "\<not> vs_saving (st w)"
      "hardwareDirty v (st w) \<or> isoDirty v (st w) \<or> networkDirty v (st w)"
    by (simp_all add: vs_enabled_def vs_submit_offered)
  from o(1) obtain n m where n: "vcpusNum (st w) = Some n" "1 \<le> n" and m: "memoryBytes (st w) = Some m"
    by (auto simp: vs_valid_def split: option.splits)
  have "\<exists>k. vcpusNum (st w) = Some (of_int k) \<and> 1 \<le> k \<and> k \<le> 64" if "v_state v = Stopped"
    using vs_whole_vcpus [OF assms(1) that] .
  moreover have "map fst (calls (vs_handle v VsSubmit w)) = map fst (calls w) @ [[PatchVm (v_id v) b]]"
    using o(1) by (simp add: vs_save_def b_def)
  moreover have "b \<noteq> \<lparr>vu_vcpus = None, vu_memoryBytes = None, vu_isoId = None, vu_networkId = None\<rparr>"
    using o(3) n m by (auto simp: b_def vs_body_def hardwareDirty_def)
  ultimately show ?thesis using n m
    by (simp add: b_def vs_body_def hardwareDirty_def isoDirty_def networkDirty_def)
qed

definition edited_settings :: vm_settings where
  "edited_settings = (vs_init small_vm)\<lparr>vs_vcpus := ''4'', vs_memoryGiB := ''0.125''\<rparr>"

lemma edited_example:
  "vs_enabled (small_vm\<lparr>v_state := Stopped\<rparr>) edited_settings VsSubmit"
  "vs_body (small_vm\<lparr>v_state := Stopped\<rparr>) edited_settings = \<lparr>vu_vcpus = Some 4, vu_memoryBytes = None, vu_isoId = None, vu_networkId = None\<rparr>"
proof -
  let ?v = "small_vm\<lparr>v_state := Stopped\<rparr>" and ?s = edited_settings
  have "js_number ''4'' = Some 4" "js_number ''0.125'' = Some (1 / 8)" by code_simp+
  then have n: "vcpusNum ?s = Some 4" "memoryBytes ?s = Some 134217728" "js_number (vs_memoryGiB ?s) = Some (1 / 8)"
    by (simp_all add: edited_settings_def vcpusNum_def memoryBytes_def math_round_def GiB_def floor_eq_iff)
  have "hardwareDirty ?v ?s" by (simp add: hardwareDirty_def n)
  then have i: "\<not> isoDirty ?v ?s" "\<not> networkDirty ?v ?s" "hardwareDirty ?v ?s"
    by (simp_all add: edited_settings_def isoDirty_def networkDirty_def vs_init_def first_network_def)
  have "js_finite 4" "js_finite 134217728" by (simp_all add: js_finite_def)
  then have "vs_valid ?s" by (simp add: vs_valid_def n)
  moreover have "vs_constraints ?v ?s" using n by (simp add: vs_constraints_def edited_settings_def)
  moreover have "\<not> vs_saving ?s" by (simp add: edited_settings_def vs_init_def)
  ultimately show "vs_enabled ?v ?s VsSubmit" using i by (simp add: vs_enabled_def vs_submit_offered)
  show "vs_body ?v ?s = \<lparr>vu_vcpus = Some 4, vu_memoryBytes = None, vu_isoId = None, vu_networkId = None\<rparr>"
    using i n by (simp add: vs_body_def)
qed

theorem settings_patch_exact_witness:
  "map fst (calls (vs_handle (small_vm\<lparr>v_state := Stopped\<rparr>) VsSubmit (fresh edited_settings)))
   = [[PatchVm ''alpine'' \<lparr>vu_vcpus = Some 4, vu_memoryBytes = None, vu_isoId = None, vu_networkId = None\<rparr>]]"
  using settings_patch_exact [of _ "fresh edited_settings", simplified, OF edited_example(1)] by (simp add: edited_example(2))

end
