(* ===== verification/Charts.thy ===== *)
theory Charts
  imports Hooks
begin

text \<open>
  The live charts of a machine (\<open>frontend/src/components/LiveCharts.tsx\<close>): the history that is
  sampled while the overview is open, the paths of the sparklines, and the cards.
\<close>

subsection \<open>The sampled history\<close>

record sample =
  sm_t :: int
  sm_cpuPercent :: "rat option"
  sm_memPercent :: "rat option"
  sm_rx :: "int option"
  sm_tx :: "int option"

text \<open>
  The state is the buffer and the clock \<open>Date.now()\<close> reads; the environment sets the clock. An
  answer for an overview that has been left (\<open>alive\<close> is false) is dropped by the page, which
  numbers its mounts.
\<close>

record history =
  mh_now :: int
  mh_samples :: "sample list"

datatype history_event = HTick | HClock int

datatype history_kont = HkSample

definition history_init :: "int \<Rightarrow> history" where
  "history_init t = \<lparr>mh_now = t, mh_samples = []\<rparr>"

definition MAX_POINTS :: nat where
  "MAX_POINTS = 120"

definition mem_percent :: "vm \<Rightarrow> rat option" where
  "mem_percent v = (case v_metrics v of None \<Rightarrow> None
     | Some m \<Rightarrow> (case m_memoryUsedBytes m of None \<Rightarrow> None
         | Some u \<Rightarrow> if 0 < v_memoryBytes v then Some (of_int u / of_int (v_memoryBytes v) * 100) else None))"

definition sample_of :: "int \<Rightarrow> vm \<Rightarrow> sample" where
  "sample_of now v =
     (let m = v_metrics v in
      \<lparr>sm_t = now, sm_cpuPercent = Option.bind m m_cpuPercent, sm_memPercent = mem_percent v,
       sm_rx = Option.bind m m_networkRx, sm_tx = Option.bind m m_networkTx\<rparr>)"

text \<open>An error, and an answer without a machine, skip a point.\<close>

definition answered_vm :: "reply \<Rightarrow> vm option" where
  "answered_vm r = (case r of Inr [PVm v] \<Rightarrow> Some v | _ \<Rightarrow> None)"

definition mh_append :: "int \<Rightarrow> reply \<Rightarrow> sample list \<Rightarrow> sample list" where
  "mh_append now r buf = (case answered_vm r of None \<Rightarrow> buf
     | Some v \<Rightarrow> slice_last MAX_POINTS (buf @ [sample_of now v]))"

fun mh_handle :: "string \<Rightarrow> history_event \<Rightarrow> (history, history_kont) action" where
  "mh_handle i HTick w = call [GetVm i] HkSample w"
| "mh_handle i (HClock t) w = upd (mh_now_update (\<lambda>_. t)) w"

fun mh_resume :: "history_kont \<Rightarrow> reply \<Rightarrow> (history, history_kont) action" where
  "mh_resume HkSample r w = upd (\<lambda>s. s\<lparr>mh_samples := mh_append (mh_now s) r (mh_samples s)\<rparr>) w"

definition mh_boot :: "string \<Rightarrow> int \<Rightarrow> (history, history_kont) world" where
  "mh_boot i t = mh_handle i HTick (fresh (history_init t))"

subsection \<open>Paths\<close>

definition spark_x :: "nat \<Rightarrow> nat \<Rightarrow> rat \<Rightarrow> rat" where
  "spark_x n i w = of_nat i / of_nat (max 1 (n - 1)) * w"

definition spark_y :: "rat \<Rightarrow> rat \<Rightarrow> rat \<Rightarrow> rat" where
  "spark_y v h mx = h - (min v mx / mx) * (h - 2) - 1"

text \<open>The points of the values that are there, each with the position of its value.\<close>

definition spark_points :: "rat option list \<Rightarrow> rat \<Rightarrow> rat \<Rightarrow> rat \<Rightarrow> (rat \<times> rat) list" where
  "spark_points vs w h mx =
     map (\<lambda>(i, v). (spark_x (length vs) i w, spark_y (the v) h mx))
       (filter (\<lambda>(i, v). v \<noteq> None) (enumerate 0 vs))"

definition point_text :: "rat \<times> rat \<Rightarrow> string" where
  "point_text p = to_fixed (fst p) 1 @ '','' @ to_fixed (snd p) 1"

definition sparklinePath :: "rat option list \<Rightarrow> rat \<Rightarrow> rat \<Rightarrow> rat \<Rightarrow> string" where
  "sparklinePath vs w h mx =
     (let pts = map point_text (spark_points vs w h mx) in
      if pts = [] then '''' else ''M'' @ js_join '' L'' pts)"

definition areaPath :: "rat option list \<Rightarrow> rat \<Rightarrow> rat \<Rightarrow> rat \<Rightarrow> string" where
  "areaPath vs w h mx =
     (let line = sparklinePath vs w h mx;
          xs = map (\<lambda>(i, v). spark_x (length vs) i w) (filter (\<lambda>(i, v). v \<noteq> None) (enumerate 0 vs)) in
      if line = '''' then ''''
      else if length xs < 2 then ''''
      else line @ '' L'' @ to_fixed (last xs) 1 @ '','' @ num_str h @ '' L'' @ to_fixed (hd xs) 1 @ '','' @ num_str h @ '' Z'')"

definition Sparkline :: "rat option list \<Rightarrow> rat \<Rightarrow> 'e ui" where
  "Sparkline vs mx = Box ''spark'' [Txt (areaPath vs 100 36 mx), Txt (sparklinePath vs 100 36 mx)]"

subsection \<open>The cards\<close>

definition arrow_down :: string where
  "arrow_down = [CHR 0xE2, CHR 0x86, CHR 0x93]"

definition arrow_up :: string where
  "arrow_up = [CHR 0xE2, CHR 0x86, CHR 0x91]"

definition rates_text :: "int option \<Rightarrow> int option \<Rightarrow> string" where
  "rates_text rx tx = arrow_down @ '' '' @ formatRate rx 1 @ '' '' @ mid_dot @ '' '' @ arrow_up @ '' '' @ formatRate tx 1"

definition ChartCard :: "string \<Rightarrow> string \<Rightarrow> string \<Rightarrow> 'e ui list \<Rightarrow> 'e ui" where
  "ChartCard title current hint kids = Box ''card live-chart'' ([Txt title, Txt current] @ (if hint = '''' then [] else [Txt hint]) @ kids)"

definition spanMin :: "sample list \<Rightarrow> string option" where
  "spanMin samples = (if 1 < length samples
     then Some (to_fixed (of_int (sm_t (last samples) - sm_t (hd samples)) / 60000) 0) else None)"

definition chart_hint :: "sample list \<Rightarrow> string" where
  "chart_hint samples = (case spanMin samples of
     Some m \<Rightarrow> [CHR 0xC3, CHR 0xBA] @ ''ltimos '' @ m @ '' min (sess'' @ [CHR 0xC3, CHR 0xA3] @ ''o)''
   | None \<Rightarrow> ''coletando'' @ ellipsis)"

definition present :: "'a option list \<Rightarrow> 'a list" where
  "present vs = map the (filter (\<lambda>v. v \<noteq> None) vs)"

definition rx_values :: "sample list \<Rightarrow> rat option list" where
  "rx_values samples = map (\<lambda>s. map_option of_int (sm_rx s)) samples"

definition tx_values :: "sample list \<Rightarrow> rat option list" where
  "tx_values samples = map (\<lambda>s. map_option of_int (sm_tx s)) samples"

definition netMax :: "sample list \<Rightarrow> rat" where
  "netMax samples = max (chart_max (present (rx_values samples))) (chart_max (present (tx_values samples)))"

definition percent_text :: "rat option \<Rightarrow> string" where
  "percent_text p = (case p of Some x \<Rightarrow> to_fixed x 0 @ ''%'' | None \<Rightarrow> em_dash)"

definition LiveCharts :: "sample list \<Rightarrow> 'e ui list" where
  "LiveCharts samples =
     (let now = (if samples = [] then None else Some (last samples)) in
      [ChartCard ''CPU'' (percent_text (Option.bind now sm_cpuPercent)) (chart_hint samples)
         [Sparkline (map sm_cpuPercent samples) 100],
       ChartCard (''Mem'' @ [CHR 0xC3, CHR 0xB3] @ ''ria'') (percent_text (Option.bind now sm_memPercent)) (chart_hint samples)
         [Sparkline (map sm_memPercent samples) 100],
       Box ''card live-chart''
         [Txt ''Rede'', Txt (case now of Some s \<Rightarrow> rates_text (sm_rx s) (sm_tx s) | None \<Rightarrow> em_dash), Txt (chart_hint samples),
          Txt ''rx (download)'', Txt ''tx (upload)'',
          Sparkline (rx_values samples) (netMax samples), Sparkline (tx_values samples) (netMax samples)]])"

subsection \<open>The window\<close>

definition samples_from :: "(int \<times> reply) list \<Rightarrow> sample list" where
  "samples_from xs = concat (map (\<lambda>(t, r). case answered_vm r of Some v \<Rightarrow> [sample_of t v] | None \<Rightarrow> []) xs)"

definition history_run :: "(int \<times> reply) list \<Rightarrow> (history, history_kont) action" where
  "history_run xs = run (concat (map (\<lambda>(t, r). [mh_handle '''' (HClock t), mh_resume HkSample r]) xs))"

lemma slice_last_snoc:
  assumes "0 < n"
  shows "slice_last n (slice_last n xs @ [x]) = slice_last n (xs @ [x])"
proof (cases "length xs \<le> n")
  case True
  then show ?thesis by (simp add: slice_last_all)
next
  case False
  with assms show ?thesis by (simp add: slice_last_def Suc_diff_le)
qed

lemma mh_append_window:
  "mh_append t r (slice_last MAX_POINTS ss) = slice_last MAX_POINTS (ss @ samples_from [(t, r)])"
  by (simp add: mh_append_def samples_from_def slice_last_snoc MAX_POINTS_def split: option.splits)

lemma samples_from_append: "samples_from (xs @ ys) = samples_from xs @ samples_from ys"
  by (simp add: samples_from_def)

text \<open>
  Whatever settles at whatever times while an overview stays open, the history is exactly
  the last 120 of all the samples taken, in the order they settled, one for each answer with
  a machine and none for an error: points are lost only at the old end.
\<close>

theorem history_window:
  "mh_samples (st (history_run xs (fresh (history_init t)))) = slice_last 120 (samples_from xs)
   \<and> length (mh_samples (st (history_run xs (fresh (history_init t))))) = min 120 (length (samples_from xs))"
proof -
  have "mh_samples (st (history_run xs (fresh (history_init t)))) = slice_last MAX_POINTS (samples_from xs)"
  proof (induction xs rule: rev_induct)
    case Nil
    then show ?case by (simp add: history_run_def history_init_def samples_from_def slice_last_def)
  next
    case (snoc x xs)
    then show ?case
      by (cases x) (simp add: history_run_def run_append mh_append_window samples_from_append)
  qed
  then show ?thesis by (simp add: MAX_POINTS_def length_slice_last)
qed

subsection \<open>The points stay in the picture\<close>

lemma spark_points_values: "map snd (spark_points vs w h mx) = map (\<lambda>v. spark_y v h mx) (present vs)"
proof -
  have "map (\<lambda>(i, v). g (the v)) (filter (\<lambda>(i, v). v \<noteq> None) (enumerate k vs)) = map g (present vs)"
    for k and g :: "rat \<Rightarrow> rat"
    by (induction vs arbitrary: k) (simp_all add: present_def)
  from this [of "\<lambda>v. spark_y v h mx" 0] show ?thesis
    by (simp add: spark_points_def comp_def case_prod_unfold)
qed

lemma spark_points_mem:
  "p \<in> set (spark_points vs w h mx) \<longleftrightarrow>
    (\<exists>i v. i < length vs \<and> vs ! i = Some v \<and> p = (spark_x (length vs) i w, spark_y v h mx))"
  by (force simp: spark_points_def in_set_enumerate_eq)

lemma spark_x_range:
  assumes "i < n" and "0 \<le> w"
  shows "0 \<le> spark_x n i w" "spark_x n i w \<le> w"
proof -
  have "(of_nat i :: rat) \<le> of_nat (max 1 (n - 1))" using assms by simp
  then have "of_nat i / of_nat (max 1 (n - 1)) \<le> (1 :: rat)" by (simp add: divide_le_eq_1)
  then show "spark_x n i w \<le> w"
    using assms mult_right_mono [of "of_nat i / of_nat (max 1 (n - 1))" 1 w] by (simp add: spark_x_def)
  show "0 \<le> spark_x n i w" using assms by (simp add: spark_x_def)
qed

lemma spark_y_range:
  assumes "0 \<le> v" and "0 < mx" and "2 \<le> h"
  shows "1 \<le> spark_y v h mx" "spark_y v h mx \<le> h - 1"
proof -
  have "0 \<le> min v mx / mx" "min v mx / mx \<le> 1" using assms by (auto simp: divide_le_eq_1)
  with assms have "0 \<le> min v mx / mx * (h - 2)" "min v mx / mx * (h - 2) \<le> 1 * (h - 2)"
    by (intro mult_nonneg_nonneg mult_right_mono; simp)+
  then show "1 \<le> spark_y v h mx" "spark_y v h mx \<le> h - 1" by (simp_all add: spark_y_def)
qed

lemma chart_max_ge: "v \<in> set vs \<Longrightarrow> v \<le> chart_max vs" and chart_max_pos: "1 \<le> chart_max vs"
proof -
  have acc: "a \<le> fold max us a" for a :: rat and us
    by (induction us arbitrary: a) (auto intro: order_trans [OF max.cobounded2])
  have "v \<in> set vs \<Longrightarrow> v \<le> fold max vs a" for a :: rat
    by (induction vs arbitrary: a) (use acc in \<open>auto intro: order_trans [OF max.cobounded1]\<close>)
  then show "v \<in> set vs \<Longrightarrow> v \<le> chart_max vs" "1 \<le> chart_max vs" using acc by (simp_all add: chart_max_def)
qed

text \<open>
  Both lines of the network chart lie inside its 100 by 36 picture with a margin of one, one
  point per reported rate in the order of the samples, and no rate is clipped: the height of
  a point is exactly its share of the common scale of the two lines, which is at least 1.
\<close>

theorem network_chart_inside:
  assumes "\<forall>s \<in> set samples. \<forall>x. sm_rx s = Some x \<or> sm_tx s = Some x \<longrightarrow> 0 \<le> x"
    and "vs = rx_values samples \<or> vs = tx_values samples"
  shows "(\<forall>p \<in> set (spark_points vs 100 36 (netMax samples)). 0 \<le> fst p \<and> fst p \<le> 100 \<and> 1 \<le> snd p \<and> snd p \<le> 35)
    \<and> map snd (spark_points vs 100 36 (netMax samples)) = map (\<lambda>v. 35 - v / netMax samples * 34) (present vs)
    \<and> 1 \<le> netMax samples"
proof (intro conjI ballI)
  have pos: "1 \<le> netMax samples" using chart_max_pos by (auto simp: netMax_def intro: max.coboundedI1)
  then show "1 \<le> netMax samples" .
  have le: "v \<le> netMax samples" and nonneg: "0 \<le> v" if "Some v \<in> set vs" for v
  proof -
    have "v \<in> set (present vs)" using that by (force simp: present_def)
    with assms(2) show "v \<le> netMax samples"
      by (auto simp: netMax_def intro: max.coboundedI1 max.coboundedI2 chart_max_ge)
    from that assms(2) obtain s where "s \<in> set samples"
      "Some v = map_option of_int (sm_rx s) \<or> Some v = map_option of_int (sm_tx s)"
      by (auto simp: rx_values_def tx_values_def simp del: map_option_eq_Some)
    with assms(1) show "0 \<le> v" by (cases "sm_rx s"; cases "sm_tx s") auto
  qed
  have "Some v \<in> set vs" if "v \<in> set (present vs)" for v using that by (auto simp: present_def)
  with le show "map snd (spark_points vs 100 36 (netMax samples)) = map (\<lambda>v. 35 - v / netMax samples * 34) (present vs)"
    by (auto simp: spark_points_values spark_y_def min_def dest: antisym)
  fix p assume "p \<in> set (spark_points vs 100 36 (netMax samples))"
  then obtain i v where p: "i < length vs" "vs ! i = Some v" "p = (spark_x (length vs) i 100, spark_y v 36 (netMax samples))"
    by (auto simp: spark_points_mem)
  then have "Some v \<in> set vs" using nth_mem [of i vs] by simp
  then show "0 \<le> fst p" "fst p \<le> 100" "1 \<le> snd p" "snd p \<le> 35"
    using p spark_x_range [of i "length vs" 100] spark_y_range [of v "netMax samples" 36] nonneg pos by simp_all
qed

theorem network_chart_inside_witness:
  "map snd (spark_points (rx_values [\<lparr>sm_t = 0, sm_cpuPercent = None, sm_memPercent = None, sm_rx = Some 512, sm_tx = Some 1024\<rparr>]) 100 36
     (netMax [\<lparr>sm_t = 0, sm_cpuPercent = None, sm_memPercent = None, sm_rx = Some 512, sm_tx = Some 1024\<rparr>])) = [18]"
  using network_chart_inside [of "[\<lparr>sm_t = 0, sm_cpuPercent = None, sm_memPercent = None, sm_rx = Some 512, sm_tx = Some 1024\<rparr>]"
      "rx_values [\<lparr>sm_t = 0, sm_cpuPercent = None, sm_memPercent = None, sm_rx = Some 512, sm_tx = Some 1024\<rparr>]"]
  by (simp add: rx_values_def tx_values_def netMax_def chart_max_def present_def)

end
