(* ===== verification/Console.thy ===== *)
theory Console
  imports Hooks
begin

text \<open>
  The VNC console (\<open>frontend/src/components/ConsolePanel.tsx\<close>) and the page that shows it in a
  tab of its own (\<open>frontend/src/pages/ConsoleFullscreen.tsx\<close>).

  The panel is driven by its machine's state, the browser's timers, the answer of the
  preflight request and the events of the RFB objects of noVNC. An RFB object may connect
  until it is told to disconnect, and fires \<open>disconnect\<close> once, clean or not. Effects
  (\<open>useEffect\<close>) run when the values they depend on have changed, after the clean-up of the run
  before.
\<close>

subsection \<open>The address\<close>

definition token_query :: "string option \<Rightarrow> string" where
  "token_query token = (case token of
     Some t \<Rightarrow> if t \<noteq> '''' then ''?token='' @ encode_uri_component t else ''''
   | None \<Rightarrow> '''')"

definition console_path :: "string \<Rightarrow> string option \<Rightarrow> string" where
  "console_path i token = ''/api/v1/vms/'' @ encode_uri_component i @ ''/console'' @ token_query token"

definition console_url :: "string \<Rightarrow> string \<Rightarrow> string \<Rightarrow> string option \<Rightarrow> string" where
  "console_url protocol host i token =
     (if protocol = ''https:'' then ''wss'' else ''ws'') @ ''://'' @ host @ console_path i token"

subsection \<open>State\<close>

datatype conn_status = Connecting | Connected | Disconnected

datatype rfb_state = Opening | Opened | Closing

datatype rfb_command = RNew nat | RDisconnect nat | RCad nat | RFocus nat

text \<open>
  \<open>co_fetch\<close> numbers the runs of the preflight effect and \<open>co_fetches\<close> are the pending ones;
  \<open>co_timer\<close> is the 50 ms timer of the running connection effect, \<open>co_ref\<close> is
  \<open>rfbRef.current\<close>, \<open>co_rfbs\<close> the RFB objects that have not fired \<open>disconnect\<close>, \<open>co_retries\<close>
  the number of pending 3 s timers.
\<close>

record console =
  co_vm :: vm_state
  co_status :: conn_status
  co_unavailable :: bool
  co_retry :: nat
  co_cadSent :: bool
  co_cadTimer :: bool
  co_fetch :: nat
  co_fetches :: "nat list"
  co_timer :: bool
  co_ref :: "nat option"
  co_next :: nat
  co_rfbs :: "(nat \<times> rfb_state) list"
  co_retries :: nat
  co_log :: "rfb_command list"

datatype fetch_outcome = FThrew | FStatus int "string option"

datatype console_event =
    CoProps vm_state
  | CoFetched nat fetch_outcome
  | CoTimer
  | CoConnect nat
  | CoDisconnect nat bool
  | CoRetry
  | CoCad
  | CoCadTimer

definition co_running :: "console \<Rightarrow> bool" where
  "co_running s = (co_vm s = Running)"

definition co_live :: "console \<Rightarrow> bool" where
  "co_live s = (co_running s \<and> \<not> co_unavailable s)"

subsection \<open>Effects\<close>

definition set_rfb :: "nat \<Rightarrow> rfb_state \<Rightarrow> (nat \<times> rfb_state) list \<Rightarrow> (nat \<times> rfb_state) list" where
  "set_rfb n x rfbs = map (\<lambda>c. (fst c, if fst c = n then x else snd c)) rfbs"

text \<open>The clean-up of the connection effect, and the effect after it.\<close>

definition con_cleanup :: "console \<Rightarrow> console" where
  "con_cleanup s = (case co_ref s of
     None \<Rightarrow> s\<lparr>co_timer := False\<rparr>
   | Some n \<Rightarrow> s\<lparr>co_timer := False, co_rfbs := set_rfb n Closing (co_rfbs s),
       co_log := co_log s @ [RDisconnect n], co_ref := None\<rparr>)"

definition con_effect :: "console \<Rightarrow> console" where
  "con_effect s = (let s1 = con_cleanup s in
     if co_live s1 then s1\<lparr>co_status := Connecting, co_timer := True\<rparr> else s1)"

text \<open>The preflight effect: the previous run is cancelled, a running machine is asked.\<close>

definition con_preflight :: "console \<Rightarrow> console" where
  "con_preflight s = (let n = Suc (co_fetch s) in
     s\<lparr>co_fetch := n, co_fetches := co_fetches s @ (if co_running s then [n] else [])\<rparr>)"

definition con_init :: "vm_state \<Rightarrow> console" where
  "con_init v = con_effect (con_preflight
     \<lparr>co_vm = v, co_status = Disconnected, co_unavailable = False, co_retry = 0, co_cadSent = False,
      co_cadTimer = False, co_fetch = 0, co_fetches = [], co_timer = False, co_ref = None, co_next = 0,
      co_rfbs = [], co_retries = 0, co_log = []\<rparr>)"

definition set_unavailable :: "bool \<Rightarrow> console \<Rightarrow> console" where
  "set_unavailable b s = (if co_unavailable s = b then s else con_effect (s\<lparr>co_unavailable := b\<rparr>))"

text \<open>What a settled preflight says about the console, if it says anything.\<close>

definition preflight_says :: "fetch_outcome \<Rightarrow> bool option" where
  "preflight_says r = (case r of
     FThrew \<Rightarrow> Some False
   | FStatus n code \<Rightarrow> if n = 409 then (if code = Some ''CONSOLE_UNAVAILABLE'' then Some True else None) else Some False)"

definition sendCtrlAltDel :: "console \<Rightarrow> console" where
  "sendCtrlAltDel s = (case co_ref s of
     None \<Rightarrow> s
   | Some n \<Rightarrow> s\<lparr>co_log := co_log s @ [RCad n, RFocus n], co_cadSent := True, co_cadTimer := True\<rparr>)"

fun con_step :: "console_event \<Rightarrow> console \<Rightarrow> console" where
  "con_step (CoProps v) s =
     (let s1 = s\<lparr>co_vm := v\<rparr> in
      if co_running s1 = co_running s then s1 else con_effect (con_preflight s1))"
| "con_step (CoFetched n r) s =
     (let s1 = s\<lparr>co_fetches := removeAll n (co_fetches s)\<rparr> in
      if n \<noteq> co_fetch s then s1
      else (case preflight_says r of None \<Rightarrow> s1 | Some b \<Rightarrow> set_unavailable b s1))"
| "con_step CoTimer s =
     s\<lparr>co_timer := False, co_ref := Some (co_next s), co_next := Suc (co_next s),
       co_rfbs := co_rfbs s @ [(co_next s, Opening)], co_log := co_log s @ [RNew (co_next s)]\<rparr>"
| "con_step (CoConnect n) s = s\<lparr>co_status := Connected, co_rfbs := set_rfb n Opened (co_rfbs s)\<rparr>"
| "con_step (CoDisconnect n clean) s =
     s\<lparr>co_status := Disconnected, co_rfbs := filter (\<lambda>c. fst c \<noteq> n) (co_rfbs s),
       co_retries := co_retries s + (if clean then 0 else 1)\<rparr>"
| "con_step CoRetry s = con_effect (s\<lparr>co_retries := co_retries s - 1, co_retry := Suc (co_retry s)\<rparr>)"
| "con_step CoCad s = sendCtrlAltDel s"
| "con_step CoCadTimer s = s\<lparr>co_cadSent := False, co_cadTimer := False\<rparr>"

text \<open>Leaving the panel: both clean-ups run, and its timers and objects no longer reach it.\<close>

definition con_unmount :: "console \<Rightarrow> console" where
  "con_unmount s = (con_cleanup s)\<lparr>co_fetches := [], co_rfbs := [], co_retries := 0, co_cadTimer := False\<rparr>"

subsection \<open>View\<close>

definition status_text :: "conn_status \<Rightarrow> string" where
  "status_text c = (case c of
     Connecting \<Rightarrow> ''Connecting to console'' @ ellipsis
   | Connected \<Rightarrow> ''Console connected''
   | Disconnected \<Rightarrow> ''Console disconnected '' @ em_dash @ '' retrying'' @ ellipsis)"

definition con_view :: "string \<Rightarrow> console \<Rightarrow> console_event ui list" where
  "con_view name s =
     (if co_unavailable s then
        [Box ''console-status'' [Txt name, Txt ''has no graphical console configured.'']]
      else if \<not> co_running s then
        [Box ''console-status'' [Txt name, Txt ''is'', StateBadge (co_vm s),
           Txt (em_dash @ '' the console is only available while the VM is running. Start the VM to get a graphical console.'')]]
      else
        [Box ''console-card''
          ([Box (case co_status s of Connecting \<Rightarrow> ''console-dot-connecting'' | Connected \<Rightarrow> ''console-dot-connected''
               | Disconnected \<Rightarrow> ''console-dot-disconnected'') [],
            Txt (status_text (co_status s))] @
           (if co_status s = Connected then [Txt ''Black screen? Move the mouse or press a key to wake the VM.''] else []) @
           [Btn (if co_cadSent s then ''Sent'' else ''Ctrl+Alt+Del'') (co_status s \<noteq> Connected) CoCad])])"

text \<open>What can happen: the pending timers and requests, the events of the RFB objects, the button.\<close>

definition con_enabled :: "console \<Rightarrow> console_event \<Rightarrow> bool" where
  "con_enabled s e = (case e of
     CoProps v \<Rightarrow> True
   | CoFetched n r \<Rightarrow> n \<in> set (co_fetches s)
   | CoTimer \<Rightarrow> co_timer s
   | CoConnect n \<Rightarrow> (n, Opening) \<in> set (co_rfbs s)
   | CoDisconnect n clean \<Rightarrow> n \<in> fst ` set (co_rfbs s)
   | CoRetry \<Rightarrow> 0 < co_retries s
   | CoCad \<Rightarrow> offers_any (con_view '''' s) CoCad
   | CoCadTimer \<Rightarrow> co_cadTimer s)"

definition con_handle :: "console_event \<Rightarrow> (console, unit) action" where
  "con_handle e = upd (con_step e)"

definition con_resume :: "unit \<Rightarrow> reply \<Rightarrow> (console, unit) action" where
  "con_resume k r = skip"

abbreviation con_reach :: "vm_state \<Rightarrow> (console, unit) world \<Rightarrow> bool" where
  "con_reach v \<equiv> reachable (fresh (con_init v)) con_enabled con_handle con_resume"

subsection \<open>The address can be read back\<close>

text \<open>What a server reads from the address: the decoded path segment and the decoded token.\<close>

definition parse_console_path :: "string \<Rightarrow> string \<times> string" where
  "parse_console_path p =
     (let r = drop (length ''/api/v1/vms/'') p in
      (percent_decode (takeWhile (\<lambda>c. c \<noteq> CHR ''/'') r),
       percent_decode (drop (length ''/console?token='') (dropWhile (\<lambda>c. c \<noteq> CHR ''/'') r))))"

lemma encoded_no_slash: "c \<in> set (encode_uri_component s) \<Longrightarrow> c \<noteq> CHR ''/''"
  using encode_uri_component_chars [of c s] by (auto simp: unreserved_def)

text \<open>
  Whatever bytes the id of the machine and the token are made of, the address of the console
  is read back to exactly that id and that token; without a token it has no query.
\<close>

theorem console_path_roundtrip:
  "parse_console_path (console_path i token) = (i, orelse token '''')"
proof -
  let ?e = "encode_uri_component i"
  have t: "takeWhile (\<lambda>c. c \<noteq> CHR ''/'') (?e @ CHR ''/'' # q) = ?e"
    and d: "dropWhile (\<lambda>c. c \<noteq> CHR ''/'') (?e @ CHR ''/'' # q) = CHR ''/'' # q" for q
    using encoded_no_slash by (simp_all add: takeWhile_append2 dropWhile_append2)
  show ?thesis
    by (cases token) (auto simp: parse_console_path_def console_path_def token_query_def t d
        percent_decode_encode encode_uri_component_def [of "[]"])
qed

subsection \<open>At most one session\<close>

definition con_inv :: "console \<Rightarrow> bool" where
  "con_inv s \<longleftrightarrow>
     (\<forall>n x. (n, x) \<in> set (co_rfbs s) \<longrightarrow> n < co_next s)
     \<and> distinct (map fst (co_rfbs s))
     \<and> (\<forall>n x. (n, x) \<in> set (co_rfbs s) \<longrightarrow> x \<noteq> Closing \<longrightarrow> co_ref s = Some n)
     \<and> (\<forall>n. co_ref s = Some n \<longrightarrow> co_live s \<and> n < co_next s)
     \<and> (co_timer s \<longrightarrow> co_live s \<and> co_ref s = None)
     \<and> (co_live s \<and> co_status s = Connected \<longrightarrow> (\<exists>n. co_ref s = Some n \<and> (n, Opened) \<in> set (co_rfbs s)))"

lemma set_rfb_fst [simp]: "map fst (set_rfb n x rfbs) = map fst rfbs"
  by (induction rfbs) (auto simp: set_rfb_def)

lemma set_rfb_mem: "(m, y) \<in> set (set_rfb n x rfbs) \<longleftrightarrow>
    (if m = n then y = x \<and> (\<exists>z. (m, z) \<in> set rfbs) else (m, y) \<in> set rfbs)"
  by (force simp: set_rfb_def image_iff)

lemma co_live_simps [simp]:
  "co_live (s\<lparr>co_timer := b\<rparr>) = co_live s" "co_live (s\<lparr>co_status := c\<rparr>) = co_live s"
  "co_live (s\<lparr>co_rfbs := xs\<rparr>) = co_live s" "co_live (s\<lparr>co_log := l\<rparr>) = co_live s"
  "co_live (s\<lparr>co_ref := r\<rparr>) = co_live s" "co_live (s\<lparr>co_next := m\<rparr>) = co_live s"
  "co_live (s\<lparr>co_retries := m\<rparr>) = co_live s" "co_live (s\<lparr>co_retry := m\<rparr>) = co_live s"
  "co_live (s\<lparr>co_fetches := ns\<rparr>) = co_live s" "co_live (s\<lparr>co_fetch := m\<rparr>) = co_live s"
  "co_live (s\<lparr>co_cadSent := b\<rparr>) = co_live s" "co_live (s\<lparr>co_cadTimer := b\<rparr>) = co_live s"
  by (simp_all add: co_live_def co_running_def)

text \<open>
  What holds after a clean-up, whatever the machine's state and availability have become: every
  object left is closing, so the effect may start afresh.
\<close>

definition con_clean :: "console \<Rightarrow> bool" where
  "con_clean s \<longleftrightarrow>
     (\<forall>n x. (n, x) \<in> set (co_rfbs s) \<longrightarrow> n < co_next s \<and> x = Closing)
     \<and> distinct (map fst (co_rfbs s)) \<and> co_ref s = None \<and> \<not> co_timer s"

definition con_pre :: "console \<Rightarrow> bool" where
  "con_pre s \<longleftrightarrow>
     (\<forall>n x. (n, x) \<in> set (co_rfbs s) \<longrightarrow> n < co_next s)
     \<and> distinct (map fst (co_rfbs s))
     \<and> (\<forall>n x. (n, x) \<in> set (co_rfbs s) \<longrightarrow> x \<noteq> Closing \<longrightarrow> co_ref s = Some n)"

lemma con_clean_cleanup: "con_pre s \<Longrightarrow> con_clean (con_cleanup s)"
  by (cases "co_ref s") (force simp: con_pre_def con_clean_def con_cleanup_def set_rfb_mem split: if_splits)+

lemma con_inv_effect:
  assumes "con_pre s"
  shows "con_inv (con_effect s)"
proof -
  have "con_clean (con_cleanup s)" using assms by (intro con_clean_cleanup)
  then show ?thesis by (auto simp: con_effect_def Let_def con_clean_def con_inv_def)
qed

lemma con_pre_inv: "con_inv s \<Longrightarrow> con_pre s"
  by (simp add: con_inv_def con_pre_def)

lemma con_pre_cong:
  assumes "co_rfbs t = co_rfbs s" "co_next t = co_next s" "co_ref t = co_ref s"
  shows "con_pre t = con_pre s"
  using assms by (simp add: con_pre_def)

lemma con_invD:
  assumes "con_inv s"
  shows "(n, x) \<in> set (co_rfbs s) \<Longrightarrow> n < co_next s"
    and "distinct (map fst (co_rfbs s))"
    and "(n, x) \<in> set (co_rfbs s) \<Longrightarrow> x \<noteq> Closing \<Longrightarrow> co_ref s = Some n"
    and "co_ref s = Some n \<Longrightarrow> co_live s \<and> n < co_next s"
    and "co_timer s \<Longrightarrow> co_live s \<and> co_ref s = None"
    and "co_live s \<Longrightarrow> co_status s = Connected \<Longrightarrow> \<exists>n. co_ref s = Some n \<and> (n, Opened) \<in> set (co_rfbs s)"
  using assms unfolding con_inv_def by blast+

lemma con_inv_same:
  assumes "con_inv s" "co_rfbs t = co_rfbs s" "co_next t = co_next s" "co_ref t = co_ref s"
    and "co_live t = co_live s" "co_timer t = co_timer s" "co_status t = co_status s"
  shows "con_inv t"
  using assms by (simp add: con_inv_def)

lemma con_inv_init: "con_inv (con_init v)"
  unfolding con_init_def by (rule con_inv_effect) (simp add: con_pre_def con_preflight_def Let_def)

lemma con_inv_unavailable: "con_inv s \<Longrightarrow> con_inv (set_unavailable b s)"
  using con_inv_effect [of "s\<lparr>co_unavailable := b\<rparr>"] con_pre_inv [of s] con_pre_cong [of "s\<lparr>co_unavailable := b\<rparr>" s]
  by (simp add: set_unavailable_def)

lemma con_inv_step:
  assumes I: "con_inv s" and en: "con_enabled s e"
  shows "con_inv (con_step e s)"
proof (cases e)
  case (CoProps v)
  have "con_pre (con_preflight (s\<lparr>co_vm := v\<rparr>))"
    using con_pre_inv [OF I] by (simp add: con_pre_def con_preflight_def Let_def)
  moreover have "co_running (s\<lparr>co_vm := v\<rparr>) = co_running s \<Longrightarrow> con_inv (s\<lparr>co_vm := v\<rparr>)"
    using I by (auto intro: con_inv_same simp: co_live_def)
  ultimately show ?thesis using CoProps by (auto simp: Let_def intro: con_inv_effect)
next
  case (CoFetched n r)
  have "con_inv (s\<lparr>co_fetches := removeAll n (co_fetches s)\<rparr>)"
    using I by (auto intro: con_inv_same)
  then show ?thesis using CoFetched by (auto simp: Let_def con_inv_unavailable split: option.splits)
next
  case CoTimer
  note D = con_invD [OF I]
  have r: "co_ref s = None" "co_live s" using D(5) en CoTimer by (simp_all add: con_enabled_def)
  have "x = Closing" "n < co_next s" if "(n, x) \<in> set (co_rfbs s)" for n x
    using D(1,3) [OF that] r by auto
  moreover from this have "co_next s \<notin> fst ` set (co_rfbs s)" by fastforce
  moreover have "co_status s \<noteq> Connected" using D(6) r by auto
  ultimately show ?thesis using r D(2) CoTimer unfolding con_inv_def by (auto simp: less_Suc_eq)
next
  case (CoConnect n)
  note D = con_invD [OF I]
  have n: "(n, Opening) \<in> set (co_rfbs s)" using en CoConnect by (simp add: con_enabled_def)
  with D(3) have ref: "co_ref s = Some n" by blast
  have "con_inv (s\<lparr>co_status := Connected, co_rfbs := set_rfb n Opened (co_rfbs s)\<rparr>)" (is "con_inv ?t")
    unfolding con_inv_def
  proof (intro conjI allI impI)
    fix m x assume m: "(m, x) \<in> set (co_rfbs ?t)"
    then obtain y where y: "(m, y) \<in> set (co_rfbs s)" "m \<noteq> n \<longrightarrow> y = x"
      by (auto simp: set_rfb_mem split: if_splits)
    show "m < co_next ?t" using D(1) [OF y(1)] by simp
    assume "x \<noteq> Closing"
    with y D(3) [of m x] ref show "co_ref ?t = Some m" by (cases "m = n") auto
  next
    show "\<exists>m. co_ref ?t = Some m \<and> (m, Opened) \<in> set (co_rfbs ?t)"
      using n ref by (auto simp: set_rfb_mem)
  qed (use D in auto)
  with CoConnect show ?thesis by simp
next
  case (CoDisconnect n clean)
  with con_invD(1-5) [OF I] show ?thesis unfolding con_inv_def by (auto simp: distinct_map_filter)
next
  case CoRetry
  have "con_pre (s\<lparr>co_retries := co_retries s - 1, co_retry := Suc (co_retry s)\<rparr>)"
    using con_pre_inv [OF I] by (simp add: con_pre_def)
  with CoRetry show ?thesis by (simp add: con_inv_effect)
next
  case CoCad
  with I show ?thesis by (auto intro: con_inv_same simp: sendCtrlAltDel_def split: option.splits)
next
  case CoCadTimer
  with I show ?thesis by (auto intro: con_inv_same)
qed

interpretation con_run: component "fresh (con_init v)" con_enabled con_handle con_resume "\<lambda>w. con_inv (st w)" for v
proof unfold_locales
  show "con_inv (st (fresh (con_init v)))" by (simp add: con_inv_init)
next
  fix w :: "(console, unit) world" and e
  assume "con_inv (st w)" "con_enabled (st w) e"
  then show "con_inv (st (con_handle e w))" by (simp add: con_handle_def con_inv_step)
next
  fix w :: "(console, unit) world" and i r
  assume "con_inv (st w)"
  then show "con_inv (st (con_resume (snd (calls w ! i)) r (take_call i w)))" by (simp add: con_resume_def)
qed

definition open_sessions :: "console \<Rightarrow> nat list" where
  "open_sessions s = map fst (filter (\<lambda>c. snd c \<noteq> Closing) (co_rfbs s))"

lemma open_sessions_ref:
  assumes "con_inv s"
  shows "set (open_sessions s) \<subseteq> set_option (co_ref s)" "distinct (open_sessions s)"
  using assms by (auto simp: con_inv_def open_sessions_def distinct_map_filter)

lemma CoCad_enabled: "con_enabled s CoCad \<longleftrightarrow> co_live s \<and> co_status s = Connected"
  by (auto simp: con_enabled_def con_view_def co_live_def)

text \<open>
  C29. However the machine starts and stops, connections drop and timers fire, at most one VNC
  session is connecting or open, it is the one the panel holds, and only while the machine
  runs and has a console. The button for Ctrl+Alt+Del is enabled only while that session is
  open, and sends the keys to it and nothing else.
\<close>

theorem console_one_session:
  assumes "con_reach v w"
  shows "length (open_sessions (st w)) \<le> 1
    \<and> (open_sessions (st w) \<noteq> [] \<longrightarrow> co_vm (st w) = Running \<and> \<not> co_unavailable (st w) \<and> co_ref (st w) = Some (hd (open_sessions (st w))))
    \<and> (con_enabled (st w) CoCad \<longrightarrow> (\<exists>n. (n, Opened) \<in> set (co_rfbs (st w)) \<and> open_sessions (st w) = [n]
        \<and> co_log (con_step CoCad (st w)) = co_log (st w) @ [RCad n, RFocus n]))"
proof (intro conjI impI)
  have I: "con_inv (st w)" using assms by (rule con_run.reach_inv)
  note o = open_sessions_ref [OF I]
  have "length (open_sessions (st w)) = card (set (open_sessions (st w)))" using o(2) by (simp add: distinct_card)
  also have "\<dots> \<le> card (set_option (co_ref (st w)))" using o(1) by (intro card_mono) simp_all
  also have "\<dots> \<le> 1" by (cases "co_ref (st w)") simp_all
  finally show one: "length (open_sessions (st w)) \<le> 1" .
  have ref: "co_ref (st w) = Some n" if "n \<in> set (open_sessions (st w))" for n
    using o(1) that by (cases "co_ref (st w)") auto
  then have hd: "co_ref (st w) = Some (hd (open_sessions (st w)))" if "open_sessions (st w) \<noteq> []"
    using that by simp
  then show "co_ref (st w) = Some (hd (open_sessions (st w)))" if "open_sessions (st w) \<noteq> []" using that .
  then show "co_vm (st w) = Running" "\<not> co_unavailable (st w)" if "open_sessions (st w) \<noteq> []"
    using that I by (auto simp: con_inv_def co_live_def co_running_def)
  assume "con_enabled (st w) CoCad"
  with I obtain n where n: "co_ref (st w) = Some n" "(n, Opened) \<in> set (co_rfbs (st w))"
    by (auto simp: CoCad_enabled con_inv_def)
  then have "n \<in> set (open_sessions (st w))" by (force simp: open_sessions_def)
  with one have "open_sessions (st w) = [n]" by (cases "open_sessions (st w)") auto
  with n show "\<exists>n. (n, Opened) \<in> set (co_rfbs (st w)) \<and> open_sessions (st w) = [n]
        \<and> co_log (con_step CoCad (st w)) = co_log (st w) @ [RCad n, RFocus n]"
    by (auto simp: sendCtrlAltDel_def)
qed

definition console_up :: "console_event stimulus list" where
  "console_up = [Ev CoTimer, Ev (CoFetched 1 FThrew), Ev (CoConnect 0)]"

lemma console_up_play:
  "play con_enabled con_handle con_resume (console_up @ xs) (fresh (con_init Running)) =
   play con_enabled con_handle con_resume xs
     (fresh ((con_init Running)\<lparr>co_fetches := [], co_timer := False, co_ref := Some 0, co_next := 1,
        co_rfbs := [(0, Opened)], co_status := Connected, co_log := [RNew 0]\<rparr>))"
  by (simp add: console_up_def con_init_def con_effect_def con_cleanup_def con_preflight_def Let_def con_enabled_def
      con_handle_def co_live_def co_running_def set_rfb_def preflight_says_def set_unavailable_def upd_def fresh_def)

lemmas con_eval = con_enabled_def con_handle_def con_effect_def con_cleanup_def con_preflight_def Let_def co_live_def
  co_running_def set_rfb_def con_init_def open_sessions_def con_view_def

theorem console_one_session_witness:
  "\<exists>w. play con_enabled con_handle con_resume (console_up @ []) (fresh (con_init Running)) = Some w
     \<and> open_sessions (st w) = [0] \<and> co_vm (st w) = Running"
proof -
  obtain w where w: "play con_enabled con_handle con_resume (console_up @ []) (fresh (con_init Running)) = Some w"
    "open_sessions (st w) = [0]"
    by (simp only: console_up_play) (simp add: open_sessions_def)
  from console_one_session [OF play_reachable [OF reachable.boot w(1)]] w show ?thesis by auto
qed

definition console_stale :: "console_event stimulus list" where
  "console_stale = [Ev (CoDisconnect 0 False), Ev (CoProps Stopped), Ev (CoProps Running), Ev CoTimer, Ev (CoConnect 1)]"

text \<open>
  Timers and events of earlier connections are not told apart from those of the current one.
  After an unclean disconnect the machine is stopped and started again and a new session is
  open; the retry timer of the old connection then disconnects it. And when the third session
  is open, the late \<open>disconnect\<close> of the second shows the panel as disconnected and disables
  the button.
\<close>

theorem console_stale_events:
  "(\<exists>w. play con_enabled con_handle con_resume (console_up @ console_stale) (fresh (con_init Running)) = Some w
     \<and> open_sessions (st w) = [1] \<and> co_status (st w) = Connected
     \<and> con_enabled (st w) CoRetry \<and> open_sessions (st (con_handle CoRetry w)) = []
     \<and> last (co_log (st (con_handle CoRetry w))) = RDisconnect 1)
   \<and> (\<exists>w. play con_enabled con_handle con_resume
       (console_up @ console_stale @ [Ev CoRetry, Ev CoTimer, Ev (CoConnect 2), Ev (CoDisconnect 1 True)]) (fresh (con_init Running)) = Some w
     \<and> open_sessions (st w) = [2] \<and> co_status (st w) = Disconnected \<and> \<not> con_enabled (st w) CoCad)"
  unfolding console_up_play by (simp add: console_stale_def con_eval)

lemma con_idle_enabled:
  assumes "co_fetches s = []" "\<not> co_timer s" "co_rfbs s = []" "co_retries s = 0" "\<not> co_cadTimer s"
    and "co_status s \<noteq> Connected"
  shows "con_enabled s e = (\<exists>v. e = CoProps v)"
  using assms by (cases e) (auto simp: con_enabled_def con_view_def)

text \<open>
  The text of a lost connection promises a retry. When the connection was closed cleanly
  there is none: with nothing else pending the only thing that can still happen to the panel
  is a new state of the machine.
\<close>

theorem console_clean_close_stuck:
  "\<exists>w. play con_enabled con_handle con_resume (console_up @ [Ev (CoDisconnect 0 True)]) (fresh (con_init Running)) = Some w
     \<and> status_text (co_status (st w)) = ''Console disconnected '' @ em_dash @ '' retrying'' @ ellipsis
     \<and> (\<forall>e. con_enabled (st w) e = (\<exists>v. e = CoProps v))"
proof -
  let ?s = "(con_init Running)\<lparr>co_fetches := [], co_timer := False, co_ref := Some 0, co_next := Suc 0,
     co_rfbs := [(0, Opened)], co_status := Connected, co_log := [RNew 0]\<rparr>"
  let ?w = "con_handle (CoDisconnect 0 True) (fresh ?s) :: (console, unit) world"
  have p: "play con_enabled con_handle con_resume (console_up @ [Ev (CoDisconnect 0 True)]) (fresh (con_init Running)) = Some ?w"
    unfolding console_up_play by (simp add: con_enabled_def)
  have s: "co_fetches (st ?w) = []" "\<not> co_timer (st ?w)" "co_rfbs (st ?w) = []" "co_retries (st ?w) = 0"
    "\<not> co_cadTimer (st ?w)" "co_status (st ?w) = Disconnected"
    by (simp_all add: con_eval)
  have "con_enabled (st ?w) e = (\<exists>v. e = CoProps v)" for e
    by (rule con_idle_enabled) (use s in simp_all)
  moreover have "status_text (co_status (st ?w)) = ''Console disconnected '' @ em_dash @ '' retrying'' @ ellipsis"
    using s(6) by (simp only: status_text_def conn_status.case)
  ultimately show ?thesis using p by blast
qed

subsection \<open>The full-screen page\<close>

text \<open>
  What a page that shows the panel for a loaded machine does to it when that changes: mount,
  new props or unmount.
\<close>

definition panel_sync :: "vm option \<Rightarrow> vm option \<Rightarrow> console \<Rightarrow> console" where
  "panel_sync before after c = (case after of
     None \<Rightarrow> if before = None then c else con_unmount c
   | Some v \<Rightarrow> if before = None then con_init (v_state v) else con_step (CoProps (v_state v)) c)"

record fullscreen =
  cf_user :: "user option"
  cf_authLoading :: bool
  cf_poll :: "vm polling"
  cf_console :: console

datatype fullscreen_event = CfTick | CfAuth "user option" bool | CfConsole console_event

datatype fullscreen_kont = CfPoll

text \<open>The machine for which the panel is rendered, if it is.\<close>

definition cf_shown :: "fullscreen \<Rightarrow> vm option" where
  "cf_shown s =
     (if cf_authLoading s \<or> poll_loading (cf_poll s) \<and> poll_data (cf_poll s) = None then None
      else if cf_user s = None then None
      else if poll_error (cf_poll s) \<noteq> None \<and> poll_error (cf_poll s) \<noteq> Some '''' then None
      else poll_data (cf_poll s))"

definition cf_update :: "(fullscreen \<Rightarrow> fullscreen) \<Rightarrow> (fullscreen, fullscreen_kont) action" where
  "cf_update f = upd (\<lambda>s. (f s)\<lparr>cf_console := panel_sync (cf_shown s) (cf_shown (f s)) (cf_console s)\<rparr>)"

definition vm_of :: "payload list \<Rightarrow> vm option" where
  "vm_of ps = (case ps of [PVm v] \<Rightarrow> Some v | _ \<Rightarrow> None)"

definition dead_console :: console where
  "dead_console = con_unmount (con_init Stopped)"

definition cf_init :: "user option \<Rightarrow> bool \<Rightarrow> fullscreen" where
  "cf_init u loading = \<lparr>cf_user = u, cf_authLoading = loading, cf_poll = poll_init, cf_console = dead_console\<rparr>"

fun cf_handle :: "string \<Rightarrow> fullscreen_event \<Rightarrow> (fullscreen, fullscreen_kont) action" where
  "cf_handle i CfTick w = call [GetVm i] CfPoll w"
| "cf_handle i (CfAuth u loading) w = cf_update (\<lambda>s. s\<lparr>cf_user := u, cf_authLoading := loading\<rparr>) w"
| "cf_handle i (CfConsole e) w = upd (cf_console_update (con_step e)) w"

fun cf_resume :: "fullscreen_kont \<Rightarrow> reply \<Rightarrow> (fullscreen, fullscreen_kont) action" where
  "cf_resume CfPoll r w = cf_update (cf_poll_update (poll_done (load_with vm_of r))) w"

definition cf_boot :: "string \<Rightarrow> user option \<Rightarrow> bool \<Rightarrow> (fullscreen, fullscreen_kont) world" where
  "cf_boot i u loading = call [GetVm i] CfPoll (fresh (cf_init u loading))"

definition session_expired :: string where
  "session_expired = ''Sess'' @ [CHR 0xC3, CHR 0xA3] @ ''o expirada '' @ em_dash @ '' volte '' @ [CHR 0xC3, CHR 0xA0]
     @ '' aba principal e fa'' @ [CHR 0xC3, CHR 0xA7] @ ''a login novamente.''"

definition cf_view :: "fullscreen \<Rightarrow> fullscreen_event ui list" where
  "cf_view s =
     (if cf_authLoading s \<or> poll_loading (cf_poll s) \<and> poll_data (cf_poll s) = None then [TableSkeleton 3 3]
      else if cf_user s = None then [Txt session_expired]
      else (case cf_shown s of
         None \<Rightarrow> [Txt (''Failed to load VM: '' @ orelse (poll_error (cf_poll s)) ''unknown error'')]
       | Some v \<Rightarrow> [Lnk ''Back'' (''/vms/'' @ v_id v), Txt (v_name v), Box ''console-full-body'' []]))"

definition cf_enabled :: "fullscreen \<Rightarrow> fullscreen_event \<Rightarrow> bool" where
  "cf_enabled s e = (case e of
     CfTick \<Rightarrow> True
   | CfAuth u loading \<Rightarrow> True
   | CfConsole c \<Rightarrow> (case c of CoProps v \<Rightarrow> False | _ \<Rightarrow> con_enabled (cf_console s) c \<and> cf_shown s \<noteq> None))"

abbreviation cf_reach :: "string \<Rightarrow> user option \<Rightarrow> bool \<Rightarrow> (fullscreen, fullscreen_kont) world \<Rightarrow> bool" where
  "cf_reach i u loading \<equiv> reachable (cf_boot i u loading) cf_enabled (cf_handle i) cf_resume"

definition panel_ok :: "vm option \<Rightarrow> console \<Rightarrow> bool" where
  "panel_ok shown c = (case shown of
     None \<Rightarrow> co_rfbs c = [] \<and> \<not> co_timer c
   | Some v \<Rightarrow> con_inv c \<and> co_vm c = v_state v)"

lemma co_vm_effect [simp]: "co_vm (con_effect c) = co_vm c" "co_vm (con_preflight c) = co_vm c"
  by (auto simp: con_effect_def con_cleanup_def con_preflight_def Let_def split: option.splits)

lemma panel_ok_sync: "panel_ok before c \<Longrightarrow> panel_ok after (panel_sync before after c)"
proof (cases after)
  case None
  assume "panel_ok before c"
  with None show ?thesis
    by (cases before) (auto simp: panel_ok_def panel_sync_def con_unmount_def con_cleanup_def split: option.splits)
next
  case (Some v)
  assume "panel_ok before c"
  moreover have "con_enabled c (CoProps (v_state v))" by (simp add: con_enabled_def)
  moreover have "co_vm (con_init (v_state v)) = v_state v" by (simp add: con_init_def)
  ultimately show ?thesis using Some con_inv_step [of c "CoProps (v_state v)"]
    by (cases before) (auto simp: panel_ok_def panel_sync_def con_inv_init Let_def)
qed

lemma co_vm_step: "(\<And>v. e \<noteq> CoProps v) \<Longrightarrow> co_vm (con_step e c) = co_vm c"
  by (cases e) (auto simp: Let_def set_unavailable_def sendCtrlAltDel_def split: option.splits)

lemma panel_ok_step:
  assumes "panel_ok (Some v) c" "con_enabled c e" "\<And>x. e \<noteq> CoProps x"
  shows "panel_ok (Some v) (con_step e c)"
  using assms con_inv_step [of c e] by (simp add: panel_ok_def co_vm_step)

definition cf_ok :: "(fullscreen, fullscreen_kont) world \<Rightarrow> bool" where
  "cf_ok w = panel_ok (cf_shown (st w)) (cf_console (st w))"

lemma cf_shown_console [simp]: "cf_shown (cf_console_update f s) = cf_shown s"
  by (simp add: cf_shown_def)

lemma cf_ok_update: "cf_ok w \<Longrightarrow> cf_ok (cf_update f w)"
  by (simp add: cf_ok_def cf_update_def panel_ok_sync)

interpretation cf_run: component "cf_boot i u loading" cf_enabled "cf_handle i" cf_resume cf_ok for i u loading
proof unfold_locales
  have "co_rfbs dead_console = []" "\<not> co_timer dead_console"
    by (simp_all add: dead_console_def con_unmount_def con_cleanup_def con_init_def con_effect_def con_preflight_def Let_def
        co_live_def co_running_def)
  then show "cf_ok (cf_boot i u loading)"
    by (simp add: cf_ok_def cf_boot_def cf_init_def cf_shown_def poll_init_def panel_ok_def)
next
  fix w :: "(fullscreen, fullscreen_kont) world" and e
  assume I: "cf_ok w" and en: "cf_enabled (st w) e"
  show "cf_ok (cf_handle i e w)"
  proof (cases e)
    case CfTick
    with I show ?thesis by (simp add: cf_ok_def)
  next
    case (CfAuth u l)
    with I show ?thesis by (simp add: cf_ok_update)
  next
    case (CfConsole c)
    with en obtain v where v: "cf_shown (st w) = Some v" "con_enabled (cf_console (st w)) c" "\<And>x. c \<noteq> CoProps x"
      by (cases c) (auto simp: cf_enabled_def)
    with I have "panel_ok (Some v) (con_step c (cf_console (st w)))" by (intro panel_ok_step) (simp_all add: cf_ok_def)
    with v CfConsole show ?thesis by (simp add: cf_ok_def)
  qed
next
  fix w :: "(fullscreen, fullscreen_kont) world" and i r
  assume "cf_ok w"
  then have "cf_ok (take_call i w)" by (simp add: cf_ok_def)
  then show "cf_ok (cf_resume (snd (calls w ! i)) r (take_call i w))"
    by (cases "snd (calls w ! i)") (simp add: cf_ok_update)
qed

lemma panel_session:
  assumes "panel_ok shown c" "open_sessions c \<noteq> []"
  shows "\<exists>v. shown = Some v \<and> v_state v = Running \<and> co_ref c = Some (hd (open_sessions c))"
proof (cases shown)
  case None
  with assms show ?thesis by (simp add: panel_ok_def open_sessions_def)
next
  case (Some v)
  with assms have I: "con_inv c" and s: "co_vm c = v_state v" by (simp_all add: panel_ok_def)
  have "hd (open_sessions c) \<in> set_option (co_ref c)"
    using open_sessions_ref(1) [OF I] assms(2) by (meson hd_in_set subset_eq)
  then have ref: "co_ref c = Some (hd (open_sessions c))" by (cases "co_ref c") auto
  with con_invD(4) [OF I] have "co_live c" by blast
  with Some s ref show ?thesis by (simp add: co_live_def co_running_def)
qed

lemma panel_sync_fresh: "panel_ok None c \<Longrightarrow> open_sessions (panel_sync None after c) = []"
  by (cases after) (simp_all add: panel_sync_def panel_ok_def con_eval)

text \<open>
  The page of its own holds a VNC session only for a signed-in user and a running machine
  that the last poll loaded without an error. A single failed poll takes the session down: the
  panel is unmounted and its session disconnected, and the next successful poll starts with a
  panel without any.
\<close>

theorem fullscreen_session_guarded:
  assumes "cf_reach i u loading w" and "open_sessions (cf_console (st w)) = [n]"
  shows "(\<exists>v. cf_shown (st w) = Some v \<and> v_state v = Running) \<and> cf_user (st w) \<noteq> None \<and> \<not> cf_authLoading (st w)
    \<and> (err_message e \<noteq> '''' \<longrightarrow>
        cf_shown (st (cf_resume CfPoll (Inl e) w)) = None
      \<and> co_log (cf_console (st (cf_resume CfPoll (Inl e) w))) = co_log (cf_console (st w)) @ [RDisconnect n]
      \<and> open_sessions (cf_console (st (cf_resume CfPoll (Inr [PVm v]) (cf_resume CfPoll (Inl e) w)))) = [])"
proof -
  have ok: "cf_ok w" using assms(1) by (rule cf_run.reach_inv)
  from panel_session [of "cf_shown (st w)" "cf_console (st w)"] ok assms(2)
  obtain x where x: "cf_shown (st w) = Some x" "v_state x = Running" "co_ref (cf_console (st w)) = Some n"
    by (auto simp: cf_ok_def)
  then have s: "cf_user (st w) \<noteq> None" "\<not> cf_authLoading (st w)" by (auto simp: cf_shown_def split: if_splits)
  let ?w = "cf_resume CfPoll (Inl e) w"
  have gone: "cf_shown (st ?w) = None" if "err_message e \<noteq> ''''"
    using that by (simp add: cf_update_def) (simp add: cf_shown_def)
  have "cf_console (st ?w) = con_unmount (cf_console (st w))" if "err_message e \<noteq> ''''"
    using gone [OF that] x by (simp add: cf_update_def panel_sync_def)
  then have log: "co_log (cf_console (st ?w)) = co_log (cf_console (st w)) @ [RDisconnect n]" if "err_message e \<noteq> ''''"
    using x(3) that by (simp add: con_unmount_def con_cleanup_def)
  have "cf_ok ?w" using ok by (simp add: cf_ok_update)
  then have "open_sessions (cf_console (st (cf_resume CfPoll (Inr [PVm v]) ?w))) = []" if "err_message e \<noteq> ''''"
    using gone [OF that] panel_sync_fresh [of "cf_console (st ?w)"] by (simp add: cf_ok_def cf_update_def)
  with x s gone log show ?thesis by blast
qed

definition one_vm :: vm where
  "one_vm = \<lparr>v_id = ''app'', v_name = ''app'', v_state = Running, v_vcpus = 2, v_memoryBytes = 1024, v_uptimeSeconds = None,
     v_os = None, v_ipAddress = None, v_isoId = None, v_disks = [], v_networkInterfaces = [], v_metrics = None,
     v_bootTime = None, v_osType = None, v_performanceProfile = None, v_warnings = None\<rparr>"

definition some_user :: user where
  "some_user = \<lparr>u_id = 1, u_username = ''admin'', u_role = Admin, u_createdAt = ''2026-01-01T00:00:00Z''\<rparr>"

theorem fullscreen_session_guarded_witness:
  "\<exists>w. play cf_enabled (cf_handle ''app'') cf_resume
       [Settle 0 (Inr [PVm one_vm]), Ev (CfConsole CoTimer)] (cf_boot ''app'' (Some some_user) False) = Some w
     \<and> cf_shown (st (cf_resume CfPoll (Inl (OtherError ''TypeError'' ''Failed to fetch'')) w)) = None"
proof -
  obtain w where w: "play cf_enabled (cf_handle ''app'') cf_resume
       [Settle 0 (Inr [PVm one_vm]), Ev (CfConsole CoTimer)] (cf_boot ''app'' (Some some_user) False) = Some w"
    "open_sessions (cf_console (st w)) = [0]"
    by (simp add: cf_boot_def reply_ok_def cf_update_def cf_enabled_def cf_shown_def cf_init_def poll_init_def vm_of_def
        panel_sync_def con_eval one_vm_def)
  from fullscreen_session_guarded [OF play_reachable [OF reachable.boot w(1)] w(2), of "OtherError ''TypeError'' ''Failed to fetch''"] w(1)
  show ?thesis by auto
qed

end
