(* ===== verification/VmDetails.thy ===== *)
theory VmDetails
  imports VmsPage VmSettings Charts Console
begin

text \<open>
  The page of one machine (\<open>frontend/src/pages/VMDetails.tsx\<close>): the polled machine, its power
  actions and deletion with their dialogs, and the tabs, of which the overview keeps the
  sampled history, the console its connection and the settings a form. A tab's component is
  mounted when the tab is chosen or the page gets a machine to show, and unmounted when the
  tab is left or the page shows an error. The id of the route is a parameter: no link of the
  page leads to the page of another machine.
\<close>

subsection \<open>State\<close>

record vm_details =
  vdp_tab :: string
  vdp_busy :: bool
  vdp_confirm :: "confirm_action option"
  vdp_poll :: "vm polling"
  vdp_gone :: bool
  vdp_mount :: nat
  vdp_history :: history
  vdp_console :: console
  vdp_settings :: vm_settings

datatype vm_details_event =
    VdTick
  | VdTab string
  | VdRun power_action
  | VdAsk confirm_action
  | VdCancel
  | VdConfirm
  | VdOpenConsole
  | VdHistory history_event
  | VdConsole console_event
  | VdSettings vm_settings_event

datatype vm_details_kont =
    DkPoll
  | DkAct power_action string
  | DkRefresh
  | DkDelete bool string
  | DkHistory nat history_kont
  | DkSettings nat vm_settings_kont

definition no_settings :: vm_settings where
  "no_settings = \<lparr>vs_vcpus = '''', vs_memoryGiB = '''', vs_isoId = '''', vs_networkId = '''', vs_isos = None,
     vs_networks = None, vs_saving = False, vs_error = None\<rparr>"

definition vm_details_init :: "int \<Rightarrow> vm_details" where
  "vm_details_init now = \<lparr>vdp_tab = ''overview'', vdp_busy = False, vdp_confirm = None, vdp_poll = poll_init,
     vdp_gone = False, vdp_mount = 0, vdp_history = history_init now, vdp_console = dead_console,
     vdp_settings = no_settings\<rparr>"

definition vd_error :: "vm_details \<Rightarrow> string option" where
  "vd_error s = (case poll_error (vdp_poll s) of Some m \<Rightarrow> if m = '''' then None else Some m | None \<Rightarrow> None)"

text \<open>The machine the page shows, if it shows one.\<close>

definition vd_shown :: "vm_details \<Rightarrow> vm option" where
  "vd_shown s =
     (if vdp_gone s \<or> poll_loading (vdp_poll s) \<and> poll_data (vdp_poll s) = None then None
      else if vd_error s \<noteq> None then None
      else poll_data (vdp_poll s))"

text \<open>The machine the component of a tab is mounted for, if it is.\<close>

definition vd_panel :: "string \<Rightarrow> vm_details \<Rightarrow> vm option" where
  "vd_panel t s = (if vdp_tab s = t then vd_shown s else None)"

subsection \<open>The components of the tabs\<close>

definition in_history :: "nat \<Rightarrow> (history, history_kont) action \<Rightarrow> (vm_details, vm_details_kont) action" where
  "in_history m a = embed vdp_history (\<lambda>c p. if vdp_mount p = m then p\<lparr>vdp_history := c\<rparr> else p) (DkHistory m) emit a"

text \<open>\<open>onChanged\<close> of the settings starts a refresh that nothing waits for.\<close>

fun vd_settings_effect :: "string \<Rightarrow> effect \<Rightarrow> (vm_details, vm_details_kont) action" where
  "vd_settings_effect i OnSaved w = call [GetVm i] DkPoll w"
| "vd_settings_effect i x w = emit x w"

definition in_settings ::
  "string \<Rightarrow> nat \<Rightarrow> (vm_settings, vm_settings_kont) action \<Rightarrow> (vm_details, vm_details_kont) action" where
  "in_settings i m a = embed vdp_settings (\<lambda>c p. if vdp_mount p = m then p\<lparr>vdp_settings := c\<rparr> else p) (DkSettings m)
     (vd_settings_effect i) a"

text \<open>Mounting the component of the tab that is now shown for \<open>v\<close>.\<close>

definition vd_mount :: "string \<Rightarrow> vm \<Rightarrow> (vm_details, vm_details_kont) action" where
  "vd_mount i v w =
     (let w1 = upd (\<lambda>s. s\<lparr>vdp_mount := Suc (vdp_mount s)\<rparr>) w; m = vdp_mount (st w1); t = vdp_tab (st w1) in
      if t = ''overview'' then
        in_history m (mh_handle (v_id v) HTick)
          (upd (\<lambda>s. s\<lparr>vdp_history := history_init (mh_now (vdp_history s))\<rparr>) w1)
      else if t = ''settings'' then
        in_settings i m vs_load (upd (\<lambda>s. s\<lparr>vdp_settings := vs_init v\<rparr>) w1)
      else w1)"

text \<open>
  A change of the page's state that may change what is shown: the console follows its machine,
  and the component of a tab is mounted when it was not mounted before.
\<close>

definition vd_change :: "string \<Rightarrow> (vm_details \<Rightarrow> vm_details) \<Rightarrow> (vm_details, vm_details_kont) action" where
  "vd_change i f w =
     (let s = st w; s1 = f s;
          s2 = s1\<lparr>vdp_console := panel_sync (vd_panel ''console'' s) (vd_panel ''console'' s1) (vdp_console s1)\<rparr>;
          w1 = upd (\<lambda>_. s2) w in
      case vd_shown s1 of
        Some v \<Rightarrow> if vd_shown s \<noteq> None \<and> vdp_tab s = vdp_tab s1 then w1 else vd_mount i v w1
      | None \<Rightarrow> if vd_shown s \<noteq> None then upd (\<lambda>s. s\<lparr>vdp_mount := Suc (vdp_mount s)\<rparr>) w1 else w1)"

subsection \<open>Handlers\<close>

definition vd_name :: "string \<Rightarrow> vm_details \<Rightarrow> string" where
  "vd_name i s = (case poll_data (vdp_poll s) of Some v \<Rightarrow> v_name v | None \<Rightarrow> i)"

definition vd_polled :: "string \<Rightarrow> reply \<Rightarrow> (vm_details, vm_details_kont) action" where
  "vd_polled i r = vd_change i (vdp_poll_update (poll_done (load_with vm_of r)))"

definition vd_settle :: "(vm_details, vm_details_kont) action" where
  "vd_settle = upd (\<lambda>s. s\<lparr>vdp_busy := False, vdp_confirm := None\<rparr>)"

definition vd_run :: "string \<Rightarrow> power_action \<Rightarrow> (vm_details, vm_details_kont) action" where
  "vd_run i a w = run [upd (vdp_busy_update (\<lambda>_. True)),
     call [PostVmAction i a]
       (DkAct a (vd_name i (st w) @ '': '' @ (if a = AStop then ''force stop'' else action_str a) @ '' requested''))] w"

definition vd_delete :: "string \<Rightarrow> bool \<Rightarrow> (vm_details, vm_details_kont) action" where
  "vd_delete i deleteDisks w = run [upd (vdp_busy_update (\<lambda>_. True)),
     call [DeleteVm i deleteDisks]
       (DkDelete deleteDisks (vd_name i (st w) @ '': deleted'' @ (if deleteDisks then '' (disks removed)'' else '''')))] w"

definition console_tab :: "vm \<Rightarrow> string" where
  "console_tab v = ''/vms/'' @ encode_uri_component (v_id v) @ ''/console''"

fun vd_handle :: "string \<Rightarrow> vm_details_event \<Rightarrow> (vm_details, vm_details_kont) action" where
  "vd_handle i VdTick w = call [GetVm i] DkPoll w"
| "vd_handle i (VdTab t) w = vd_change i (vdp_tab_update (\<lambda>_. t)) w"
| "vd_handle i (VdRun a) w = vd_run i a w"
| "vd_handle i (VdAsk a) w = upd (vdp_confirm_update (\<lambda>_. Some a)) w"
| "vd_handle i VdCancel w = upd (vdp_confirm_update (\<lambda>_. None)) w"
| "vd_handle i VdConfirm w = (case vdp_confirm (st w) of
     Some CStop \<Rightarrow> vd_run i AStop w
   | Some CDelete \<Rightarrow> vd_delete i False w
   | Some CDeleteDisks \<Rightarrow> vd_delete i True w
   | None \<Rightarrow> w)"
| "vd_handle i VdOpenConsole w = (case vd_shown (st w) of Some v \<Rightarrow> emit (OpenTab (console_tab v)) w | None \<Rightarrow> w)"
| "vd_handle i (VdHistory e) w = (case vd_panel ''overview'' (st w) of
     Some v \<Rightarrow> in_history (vdp_mount (st w)) (mh_handle (v_id v) e) w
   | None \<Rightarrow> in_history (vdp_mount (st w)) (mh_handle i e) w)"
| "vd_handle i (VdConsole e) w = upd (vdp_console_update (con_step e)) w"
| "vd_handle i (VdSettings e) w = (case vd_panel ''settings'' (st w) of
     Some v \<Rightarrow> in_settings i (vdp_mount (st w)) (vs_handle v e) w
   | None \<Rightarrow> w)"

fun vd_resume :: "string \<Rightarrow> vm_details_kont \<Rightarrow> reply \<Rightarrow> (vm_details, vm_details_kont) action" where
  "vd_resume i DkPoll r w = vd_polled i r w"
| "vd_resume i (DkAct a done) r w = (case r of
     Inr ps \<Rightarrow> run [emit (Toast TSuccess done), call [GetVm i] DkRefresh] w
   | Inl e \<Rightarrow> run [emit (Toast TError (err_dash e)), vd_settle] w)"
| "vd_resume i DkRefresh r w = run [vd_polled i r, vd_settle] w"
| "vd_resume i (DkDelete d done) r w = (case r of
     Inr ps \<Rightarrow> run [emit (Toast TSuccess done), emit (Navigate ''/vms''), vd_change i (vdp_gone_update (\<lambda>_. True))] w
   | Inl e \<Rightarrow> run [emit (Toast TError (err_dash e)), vd_settle] w)"
| "vd_resume i (DkHistory m k) r w = in_history m (mh_resume k r) w"
| "vd_resume i (DkSettings m k) r w = in_settings i m (vs_resume k r) w"

definition vd_boot :: "string \<Rightarrow> int \<Rightarrow> (vm_details, vm_details_kont) world" where
  "vd_boot i now = call [GetVm i] DkPoll (fresh (vm_details_init now))"

subsection \<open>View\<close>

definition VM_TABS :: "tab_def list" where
  "VM_TABS = [\<lparr>td_id = ''overview'', td_label = ''Overview'', td_disabled = False\<rparr>,
     \<lparr>td_id = ''console'', td_label = ''Console'', td_disabled = False\<rparr>,
     \<lparr>td_id = ''hardware'', td_label = ''Hardware'', td_disabled = False\<rparr>,
     \<lparr>td_id = ''disks'', td_label = ''Disks'', td_disabled = False\<rparr>,
     \<lparr>td_id = ''network'', td_label = ''Network'', td_disabled = False\<rparr>,
     \<lparr>td_id = ''snapshots'', td_label = ''Snapshots'', td_disabled = True\<rparr>,
     \<lparr>td_id = ''backups'', td_label = ''Backups'', td_disabled = True\<rparr>,
     \<lparr>td_id = ''settings'', td_label = ''Settings'', td_disabled = False\<rparr>]"

text \<open>\<open>fmt t\<close> is \<open>new Date(t).toLocaleString()\<close>.\<close>

definition boot_time :: "(string \<Rightarrow> string) \<Rightarrow> vm \<Rightarrow> string" where
  "boot_time fmt v = (case v_bootTime v of Some t \<Rightarrow> if t = '''' then em_dash else fmt t | None \<Rightarrow> em_dash)"

definition mem_text :: "vm \<Rightarrow> string option" where
  "mem_text v = map_option (\<lambda>u. formatBytes u 1 @ '' / '' @ formatBytes (v_memoryBytes v) 1) (vm_mem_used v)"

definition disk_text :: "disk \<Rightarrow> string" where
  "disk_text d = (case d_usedBytes d of
     Some u \<Rightarrow> formatBytes u 1 @ '' / '' @ formatBytes (d_sizeBytes d) 1
   | None \<Rightarrow> formatBytes (d_sizeBytes d) 1)"

definition diskTotal :: "vm \<Rightarrow> int" where
  "diskTotal v = sum_by d_sizeBytes (v_disks v)"

definition diskUsed :: "vm \<Rightarrow> int" where
  "diskUsed v = sum_by (\<lambda>d. orelse (d_usedBytes d) 0) (v_disks v)"

definition diskPct :: "vm \<Rightarrow> rat option" where
  "diskPct v = (if list_ex (\<lambda>d. d_usedBytes d \<noteq> None) (v_disks v) \<and> 0 < diskTotal v
     then Some (of_int (diskUsed v) / of_int (diskTotal v) * 100) else None)"

definition memPct :: "vm \<Rightarrow> rat option" where
  "memPct v = (case vm_mem_used v of
     Some u \<Rightarrow> if 0 < v_memoryBytes v then Some (of_int u / of_int (v_memoryBytes v) * 100) else None
   | None \<Rightarrow> None)"

definition vm_rx :: "vm \<Rightarrow> int option" where
  "vm_rx v = Option.bind (v_metrics v) m_networkRx"

definition vm_tx :: "vm \<Rightarrow> int option" where
  "vm_tx v = Option.bind (v_metrics v) m_networkTx"

definition overview_cards :: "vm \<Rightarrow> 'e ui list" where
  "overview_cards v =
     (let running = (v_state v = Running); n = nat_str (length (v_disks v)) in
      [MetricCard ''CPU Usage'' [Txt (case vm_cpu v of Some p \<Rightarrow> to_fixed p 0 @ ''%'' | None \<Rightarrow> ''n/a'')]
         (Some [Txt (if running then int_str (v_vcpus v) @ '' vCPU allocated'' else ''VM not running'')]) None (vm_cpu v) False ''blue'',
       MetricCard ''Memory Usage'' [Txt (orelse (mem_text v) (formatBytes (v_memoryBytes v) 1))]
         (Some [Txt (if vm_mem_used v \<noteq> None then int_str (math_round (orelse (memPct v) 0)) @ ''% of allocated''
            else ''allocated (guest usage not reported)'')]) None (memPct v) False ''violet'',
       MetricCard ''Disk Usage''
         [Txt (if diskPct v \<noteq> None then formatBytes (diskUsed v) 1 @ '' / '' @ formatBytes (diskTotal v) 1 else formatBytes (diskTotal v) 1)]
         (Some [Txt (case diskPct v of
              Some p \<Rightarrow> int_str (math_round p) @ ''% allocated '' @ mid_dot @ '' '' @ n @ '' disk(s)''
            | None \<Rightarrow> n @ '' disk(s) '' @ mid_dot @ '' capacity (usage not reported)'')]) None (diskPct v) False ''purple'',
       MetricCard ''Network'' [Txt (if vm_rx v \<noteq> None \<or> vm_tx v \<noteq> None then rates_text (vm_rx v) (vm_tx v) else ''n/a'')]
         (Some [Txt (if running then ''rx / tx throughput'' else ''VM not running'')]) None None False ''blue''])"

definition PerformanceProfileCard :: "vm \<Rightarrow> 'e ui list" where
  "PerformanceProfileCard v = (case v_performanceProfile v of
     None \<Rightarrow> [InfoCard ''Performance Profile'' [Txt ''No performance profile (VM created before per-OS profiles existed).'']]
   | Some p \<Rightarrow>
      [InfoCard ''Performance Profile''
         [KV ''OS type'' (Some [Txt (case v_osType v of Some t \<Rightarrow> os_str t | None \<Rightarrow> em_dash)]),
          KV ''CPU mode'' (Some [Txt (case pp_cpuMode p of Some m \<Rightarrow> cpu_mode_str m | None \<Rightarrow> em_dash)]),
          KV ''Disk bus'' (Some [Txt (case pp_diskBus p of Some b \<Rightarrow> bus_str b | None \<Rightarrow> em_dash)]),
          KV ''Disk cache'' (Some [Txt (case pp_cache p of Some c \<Rightarrow> cache_str c | None \<Rightarrow> em_dash)]),
          KV ''IO threads'' (Some [Txt (case pp_ioThreads p of Some n \<Rightarrow> if n \<noteq> 0 then int_str n else em_dash | None \<Rightarrow> em_dash)])],
       InfoCard ''Hyper-V Enlightenments''
         (case pp_hyperv p of
            Some (e # es) \<Rightarrow> map (\<lambda>x. KV x (Some [Txt ''on''])) (e # es)
          | _ \<Rightarrow> [Txt (if v_osType v = Some Windows then ''None applied (limited host capabilities).'' else ''Not applicable (Linux profile).'')])])"

definition Overview :: "(string \<Rightarrow> string) \<Rightarrow> vm \<Rightarrow> sample list \<Rightarrow> 'e ui list" where
  "Overview fmt v samples =
     overview_cards v @ LiveCharts samples @
     [InfoCard ''General Information''
        [KV ''Name'' (Some [Txt (v_name v)]), KV ''Status'' (Some [StateBadge (v_state v)]),
         KV ''Guest OS'' (Some [Txt (orelse (v_os v) em_dash)]), KV ''Uptime'' (Some [Txt (formatUptime (v_uptimeSeconds v))]),
         KV ''Boot Time'' (Some [Txt (boot_time fmt v)])],
      InfoCard ''System''
        [KV ''Operating system type'' (Some [Txt (case v_osType v of Some t \<Rightarrow> os_str t | None \<Rightarrow> em_dash)]),
         KV ''vCPU'' (Some [Txt (int_str (v_vcpus v))]),
         KV ''Memory'' (Some [Txt (orelse (mem_text v) (formatBytes (v_memoryBytes v) 1 @ '' (allocated)''))]),
         KV ''Disks'' (Some [Txt (nat_str (length (v_disks v)))]),
         KV ''Network Interfaces'' (Some [Txt (nat_str (length (v_networkInterfaces v)))])],
      InfoCard ''Network''
        ([KV ''Primary IP'' (Some [Txt (orelse (v_ipAddress v) em_dash)]),
          KV ''Inbound'' (Some [Txt (formatRate (vm_rx v) 1)]), KV ''Outbound'' (Some [Txt (formatRate (vm_tx v) 1)])] @
         map (\<lambda>n. KV (ni_name n) (Some [Txt (orelse (ni_ipAddress n) (orelse (ni_macAddress n) em_dash))])) (take 3 (v_networkInterfaces v))),
      InfoCard ''Storage''
        (map (\<lambda>d. KV (d_name d @ '' ('' @ format_str (d_format d) @ '')'') (Some [Txt (disk_text d)])) (v_disks v) @
         (if v_disks v = [] then [Txt ''No disks attached''] else []))] @
     PerformanceProfileCard v"

definition Hardware :: "(string \<Rightarrow> string) \<Rightarrow> vm \<Rightarrow> 'e ui list" where
  "Hardware fmt v =
     [InfoCard ''Compute'' [KV ''vCPU'' (Some [Txt (int_str (v_vcpus v))]),
        KV ''Memory'' (Some [Txt (formatBytes (v_memoryBytes v) 1 @ '' (allocated)'')]), KV ''State'' (Some [StateBadge (v_state v)])],
      InfoCard ''Boot'' [KV ''Boot Time'' (Some [Txt (boot_time fmt v)]), KV ''Uptime'' (Some [Txt (formatUptime (v_uptimeSeconds v))])]]"

definition disk_pct :: "disk \<Rightarrow> rat option" where
  "disk_pct d = (case d_usedBytes d of
     Some u \<Rightarrow> if 0 < d_sizeBytes d then Some (of_int u / of_int (d_sizeBytes d) * 100) else None | None \<Rightarrow> None)"

definition Disks :: "vm \<Rightarrow> 'e ui list" where
  "Disks v = (if v_disks v = [] then [EmptyState ''No disks'' (Some ''This VM has no disks attached.'') []]
     else map (\<lambda>d. Box ''row''
       [Txt (d_name d), Txt (case d_bus d of Some b \<Rightarrow> bus_str b | None \<Rightarrow> em_dash), Txt (format_str (d_format d)),
        Txt (formatBytes (d_sizeBytes d) 1),
        ProgressMetric (disk_pct d) ''Disk usage'' False (Some ''Disk usage is not reported by the hypervisor'')]) (v_disks v))"

definition NetworkTab :: "vm \<Rightarrow> 'e ui list" where
  "NetworkTab v = (if v_networkInterfaces v = [] then [EmptyState ''No network interfaces'' None []]
     else map (\<lambda>n. Box ''row''
       [Txt (ni_name n), Txt (ni_model_str (ni_nicModel n)), Txt (orelse (ni_macAddress n) em_dash),
        Txt (orelse (ni_ipAddress n) ''n/a'')]) (v_networkInterfaces v))"

definition vd_menu :: "bool \<Rightarrow> vm \<Rightarrow> vm_details_event item list" where
  "vd_menu busy v = (let running = (v_state v = Running) in
     [Item ''Force Stop'' None (Some (VdAsk CStop)) (busy \<or> \<not> running)
        (Some (''Pull the power cable '' @ em_dash @ '' data loss possible'')) True,
      Separator,
      Item ''Delete (keep disks)'' None (Some (VdAsk CDelete)) (busy \<or> running)
        (Some (if running then ''VM must be stopped to delete'' else ''Remove the VM configuration; disk volumes stay in the pool'')) True,
      Item ''Delete + disks'' None (Some (VdAsk CDeleteDisks)) (busy \<or> running)
        (Some (if running then ''VM must be stopped to delete'' else ''Remove the VM configuration AND delete its disk volumes'')) True])"

definition vd_tab_view :: "(string \<Rightarrow> string) \<Rightarrow> vm_details \<Rightarrow> vm \<Rightarrow> vm_details_event ui list" where
  "vd_tab_view fmt s v =
     (if vdp_tab s = ''overview'' then Overview fmt v (mh_samples (vdp_history s))
      else if vdp_tab s = ''console'' then [Box ''console-panel'' []]
      else if vdp_tab s = ''hardware'' then Hardware fmt v
      else if vdp_tab s = ''disks'' then Disks v
      else if vdp_tab s = ''network'' then NetworkTab v
      else if vdp_tab s = ''settings'' then [Box ''settings'' []]
      else [])"

definition vd_view :: "(string \<Rightarrow> string) \<Rightarrow> vm_details \<Rightarrow> vm_details_event ui list" where
  "vd_view fmt s =
     (if vdp_gone s then []
      else if poll_loading (vdp_poll s) \<and> poll_data (vdp_poll s) = None then [TableSkeleton 4 4]
      else (case vd_shown s of
        None \<Rightarrow> [EmptyState ''Failed to load VM'' (Some (orelse (poll_error (vdp_poll s)) ''Unknown error''))
                  [Lnk ''Back to Virtual Machines'' ''/vms'']]
      | Some v \<Rightarrow>
          (let busy = vdp_busy s; running = (v_state v = Running) in
           [Lnk ''Virtual Machines'' ''/vms'', Txt (v_name v), StateBadge (v_state v), Txt (orelse (v_os v) ''Unknown guest OS''),
            Btn ''Start'' (busy \<or> running \<or> v_state v \<noteq> Stopped) (VdRun AStart),
            Btn ''Shutdown'' (busy \<or> \<not> running) (VdRun AShutdown),
            Btn ''Reboot'' (busy \<or> \<not> running) (VdRun AReboot),
            Menu ''More actions'' (vd_menu busy v),
            Btn ''Open Console'' (\<not> running) VdOpenConsole,
            Tabs VM_TABS (vdp_tab s) VdTab] @ vd_tab_view fmt s v)))"

definition vd_dialog :: "vm_details \<Rightarrow> vm_details_event ui list" where
  "vd_dialog s = (case vd_shown s of
     None \<Rightarrow> []
   | Some v \<Rightarrow>
       ConfirmDialog (vdp_confirm s = Some CStop) (''Force stop \"'' @ v_name v @ ''\"?'')
         ''This is equivalent to pulling the power cable.'' ''Force Stop'' VdConfirm VdCancel (vdp_busy s) @
       ConfirmDialog (vdp_confirm s = Some CDelete) (''Delete \"'' @ v_name v @ ''\"?'')
         ''The virtual machine definition will be removed. Its disk volumes remain in the storage pool.'' ''Delete VM'' VdConfirm VdCancel (vdp_busy s) @
       ConfirmDialog (vdp_confirm s = Some CDeleteDisks) (''Delete \"'' @ v_name v @ ''\" and its disks?'')
         ''The virtual machine and all of its disk volumes will be permanently deleted.'' ''Delete + Disks'' VdConfirm VdCancel (vdp_busy s))"

text \<open>A dialog covers the page: only its own controls, timers and the console's events remain.\<close>

definition vd_enabled :: "(string \<Rightarrow> string) \<Rightarrow> vm_details \<Rightarrow> vm_details_event \<Rightarrow> bool" where
  "vd_enabled fmt s e = (\<not> vdp_gone s \<and> (case e of
     VdTick \<Rightarrow> True
   | VdHistory h \<Rightarrow> (case h of HTick \<Rightarrow> vd_panel ''overview'' s \<noteq> None | HClock t \<Rightarrow> True)
   | VdConsole c \<Rightarrow> vd_panel ''console'' s \<noteq> None \<and> con_enabled (vdp_console s) c \<and>
       (case c of CoProps x \<Rightarrow> False | CoCad \<Rightarrow> vdp_confirm s = None | _ \<Rightarrow> True)
   | VdSettings x \<Rightarrow> (case vd_panel ''settings'' s of
       Some v \<Rightarrow> vdp_confirm s = None \<and> vs_enabled v (vdp_settings s) x | None \<Rightarrow> False)
   | VdConfirm \<Rightarrow> offers_any (vd_dialog s) e
   | VdCancel \<Rightarrow> offers_any (vd_dialog s) e
   | _ \<Rightarrow> vdp_confirm s = None \<and> offers_any (vd_view fmt s) e))"

abbreviation vd_reach :: "string \<Rightarrow> int \<Rightarrow> (string \<Rightarrow> string) \<Rightarrow> (vm_details, vm_details_kont) world \<Rightarrow> bool" where
  "vd_reach i now fmt \<equiv> reachable (vd_boot i now) (vd_enabled fmt) (vd_handle i) (vd_resume i)"

subsection \<open>What the components of the tabs leave alone\<close>

definition is_vd_action :: "vm_details_kont \<Rightarrow> bool" where
  "is_vd_action k = (case k of DkAct a t \<Rightarrow> True | DkRefresh \<Rightarrow> True | DkDelete d t \<Rightarrow> True | _ \<Rightarrow> False)"

lemma is_vd_action_simps [simp]:
  "is_vd_action (DkAct a t)" "is_vd_action DkRefresh" "is_vd_action (DkDelete d t)"
  "\<not> is_vd_action DkPoll" "\<not> is_vd_action (DkHistory m hk)" "\<not> is_vd_action (DkSettings m sk)"
  by (simp_all add: is_vd_action_def)

text \<open>The pending continuations of the page's actions, in the order of their calls.\<close>

definition pending :: "('k \<Rightarrow> bool) \<Rightarrow> ('s, 'k) world \<Rightarrow> 'k list" where
  "pending mine w = filter mine (map snd (calls w))"

lemma pending_act [simp]:
  "pending mine (upd f w) = pending mine w"
  "pending mine (emit e w) = pending mine w"
  "pending mine (call rs k w) = pending mine w @ (if mine k then [k] else [])"
  "pending mine (fresh s) = []"
  by (simp_all add: pending_def)

lemma flight_pending: "flight mine w = length (pending mine w)"
  by (simp add: flight_def pending_def filter_map comp_def)

text \<open>The part of the state the components do not touch, and the page's own pending actions.\<close>

definition vd_core :: "(vm_details, vm_details_kont) world
    \<Rightarrow> (string \<times> bool \<times> confirm_action option \<times> vm polling \<times> bool) \<times> vm_details_kont list" where
  "vd_core w = ((vdp_tab (st w), vdp_busy (st w), vdp_confirm (st w), vdp_poll (st w), vdp_gone (st w)),
     pending is_vd_action w)"

lemma embed_core:
  assumes "\<And>c s. vdp_tab (put c s) = vdp_tab s \<and> vdp_busy (put c s) = vdp_busy s \<and> vdp_confirm (put c s) = vdp_confirm s
      \<and> vdp_poll (put c s) = vdp_poll s \<and> vdp_gone (put c s) = vdp_gone s"
    and "\<And>k. \<not> is_vd_action (tag k)" and "\<And>x w. vd_core (h x w) = vd_core w"
  shows "vd_core (embed get put tag h a w) = vd_core w"
proof -
  have run: "vd_core (run (map h xs) w) = vd_core w" for xs w
    by (induction xs arbitrary: w) (simp_all add: assms(3))
  have "filter is_vd_action (map snd (map (\<lambda>(rs, k). (rs, tag k)) cs)) = []" for cs
    by (induction cs) (auto simp: assms(2))
  then show ?thesis by (simp add: embed_def Let_def run) (simp add: vd_core_def assms(1) pending_def)
qed

lemma in_history_core [simp]: "vd_core (in_history m a w) = vd_core w"
  unfolding in_history_def by (rule embed_core) (simp_all add: vd_core_def)

lemma in_settings_core [simp]: "vd_core (in_settings i m a w) = vd_core w"
  unfolding in_settings_def
proof (rule embed_core)
  fix x and w :: "(vm_details, vm_details_kont) world"
  show "vd_core (vd_settings_effect i x w) = vd_core w" by (cases x) (simp_all add: vd_core_def)
qed simp_all

lemma vd_core_upd:
  assumes "\<And>s. vdp_tab (f s) = vdp_tab s \<and> vdp_busy (f s) = vdp_busy s \<and> vdp_confirm (f s) = vdp_confirm s
      \<and> vdp_poll (f s) = vdp_poll s \<and> vdp_gone (f s) = vdp_gone s"
  shows "vd_core (upd f w) = vd_core w"
  using assms by (simp add: vd_core_def)

lemma vd_mount_core [simp]: "vd_core (vd_mount i v w) = vd_core w"
  by (simp add: vd_mount_def Let_def) (simp add: vd_core_def)

lemma vd_change_core: "vd_core (vd_change i f w) = vd_core (upd f w)"
proof -
  have c: "vd_core (upd (\<lambda>_. (f (st w))\<lparr>vdp_console := c\<rparr>) w) = vd_core (upd f w)" for c
    by (simp add: vd_core_def)
  have m: "vd_core (upd (\<lambda>s. s\<lparr>vdp_mount := Suc (vdp_mount s)\<rparr>) w') = vd_core w'" for w'
    by (simp add: vd_core_def)
  show ?thesis by (simp add: vd_change_def Let_def c m split: option.split)
qed

lemma vd_core_eqD:
  "vd_core w = vd_core w' \<Longrightarrow> vdp_busy (st w) = vdp_busy (st w') \<and> vdp_gone (st w) = vdp_gone (st w')
    \<and> vdp_confirm (st w) = vdp_confirm (st w') \<and> pending is_vd_action w = pending is_vd_action w'"
  by (simp add: vd_core_def)

lemmas vd_change_keeps [simp] = vd_core_eqD [OF vd_change_core, THEN conjunct1]
  vd_core_eqD [OF vd_change_core, THEN conjunct2, THEN conjunct1]
  vd_core_eqD [OF vd_change_core, THEN conjunct2, THEN conjunct2, THEN conjunct1]
  vd_core_eqD [OF vd_change_core, THEN conjunct2, THEN conjunct2, THEN conjunct2]

lemmas in_tab_keeps [simp] =
  vd_core_eqD [OF in_history_core, THEN conjunct1] vd_core_eqD [OF in_settings_core, THEN conjunct1]
  vd_core_eqD [OF in_history_core, THEN conjunct2, THEN conjunct1] vd_core_eqD [OF in_settings_core, THEN conjunct2, THEN conjunct1]
  vd_core_eqD [OF in_history_core, THEN conjunct2, THEN conjunct2, THEN conjunct1]
  vd_core_eqD [OF in_settings_core, THEN conjunct2, THEN conjunct2, THEN conjunct1]
  vd_core_eqD [OF in_history_core, THEN conjunct2, THEN conjunct2, THEN conjunct2]
  vd_core_eqD [OF in_settings_core, THEN conjunct2, THEN conjunct2, THEN conjunct2]

subsection \<open>What the page offers\<close>

definition is_vd_button :: "vm_details_event \<Rightarrow> bool" where
  "is_vd_button e = (case e of VdRun a \<Rightarrow> True | VdAsk a \<Rightarrow> True | _ \<Rightarrow> False)"

lemma tab_contents_inert:
  "\<not> offers_any (Overview fmt v ss) (e :: 'e)" "\<not> offers_any (Hardware fmt v) e" "\<not> offers_any (Disks v) e"
  "\<not> offers_any (NetworkTab v) e"
proof -
  have "\<not> offers_any (overview_cards v) e" by (simp add: overview_cards_def Let_def)
  moreover have "\<not> offers_any (LiveCharts ss) e"
    by (simp add: LiveCharts_def ChartCard_def Sparkline_def Let_def)
  moreover have "\<not> offers_any (PerformanceProfileCard v) e"
    by (auto simp: PerformanceProfileCard_def offers_any_map split: option.splits list.splits)
  ultimately show "\<not> offers_any (Overview fmt v ss) e" by (simp add: Overview_def offers_any_map)
qed (auto simp: Hardware_def Disks_def NetworkTab_def offers_any_map)

lemma vd_tab_view_inert [simp]: "\<not> offers_any (vd_tab_view fmt s v) e"
  by (simp add: vd_tab_view_def tab_contents_inert)

lemma vd_view_buttons:
  "offers_any (vd_view fmt s) (VdRun a) \<longleftrightarrow> (\<exists>v. vd_shown s = Some v \<and> \<not> vdp_busy s \<and>
     (a = AStart \<and> v_state v = Stopped \<or> a \<in> {AShutdown, AReboot} \<and> v_state v = Running))"
  "offers_any (vd_view fmt s) (VdAsk c) \<longleftrightarrow> (\<exists>v. vd_shown s = Some v \<and> \<not> vdp_busy s \<and>
     (if c = CStop then v_state v = Running else v_state v \<noteq> Running))"
proof -
  have n: "\<not> (vdp_gone s \<or> poll_loading (vdp_poll s) \<and> poll_data (vdp_poll s) = None)" if "vd_shown s = Some v" for v
    using that by (auto simp: vd_shown_def split: if_splits)
  show "offers_any (vd_view fmt s) (VdRun a) \<longleftrightarrow> (\<exists>v. vd_shown s = Some v \<and> \<not> vdp_busy s \<and>
     (a = AStart \<and> v_state v = Stopped \<or> a \<in> {AShutdown, AReboot} \<and> v_state v = Running))"
    using n by (cases "vd_shown s") (auto simp: vd_view_def Let_def vd_menu_def Tabs_offers split: if_splits)
  show "offers_any (vd_view fmt s) (VdAsk c) \<longleftrightarrow> (\<exists>v. vd_shown s = Some v \<and> \<not> vdp_busy s \<and>
     (if c = CStop then v_state v = Running else v_state v \<noteq> Running))"
    using n by (cases "vd_shown s"; cases c) (auto simp: vd_view_def Let_def vd_menu_def Tabs_offers split: if_splits)
qed

lemma vd_dialog_offers:
  "offers_any (vd_dialog s) VdConfirm \<longleftrightarrow> vd_shown s \<noteq> None \<and> vdp_confirm s \<noteq> None \<and> \<not> vdp_busy s"
  by (cases "vdp_confirm s"; cases "the (vdp_confirm s)") (auto simp: vd_dialog_def ConfirmDialog_offers split: option.splits)

lemma vd_enabled_buttons:
  "vd_enabled fmt s (VdRun a) \<longleftrightarrow> vdp_confirm s = None \<and> (\<exists>v. vd_shown s = Some v \<and> \<not> vdp_busy s \<and>
     (a = AStart \<and> v_state v = Stopped \<or> a \<in> {AShutdown, AReboot} \<and> v_state v = Running))"
  "vd_enabled fmt s (VdAsk c) \<longleftrightarrow> vdp_confirm s = None \<and> (\<exists>v. vd_shown s = Some v \<and> \<not> vdp_busy s \<and>
     (if c = CStop then v_state v = Running else v_state v \<noteq> Running))"
  "vd_enabled fmt s VdConfirm \<longleftrightarrow> vd_shown s \<noteq> None \<and> vdp_confirm s \<noteq> None \<and> \<not> vdp_busy s"
proof -
  have g: "\<not> vdp_gone s" if "vd_shown s = Some v" for v using that by (auto simp: vd_shown_def split: if_splits)
  show "vd_enabled fmt s (VdRun a) \<longleftrightarrow> vdp_confirm s = None \<and> (\<exists>v. vd_shown s = Some v \<and> \<not> vdp_busy s \<and>
     (a = AStart \<and> v_state v = Stopped \<or> a \<in> {AShutdown, AReboot} \<and> v_state v = Running))"
    and "vd_enabled fmt s (VdAsk c) \<longleftrightarrow> vdp_confirm s = None \<and> (\<exists>v. vd_shown s = Some v \<and> \<not> vdp_busy s \<and>
     (if c = CStop then v_state v = Running else v_state v \<noteq> Running))"
    using g by (auto simp: vd_enabled_def vd_view_buttons)
  show "vd_enabled fmt s VdConfirm \<longleftrightarrow> vd_shown s \<noteq> None \<and> vdp_confirm s \<noteq> None \<and> \<not> vdp_busy s"
    using g by (auto simp: vd_enabled_def vd_dialog_offers)
qed

text \<open>
  Exactly which actions the page of a machine offers: start for a stopped machine, shutdown,
  reboot and force stop for a running one, and both deletions for one in any state but
  running, although their hint says that the machine must be stopped; a force stop and a
  deletion only through their dialog; none while an action is under way, while a dialog is
  open or while no machine is shown.
\<close>

theorem vm_details_actions:
  "vd_enabled fmt s (VdRun a) = (vdp_confirm s = None \<and> \<not> vdp_busy s \<and> (\<exists>v. vd_shown s = Some v \<and>
     (case a of AStart \<Rightarrow> v_state v = Stopped | AStop \<Rightarrow> False | _ \<Rightarrow> v_state v = Running)))
   \<and> vd_enabled fmt s (VdAsk c) = (vdp_confirm s = None \<and> \<not> vdp_busy s \<and> (\<exists>v. vd_shown s = Some v \<and>
     (case c of CStop \<Rightarrow> v_state v = Running | _ \<Rightarrow> v_state v \<noteq> Running)))"
proof (rule conjI)
  show "vd_enabled fmt s (VdRun a) = (vdp_confirm s = None \<and> \<not> vdp_busy s \<and> (\<exists>v. vd_shown s = Some v \<and>
     (case a of AStart \<Rightarrow> v_state v = Stopped | AStop \<Rightarrow> False | _ \<Rightarrow> v_state v = Running)))"
    by (cases "vd_shown s"; cases a) (simp_all add: vd_enabled_buttons)
  show "vd_enabled fmt s (VdAsk c) = (vdp_confirm s = None \<and> \<not> vdp_busy s \<and> (\<exists>v. vd_shown s = Some v \<and>
     (case c of CStop \<Rightarrow> v_state v = Running | _ \<Rightarrow> v_state v \<noteq> Running)))"
    by (cases "vd_shown s"; cases c) (simp_all add: vd_enabled_buttons)
qed

subsection \<open>One action at a time\<close>

definition vd_working :: "vm_details \<Rightarrow> bool" where
  "vd_working s = (vdp_busy s \<and> \<not> vdp_gone s)"

lemma vd_event_idle:
  assumes "vd_enabled fmt (st w) e" "\<not> vd_working (st w)"
  shows "length (pending is_vd_action (vd_handle i e w)) =
    length (pending is_vd_action w) + (if vd_working (st (vd_handle i e w)) then 1 else 0)"
proof -
  have g: "\<not> vdp_gone (st w)" "\<not> vdp_busy (st w)" using assms by (auto simp: vd_enabled_def vd_working_def)
  then show ?thesis
    by (cases e) (auto simp: vd_working_def vd_run_def vd_delete_def split: option.splits confirm_action.splits)
qed

lemma vd_event_busy:
  assumes "vd_enabled fmt (st w) e" "vd_working (st w)"
  shows "vd_working (st (vd_handle i e w)) \<and> pending is_vd_action (vd_handle i e w) = pending is_vd_action w"
proof (cases e)
  case (VdRun a)
  with assms show ?thesis by (simp add: vd_enabled_buttons vd_working_def)
next
  case VdConfirm
  with assms show ?thesis by (simp add: vd_enabled_buttons vd_working_def)
qed (use assms in \<open>auto simp: vd_working_def split: option.splits\<close>)

interpretation vd_one: single_flight "vd_boot i now" "vd_enabled fmt" "vd_handle i" "vd_resume i" vd_working is_vd_action
  for i now fmt
proof unfold_locales
  show "flight is_vd_action (vd_boot i now) = 0 \<and> \<not> vd_working (st (vd_boot i now))"
    by (simp add: vd_boot_def vd_working_def vm_details_init_def)
next
  fix w :: "(vm_details, vm_details_kont) world" and e
  assume "\<not> vd_working (st w)" "vd_enabled fmt (st w) e"
  then show "flight is_vd_action (vd_handle i e w) = flight is_vd_action w + (if vd_working (st (vd_handle i e w)) then 1 else 0)"
    unfolding flight_pending using vd_event_idle by blast
next
  fix w :: "(vm_details, vm_details_kont) world" and e
  assume "vd_working (st w)" "vd_enabled fmt (st w) e"
  then show "vd_working (st (vd_handle i e w)) \<and> flight is_vd_action (vd_handle i e w) = flight is_vd_action w"
    unfolding flight_pending using vd_event_busy by metis
next
  fix w :: "(vm_details, vm_details_kont) world" and k r
  assume "is_vd_action k" "vd_working (st w)"
  then show "flight is_vd_action (vd_resume i k r w) = flight is_vd_action w + (if vd_working (st (vd_resume i k r w)) then 1 else 0)"
    unfolding flight_pending by (cases k) (auto simp: vd_working_def vd_settle_def vd_polled_def split: sum.splits)
next
  fix w :: "(vm_details, vm_details_kont) world" and k r
  assume "\<not> is_vd_action k"
  then show "vd_working (st (vd_resume i k r w)) = vd_working (st w) \<and> flight is_vd_action (vd_resume i k r w) = flight is_vd_action w"
    unfolding flight_pending by (cases k) (auto simp: vd_working_def vd_polled_def)
qed

subsection \<open>The life of the page\<close>

text \<open>
  What the page promises, as a machine of its own: from \<open>Idle\<close> a power action that is not
  destructive starts at once; a destructive one is first asked for; an action that the server
  accepted is followed by a refresh; a deletion leaves the page or brings it back to \<open>Idle\<close>.
\<close>

datatype phase = Idle | Asking confirm_action | Acting power_action | Refreshing | Deleting bool | Left

inductive phase_step :: "phase \<Rightarrow> phase \<Rightarrow> bool" where
  ask: "phase_step Idle (Asking c)"
| cancel: "phase_step (Asking c) Idle"
| act: "a \<noteq> AStop \<Longrightarrow> phase_step Idle (Acting a)"
| force: "phase_step (Asking CStop) (Acting AStop)"
| delete: "phase_step (Asking CDelete) (Deleting False)"
| delete_disks: "phase_step (Asking CDeleteDisks) (Deleting True)"
| acted: "phase_step (Acting a) Refreshing"
| act_failed: "phase_step (Acting a) Idle"
| refreshed: "phase_step Refreshing Idle"
| deleted: "phase_step (Deleting d) Left"
| delete_failed: "phase_step (Deleting d) Idle"

inductive_simps phase_step_simps [simp]:
  "phase_step Idle q" "phase_step (Asking c) q" "phase_step (Acting a) q" "phase_step Refreshing q"
  "phase_step (Deleting d) q" "phase_step Left q"

definition phase_of :: "vm_details_kont list \<Rightarrow> phase" where
  "phase_of ks = (case ks of
     [DkAct a t] \<Rightarrow> Acting a | [DkRefresh] \<Rightarrow> Refreshing | [DkDelete d t] \<Rightarrow> Deleting d | _ \<Rightarrow> Idle)"

definition vd_phase :: "(vm_details, vm_details_kont) world \<Rightarrow> phase" where
  "vd_phase w =
     (if vdp_gone (st w) then Left
      else if vdp_busy (st w) then phase_of (pending is_vd_action w)
      else (case vdp_confirm (st w) of None \<Rightarrow> Idle | Some c \<Rightarrow> Asking c))"

definition vd_one_pending :: "(vm_details, vm_details_kont) world \<Rightarrow> bool" where
  "vd_one_pending w = (length (pending is_vd_action w) = (if vd_working (st w) then 1 else 0))"

lemma vd_phase_core: "vd_core w = vd_core w' \<Longrightarrow> vd_phase w = vd_phase w'"
  by (simp add: vd_phase_def vd_core_def)

lemma pending_take_call:
  assumes "i < length (calls w)"
  shows "\<exists>l r. pending mine w = l @ (if mine (snd (calls w ! i)) then [snd (calls w ! i)] else []) @ r
    \<and> pending mine (take_call i w) = l @ r"
proof (intro exI conjI)
  have "calls w = take i (calls w) @ calls w ! i # drop (Suc i) (calls w)" using assms by (rule id_take_nth_drop)
  then have "filter mine (map snd (calls w)) = filter mine (map snd (take i (calls w) @ calls w ! i # drop (Suc i) (calls w)))"
    by simp
  then show "pending mine w = filter mine (map snd (take i (calls w))) @
      (if mine (snd (calls w ! i)) then [snd (calls w ! i)] else []) @ filter mine (map snd (drop (Suc i) (calls w)))"
    by (simp add: pending_def)
  show "pending mine (take_call i w) = filter mine (map snd (take i (calls w))) @ filter mine (map snd (drop (Suc i) (calls w)))"
    by (simp add: pending_def remove_nth_def)
qed

lemma vd_phase_event:
  assumes I: "vd_one_pending w" and en: "vd_enabled fmt (st w) e"
  shows "vd_phase (vd_handle i e w) = vd_phase w \<or> phase_step (vd_phase w) (vd_phase (vd_handle i e w))"
proof (cases "vdp_busy (st w)")
  case True
  have "vdp_gone (st w) = False" using en by (simp add: vd_enabled_def)
  with True vd_event_busy [OF en] show ?thesis by (auto simp: vd_working_def vd_phase_def)
next
  case False
  have g: "vdp_gone (st w) = False" using en by (simp add: vd_enabled_def)
  with I False have p: "pending is_vd_action w = []" by (simp add: vd_one_pending_def vd_working_def)
  show ?thesis
  proof (cases e)
    case (VdRun a)
    with en have "vdp_confirm (st w) = None" "a \<noteq> AStop" by (auto simp: vd_enabled_buttons)
    with VdRun g p False show ?thesis by (simp add: vd_phase_def vd_run_def phase_of_def)
  next
    case (VdAsk c)
    with en g False show ?thesis by (simp add: vd_enabled_buttons vd_phase_def)
  next
    case VdConfirm
    with en obtain c where "vdp_confirm (st w) = Some c" by (auto simp: vd_enabled_buttons)
    with VdConfirm g p False show ?thesis
      by (cases c) (simp_all add: vd_phase_def vd_run_def vd_delete_def phase_of_def)
  next
    case VdCancel
    with g False show ?thesis by (cases "vdp_confirm (st w)") (simp_all add: vd_phase_def)
  qed (use g False in \<open>auto simp: vd_phase_def split: option.splits\<close>)
qed

lemma vd_phase_reply:
  assumes I: "vd_one_pending w" and i: "i < length (calls w)"
  shows "vd_phase (vd_resume j (snd (calls w ! i)) r (take_call i w)) = vd_phase w
    \<or> phase_step (vd_phase w) (vd_phase (vd_resume j (snd (calls w ! i)) r (take_call i w)))"
proof (cases "is_vd_action (snd (calls w ! i))")
  case False
  let ?w = "take_call i w"
  have "pending is_vd_action ?w = pending is_vd_action w"
    using pending_take_call [OF i, of is_vd_action] False by auto
  then have "vd_phase ?w = vd_phase w" by (simp add: vd_phase_def)
  moreover have "vd_core (vd_resume j (snd (calls w ! i)) r ?w) = vd_core (if snd (calls w ! i) = DkPoll
      then upd (vdp_poll_update (poll_done (load_with vm_of r))) ?w else ?w)"
    using False by (cases "snd (calls w ! i)") (simp_all add: vd_polled_def vd_change_core)
  then have "vd_phase (vd_resume j (snd (calls w ! i)) r ?w) = vd_phase ?w"
    by (auto simp: vd_phase_def vd_core_def split: if_splits)
  ultimately show ?thesis by simp
next
  case True
  let ?k = "snd (calls w ! i)" and ?w = "take_call i w"
  from I True pending_take_call [OF i, of is_vd_action] have p: "pending is_vd_action w = [?k]" "pending is_vd_action ?w = []"
    and b: "vdp_busy (st w)" "\<not> vdp_gone (st w)"
    by (auto simp: vd_one_pending_def vd_working_def split: if_splits)
  then have before: "vd_phase w = phase_of [?k]" by (simp add: vd_phase_def)
  show ?thesis
    using True p b unfolding before
    by (cases ?k; cases r) (auto simp: vd_phase_def phase_of_def vd_settle_def vd_polled_def)
qed

text \<open>Which requests wait under which continuation.\<close>

definition vd_call_ok :: "string \<Rightarrow> request list \<times> vm_details_kont \<Rightarrow> bool" where
  "vd_call_ok i c = (case snd c of
     DkPoll \<Rightarrow> fst c = [GetVm i]
   | DkRefresh \<Rightarrow> fst c = [GetVm i]
   | DkAct a t \<Rightarrow> fst c = [PostVmAction i a]
   | DkDelete d t \<Rightarrow> fst c = [DeleteVm i d]
   | DkHistory m k \<Rightarrow> (\<exists>x. fst c = [GetVm x])
   | DkSettings m k \<Rightarrow> (case k of KVsIsos \<Rightarrow> fst c = [GetIsos] | KVsNetworks \<Rightarrow> fst c = [GetNetworks]
       | KVsSave t \<Rightarrow> (\<exists>x b. fst c = [PatchVm x b])))"

definition vd_calls_ok :: "string \<Rightarrow> (vm_details, vm_details_kont) world \<Rightarrow> bool" where
  "vd_calls_ok i w = list_all (vd_call_ok i) (calls w)"

lemma vd_calls_ok_act [simp]:
  "vd_calls_ok i (upd f w) = vd_calls_ok i w" "vd_calls_ok i (emit e w) = vd_calls_ok i w"
  "vd_calls_ok i (call rs k w) = (vd_calls_ok i w \<and> vd_call_ok i (rs, k))"
  by (auto simp: vd_calls_ok_def)

lemma embed_calls_ok:
  assumes "vd_calls_ok i w" and "list_all (\<lambda>c. vd_call_ok i (fst c, tag (snd c))) (calls (a (fresh (get (st w)))))"
    and "\<And>x w. vd_calls_ok i w \<Longrightarrow> vd_calls_ok i (h x w)"
  shows "vd_calls_ok i (embed get put tag h a w)"
  using assms unfolding vd_calls_ok_def by (rule embed_all_calls)

lemma history_calls_ok:
  assumes "vd_calls_ok i w"
  shows "vd_calls_ok i (in_history m (mh_handle x e) w)" "vd_calls_ok i (in_history m (mh_resume k r) w)"
  unfolding in_history_def
  by (rule embed_calls_ok [OF assms]; cases e; simp add: vd_call_ok_def)
    (rule embed_calls_ok [OF assms]; cases k; simp)

lemma settings_calls_ok:
  assumes "vd_calls_ok i w"
  shows "vd_calls_ok i (in_settings i m (vs_handle v e) w)" "vd_calls_ok i (in_settings i m (vs_resume k r) w)"
    "vd_calls_ok i (in_settings i m vs_load w)"
proof -
  have h: "vd_calls_ok i (vd_settings_effect i x w)" if "vd_calls_ok i w" for x w
    using that by (cases x) (simp_all add: vd_call_ok_def)
  show "vd_calls_ok i (in_settings i m (vs_handle v e) w)"
    unfolding in_settings_def by (rule embed_calls_ok [OF assms _ h]) (cases e; simp add: vs_save_def vd_call_ok_def)
  show "vd_calls_ok i (in_settings i m (vs_resume k r) w)"
    unfolding in_settings_def by (rule embed_calls_ok [OF assms _ h]) (cases k; simp split: sum.split)
  show "vd_calls_ok i (in_settings i m vs_load w)"
    unfolding in_settings_def by (rule embed_calls_ok [OF assms _ h]) (simp add: vs_load_def vd_call_ok_def)
qed

lemma change_calls_ok: "vd_calls_ok i w \<Longrightarrow> vd_calls_ok i (vd_change i f w)"
  by (auto simp: vd_change_def vd_mount_def Let_def history_calls_ok settings_calls_ok split: option.split)

interpretation vd_calls: component "vd_boot i now" "vd_enabled fmt" "vd_handle i" "vd_resume i" "vd_calls_ok i"
  for i now fmt
proof unfold_locales
  show "vd_calls_ok i (vd_boot i now)" by (simp add: vd_boot_def vd_call_ok_def) (simp add: vd_calls_ok_def)
next
  fix w :: "(vm_details, vm_details_kont) world" and e
  assume "vd_calls_ok i w"
  then show "vd_calls_ok i (vd_handle i e w)"
    by (cases e) (auto simp: history_calls_ok settings_calls_ok change_calls_ok vd_run_def vd_delete_def vd_call_ok_def
        split: option.splits confirm_action.splits)
next
  fix w :: "(vm_details, vm_details_kont) world" and n r
  assume "vd_calls_ok i w"
  then have "vd_calls_ok i (take_call n w)"
    using set_remove_nth_subset [of n "calls w"] by (auto simp: vd_calls_ok_def list_all_iff)
  then show "vd_calls_ok i (vd_resume i (snd (calls w ! n)) r (take_call n w))"
    by (cases "snd (calls w ! n)")
      (auto simp: history_calls_ok settings_calls_ok change_calls_ok vd_polled_def vd_settle_def vd_call_ok_def split: sum.splits)
qed

interpretation vd_refines: refinement "vd_boot i now" "vd_enabled fmt" "vd_handle i" "vd_resume i" vd_one_pending vd_phase Idle phase_step
  for i now fmt
proof unfold_locales
  show "vd_phase (vd_boot i now) = Idle" by (simp add: vd_phase_def vd_boot_def vm_details_init_def)
qed (use vd_phase_event vd_phase_reply in blast)+

lemma vd_one_pending_reach: "vd_reach i now fmt w \<Longrightarrow> vd_one_pending w"
  using vd_one.flight_iff_busy by (simp add: vd_one_pending_def flight_pending)


text \<open>
  C5. The page refines the machine of its phases: its phase starts at \<open>Idle\<close> and moves only
  along the steps above, whatever polls, tabs and forms do in between. At most one action is
  under way. A power action or deletion is pending only for the machine of the route and only
  in the phase named after it, so a force stop only after its dialog was confirmed, and a
  deletion keeps or removes the disks as its dialog said.
\<close>

theorem vm_details_refines_phases:
  assumes "vd_reach i now fmt w"
  shows "phase_step\<^sup>*\<^sup>* Idle (vd_phase w) \<and> length (pending is_vd_action w) \<le> 1
    \<and> (\<forall>c \<in> set (calls w). \<forall>x a. fst c = [PostVmAction x a] \<longrightarrow> x = i \<and> vd_phase w = Acting a)
    \<and> (\<forall>c \<in> set (calls w). \<forall>x d. fst c = [DeleteVm x d] \<longrightarrow> x = i \<and> vd_phase w = Deleting d)"
proof -
  have steps: "phase_step\<^sup>*\<^sup>* Idle (vd_phase w)"
    using assms vd_one_pending_reach by (rule vd_refines.refines)
  have one: "vd_one_pending w" using assms by (rule vd_one_pending_reach)
  have ok: "vd_call_ok i c" if "c \<in> set (calls w)" for c
    using vd_calls.reach_inv [OF assms] that by (simp add: vd_calls_ok_def list_all_iff)
  have phase: "vd_phase w = phase_of [snd c]" if "c \<in> set (calls w)" "is_vd_action (snd c)" for c
  proof -
    have m: "snd c \<in> set (pending is_vd_action w)" using that by (simp add: pending_def)
    with one have "vd_working (st w)" "pending is_vd_action w = [snd c]"
      by (cases "pending is_vd_action w"; auto simp: vd_one_pending_def split: if_splits)+
    then show ?thesis by (simp add: vd_phase_def vd_working_def)
  qed
  have "x = i \<and> vd_phase w = Acting a" if "c \<in> set (calls w)" "fst c = [PostVmAction x a]" for c x a
    using ok [OF that(1)] phase [OF that(1)] that(2)
    by (cases "snd c") (auto simp: vd_call_ok_def phase_of_def split: vm_settings_kont.splits)
  moreover have "x = i \<and> vd_phase w = Deleting d" if "c \<in> set (calls w)" "fst c = [DeleteVm x d]" for c x d
    using ok [OF that(1)] phase [OF that(1)] that(2)
    by (cases "snd c") (auto simp: vd_call_ok_def phase_of_def split: vm_settings_kont.splits)
  ultimately show ?thesis using steps one by (auto simp: vd_one_pending_def)
qed

definition force_stop_script :: "vm_details_event stimulus list" where
  "force_stop_script = [Settle 0 (Inr [PVm small_vm]), Ev (VdTab ''hardware''), Ev (VdAsk CStop), Ev VdConfirm]"

lemma force_stop_play:
  "\<exists>w. play (vd_enabled fmt) (vd_handle ''alpine'') (vd_resume ''alpine'') force_stop_script (vd_boot ''alpine'' 0) = Some w
    \<and> vd_phase w = Acting AStop"
proof -
  have t: "vd_enabled fmt s (VdTab ''hardware'')" if "vd_shown s = Some v" "vdp_confirm s = None" "\<not> vdp_gone s"
      "\<not> (poll_loading (vdp_poll s) \<and> poll_data (vdp_poll s) = None)" for s v
    using that by (simp add: vd_enabled_def vd_view_def Let_def Tabs_offers VM_TABS_def)
  show ?thesis
    by (simp add: force_stop_script_def vd_boot_def reply_ok_def vd_polled_def vd_change_def vd_mount_def Let_def
        in_history_def embed_def vm_details_init_def vd_shown_def vd_error_def vm_of_def poll_init_def vd_panel_def panel_sync_def
        t vd_enabled_buttons vd_run_def vd_phase_def phase_of_def pending_def)
qed

theorem vm_details_refines_phases_witness:
  "\<exists>w. play (vd_enabled id) (vd_handle ''alpine'') (vd_resume ''alpine'') force_stop_script (vd_boot ''alpine'' 0) = Some w
    \<and> vd_phase w = Acting AStop \<and> phase_step\<^sup>*\<^sup>* Idle (Acting AStop)"
proof -
  obtain w where w: "play (vd_enabled id) (vd_handle ''alpine'') (vd_resume ''alpine'') force_stop_script (vd_boot ''alpine'' 0) = Some w"
    "vd_phase w = Acting AStop" using force_stop_play by blast
  from vm_details_refines_phases [OF play_reachable [OF reachable.boot w(1)]] w show ?thesis by auto
qed

end
