(* ===== verification/TasksPage.thy ===== *)
theory TasksPage
  imports Hooks
begin

text \<open>
  The tasks page (\<open>frontend/src/pages/Tasks.tsx\<close>): the polled history with a filter the server
  applies, the counts, and cancelling a task. \<open>fmt\<close> is \<open>new Date(t).toLocaleTimeString()\<close>.
\<close>

subsection \<open>State\<close>

record tasks_page =
  tk_filter :: string
  tk_poll :: "(task list \<times> int) polling"
  tk_cancelling :: "string option"

datatype tasks_page_event = TkTick | TkFilter string | TkCancel string

datatype tasks_page_kont = KTkPoll | KTkCancel string

definition tasks_page_init :: tasks_page where
  "tasks_page_init = \<lparr>tk_filter = '''', tk_poll = poll_init, tk_cancelling = None\<rparr>"

definition tk_items :: "tasks_page \<Rightarrow> task list" where
  "tk_items s = (case poll_data (tk_poll s) of Some d \<Rightarrow> fst d | None \<Rightarrow> [])"

definition tk_active :: "task list \<Rightarrow> nat" where
  "tk_active ts = count_if (\<lambda>t. t_status t = Queued \<or> t_status t = TRunning \<or> t_status t = Cancelling) ts"

definition tk_failed :: "task list \<Rightarrow> nat" where
  "tk_failed ts = count_if (\<lambda>t. t_status t = Failed) ts"

subsection \<open>Handlers\<close>

definition tk_request :: "tasks_page \<Rightarrow> request" where
  "tk_request s = GetTasks (if tk_filter s = '''' then None else Some (tk_filter s)) 200"

definition tk_load :: "(tasks_page, tasks_page_kont) action" where
  "tk_load w = call [tk_request (st w)] KTkPoll w"

definition tasks_of :: "payload list \<Rightarrow> (task list \<times> int) option" where
  "tasks_of ps = (case ps of [PTasks xs n] \<Rightarrow> Some (xs, n) | _ \<Rightarrow> None)"

definition tk_cancel :: "string \<Rightarrow> (tasks_page, tasks_page_kont) action" where
  "tk_cancel i = run [upd (tk_cancelling_update (\<lambda>_. Some i)), call [PostTaskCancel i] (KTkCancel i)]"

fun tk_handle :: "tasks_page_event \<Rightarrow> (tasks_page, tasks_page_kont) action" where
  "tk_handle TkTick w = tk_load w"
| "tk_handle (TkFilter f) w = upd (tk_filter_update (\<lambda>_. f)) w"
| "tk_handle (TkCancel i) w = tk_cancel i w"

fun tk_resume :: "tasks_page_kont \<Rightarrow> reply \<Rightarrow> (tasks_page, tasks_page_kont) action" where
  "tk_resume KTkPoll r w = upd (tk_poll_update (poll_done (load_with tasks_of r))) w"
| "tk_resume (KTkCancel i) r w = run
     [emit (case r of Inr ps \<Rightarrow> Toast TInfo (''Cancellation of task '' @ i @ '' requested'')
        | Inl e \<Rightarrow> Toast TError (err_dash e)),
      upd (tk_cancelling_update (\<lambda>_. None)), tk_load] w"

definition tk_boot :: "(tasks_page, tasks_page_kont) world" where
  "tk_boot = tk_load (fresh tasks_page_init)"

subsection \<open>View\<close>

definition TYPE_LABEL :: "task_type \<Rightarrow> string" where
  "TYPE_LABEL t = (case t of Vm_create \<Rightarrow> ''VM creation'' | Backup_create \<Rightarrow> ''Backup'' | Backup_restore \<Rightarrow> ''Restore'')"

definition StatusBadge :: "task_status \<Rightarrow> 'e ui" where
  "StatusBadge t = Box (''state state-'' @ (case t of Cancelling \<Rightarrow> ''shutting-down'' | Queued \<Rightarrow> ''idle'' | _ \<Rightarrow> task_status_str t))
     [Txt (task_status_str t)]"

definition formatWhen :: "(string \<Rightarrow> string) \<Rightarrow> string option \<Rightarrow> string" where
  "formatWhen fmt t = (case t of Some x \<Rightarrow> if x = '''' then em_dash else fmt x | None \<Rightarrow> em_dash)"

definition tk_terminal :: "task \<Rightarrow> bool" where
  "tk_terminal t = (t_status t = Succeeded \<or> t_status t = Failed \<or> t_status t = Cancelled)"

definition text_if :: "bool \<Rightarrow> string option \<Rightarrow> 'e ui list" where
  "text_if b t = (case t of Some x \<Rightarrow> if b \<and> x \<noteq> '''' then [Txt x] else [] | None \<Rightarrow> [])"

definition tk_row :: "(string \<Rightarrow> string) \<Rightarrow> string option \<Rightarrow> task \<Rightarrow> tasks_page_event ui" where
  "tk_row fmt cancelling t = Box ''row''
     ([Txt (t_id t), Txt (TYPE_LABEL (t_type t)),
       Txt (orelse (t_resourceName t) (orelse (t_resourceId t) em_dash)), StatusBadge (t_status t)] @
      text_if (t_status t = Failed) (t_error t) @ text_if (\<not> tk_terminal t) (t_message t) @
      map (\<lambda>x. Txt ([CHR 0xE2, CHR 0x9A, CHR 0xA0] @ '' '' @ x)) (orelse (t_warnings t) []) @
      [Txt (int_str (t_progress t) @ ''%''),
       Box (''metric-bar-fill'' @ (if t_status t = Failed then '' crit'' else '''')) [Num (of_int (t_progress t))],
       Txt (formatWhen fmt (Some (orelse (t_startedAt t) (t_createdAt t)))), Txt (formatWhen fmt (t_finishedAt t))] @
      (if t_cancellable t
       then [Btn (if cancelling = Some (t_id t) then ''Cancelling'' @ ellipsis else ''Cancel'') (cancelling = Some (t_id t)) (TkCancel (t_id t))]
       else []))"

definition tk_view :: "(string \<Rightarrow> string) \<Rightarrow> tasks_page \<Rightarrow> tasks_page_event ui list" where
  "tk_view fmt s =
     (let items = tk_items s; loading = poll_loading (tk_poll s); failed = tk_failed items in
      [Txt ''Tasks'',
       Sel ''Filter by status'' (tk_filter s) False
         [('''', ''All statuses'', False), (''queued'', ''queued'', False), (''running'', ''running'', False),
          (''succeeded'', ''succeeded'', False), (''failed'', ''failed'', False), (''cancelled'', ''cancelled'', False)] TkFilter,
       MetricCard ''Active'' [Txt (nat_str (tk_active items))] (Some [Txt ''queued + running'']) None None loading ''blue'',
       MetricCard ''Failures'' [Txt (nat_str failed)] (Some [Txt ''in the current history''])
         (if 0 < failed then Some ''danger'' else None) None loading ''blue''] @
      (if loading then [EmptyState (''Loading'' @ ellipsis) (Some ''Fetching tasks'') []]
       else if items = [] then
         [EmptyState ''No tasks'' (Some ''Create a VM or run a backup: the operation shows up here in real time.'') []]
       else map (tk_row fmt (tk_cancelling s)) items))"

definition tk_enabled :: "(string \<Rightarrow> string) \<Rightarrow> tasks_page \<Rightarrow> tasks_page_event \<Rightarrow> bool" where
  "tk_enabled fmt s e = (e = TkTick \<or> offers_any (tk_view fmt s) e)"

abbreviation tk_reach :: "(string \<Rightarrow> string) \<Rightarrow> (tasks_page, tasks_page_kont) world \<Rightarrow> bool" where
  "tk_reach fmt \<equiv> reachable tk_boot (tk_enabled fmt) tk_handle tk_resume"

subsection \<open>Cancelling\<close>

lemma text_if_inert [simp]: "\<not> offers_any (text_if b t) e"
  by (simp add: text_if_def split: option.split)

lemma StatusBadge_inert [simp]: "\<not> offers (StatusBadge t) e"
  by (simp add: StatusBadge_def)

lemma tk_row_offers: "offers (tk_row fmt c t) e \<longleftrightarrow> t_cancellable t \<and> c \<noteq> Some (t_id t) \<and> e = TkCancel (t_id t)"
  by (auto simp: tk_row_def offers_any_map)

lemma tk_enabled_cancel:
  "tk_enabled fmt s (TkCancel i) \<longleftrightarrow> \<not> poll_loading (tk_poll s) \<and> tk_cancelling s \<noteq> Some i
    \<and> (\<exists>t \<in> set (tk_items s). t_id t = i \<and> t_cancellable t)"
  by (auto simp: tk_enabled_def tk_view_def Let_def offers_any_map tk_row_offers)

definition is_cancel :: "tasks_page_kont \<Rightarrow> bool" where
  "is_cancel k = (k \<noteq> KTkPoll)"

interpretation tk_slot: busy_slot tk_boot "tk_enabled fmt" tk_handle tk_resume "\<lambda>s. tk_cancelling s \<noteq> None" is_cancel
  for fmt
proof unfold_locales
  show "\<not> tk_cancelling (st tk_boot) \<noteq> None" by (simp add: tk_boot_def tk_load_def tasks_page_init_def)
next
  fix w :: "(tasks_page, tasks_page_kont) world" and e
  assume "tk_cancelling (st (tk_handle e w)) \<noteq> None"
  then show "flight is_cancel w \<le> flight is_cancel (tk_handle e w)
      \<and> (tk_cancelling (st w) \<noteq> None \<or> 0 < flight is_cancel (tk_handle e w))"
    by (cases e) (auto simp: tk_load_def tk_cancel_def is_cancel_def)
next
  fix w :: "(tasks_page, tasks_page_kont) world" and k r
  assume "is_cancel k" "tk_cancelling (st (tk_resume k r w)) \<noteq> None"
  then show "0 < flight is_cancel (tk_resume k r w)" by (cases k) (simp_all add: is_cancel_def tk_load_def)
next
  fix w :: "(tasks_page, tasks_page_kont) world" and k r
  assume "\<not> is_cancel k" "tk_cancelling (st (tk_resume k r w)) \<noteq> None"
  then show "tk_cancelling (st w) \<noteq> None \<and> flight is_cancel w \<le> flight is_cancel (tk_resume k r w)"
    by (cases k) (simp_all add: is_cancel_def)
qed

text \<open>
  A task can be cancelled exactly when the last poll shows it as cancellable and it is not
  the one being cancelled. In every reachable state the row marked as being cancelled has its
  request pending, and when that request settles, either way, the mark is gone and the list is
  asked for again with the filter of that moment.
\<close>

theorem tasks_cancel:
  assumes "tk_reach fmt w"
  shows "tk_enabled fmt (st w) (TkCancel i) = (\<not> poll_loading (tk_poll (st w)) \<and> tk_cancelling (st w) \<noteq> Some i
      \<and> (\<exists>t \<in> set (tk_items (st w)). t_id t = i \<and> t_cancellable t))
    \<and> (tk_cancelling (st w) \<noteq> None \<longrightarrow> 0 < flight is_cancel w)
    \<and> tk_cancelling (st (tk_resume (KTkCancel i) r w)) = None
    \<and> calls (tk_resume (KTkCancel i) r w) = calls w @ [([tk_request (st w)], KTkPoll)]"
  using tk_slot.busy_served [OF assms] by (simp add: tk_enabled_cancel tk_load_def tk_request_def)

definition task0 :: task where
  "task0 = \<lparr>t_id = ''t1'', t_type = Vm_create, t_status = TRunning, t_resourceId = None, t_resourceName = Some ''app'',
     t_message = None, t_error = None, t_progress = 40, t_warnings = None, t_cancellable = True, t_createdAt = ''2026-01-01T00:00:00Z'',
     t_startedAt = None, t_finishedAt = None\<rparr>"

theorem tasks_cancel_witness:
  "\<exists>w. play (tk_enabled id) tk_handle tk_resume [Settle 0 (Inr [PTasks [task0] 1]), Ev (TkCancel ''t1'')] tk_boot = Some w
     \<and> 0 < flight is_cancel w"
proof -
  obtain w where w: "play (tk_enabled id) tk_handle tk_resume [Settle 0 (Inr [PTasks [task0] 1]), Ev (TkCancel ''t1'')] tk_boot = Some w"
    "tk_cancelling (st w) \<noteq> None"
    by (simp add: tk_boot_def tk_load_def tk_request_def tasks_page_init_def reply_ok_def tasks_of_def tk_enabled_cancel
        tk_items_def tk_cancel_def task0_def poll_init_def)
  from tasks_cancel [OF play_reachable [OF reachable.boot w(1)]] w show ?thesis by blast
qed

lemma count_if_add:
  "count_if (\<lambda>t. P t \<or> Q t) ts \<le> count_if P ts + count_if Q ts"
  "\<forall>t. \<not> (P t \<and> Q t) \<Longrightarrow> count_if (\<lambda>t. P t \<or> Q t) ts = count_if P ts + count_if Q ts"
  by (induction ts) (auto simp: count_if_def)

lemma count_if_0: "\<forall>t \<in> set ts. \<not> P t \<Longrightarrow> count_if P ts = 0"
  by (simp add: count_if_def)

text \<open>
  The counts on the cards are those of the list shown, which the filter has already cut:
  the active ones are the queued, the running and, although the hint does not name them, the
  cancelling ones. While only finished tasks are asked for, no task counts as active, and
  while any status but \<open>failed\<close> is, no failure is counted.
\<close>

theorem tasks_counts:
  assumes "\<forall>t \<in> set (tk_items s). tk_filter s = '''' \<or> task_status_str (t_status t) = tk_filter s"
  shows "tk_active (tk_items s) = count_if (\<lambda>t. t_status t = Queued) (tk_items s)
      + count_if (\<lambda>t. t_status t = TRunning) (tk_items s) + count_if (\<lambda>t. t_status t = Cancelling) (tk_items s)
    \<and> tk_active (tk_items s) + tk_failed (tk_items s) \<le> length (tk_items s)
    \<and> (tk_filter s \<in> {''succeeded'', ''failed'', ''cancelled''} \<longrightarrow> tk_active (tk_items s) = 0)
    \<and> (tk_filter s \<in> {''queued'', ''running'', ''succeeded'', ''cancelled''} \<longrightarrow> tk_failed (tk_items s) = 0)"
proof (intro conjI impI)
  let ?ts = "tk_items s"
  show "tk_active ?ts = count_if (\<lambda>t. t_status t = Queued) ?ts + count_if (\<lambda>t. t_status t = TRunning) ?ts
      + count_if (\<lambda>t. t_status t = Cancelling) ?ts"
    by (simp add: tk_active_def count_if_add(2))
  have "tk_active ?ts + tk_failed ?ts = count_if (\<lambda>t. (t_status t = Queued \<or> t_status t = TRunning \<or> t_status t = Cancelling) \<or> t_status t = Failed) ?ts"
    unfolding tk_active_def tk_failed_def by (rule count_if_add(2) [symmetric]) auto
  also have "\<dots> \<le> length ?ts" by (simp add: count_if_def)
  finally show "tk_active ?ts + tk_failed ?ts \<le> length ?ts" .
  have st: "tk_filter s = '''' \<or> task_status_str (t_status t) = tk_filter s" if "t \<in> set ?ts" for t using assms that by blast
  show "tk_active ?ts = 0" if "tk_filter s \<in> {''succeeded'', ''failed'', ''cancelled''}"
    unfolding tk_active_def by (rule count_if_0) (use st that in force)
  show "tk_failed ?ts = 0" if "tk_filter s \<in> {''queued'', ''running'', ''succeeded'', ''cancelled''}"
    unfolding tk_failed_def by (rule count_if_0) (use st that in force)
qed

end
