(* ===== verification/Schedules.thy ===== *)
theory Schedules
  imports NetworkForms
begin

text \<open>
  The form of a backup schedule (\<open>frontend/src/components/ScheduleModal.tsx\<close>). The page keeps
  it mounted, so its fields take their initial values once, when the page is opened and there
  is no schedule to edit.
\<close>

subsection \<open>State\<close>

record schedule_form =
  sf_open :: bool
  sf_initial :: "schedule option"
  sf_name :: string
  sf_time :: string
  sf_vmIds :: string
  sf_type :: point_type
  sf_keepLast :: string
  sf_enabled :: bool
  sf_submitting :: bool
  sf_error :: "string option"

text \<open>The state the hooks start with, from the \<open>initial\<close> of the first rendering.\<close>

definition schedule_form_init :: "schedule option \<Rightarrow> schedule_form" where
  "schedule_form_init initial =
     \<lparr>sf_open = False, sf_initial = initial,
      sf_name = (case initial of Some x \<Rightarrow> s_name x | None \<Rightarrow> ''''),
      sf_time = (case initial of Some x \<Rightarrow> s_time x | None \<Rightarrow> ''03:00''),
      sf_vmIds = (case initial of Some x \<Rightarrow> js_join '', '' (s_vmIds x) | None \<Rightarrow> ''*''),
      sf_type = (case initial of Some x \<Rightarrow> s_type x | None \<Rightarrow> Auto),
      sf_keepLast = int_str (case initial of Some x \<Rightarrow> s_retentionKeepLast x | None \<Rightarrow> 0),
      sf_enabled = (case initial of Some x \<Rightarrow> s_enabled x | None \<Rightarrow> True),
      sf_submitting = False, sf_error = None\<rparr>"

datatype schedule_form_event =
    SfProps bool "schedule option"
  | SfName string
  | SfTime string
  | SfVmIds string
  | SfType point_type
  | SfKeepLast string
  | SfEnabled bool
  | SfClose
  | SfSubmit

datatype schedule_form_kont = KSfSubmit

subsection \<open>Validation\<close>

definition targets_of :: "string \<Rightarrow> string list" where
  "targets_of s = filter (\<lambda>t. t \<noteq> '''') (map js_trim (js_split (CHR '','') s))"

definition timeErr :: "schedule_form \<Rightarrow> bool" where
  "timeErr s = (sf_time s \<noteq> '''' \<and> \<not> rx_test TIME_RE (sf_time s))"

definition keepErr :: "schedule_form \<Rightarrow> bool" where
  "keepErr s = (sf_keepLast s \<noteq> '''' \<and> \<not> rx_test DIGITS_RE (sf_keepLast s))"

definition sf_valid :: "schedule_form \<Rightarrow> bool" where
  "sf_valid s = (rx_test TIME_RE (sf_time s) \<and> targets_of (sf_vmIds s) \<noteq> [] \<and> \<not> keepErr s)"

definition keepLast_num :: "schedule_form \<Rightarrow> rat" where
  "keepLast_num s = number_or_0 (if sf_keepLast s = '''' then ''0'' else sf_keepLast s)"

definition sf_body :: "schedule_form \<Rightarrow> schedule_body" where
  "sf_body s = \<lparr>sb_name = (if sf_initial s = None then Some (sf_name s) else None), sb_time = Some (sf_time s),
     sb_vmIds = Some (targets_of (sf_vmIds s)), sb_type = Some (sf_type s),
     sb_retentionKeepLast = Some (keepLast_num s), sb_enabled = Some (sf_enabled s)\<rparr>"

subsection \<open>Handlers\<close>

definition sf_request :: "schedule_form \<Rightarrow> request" where
  "sf_request s = (case sf_initial s of
     Some x \<Rightarrow> PutSchedule (s_id x) (sf_body s) | None \<Rightarrow> PostSchedule (sf_body s))"

definition sf_submit :: "(schedule_form, schedule_form_kont) action" where
  "sf_submit w = run [upd (\<lambda>s. s\<lparr>sf_submitting := True, sf_error := None\<rparr>), call [sf_request (st w)] KSfSubmit] w"

fun sf_handle :: "schedule_form_event \<Rightarrow> (schedule_form, schedule_form_kont) action" where
  "sf_handle (SfProps b x) w = upd (\<lambda>s. s\<lparr>sf_open := b, sf_initial := x\<rparr>) w"
| "sf_handle (SfName v) w = upd (sf_name_update (\<lambda>_. v)) w"
| "sf_handle (SfTime v) w = upd (sf_time_update (\<lambda>_. v)) w"
| "sf_handle (SfVmIds v) w = upd (sf_vmIds_update (\<lambda>_. v)) w"
| "sf_handle (SfType t) w = upd (sf_type_update (\<lambda>_. t)) w"
| "sf_handle (SfKeepLast v) w = upd (sf_keepLast_update (\<lambda>_. v)) w"
| "sf_handle (SfEnabled b) w = upd (sf_enabled_update (\<lambda>_. b)) w"
| "sf_handle SfClose w = emit OnClose w"
| "sf_handle SfSubmit w = sf_submit w"

fun sf_resume :: "schedule_form_kont \<Rightarrow> reply \<Rightarrow> (schedule_form, schedule_form_kont) action" where
  "sf_resume KSfSubmit r w = (case r of
     Inr ps \<Rightarrow> run [emit OnSaved, emit OnClose, upd (sf_submitting_update (\<lambda>_. False))] w
   | Inl e \<Rightarrow> upd (\<lambda>s. s\<lparr>sf_error := Some (err_colon e), sf_submitting := False\<rparr>) w)"

subsection \<open>View\<close>

definition quoted :: "string \<Rightarrow> string" where
  "quoted s = [CHR 0xE2, CHR 0x80, CHR 0x9C] @ s @ [CHR 0xE2, CHR 0x80, CHR 0x9D]"

definition time_hint :: string where
  "time_hint = ''Use HH:MM (00:00'' @ [CHR 0xE2, CHR 0x80, CHR 0x93] @ ''23:59)''"

definition keep_hint :: string where
  "keep_hint = ''Deve ser um n'' @ [CHR 0xC3, CHR 0xBA] @ ''mero '' @ [CHR 0xE2, CHR 0x89, CHR 0xA5] @ '' 0''"

definition point_of :: "string \<Rightarrow> point_type" where
  "point_of v = (if v = ''full'' then Point Full else if v = ''incremental'' then Point Incremental else Auto)"

definition sf_view :: "schedule_form \<Rightarrow> schedule_form_event ui list" where
  "sf_view s = (if \<not> sf_open s then [] else
     (let dis = sf_submitting s; editing = (sf_initial s \<noteq> None) in
      [Txt (case sf_initial s of Some x \<Rightarrow> ''Edit Schedule '' @ quoted (s_name x) | None \<Rightarrow> ''New Backup Schedule''),
       Btn ''Close'' dis SfClose] @ alert (sf_error s) @
      (if editing then [] else [Field ''Name'' (sf_name s) dis SfName]) @
      [Field (''Run daily at (HH:MM, hor'' @ [CHR 0xC3, CHR 0xA1] @ ''rio do servidor)'') (sf_time s) dis SfTime] @
      (if timeErr s then [Txt time_hint] else []) @
      [Field (''Target VMs (nomes separados por v'' @ [CHR 0xC3, CHR 0xAD] @ ''rgula, ou * para todas)'') (sf_vmIds s) dis SfVmIds] @
      (if targets_of (sf_vmIds s) = [] then [Txt ''Informe ao menos um alvo ou \"*\"''] else []) @
      [Sel ''Point type'' (point_type_str (sf_type s)) dis
         [(''auto'', ''auto (incremental quando houver cadeia)'', False), (''full'', ''full'', False), (''incremental'', ''incremental'', False)]
         (\<lambda>v. SfType (point_of v)),
       Field (''Retention '' @ em_dash @ '' keep last N full chains (0 = manter tudo)'') (sf_keepLast s) dis SfKeepLast] @
      (if keepErr s then [Txt keep_hint] else []) @
      [Check ''Enabled'' (sf_enabled s) dis SfEnabled,
       Btn ''Cancel'' dis SfClose,
       Btn (if editing then ''Save'' else ''Create Schedule'') (dis \<or> \<not> sf_valid s) SfSubmit]))"

definition sf_offered :: "schedule_form \<Rightarrow> schedule_form_event \<Rightarrow> bool" where
  "sf_offered s e = (case e of SfProps b x \<Rightarrow> True | _ \<Rightarrow> offers_any (sf_view s) e)"

abbreviation sf_reach :: "(schedule_form, schedule_form_kont) world \<Rightarrow> bool" where
  "sf_reach \<equiv> reachable (fresh (schedule_form_init None)) sf_offered sf_handle sf_resume"

lemma sf_busy_disables: "sf_submitting s \<Longrightarrow> sf_offered s e \<Longrightarrow> \<exists>b x. e = SfProps b x"
  by (cases e) (auto simp: sf_offered_def sf_view_def Let_def alert_def split: if_splits option.splits)

lemma sf_submit_offered: "sf_offered s SfSubmit \<longleftrightarrow> sf_open s \<and> sf_valid s \<and> \<not> sf_submitting s"
  by (auto simp: sf_offered_def sf_view_def Let_def alert_def list_ex_iff split: option.splits)


subsection \<open>The requests of the form\<close>

lemma js_split_pieces: "w \<in> set (js_split d s) \<Longrightarrow> d \<notin> set w"
  by (induction s arbitrary: w) (auto split: if_splits list.splits)

lemma set_js_trim: "set (js_trim s) \<subseteq> set s"
  by (auto simp: js_trim_def dest!: set_dropWhileD)

definition target_ok :: "string \<Rightarrow> bool" where
  "target_ok t = (t \<noteq> '''' \<and> js_trim t = t \<and> CHR '','' \<notin> set t)"

lemma targets_ok: "t \<in> set (targets_of s) \<Longrightarrow> target_ok t"
  using set_js_trim by (fastforce simp: targets_of_def target_ok_def js_trim_idem dest: js_split_pieces)

definition schedule_body_ok :: "schedule_body \<Rightarrow> bool" where
  "schedule_body_ok b =
     ((case sb_time b of Some t \<Rightarrow> rx_test TIME_RE t | None \<Rightarrow> False)
      \<and> (case sb_vmIds b of Some ts \<Rightarrow> ts \<noteq> [] \<and> list_all target_ok ts | None \<Rightarrow> False)
      \<and> (case sb_retentionKeepLast b of Some n \<Rightarrow> 0 \<le> n \<and> n = of_int \<lfloor>n\<rfloor> | None \<Rightarrow> False)
      \<and> sb_type b \<noteq> None \<and> sb_enabled b \<noteq> None)"

lemma keepLast_nat:
  assumes "\<not> keepErr s"
  shows "keepLast_num s = of_nat (parse_digits (if sf_keepLast s = '''' then ''0'' else sf_keepLast s))"
proof -
  let ?d = "if sf_keepLast s = '''' then ''0'' else sf_keepLast s"
  have "list_all is_digit ?d" "?d \<noteq> []" using assms by (auto simp: keepErr_def digits_accepted is_digit_def)
  then show ?thesis by (simp add: keepLast_num_def number_or_0_def js_number_digits orelse_def)
qed

lemma sf_body_ok: "sf_valid s \<Longrightarrow> schedule_body_ok (sf_body s)"
  by (auto simp: schedule_body_ok_def sf_body_def sf_valid_def keepLast_nat list_all_iff targets_ok)

fun schedule_request_ok :: "request \<Rightarrow> bool" where
  "schedule_request_ok (PostSchedule b) = (sb_name b \<noteq> None \<and> schedule_body_ok b)"
| "schedule_request_ok (PutSchedule i b) = (sb_name b = None \<and> schedule_body_ok b)"
| "schedule_request_ok q = False"

lemma sf_request_ok: "sf_valid s \<Longrightarrow> schedule_request_ok (sf_request s)"
  by (cases "sf_initial s") (simp_all add: sf_request_def sf_body_ok, simp_all add: sf_body_def)

interpretation sf_run: single_flight "fresh (schedule_form_init None)" sf_offered sf_handle sf_resume
    sf_submitting "any_kont :: schedule_form_kont \<Rightarrow> bool"
proof unfold_locales
  show "flight any_kont (fresh (schedule_form_init None) :: (schedule_form, schedule_form_kont) world) = 0
      \<and> \<not> sf_submitting (st (fresh (schedule_form_init None) :: (schedule_form, schedule_form_kont) world))"
    by (simp add: schedule_form_init_def)
next
  fix w :: "(schedule_form, schedule_form_kont) world" and e assume "\<not> sf_submitting (st w)" "sf_offered (st w) e"
  then show "flight any_kont (sf_handle e w) =
      flight any_kont w + (if sf_submitting (st (sf_handle e w)) then 1 else 0)"
    by (cases e) (simp_all add: sf_submit_def)
next
  fix w :: "(schedule_form, schedule_form_kont) world" and e assume "sf_submitting (st w)" "sf_offered (st w) e"
  then show "sf_submitting (st (sf_handle e w)) \<and> flight any_kont (sf_handle e w) = flight any_kont w"
    using sf_busy_disables by fastforce
next
  fix w :: "(schedule_form, schedule_form_kont) world" and k r assume "sf_submitting (st w)"
  then show "flight any_kont (sf_resume k r w) =
      flight any_kont w + (if sf_submitting (st (sf_resume k r w)) then 1 else 0)"
    by (cases k) (simp split: sum.splits)
qed simp

interpretation sf_requests_run: component "fresh (schedule_form_init None)" sf_offered sf_handle sf_resume
    "\<lambda>w. \<forall>c \<in> set (calls w). list_all schedule_request_ok (fst c)"
proof unfold_locales
  fix w :: "(schedule_form, schedule_form_kont) world" and e
  assume "\<forall>c \<in> set (calls w). list_all schedule_request_ok (fst c)" "sf_offered (st w) e"
  then show "\<forall>c \<in> set (calls (sf_handle e w)). list_all schedule_request_ok (fst c)"
    by (cases e) (auto simp: sf_submit_def sf_submit_offered sf_request_ok)
next
  fix w :: "(schedule_form, schedule_form_kont) world" and i r
  assume "\<forall>c \<in> set (calls w). list_all schedule_request_ok (fst c)"
  then show "\<forall>c \<in> set (calls (sf_resume (snd (calls w ! i)) r (take_call i w))). list_all schedule_request_ok (fst c)"
    using set_remove_nth_subset [of i "calls w"]
    by (cases "snd (calls w ! i)") (auto split: sum.splits)
qed simp

text \<open>
  C35. The schedule form has a request pending exactly while it is disabled, never two, and
  each one, to create or to change, carries a time the pattern accepts, at least one target,
  every target non-empty, trimmed and free of commas, and a natural number of chains to keep.
  A new schedule also carries its name; a change never does.
\<close>

theorem schedule_requests:
  assumes "sf_reach w"
  shows "length (calls w) = (if sf_submitting (st w) then 1 else 0)
    \<and> (\<forall>c \<in> set (calls w). list_all schedule_request_ok (fst c))"
  using sf_run.flight_iff_busy [OF assms] sf_requests_run.reach_inv [OF assms] by (simp add: flight_any)

definition schedule_script :: "schedule_form_event stimulus list" where
  "schedule_script = [Ev (SfProps True None), Ev (SfName ''nightly''), Ev (SfVmIds ''app, db,''), Ev SfSubmit]"

lemma schedule_example:
  "\<exists>w. play sf_offered sf_handle sf_resume schedule_script (fresh (schedule_form_init None)) = Some w \<and> sf_submitting (st w)"
proof -
  have "rx_test TIME_RE ''03:00''" "targets_of ''app, db,'' \<noteq> []" "\<not> keepErr (schedule_form_init None)" by code_simp+
  then show ?thesis
    by (simp add: schedule_script_def sf_offered_def sf_view_def Let_def sf_valid_def sf_submit_def schedule_form_init_def keepErr_def)
qed

theorem schedule_requests_witness:
  "\<exists>w. play sf_offered sf_handle sf_resume schedule_script (fresh (schedule_form_init None)) = Some w \<and> length (calls w) = 1"
proof -
  obtain w where w: "play sf_offered sf_handle sf_resume schedule_script (fresh (schedule_form_init None)) = Some w"
    "sf_submitting (st w)" using schedule_example by blast
  from schedule_requests [OF play_reachable [OF reachable.boot w(1)]] w show ?thesis by auto
qed

subsection \<open>The targets as text\<close>

lemma js_trim_pad: "js_trim ('' '' @ w) = js_trim w"
  by (simp add: js_trim_def is_space_def)

text \<open>
  The text the form shows for the targets of a schedule reads back as those targets.
\<close>

theorem schedule_targets_roundtrip:
  assumes "list_all target_ok ts"
  shows "targets_of (js_join '', '' ts) = ts"
proof (cases ts)
  case Nil
  then show ?thesis by (simp add: targets_of_def)
next
  case (Cons w ws)
  with assms have ok: "target_ok w" "\<forall>t \<in> set ws. target_ok t" by (simp_all add: list_all_iff)
  have "js_split (CHR '','') (js_join '', '' (w # ws)) = w # map (\<lambda>v. '' '' @ v) ws"
    using ok by (intro js_split_join) (auto simp: target_ok_def)
  moreover have "map js_trim (map (\<lambda>v. '' '' @ v) ws) = ws"
    unfolding map_map comp_def js_trim_pad using ok(2) by (intro map_idI) (simp add: target_ok_def)
  moreover have "filter (\<lambda>t. t \<noteq> '''') ws = ws"
    using ok(2) by (intro filter_True) (simp add: target_ok_def)
  ultimately show ?thesis using ok(1) Cons by (simp add: targets_of_def target_ok_def)
qed

theorem schedule_targets_roundtrip_witness:
  "targets_of (js_join '', '' [''app'', ''db'']) = [''app'', ''db'']"
  by (rule schedule_targets_roundtrip) code_simp

end
