(* ===== verification/BackupsPage.thy ===== *)
theory BackupsPage
  imports Schedules VmsPage
begin

text \<open>
  The backups page (\<open>frontend/src/pages/Backups.tsx\<close>): the restore points of the selected
  machine and the schedules, each behind a tab, with the dialogs that confirm a restore or a
  deletion and the schedule form. Three loaders poll independently: the machines, the points
  of the machine that is active when a load starts, and the schedules.
\<close>

subsection \<open>State\<close>

datatype del_kind = DelBackup | DelSchedule

record to_delete =
  td_kind :: del_kind
  td_key :: string
  td_text :: string

record backups_page =
  bp_tab :: string
  bp_busy :: "string option"
  bp_vms :: "(vm list \<times> int) polling"
  bp_selected :: string
  bp_points :: "(backup list \<times> int) polling"
  bp_schedules :: "(schedule list \<times> int) polling"
  bp_form :: schedule_form
  bp_delete :: "to_delete option"
  bp_restore :: "backup option"

datatype backups_page_event =
    BpTickVms
  | BpTickPoints
  | BpTickSchedules
  | BpTab string
  | BpSelect string
  | BpBackupNow
  | BpNewSchedule
  | BpAskRestore backup
  | BpAskDelete backup
  | BpEdit schedule
  | BpToggle schedule
  | BpAskDeleteSchedule schedule
  | BpCancelRestore
  | BpConfirmRestore
  | BpCancelDelete
  | BpConfirmDelete
  | BpForm schedule_form_event

text \<open>What a running action will say when it succeeds.\<close>

datatype backups_msg =
    MBackup string point_type
  | MRestore backup
  | MText string

datatype backups_page_kont =
    BkVms
  | BkPoints
  | BkSchedules
  | BkRun backups_msg
  | BkForm schedule_form_kont

definition backups_page_init :: backups_page where
  "backups_page_init = \<lparr>bp_tab = ''points'', bp_busy = None, bp_vms = poll_init, bp_selected = '''',
     bp_points = poll_init, bp_schedules = poll_init, bp_form = schedule_form_init None,
     bp_delete = None, bp_restore = None\<rparr>"

definition vmList :: "backups_page \<Rightarrow> vm list" where
  "vmList s = (case poll_data (bp_vms s) of Some d \<Rightarrow> fst d | None \<Rightarrow> [])"

definition activeVM :: "backups_page \<Rightarrow> string" where
  "activeVM s = (if bp_selected s \<noteq> '''' then bp_selected s else case vmList s of v # vs \<Rightarrow> v_id v | [] \<Rightarrow> '''')"

definition bp_backups :: "backups_page \<Rightarrow> backup list" where
  "bp_backups s = (case poll_data (bp_points s) of Some d \<Rightarrow> fst d | None \<Rightarrow> [])"

definition bp_total :: "backups_page \<Rightarrow> int" where
  "bp_total s = (case poll_data (bp_points s) of Some d \<Rightarrow> snd d | None \<Rightarrow> 0)"

definition bp_schedule_list :: "backups_page \<Rightarrow> schedule list" where
  "bp_schedule_list s = (case poll_data (bp_schedules s) of Some d \<Rightarrow> fst d | None \<Rightarrow> [])"

subsection \<open>Loading\<close>

text \<open>The points loader of a page without machines settles at once, without a request.\<close>

definition load_points :: "(backups_page, backups_page_kont) action" where
  "load_points w =
     (if activeVM (st w) = '''' then upd (bp_points_update (poll_done (Inr (Some ([], 0))))) w
      else call [GetBackups (activeVM (st w))] BkPoints w)"

definition load_schedules :: "(backups_page, backups_page_kont) action" where
  "load_schedules = call [GetSchedules] BkSchedules"

definition bp_refreshAll :: "(backups_page, backups_page_kont) action" where
  "bp_refreshAll = run [load_points, load_schedules]"

text \<open>
  The interval of the points is 5 seconds with an active machine and an hour without; when a
  change of state changes the interval the points are loaded at once.
\<close>

definition points_interval :: "backups_page \<Rightarrow> nat" where
  "points_interval s = (if activeVM s \<noteq> '''' then 5000 else 3600000)"

definition bp_change :: "(backups_page \<Rightarrow> backups_page) \<Rightarrow> (backups_page, backups_page_kont) action" where
  "bp_change f w =
     (let w1 = upd f w in if points_interval (st w1) = points_interval (st w) then w1 else load_points w1)"

definition vm_items_of :: "payload list \<Rightarrow> (vm list \<times> int) option" where
  "vm_items_of ps = (case ps of [PVms xs n] \<Rightarrow> Some (xs, n) | _ \<Rightarrow> None)"

definition backups_of :: "payload list \<Rightarrow> (backup list \<times> int) option" where
  "backups_of ps = (case ps of [PBackups xs n] \<Rightarrow> Some (xs, n) | _ \<Rightarrow> None)"

definition schedules_of :: "payload list \<Rightarrow> (schedule list \<times> int) option" where
  "schedules_of ps = (case ps of [PSchedules xs n] \<Rightarrow> Some (xs, n) | _ \<Rightarrow> None)"

subsection \<open>Handlers\<close>

definition bp_run :: "string \<Rightarrow> request \<Rightarrow> backups_msg \<Rightarrow> (backups_page, backups_page_kont) action" where
  "bp_run key q m = run [upd (bp_busy_update (\<lambda>_. Some key)), call [q] (BkRun m)]"

definition createBackup :: "string \<Rightarrow> point_type \<Rightarrow> (backups_page, backups_page_kont) action" where
  "createBackup vmId t = bp_run (''backup-'' @ vmId) (PostBackup vmId t) (MBackup vmId t)"

definition restore_point :: "backup \<Rightarrow> (backups_page, backups_page_kont) action" where
  "restore_point b = bp_run (''restore-'' @ b_id b) (PostRestore (b_id b)) (MRestore b)"

definition removeBackup :: "backup \<Rightarrow> (backups_page, backups_page_kont) action" where
  "removeBackup b = bp_run (''del-'' @ b_id b) (DeleteBackup (b_id b)) (MText (''Backup '' @ b_id b @ '' removido''))"

definition removeSchedule :: "schedule \<Rightarrow> (backups_page, backups_page_kont) action" where
  "removeSchedule x = bp_run (''del-'' @ s_id x) (DeleteSchedule (s_id x)) (MText (''Schedule '' @ quoted (s_name x) @ '' removido''))"

definition enabled_only :: "bool \<Rightarrow> schedule_body" where
  "enabled_only b = \<lparr>sb_name = None, sb_time = None, sb_vmIds = None, sb_type = None,
     sb_retentionKeepLast = None, sb_enabled = Some b\<rparr>"

definition toggleSchedule :: "schedule \<Rightarrow> (backups_page, backups_page_kont) action" where
  "toggleSchedule x = bp_run (''tgl-'' @ s_id x) (PutSchedule (s_id x) (enabled_only (\<not> s_enabled x)))
     (MText (''Schedule '' @ quoted (s_name x) @ '' '' @ (if s_enabled x then ''desativado'' else ''ativado'')))"

fun bp_form_effect :: "effect \<Rightarrow> (backups_page, backups_page_kont) action" where
  "bp_form_effect OnSaved w = bp_refreshAll w"
| "bp_form_effect OnClose w = upd (\<lambda>s. s\<lparr>bp_form := (bp_form s)\<lparr>sf_open := False, sf_initial := None\<rparr>\<rparr>) w"
| "bp_form_effect x w = emit x w"

definition in_form :: "(schedule_form, schedule_form_kont) action \<Rightarrow> (backups_page, backups_page_kont) action" where
  "in_form a = embed bp_form (\<lambda>c p. p\<lparr>bp_form := c\<rparr>) BkForm bp_form_effect a"

definition bp_confirm_delete :: "(backups_page, backups_page_kont) action" where
  "bp_confirm_delete w =
     (let w1 = upd (bp_delete_update (\<lambda>_. None)) w in
      case bp_delete (st w) of
        None \<Rightarrow> w1
      | Some t \<Rightarrow> (case td_kind t of
          DelBackup \<Rightarrow> (case find (\<lambda>b. b_id b = td_key t) (bp_backups (st w)) of
              Some b \<Rightarrow> removeBackup b w1 | None \<Rightarrow> w1)
        | DelSchedule \<Rightarrow> (case find (\<lambda>x. s_id x = td_key t) (bp_schedule_list (st w)) of
              Some x \<Rightarrow> removeSchedule x w1 | None \<Rightarrow> w1)))"

fun bp_handle :: "backups_page_event \<Rightarrow> (backups_page, backups_page_kont) action" where
  "bp_handle BpTickVms w = call [GetVms] BkVms w"
| "bp_handle BpTickPoints w = load_points w"
| "bp_handle BpTickSchedules w = load_schedules w"
| "bp_handle (BpTab t) w = upd (bp_tab_update (\<lambda>_. t)) w"
| "bp_handle (BpSelect v) w = bp_change (bp_selected_update (\<lambda>_. v)) w"
| "bp_handle BpBackupNow w = createBackup (activeVM (st w)) Auto w"
| "bp_handle BpNewSchedule w = in_form (sf_handle (SfProps True None)) w"
| "bp_handle (BpAskRestore b) w = upd (bp_restore_update (\<lambda>_. Some b)) w"
| "bp_handle (BpAskDelete b) w =
     upd (bp_delete_update (\<lambda>_. Some \<lparr>td_kind = DelBackup, td_key = b_id b, td_text = b_id b\<rparr>)) w"
| "bp_handle (BpEdit x) w = in_form (sf_handle (SfProps True (Some x))) w"
| "bp_handle (BpToggle x) w = toggleSchedule x w"
| "bp_handle (BpAskDeleteSchedule x) w =
     upd (bp_delete_update (\<lambda>_. Some \<lparr>td_kind = DelSchedule, td_key = s_id x, td_text = s_name x\<rparr>)) w"
| "bp_handle BpCancelRestore w = upd (bp_restore_update (\<lambda>_. None)) w"
| "bp_handle BpConfirmRestore w =
     (let w1 = upd (bp_restore_update (\<lambda>_. None)) w in
      case bp_restore (st w) of Some b \<Rightarrow> restore_point b w1 | None \<Rightarrow> w1)"
| "bp_handle BpCancelDelete w = upd (bp_delete_update (\<lambda>_. None)) w"
| "bp_handle BpConfirmDelete w = bp_confirm_delete w"
| "bp_handle (BpForm e) w = in_form (sf_handle e) w"

text \<open>An answer without data leaves \<open>undefined\<close> for the task's id in the message.\<close>

definition task_id :: "payload list \<Rightarrow> string" where
  "task_id ps = (case ps of [PTask t] \<Rightarrow> t_id t | _ \<Rightarrow> ''undefined'')"

definition msg_text :: "backups_msg \<Rightarrow> payload list \<Rightarrow> string" where
  "msg_text m ps = (case m of
     MBackup vmId t \<Rightarrow> ''Backup '' @ (if t = Auto then '''' else ''('' @ point_type_str t @ '') '') @ ''of '' @ vmId
       @ '' started (task '' @ task_id ps @ '')''
   | MRestore b \<Rightarrow> ''Restore of '' @ b_vmId b @ '' started (point '' @ b_id b @ '', task '' @ task_id ps @ '')''
   | MText t \<Rightarrow> t)"

fun bp_resume :: "backups_page_kont \<Rightarrow> reply \<Rightarrow> (backups_page, backups_page_kont) action" where
  "bp_resume BkVms r w = bp_change (bp_vms_update (poll_done (load_with vm_items_of r))) w"
| "bp_resume BkPoints r w = upd (bp_points_update (poll_done (load_with backups_of r))) w"
| "bp_resume BkSchedules r w = upd (bp_schedules_update (poll_done (load_with schedules_of r))) w"
| "bp_resume (BkRun m) r w = (case r of
     Inr ps \<Rightarrow> run [emit (Toast TSuccess (msg_text m ps)), bp_refreshAll, upd (bp_busy_update (\<lambda>_. None))] w
   | Inl e \<Rightarrow> run [emit (Toast TError (err_dash e)), upd (bp_busy_update (\<lambda>_. None))] w)"
| "bp_resume (BkForm k) r w = in_form (sf_resume k r) w"

definition bp_boot :: "(backups_page, backups_page_kont) world" where
  "bp_boot = run [call [GetVms] BkVms, load_points, load_schedules] (fresh backups_page_init)"

subsection \<open>View\<close>

definition BACKUP_TABS :: "tab_def list" where
  "BACKUP_TABS = [\<lparr>td_id = ''points'', td_label = ''Backup Points'', td_disabled = False\<rparr>,
     \<lparr>td_id = ''schedules'', td_label = ''Schedules'', td_disabled = False\<rparr>]"

definition totalSize :: "backup list \<Rightarrow> int" where
  "totalSize bs = sum_by b_sizeBytes bs"

definition incrCount :: "backup list \<Rightarrow> nat" where
  "incrCount bs = count_if (\<lambda>b. b_type b = Incremental) bs"

definition bp_head :: "backups_page \<Rightarrow> backups_page_event ui list" where
  "bp_head s = [Txt ''Backups'', Txt ''Restore points per VM and schedules with retention''] @
     (if bp_tab s = ''points'' then
        [Sel ''Select virtual machine'' (activeVM s) False (map (\<lambda>v. (v_id v, v_id v, False)) (vmList s)) BpSelect,
         Btn (if bp_busy s = Some (''backup-'' @ activeVM s) then ''Backing up'' @ ellipsis else ''Backup Now'')
           (activeVM s = '''' \<or> bp_busy s \<noteq> None) BpBackupNow]
      else [Btn ''New Schedule'' False BpNewSchedule])"

text \<open>\<open>fmtDateTime\<close> is the browser's rendering of a timestamp in the locale \<open>pt-BR\<close>.\<close>

definition bp_point_row :: "(string \<Rightarrow> string) \<Rightarrow> string option \<Rightarrow> backup \<Rightarrow> backups_page_event ui" where
  "bp_point_row fmtDateTime busy b = Box (if busy = Some (''del-'' @ b_id b) \<or> busy = Some (''restore-'' @ b_id b) then ''row-busy'' else ''row'')
     [Txt (fmtDateTime (b_createdAt b)),
      Box (''state '' @ (if b_type b = Full then ''state-running'' else '''')) [Txt (backup_type_str (b_type b))],
      Txt (orelse (b_parentId b) em_dash), Txt (formatBytes (b_sizeBytes b) 1),
      Txt (js_join '', '' (map bd_name (b_disks b))),
      Txt (if b_hasDomainXml b = Some True then [CHR 0xE2, CHR 0x9C, CHR 0x93] else em_dash),
      Menu (''Actions for '' @ b_id b)
        [Item (''Restore'' @ ellipsis) None (Some (BpAskRestore b)) (busy \<noteq> None)
           (Some ''Sobrescreve os discos da VM com este ponto (VM precisa estar parada)'') False,
         Item ''Delete'' None (Some (BpAskDelete b)) (busy \<noteq> None)
           (Some ''Remove permanentemente as imagens deste ponto'') True]]"

definition bp_points_view :: "(string \<Rightarrow> string) \<Rightarrow> backups_page \<Rightarrow> backups_page_event ui list" where
  "bp_points_view fmtDateTime s =
     (let bs = bp_backups s; loading = poll_loading (bp_points s); v = activeVM s in
      [MetricCard ''Backup points'' [Txt (int_str (bp_total s))]
         (Some ((if v \<noteq> '''' then [Txt (''VM '' @ v)] else []) @
           (if 0 < incrCount bs then [Txt ('' '' @ mid_dot @ '' '' @ nat_str (incrCount bs) @ '' incremental(is)'')] else [])))
         None None loading ''blue'',
       MetricCard ''Stored'' [Txt (formatBytes (totalSize bs) 1)] (Some [Txt ''images in the backup directory'']) None None loading ''blue''] @
      (if loading then [TableSkeleton 3 6]
       else if v = '''' then [EmptyState ''No VMs'' (Some ''Create a VM to start taking backups.'') []]
       else if bs = [] then
         [EmptyState (''Sem backups de '' @ v)
            (Some (''Use '' @ quoted ''Backup Now'' @ '' or create a schedule '' @ em_dash @ '' the first run always takes a full.'')) []]
       else map (bp_point_row fmtDateTime (bp_busy s)) bs))"

definition bp_schedule_row :: "(string \<Rightarrow> string) \<Rightarrow> string option \<Rightarrow> schedule \<Rightarrow> backups_page_event ui" where
  "bp_schedule_row fmtDateTime busy x = Box (if busy = Some (''del-'' @ s_id x) then ''row-busy'' else ''row'')
     [Txt (s_name x), Txt (s_time x), Txt (js_join '', '' (s_vmIds x)), Txt (point_type_str (s_type x)),
      Txt (if 0 < s_retentionKeepLast x then ''keep '' @ int_str (s_retentionKeepLast x) @ '' chains'' else em_dash),
      Box (''state'' @ (if s_enabled x then '' state-running'' else '''')) [Txt (if s_enabled x then ''enabled'' else ''disabled'')],
      Txt (case s_lastRun x of Some t \<Rightarrow> if t = '''' then em_dash else fmtDateTime t | None \<Rightarrow> em_dash),
      Menu (''Actions for '' @ s_name x)
        [Item ''Edit'' None (Some (BpEdit x)) (busy \<noteq> None) None False,
         Item (if s_enabled x then ''Disable'' else ''Enable'') None (Some (BpToggle x)) (busy \<noteq> None) None False,
         Item ''Delete'' None (Some (BpAskDeleteSchedule x)) (busy \<noteq> None)
           (Some ''Removes the definition only; backup points are kept'') True]]"

definition bp_schedules_view :: "(string \<Rightarrow> string) \<Rightarrow> backups_page \<Rightarrow> backups_page_event ui list" where
  "bp_schedules_view fmtDateTime s =
     (if poll_loading (bp_schedules s) then [TableSkeleton 2 7]
      else if bp_schedule_list s = [] then
        [EmptyState ''Nenhum agendamento'' (Some ''Create a schedule to run daily backups with automatic retention.'') []]
      else map (bp_schedule_row fmtDateTime (bp_busy s)) (bp_schedule_list s))"

definition restore_message :: "backup \<Rightarrow> string" where
  "restore_message b = ''The disks of '' @ b_vmId b @ '' will be overwritten with the contents deste ponto (full ''
     @ (if orelse (b_parentId b) '''' \<noteq> '''' then ''+ incrementais da cadeia'' else '''')
     @ ''). A VM precisa estar stopped. The current disk contents will be lost.''"

definition bp_dialogs :: "backups_page \<Rightarrow> backups_page_event ui list" where
  "bp_dialogs s =
     (case bp_restore s of None \<Rightarrow> [] | Some b \<Rightarrow>
        ConfirmDialog True (''Restore '' @ b_id b @ ''?'') (restore_message b) ''Restore Now'' BpConfirmRestore BpCancelRestore (bp_busy s \<noteq> None)) @
     (case bp_delete s of None \<Rightarrow> [] | Some t \<Rightarrow>
        ConfirmDialog True
          (if td_kind t = DelBackup then ''Delete backup '' @ td_key t @ ''?'' else ''Delete schedule '' @ quoted (td_text t) @ ''?'')
          (if td_kind t = DelBackup
           then ''This point's images are permanently removed from the backup directory. If it is the parent of incrementals, their chain becomes broken.''
           else ''Only the schedule definition is removed; existing backup points are kept.'')
          ''Delete'' BpConfirmDelete BpCancelDelete (bp_busy s \<noteq> None))"

definition bp_view :: "(string \<Rightarrow> string) \<Rightarrow> backups_page \<Rightarrow> backups_page_event ui list" where
  "bp_view fmtDateTime s = bp_head s @ [Tabs BACKUP_TABS (bp_tab s) BpTab] @
     (if bp_tab s = ''points'' then bp_points_view fmtDateTime s else []) @
     (if bp_tab s = ''schedules'' then bp_schedules_view fmtDateTime s else [])"

definition bp_overlay :: "backups_page \<Rightarrow> bool" where
  "bp_overlay s = (sf_open (bp_form s) \<or> bp_restore s \<noteq> None \<or> bp_delete s \<noteq> None)"

definition bp_enabled :: "(string \<Rightarrow> string) \<Rightarrow> backups_page \<Rightarrow> backups_page_event \<Rightarrow> bool" where
  "bp_enabled fmtDateTime s e = (case e of
     BpTickVms \<Rightarrow> True
   | BpTickPoints \<Rightarrow> True
   | BpTickSchedules \<Rightarrow> True
   | BpForm fe \<Rightarrow> (case fe of SfProps b x \<Rightarrow> False | _ \<Rightarrow> sf_offered (bp_form s) fe)
   | BpCancelRestore \<Rightarrow> offers_any (bp_dialogs s) e
   | BpConfirmRestore \<Rightarrow> offers_any (bp_dialogs s) e
   | BpCancelDelete \<Rightarrow> offers_any (bp_dialogs s) e
   | BpConfirmDelete \<Rightarrow> offers_any (bp_dialogs s) e
   | _ \<Rightarrow> \<not> bp_overlay s \<and> offers_any (bp_view fmtDateTime s) e)"

abbreviation bp_reach :: "(string \<Rightarrow> string) \<Rightarrow> (backups_page, backups_page_kont) world \<Rightarrow> bool" where
  "bp_reach fmtDateTime \<equiv> reachable bp_boot (bp_enabled fmtDateTime) bp_handle bp_resume"


subsection \<open>One action at a time\<close>

definition is_backup_action :: "backups_page_kont \<Rightarrow> bool" where
  "is_backup_action k = (case k of BkRun m \<Rightarrow> True | _ \<Rightarrow> False)"

lemma is_backup_action_simps [simp]:
  "is_backup_action (BkRun m)" "\<not> is_backup_action BkVms" "\<not> is_backup_action BkPoints" "\<not> is_backup_action BkSchedules" "\<not> is_backup_action (BkForm k)"
  by (simp_all add: is_backup_action_def)

lemma load_points_keeps [simp]:
  "bp_busy (st (load_points w)) = bp_busy (st w)" "flight is_backup_action (load_points w) = flight is_backup_action w"
  by (simp_all add: load_points_def)

lemma load_schedules_keeps [simp]:
  "st (load_schedules w) = st w" "flight is_backup_action (load_schedules w) = flight is_backup_action w"
  by (simp_all add: load_schedules_def)

lemma bp_change_keeps [simp]:
  "flight is_backup_action (bp_change f w) = flight is_backup_action w" "bp_busy (st (bp_change f w)) = bp_busy (f (st w))"
  by (simp_all add: bp_change_def Let_def)

lemma bp_refreshAll_keeps [simp]:
  "bp_busy (st (bp_refreshAll w)) = bp_busy (st w)" "flight is_backup_action (bp_refreshAll w) = flight is_backup_action w"
  by (simp_all add: bp_refreshAll_def)

lemma bp_form_effect_keeps:
  "bp_busy (st (bp_form_effect x w)) = bp_busy (st w) \<and> flight is_backup_action (bp_form_effect x w) = flight is_backup_action w"
  by (cases x) simp_all

lemma in_form_keeps:
  "bp_busy (st (in_form a w)) = bp_busy (st w) \<and> flight is_backup_action (in_form a w) = flight is_backup_action w"
  unfolding in_form_def by (rule embed_keeps) (simp_all add: bp_form_effect_keeps)

lemmas in_form_keep [simp] = in_form_keeps [THEN conjunct1] in_form_keeps [THEN conjunct2]

lemma bp_run_facts [simp]:
  "bp_busy (st (bp_run key q m w)) = Some key" "flight is_backup_action (bp_run key q m w) = Suc (flight is_backup_action w)"
  by (simp_all add: bp_run_def)

lemmas bp_ops = createBackup_def restore_point_def removeBackup_def removeSchedule_def toggleSchedule_def bp_confirm_delete_def

lemma bp_dialogs_offers:
  "offers_any (bp_dialogs s) e \<longleftrightarrow>
     bp_restore s \<noteq> None \<and> (e = BpCancelRestore \<or> bp_busy s = None \<and> e = BpConfirmRestore)
     \<or> bp_delete s \<noteq> None \<and> (e = BpCancelDelete \<or> bp_busy s = None \<and> e = BpConfirmDelete)"
  by (auto simp: bp_dialogs_def ConfirmDialog_offers split: option.splits)

lemma bp_point_row_offers:
  "offers (bp_point_row fmt busy b) e \<longleftrightarrow> busy = None \<and> (e = BpAskRestore b \<or> e = BpAskDelete b)"
  by (auto simp: bp_point_row_def)

lemma bp_schedule_row_offers:
  "offers (bp_schedule_row fmt busy x) e \<longleftrightarrow> busy = None \<and> (e = BpEdit x \<or> e = BpToggle x \<or> e = BpAskDeleteSchedule x)"
  by (auto simp: bp_schedule_row_def)

lemma bp_head_offers:
  "offers_any (bp_head s) e \<longleftrightarrow>
     (if bp_tab s = ''points''
      then (\<exists>v \<in> set (vmList s). e = BpSelect (v_id v)) \<or> activeVM s \<noteq> '''' \<and> bp_busy s = None \<and> e = BpBackupNow
      else e = BpNewSchedule)"
  by (auto simp: bp_head_def list_ex_iff)

lemma BACKUP_TABS_offers: "offers (Tabs BACKUP_TABS a BpTab) e \<longleftrightarrow> e = BpTab ''points'' \<or> e = BpTab ''schedules''"
  by (auto simp: Tabs_offers BACKUP_TABS_def)

lemma bp_points_view_offers:
  "offers_any (bp_points_view fmt s) e \<longleftrightarrow> \<not> poll_loading (bp_points s) \<and> activeVM s \<noteq> '''' \<and> bp_busy s = None
     \<and> (\<exists>b \<in> set (bp_backups s). e = BpAskRestore b \<or> e = BpAskDelete b)"
  by (auto simp: bp_points_view_def Let_def offers_any_map bp_point_row_offers orelse_def)

lemma bp_schedules_view_offers:
  "offers_any (bp_schedules_view fmt s) e \<longleftrightarrow> \<not> poll_loading (bp_schedules s) \<and> bp_busy s = None
     \<and> (\<exists>x \<in> set (bp_schedule_list s). e = BpEdit x \<or> e = BpToggle x \<or> e = BpAskDeleteSchedule x)"
  by (auto simp: bp_schedules_view_def offers_any_map bp_schedule_row_offers)

lemmas bp_view_offers = bp_view_def bp_head_offers BACKUP_TABS_offers bp_points_view_offers bp_schedules_view_offers

interpretation bp_one: single_flight bp_boot "bp_enabled fmt" bp_handle bp_resume "\<lambda>s. bp_busy s \<noteq> None" is_backup_action
  for fmt
proof unfold_locales
  show "flight is_backup_action bp_boot = 0 \<and> \<not> bp_busy (st bp_boot) \<noteq> None"
    by (simp add: bp_boot_def backups_page_init_def)
next
  fix w :: "(backups_page, backups_page_kont) world" and e
  assume "\<not> bp_busy (st w) \<noteq> None"
  then show "flight is_backup_action (bp_handle e w) = flight is_backup_action w + (if bp_busy (st (bp_handle e w)) \<noteq> None then 1 else 0)"
    by (cases e) (simp_all add: bp_ops Let_def split: option.split del_kind.split)
next
  fix w :: "(backups_page, backups_page_kont) world" and e
  assume "bp_busy (st w) \<noteq> None" "bp_enabled fmt (st w) e"
  then show "bp_busy (st (bp_handle e w)) \<noteq> None \<and> flight is_backup_action (bp_handle e w) = flight is_backup_action w"
    by (cases e) (auto simp: bp_enabled_def bp_dialogs_offers bp_view_offers split: if_splits)
next
  fix w :: "(backups_page, backups_page_kont) world" and k r
  assume "is_backup_action k" "bp_busy (st w) \<noteq> None"
  then show "flight is_backup_action (bp_resume k r w) = flight is_backup_action w + (if bp_busy (st (bp_resume k r w)) \<noteq> None then 1 else 0)"
    by (cases k) (simp_all split: sum.split)
next
  fix w :: "(backups_page, backups_page_kont) world" and k r
  assume "\<not> is_backup_action k"
  then show "(bp_busy (st (bp_resume k r w)) \<noteq> None) = (bp_busy (st w) \<noteq> None) \<and> flight is_backup_action (bp_resume k r w) = flight is_backup_action w"
    by (cases k) simp_all
qed


subsection \<open>Restores and deletions are confirmed\<close>

fun destroys :: "request \<Rightarrow> bool" where
  "destroys (PostRestore i) = True"
| "destroys (DeleteBackup i) = True"
| "destroys (DeleteSchedule i) = True"
| "destroys q = False"

definition dangers :: "(backups_page, backups_page_kont) world \<Rightarrow> nat" where
  "dangers w = count_if (\<lambda>c. list_ex destroys (fst c)) (calls w)"

lemma dangers_act [simp]:
  "dangers (upd f w) = dangers w" "dangers (emit x w) = dangers w"
  "dangers (call qs k w) = dangers w + (if list_ex destroys qs then 1 else 0)"
  by (simp_all add: dangers_def count_if_def)

lemma dangers_loads [simp]:
  "dangers (load_points w) = dangers w" "dangers (load_schedules w) = dangers w"
  "dangers (bp_refreshAll w) = dangers w" "dangers (bp_change f w) = dangers w"
  by (simp_all add: load_points_def load_schedules_def bp_refreshAll_def bp_change_def Let_def)

lemma dangers_run_effects: "dangers (run (map bp_form_effect xs) w) = dangers w"
proof (induction xs arbitrary: w)
  case (Cons x xs)
  have "dangers (bp_form_effect x w) = dangers w" by (cases x) simp_all
  with Cons show ?case by simp
qed simp

lemma dangers_in_form:
  assumes "\<forall>c \<in> set (calls (a (fresh (bp_form (st w))))). \<not> list_ex destroys (fst c)"
  shows "dangers (in_form a w) = dangers w"
  using assms
  by (simp add: in_form_def embed_def Let_def dangers_run_effects)
    (simp add: dangers_def count_if_def filter_empty_conv case_prod_unfold)

lemma sf_request_mild: "\<not> destroys (sf_request s)"
  by (simp add: sf_request_def split: option.split)

lemma sf_handle_mild: "\<forall>c \<in> set (calls (sf_handle e (fresh s))). \<not> list_ex destroys (fst c)"
  by (cases e) (simp_all add: sf_submit_def sf_request_mild)

lemma sf_resume_mild: "calls (sf_resume k r (fresh s)) = []"
  by (cases k) (simp split: sum.split)

lemma bp_mild:
  "e \<noteq> BpConfirmRestore \<Longrightarrow> e \<noteq> BpConfirmDelete \<Longrightarrow> dangers (bp_handle e w) = dangers w"
  by (cases e) (simp_all add: createBackup_def toggleSchedule_def bp_run_def dangers_in_form sf_handle_mild del: sf_handle.simps)

lemma bp_resume_mild: "dangers (bp_resume k r w) = dangers w"
  by (cases k) (simp_all add: dangers_in_form sf_resume_mild split: sum.split del: sf_resume.simps)

lemma bp_enabled_confirm:
  "bp_enabled fmt s BpConfirmRestore \<longleftrightarrow> bp_restore s \<noteq> None \<and> bp_busy s = None"
  "bp_enabled fmt s BpConfirmDelete \<longleftrightarrow> bp_delete s \<noteq> None \<and> bp_busy s = None"
  by (auto simp: bp_enabled_def bp_dialogs_offers)

lemma bp_enabled_points:
  "bp_enabled fmt s (BpAskRestore b) \<longleftrightarrow> \<not> bp_overlay s \<and> bp_tab s = ''points'' \<and> \<not> poll_loading (bp_points s)
     \<and> activeVM s \<noteq> '''' \<and> bp_busy s = None \<and> b \<in> set (bp_backups s)"
  "bp_enabled fmt s BpBackupNow \<longleftrightarrow> \<not> bp_overlay s \<and> bp_tab s = ''points'' \<and> activeVM s \<noteq> '''' \<and> bp_busy s = None"
  "bp_enabled fmt s (BpSelect v) \<longleftrightarrow> \<not> bp_overlay s \<and> bp_tab s = ''points'' \<and> (\<exists>x \<in> set (vmList s). v = v_id x)"
  "bp_enabled fmt s (BpEdit x) \<longleftrightarrow> \<not> bp_overlay s \<and> bp_tab s = ''schedules'' \<and> \<not> poll_loading (bp_schedules s)
     \<and> bp_busy s = None \<and> x \<in> set (bp_schedule_list s)"
  "bp_enabled fmt s (BpForm SfSubmit) \<longleftrightarrow> sf_offered (bp_form s) SfSubmit"
  "bp_enabled fmt s (BpTab t) \<longleftrightarrow> \<not> bp_overlay s \<and> (t = ''points'' \<or> t = ''schedules'')"
  by (auto simp: bp_enabled_def bp_view_offers)

text \<open>What a confirmed deletion sends: nothing when the item is not listed any more.\<close>

definition deletion :: "backups_page \<Rightarrow> to_delete \<Rightarrow> request list list" where
  "deletion s t = (case td_kind t of
     DelBackup \<Rightarrow> if \<exists>b \<in> set (bp_backups s). b_id b = td_key t then [[DeleteBackup (td_key t)]] else []
   | DelSchedule \<Rightarrow> if \<exists>x \<in> set (bp_schedule_list s). s_id x = td_key t then [[DeleteSchedule (td_key t)]] else [])"

lemma find_Some_key: "find (\<lambda>b. f b = k) xs = Some b \<Longrightarrow> f b = k \<and> b \<in> set xs"
  by (induction xs) (auto split: if_splits)

lemma confirm_delete_sends:
  "bp_delete s = Some t \<Longrightarrow> s = st w \<Longrightarrow>
    map fst (calls (bp_confirm_delete w)) = map fst (calls w) @ deletion s t"
  by (auto simp: bp_confirm_delete_def deletion_def Let_def removeBackup_def removeSchedule_def bp_run_def find_None_iff
      split: del_kind.split option.split dest!: find_Some_key)

lemma confirm_delete_closes: "bp_delete (st (bp_confirm_delete w)) = None"
  by (simp add: bp_confirm_delete_def Let_def removeBackup_def removeSchedule_def bp_run_def split: option.split del_kind.split)

text \<open>
  C6. Restoring a point and deleting a point or a schedule happen only by confirming the
  dialog: no other event and no settled request adds such a request. A confirmation is
  possible only while no action runs; it closes the dialog and sends the restore of exactly
  the point the dialog names, or the deletion of exactly the item it names and, when that is
  not listed any more, nothing. Exactly one action is pending while the page is busy, else none.
\<close>

theorem backups_confirmed:
  assumes "bp_reach fmt w"
  shows "flight is_backup_action w = (if bp_busy (st w) \<noteq> None then 1 else 0)
    \<and> (e \<noteq> BpConfirmRestore \<longrightarrow> e \<noteq> BpConfirmDelete \<longrightarrow> dangers (bp_handle e w) = dangers w)
    \<and> dangers (bp_resume k r w) = dangers w
    \<and> (bp_enabled fmt (st w) BpConfirmRestore \<longrightarrow> (\<exists>b. bp_restore (st w) = Some b \<and> bp_busy (st w) = None
         \<and> bp_restore (st (bp_handle BpConfirmRestore w)) = None
         \<and> map fst (calls (bp_handle BpConfirmRestore w)) = map fst (calls w) @ [[PostRestore (b_id b)]]))
    \<and> (bp_enabled fmt (st w) BpConfirmDelete \<longrightarrow> (\<exists>t. bp_delete (st w) = Some t \<and> bp_busy (st w) = None
         \<and> bp_delete (st (bp_handle BpConfirmDelete w)) = None
         \<and> map fst (calls (bp_handle BpConfirmDelete w)) = map fst (calls w) @ deletion (st w) t))"
proof (intro conjI impI)
  show "flight is_backup_action w = (if bp_busy (st w) \<noteq> None then 1 else 0)" by (rule bp_one.flight_iff_busy [OF assms])
  show "dangers (bp_resume k r w) = dangers w" by (rule bp_resume_mild)
  show "dangers (bp_handle e w) = dangers w" if "e \<noteq> BpConfirmRestore" "e \<noteq> BpConfirmDelete" using that by (rule bp_mild)
next
  assume "bp_enabled fmt (st w) BpConfirmRestore"
  then show "\<exists>b. bp_restore (st w) = Some b \<and> bp_busy (st w) = None
         \<and> bp_restore (st (bp_handle BpConfirmRestore w)) = None
         \<and> map fst (calls (bp_handle BpConfirmRestore w)) = map fst (calls w) @ [[PostRestore (b_id b)]]"
    by (auto simp: bp_enabled_confirm restore_point_def bp_run_def)
next
  assume "bp_enabled fmt (st w) BpConfirmDelete"
  then show "\<exists>t. bp_delete (st w) = Some t \<and> bp_busy (st w) = None
         \<and> bp_delete (st (bp_handle BpConfirmDelete w)) = None
         \<and> map fst (calls (bp_handle BpConfirmDelete w)) = map fst (calls w) @ deletion (st w) t"
    by (auto simp: bp_enabled_confirm confirm_delete_sends confirm_delete_closes)
qed

definition point_a :: backup where
  "point_a = \<lparr>b_id = ''p1'', b_vmId = ''a'', b_vmName = ''a'', b_type = Full, b_parentId = None, b_state = Some Complete,
     b_createdAt = ''2026-01-01T00:00:00Z'', b_sizeBytes = 4096, b_disks = [], b_hasDomainXml = Some True\<rparr>"

definition two_vms :: "vm list" where
  "two_vms = [vm0\<lparr>v_id := ''a''\<rparr>, vm0\<lparr>v_id := ''b''\<rparr>]"

lemma backups_sel [simp]: "b_id point_a = ''p1''" "b_vmId point_a = ''a''" "map v_id two_vms = [''a'', ''b'']"
  by (simp_all add: point_a_def two_vms_def)

lemma two_vms_cases [simp]:
  "two_vms \<noteq> []" "(\<exists>x \<in> set two_vms. v = v_id x) = (v = ''a'' \<or> v = ''b'')"
  "(\<exists>x. x \<in> set two_vms \<and> v = v_id x) = (v = ''a'' \<or> v = ''b'')" "v_id (hd two_vms) = ''a''"
  "(case two_vms of v # vs \<Rightarrow> f v | [] \<Rightarrow> z) = f (hd two_vms)"
  by (auto simp: two_vms_def)

text \<open>The page with its machines and the points of the first one.\<close>

definition bp_opening :: "backups_page_event stimulus list" where
  "bp_opening = [Settle 0 (Inr [PVms two_vms 2]), Settle 1 (Inr [PBackups [point_a] 1])]"

lemmas bp_evals = bp_boot_def backups_page_init_def load_points_def load_schedules_def bp_change_def Let_def
  points_interval_def activeVM_def vmList_def reply_ok_def vm_items_of_def backups_of_def bp_backups_def
  bp_overlay_def schedule_form_init_def poll_init_def

theorem backups_confirmed_witness:
  "\<exists>w. play (bp_enabled id) bp_handle bp_resume (bp_opening @ [Ev (BpAskRestore point_a)]) bp_boot = Some w
     \<and> map fst (calls (bp_handle BpConfirmRestore w)) = map fst (calls w) @ [[PostRestore ''p1'']]"
proof -
  obtain w where w: "play (bp_enabled id) bp_handle bp_resume (bp_opening @ [Ev (BpAskRestore point_a)]) bp_boot = Some w"
    and d: "bp_restore (st w) = Some point_a" "bp_busy (st w) = None"
    by (simp add: bp_opening_def bp_enabled_points bp_evals)
  from backups_confirmed [OF play_reachable [OF reachable.boot w]] d show ?thesis
    by (metis w bp_enabled_confirm(1) backups_sel(1) option.inject option.distinct(1))
qed


subsection \<open>Choosing a machine\<close>

text \<open>
  Choosing another machine while one is active asks the server for nothing: the points
  of the machine shown before stay listed, under the name of the new one and with their
  menus, until the next tick of the timer, which asks for the points of the machine chosen.
\<close>

theorem backups_select_stale:
  assumes "activeVM (st w) \<noteq> ''''" "v \<noteq> ''''"
  shows "activeVM (st (bp_handle (BpSelect v) w)) = v
    \<and> calls (bp_handle (BpSelect v) w) = calls w
    \<and> bp_points (st (bp_handle (BpSelect v) w)) = bp_points (st w)
    \<and> calls (bp_handle BpTickPoints (bp_handle (BpSelect v) w)) = calls w @ [([GetBackups v], BkPoints)]"
  using assms by (simp add: bp_change_def Let_def points_interval_def activeVM_def load_points_def)

lemma bp_opening_play:
  "\<exists>w. play (bp_enabled id) bp_handle bp_resume bp_opening bp_boot = Some w \<and> activeVM (st w) = ''a''
     \<and> bp_backups (st w) = [point_a] \<and> bp_enabled id (st w) (BpSelect ''b'') \<and> bp_enabled id (st w) (BpAskRestore point_a)"
  by (simp add: bp_opening_def bp_enabled_points bp_evals)

theorem backups_select_stale_witness:
  "\<exists>w. play (bp_enabled id) bp_handle bp_resume bp_opening bp_boot = Some w
     \<and> activeVM (st (bp_handle (BpSelect ''b'') w)) = ''b''
     \<and> bp_backups (st (bp_handle (BpSelect ''b'') w)) = [point_a] \<and> b_vmId point_a = ''a''"
proof -
  obtain w where w: "play (bp_enabled id) bp_handle bp_resume bp_opening bp_boot = Some w"
    and a: "activeVM (st w) = ''a''" and b: "bp_backups (st w) = [point_a]" using bp_opening_play by blast
  have "activeVM (st w) \<noteq> ''''" "''b'' \<noteq> ''''" by (simp_all add: a)
  from backups_select_stale [OF this] b w show ?thesis by (auto simp: bp_backups_def)
qed

subsection \<open>Editing a schedule\<close>

lemma in_form_props:
  "bp_form (st (in_form (sf_handle (SfProps b x)) w)) = (bp_form (st w))\<lparr>sf_open := b, sf_initial := x\<rparr>"
  by (simp add: in_form_def embed_def Let_def)

definition sched0 :: schedule where
  "sched0 = \<lparr>s_id = ''s1'', s_name = ''nightly'', s_time = ''01:30'', s_vmIds = [''app''], s_type = Point Incremental,
     s_retentionKeepLast = 7, s_enabled = False, s_lastRun = None\<rparr>"

lemma sched0_sel [simp]: "s_id sched0 = ''s1''" "s_name sched0 = ''nightly''" "s_enabled sched0 = False"
  by (simp_all add: sched0_def)

definition edit_script :: "backups_page_event stimulus list" where
  "edit_script = [Settle 1 (Inr [PSchedules [sched0] 1]), Ev (BpTab ''schedules''), Ev (BpEdit sched0), Ev (BpForm SfSubmit)]"

lemma default_form_valid:
  "rx_test TIME_RE ''03:00''" "targets_of ''*'' = [''*'']" "rx_test DIGITS_RE (int_str 0)"
  "number_or_0 (int_str 0) = 0" "int_str 0 \<noteq> ''''"
  by code_simp+

text \<open>
  C30. The form is mounted once, so Edit does not fill it with the schedule: it keeps the
  values it had, and saving sends those values under the schedule's id. On a fresh page they
  are the defaults, so that opening Edit on an incremental, disabled schedule of one machine
  and pressing Save overwrites it with a daily run of every machine at 03:00 that keeps
  everything.
\<close>

theorem edit_schedule_overwrites:
  "sf_request (bp_form (st (bp_handle (BpEdit x) w))) = PutSchedule (s_id x) ((sf_body (bp_form (st w)))\<lparr>sb_name := None\<rparr>)
    \<and> (\<exists>w. play (bp_enabled fmt) bp_handle bp_resume edit_script bp_boot = Some w
        \<and> last (map fst (calls w)) = [PutSchedule ''s1'' \<lparr>sb_name = None, sb_time = Some ''03:00'', sb_vmIds = Some [''*''],
            sb_type = Some Auto, sb_retentionKeepLast = Some 0, sb_enabled = Some True\<rparr>])"
proof
  show "sf_request (bp_form (st (bp_handle (BpEdit x) w))) = PutSchedule (s_id x) ((sf_body (bp_form (st w)))\<lparr>sb_name := None\<rparr>)"
    unfolding bp_handle.simps in_form_props by (simp add: sf_request_def sf_body_def keepLast_num_def)
  show "\<exists>w. play (bp_enabled fmt) bp_handle bp_resume edit_script bp_boot = Some w
        \<and> last (map fst (calls w)) = [PutSchedule ''s1'' \<lparr>sb_name = None, sb_time = Some ''03:00'', sb_vmIds = Some [''*''],
            sb_type = Some Auto, sb_retentionKeepLast = Some 0, sb_enabled = Some True\<rparr>]"
    by (simp add: edit_script_def bp_enabled_points bp_evals schedules_of_def bp_schedule_list_def in_form_def embed_def
        sf_submit_offered sf_valid_def keepErr_def sf_submit_def sf_request_def sf_body_def keepLast_num_def
        default_form_valid)
qed

end
