(* ===== verification/SettingsForms.thy ===== *)
theory SettingsForms
  imports NetworkForms
begin

text \<open>
  The forms of the settings page (\<open>frontend/src/pages/Settings.tsx\<close>): creating a user,
  resetting a user's password and changing one's own. The first two stay mounted while the
  users panel is; each shows nothing while it is closed.
\<close>

definition MIN_PASSWORD :: nat where
  "MIN_PASSWORD = 8"

definition errText :: "js_error \<Rightarrow> string" where
  "errText e = (case e of ApiError c m s \<Rightarrow> m | _ \<Rightarrow> err_string e)"

definition password_label :: "string \<Rightarrow> string" where
  "password_label l = l @ '' (min. '' @ nat_str MIN_PASSWORD @ '' characters)''"

subsection \<open>Creating a user\<close>

record create_user =
  cu_open :: bool
  cu_username :: string
  cu_password :: string
  cu_role :: role
  cu_submitting :: bool
  cu_error :: "string option"

definition create_user_init :: create_user where
  "create_user_init = \<lparr>cu_open = False, cu_username = '''', cu_password = '''', cu_role = Viewer,
     cu_submitting = False, cu_error = None\<rparr>"

datatype create_user_event =
    CuOpen bool
  | CuUsername string
  | CuPassword string
  | CuRole role
  | CuClose
  | CuSubmit

datatype create_user_kont = KCuSubmit

definition cu_valid :: "create_user \<Rightarrow> bool" where
  "cu_valid s = (0 < length (js_trim (cu_username s)) \<and> MIN_PASSWORD \<le> length (cu_password s))"

definition cu_submit :: "(create_user, create_user_kont) action" where
  "cu_submit w = run [upd (\<lambda>s. s\<lparr>cu_submitting := True, cu_error := None\<rparr>),
     call [PostUser (js_trim (cu_username (st w))) (cu_password (st w)) (cu_role (st w))] KCuSubmit] w"

fun cu_handle :: "create_user_event \<Rightarrow> (create_user, create_user_kont) action" where
  "cu_handle (CuOpen b) w = upd (cu_open_update (\<lambda>_. b)) w"
| "cu_handle (CuUsername v) w = upd (cu_username_update (\<lambda>_. v)) w"
| "cu_handle (CuPassword v) w = upd (cu_password_update (\<lambda>_. v)) w"
| "cu_handle (CuRole r) w = upd (cu_role_update (\<lambda>_. r)) w"
| "cu_handle CuClose w = emit OnClose w"
| "cu_handle CuSubmit w = cu_submit w"

fun cu_resume :: "create_user_kont \<Rightarrow> reply \<Rightarrow> (create_user, create_user_kont) action" where
  "cu_resume KCuSubmit r w = (case r of
     Inr ps \<Rightarrow> run [emit OnSaved, emit OnClose, upd (cu_submitting_update (\<lambda>_. False))] w
   | Inl e \<Rightarrow> upd (\<lambda>s. s\<lparr>cu_error := Some (errText e), cu_submitting := False\<rparr>) w)"

definition role_of :: "string \<Rightarrow> role" where
  "role_of v = (if v = ''admin'' then Admin else Viewer)"

definition cu_view :: "create_user \<Rightarrow> create_user_event ui list" where
  "cu_view s = (if \<not> cu_open s then [] else
     [Txt ''Create user'', Btn ''Close'' (cu_submitting s) CuClose] @ alert (cu_error s) @
     [Field ''Username'' (cu_username s) (cu_submitting s) CuUsername,
      Field (password_label ''Password'') (cu_password s) (cu_submitting s) CuPassword,
      Sel ''Role'' (role_str (cu_role s)) (cu_submitting s)
        [(''viewer'', ''Viewer '' @ em_dash @ '' read-only access'', False),
         (''admin'', ''Admin '' @ em_dash @ '' full access incl. user management'', False)]
        (\<lambda>v. CuRole (role_of v)),
      Btn ''Cancel'' (cu_submitting s) CuClose,
      Btn ''Create user'' (\<not> cu_valid s \<or> cu_submitting s) CuSubmit])"

definition cu_enabled :: "create_user \<Rightarrow> create_user_event \<Rightarrow> bool" where
  "cu_enabled s e = (case e of CuOpen b \<Rightarrow> True | _ \<Rightarrow> offers_any (cu_view s) e)"

lemma cu_busy_disables: "cu_submitting s \<Longrightarrow> cu_enabled s e \<Longrightarrow> \<exists>b. e = CuOpen b"
  by (cases e) (auto simp: cu_enabled_def cu_view_def split: if_splits)

lemma cu_submit_enabled: "cu_enabled s CuSubmit \<longleftrightarrow> cu_open s \<and> cu_valid s \<and> \<not> cu_submitting s"
  by (auto simp: cu_enabled_def cu_view_def)

interpretation cu_run: single_flight "fresh create_user_init" cu_enabled cu_handle cu_resume
    cu_submitting "any_kont :: create_user_kont \<Rightarrow> bool"
proof unfold_locales
  show "flight any_kont (fresh create_user_init :: (create_user, create_user_kont) world) = 0
      \<and> \<not> cu_submitting (st (fresh create_user_init :: (create_user, create_user_kont) world))"
    by (simp add: create_user_init_def)
next
  fix w :: "(create_user, create_user_kont) world" and e assume "\<not> cu_submitting (st w)" "cu_enabled (st w) e"
  then show "flight any_kont (cu_handle e w) =
      flight any_kont w + (if cu_submitting (st (cu_handle e w)) then 1 else 0)"
    by (cases e) (simp_all add: cu_submit_def)
next
  fix w :: "(create_user, create_user_kont) world" and e assume "cu_submitting (st w)" "cu_enabled (st w) e"
  then show "cu_submitting (st (cu_handle e w)) \<and> flight any_kont (cu_handle e w) = flight any_kont w"
    using cu_busy_disables by fastforce
next
  fix w :: "(create_user, create_user_kont) world" and k r assume "cu_submitting (st w)"
  then show "flight any_kont (cu_resume k r w) =
      flight any_kont w + (if cu_submitting (st (cu_resume k r w)) then 1 else 0)"
    by (cases k) (simp split: sum.splits)
qed simp

subsection \<open>Resetting a password\<close>

record reset_password =
  rp_user :: "user option"
  rp_password :: string
  rp_submitting :: bool
  rp_error :: "string option"

definition reset_password_init :: reset_password where
  "reset_password_init = \<lparr>rp_user = None, rp_password = '''', rp_submitting = False, rp_error = None\<rparr>"

datatype reset_password_event =
    RpUser "user option"
  | RpPassword string
  | RpClose
  | RpSubmit

datatype reset_password_kont = KRpSubmit

text \<open>The effect that runs when the user changes.\<close>

definition rp_sync :: "user option \<Rightarrow> reset_password \<Rightarrow> reset_password" where
  "rp_sync u s = (if u = rp_user s then s else s\<lparr>rp_user := u, rp_password := '''', rp_error := None\<rparr>)"

definition rp_submit :: "(reset_password, reset_password_kont) action" where
  "rp_submit w = (case rp_user (st w) of
     None \<Rightarrow> w
   | Some u \<Rightarrow> run [upd (\<lambda>s. s\<lparr>rp_submitting := True, rp_error := None\<rparr>),
       call [PutUserPassword (u_id u) (rp_password (st w))] KRpSubmit] w)"

fun rp_handle :: "reset_password_event \<Rightarrow> (reset_password, reset_password_kont) action" where
  "rp_handle (RpUser u) w = upd (rp_sync u) w"
| "rp_handle (RpPassword v) w = upd (rp_password_update (\<lambda>_. v)) w"
| "rp_handle RpClose w = emit OnClose w"
| "rp_handle RpSubmit w = rp_submit w"

fun rp_resume :: "reset_password_kont \<Rightarrow> reply \<Rightarrow> (reset_password, reset_password_kont) action" where
  "rp_resume KRpSubmit r w = (case r of
     Inr ps \<Rightarrow> run [emit OnSaved, emit OnClose, upd (rp_submitting_update (\<lambda>_. False))] w
   | Inl e \<Rightarrow> upd (\<lambda>s. s\<lparr>rp_error := Some (errText e), rp_submitting := False\<rparr>) w)"

definition rp_view :: "reset_password \<Rightarrow> reset_password_event ui list" where
  "rp_view s = (case rp_user s of None \<Rightarrow> [] | Some u \<Rightarrow>
     [Txt (''Reset password '' @ em_dash @ '' '' @ u_username u), Btn ''Close'' (rp_submitting s) RpClose] @ alert (rp_error s) @
     [Field (password_label ''New password'') (rp_password s) (rp_submitting s) RpPassword,
      Txt ''The user's current password stops working immediately after the reset. Active sessions remain valid until their token expires.'',
      Btn ''Cancel'' (rp_submitting s) RpClose,
      Btn ''Reset password'' (length (rp_password s) < MIN_PASSWORD \<or> rp_submitting s) RpSubmit])"

definition rp_enabled :: "reset_password \<Rightarrow> reset_password_event \<Rightarrow> bool" where
  "rp_enabled s e = (case e of RpUser u \<Rightarrow> \<not> rp_submitting s | _ \<Rightarrow> offers_any (rp_view s) e)"

lemma rp_enabled_iff:
  "rp_enabled s RpSubmit \<longleftrightarrow> rp_user s \<noteq> None \<and> MIN_PASSWORD \<le> length (rp_password s) \<and> \<not> rp_submitting s"
  "rp_enabled s (RpPassword v) \<longleftrightarrow> rp_user s \<noteq> None \<and> \<not> rp_submitting s"
  "rp_enabled s RpClose \<longleftrightarrow> rp_user s \<noteq> None \<and> \<not> rp_submitting s"
  by (auto simp: rp_enabled_def rp_view_def split: option.splits)

lemma rp_busy_disables: "rp_submitting s \<Longrightarrow> \<not> rp_enabled s e"
  by (cases e) (auto simp: rp_enabled_def rp_view_def split: option.splits)

interpretation rp_run: single_flight "fresh reset_password_init" rp_enabled rp_handle rp_resume
    rp_submitting "any_kont :: reset_password_kont \<Rightarrow> bool"
proof unfold_locales
  show "flight any_kont (fresh reset_password_init :: (reset_password, reset_password_kont) world) = 0
      \<and> \<not> rp_submitting (st (fresh reset_password_init :: (reset_password, reset_password_kont) world))"
    by (simp add: reset_password_init_def)
next
  fix w :: "(reset_password, reset_password_kont) world" and e assume "\<not> rp_submitting (st w)" "rp_enabled (st w) e"
  then show "flight any_kont (rp_handle e w) =
      flight any_kont w + (if rp_submitting (st (rp_handle e w)) then 1 else 0)"
    by (cases e) (simp_all add: rp_submit_def rp_sync_def split: option.split)
next
  fix w :: "(reset_password, reset_password_kont) world" and e assume "rp_submitting (st w)" "rp_enabled (st w) e"
  then show "rp_submitting (st (rp_handle e w)) \<and> flight any_kont (rp_handle e w) = flight any_kont w"
    using rp_busy_disables by blast
next
  fix w :: "(reset_password, reset_password_kont) world" and k r assume "rp_submitting (st w)"
  then show "flight any_kont (rp_resume k r w) =
      flight any_kont w + (if rp_submitting (st (rp_resume k r w)) then 1 else 0)"
    by (cases k) (simp split: sum.splits)
qed simp

subsection \<open>Changing one's own password\<close>

record account =
  ac_current :: string
  ac_next :: string
  ac_confirm :: string
  ac_submitting :: bool
  ac_error :: "string option"
  ac_done :: bool

definition account_init :: account where
  "account_init = \<lparr>ac_current = '''', ac_next = '''', ac_confirm = '''', ac_submitting = False,
     ac_error = None, ac_done = False\<rparr>"

datatype account_event =
    AcCurrent string
  | AcNext string
  | AcConfirm string
  | AcSubmit

datatype account_kont = KAcSubmit

definition ac_valid :: "account \<Rightarrow> bool" where
  "ac_valid s = (0 < length (ac_current s) \<and> MIN_PASSWORD \<le> length (ac_next s) \<and> ac_next s = ac_confirm s)"

definition ac_submit :: "(account, account_kont) action" where
  "ac_submit w = run [upd (\<lambda>s. s\<lparr>ac_submitting := True, ac_error := None, ac_done := False\<rparr>),
     call [PutOwnPassword (ac_current (st w)) (ac_next (st w))] KAcSubmit] w"

fun ac_handle :: "account_event \<Rightarrow> (account, account_kont) action" where
  "ac_handle (AcCurrent v) w = upd (ac_current_update (\<lambda>_. v)) w"
| "ac_handle (AcNext v) w = upd (ac_next_update (\<lambda>_. v)) w"
| "ac_handle (AcConfirm v) w = upd (ac_confirm_update (\<lambda>_. v)) w"
| "ac_handle AcSubmit w = (if ac_valid (st w) then ac_submit w else w)"

fun ac_resume :: "account_kont \<Rightarrow> reply \<Rightarrow> (account, account_kont) action" where
  "ac_resume KAcSubmit r w = (case r of
     Inr ps \<Rightarrow> upd (\<lambda>s. s\<lparr>ac_done := True, ac_current := '''', ac_next := '''', ac_confirm := '''', ac_submitting := False\<rparr>) w
   | Inl e \<Rightarrow> upd (\<lambda>s. s\<lparr>ac_error := Some (errText e), ac_submitting := False\<rparr>) w)"

definition ac_view :: "user \<Rightarrow> account \<Rightarrow> account_event ui list" where
  "ac_view me s =
     [Txt ''Change my password'', Txt (''Signed in as '' @ u_username me @ '' ('' @ role_str (u_role me) @ '').'')] @
     alert (ac_error s) @ (if ac_done s then [Box ''alert success'' [Txt ''Password updated.'']] else []) @
     [Field ''Current password'' (ac_current s) (ac_submitting s) AcCurrent,
      Field (password_label ''New password'') (ac_next s) (ac_submitting s) AcNext,
      Field ''Confirm new password'' (ac_confirm s) (ac_submitting s) AcConfirm] @
     (if ac_confirm s \<noteq> '''' \<and> ac_next s \<noteq> ac_confirm s then [Txt ''Passwords do not match''] else []) @
     [Btn (if ac_submitting s then ''Saving'' @ ellipsis else ''Change password'') (\<not> ac_valid s \<or> ac_submitting s) AcSubmit]"

definition ac_enabled :: "user \<Rightarrow> account \<Rightarrow> account_event \<Rightarrow> bool" where
  "ac_enabled me s e = offers_any (ac_view me s) e"

lemma ac_busy_disables: "ac_submitting s \<Longrightarrow> \<not> ac_enabled me s e"
  by (auto simp: ac_enabled_def ac_view_def)

lemma ac_submit_enabled: "ac_enabled me s AcSubmit \<longleftrightarrow> ac_valid s \<and> \<not> ac_submitting s"
  by (auto simp: ac_enabled_def ac_view_def)

interpretation ac_run: single_flight "fresh account_init" "ac_enabled me" ac_handle ac_resume
    ac_submitting "any_kont :: account_kont \<Rightarrow> bool"
  for me
proof unfold_locales
  show "flight any_kont (fresh account_init :: (account, account_kont) world) = 0
      \<and> \<not> ac_submitting (st (fresh account_init :: (account, account_kont) world))"
    by (simp add: account_init_def)
next
  fix w :: "(account, account_kont) world" and e assume "\<not> ac_submitting (st w)" "ac_enabled me (st w) e"
  then show "flight any_kont (ac_handle e w) =
      flight any_kont w + (if ac_submitting (st (ac_handle e w)) then 1 else 0)"
    by (cases e) (simp_all add: ac_submit_def)
next
  fix w :: "(account, account_kont) world" and e assume "ac_submitting (st w)" "ac_enabled me (st w) e"
  then show "ac_submitting (st (ac_handle e w)) \<and> flight any_kont (ac_handle e w) = flight any_kont w"
    using ac_busy_disables by blast
next
  fix w :: "(account, account_kont) world" and k r assume "ac_submitting (st w)"
  then show "flight any_kont (ac_resume k r w) =
      flight any_kont w + (if ac_submitting (st (ac_resume k r w)) then 1 else 0)"
    by (cases k) (simp split: sum.splits)
qed simp


subsection \<open>What the form of a new user keeps\<close>

text \<open>
  The form is not emptied when it closes: after a user has been created, or after Cancel, the
  name and the password typed are still there when it is opened again.
\<close>

lemma create_user_keeps:
  "cu_password (st (cu_handle (CuOpen True) (cu_handle (CuOpen False) (cu_resume KCuSubmit (Inr ps) w)))) = cu_password (st w)"
  "cu_username (st (cu_handle (CuOpen True) (cu_handle (CuOpen False) (cu_resume KCuSubmit (Inr ps) w)))) = cu_username (st w)"
  by simp_all

end
