(* ===== verification/SettingsPage.thy ===== *)
theory SettingsPage
  imports SettingsForms
begin

text \<open>
  The settings page (\<open>frontend/src/pages/Settings.tsx\<close>): the users panel, shown to
  administrators only, with its two forms and the dialog that deletes a user, and the panel of
  one's own account. \<open>me\<close> is the signed-in user, without whom the page is not mounted;
  \<open>fmt\<close> renders a date in the browser's locale.
\<close>

subsection \<open>The users panel\<close>

record users_panel =
  up_users :: "user list"
  up_loading :: bool
  up_error :: "string option"
  up_create :: create_user
  up_reset :: reset_password
  up_delete :: "user option"
  up_busy :: bool

datatype users_panel_event =
    UpAdd
  | UpAskReset user
  | UpAskDelete user
  | UpCloseDelete
  | UpConfirmDelete
  | UpCreateEv create_user_event
  | UpResetEv reset_password_event

datatype users_panel_kont =
    UkLoad
  | UkDelete
  | UkReload
  | UkCreate create_user_kont
  | UkReset reset_password_kont

definition users_panel_init :: users_panel where
  "users_panel_init = \<lparr>up_users = [], up_loading = True, up_error = None, up_create = create_user_init,
     up_reset = reset_password_init, up_delete = None, up_busy = False\<rparr>"

definition up_load :: "(users_panel, users_panel_kont) action" where
  "up_load = call [GetUsers] UkLoad"

text \<open>An answer without data makes the reading of its items throw.\<close>

definition up_loaded :: "reply \<Rightarrow> users_panel \<Rightarrow> users_panel" where
  "up_loaded r s = (case r of
     Inr [PUsers us n] \<Rightarrow> s\<lparr>up_users := us, up_error := None, up_loading := False\<rparr>
   | Inr _ \<Rightarrow> s\<lparr>up_error := Some (errText (reading_undefined ''items'')), up_loading := False\<rparr>
   | Inl e \<Rightarrow> s\<lparr>up_error := Some (errText e), up_loading := False\<rparr>)"

fun up_create_effect :: "effect \<Rightarrow> (users_panel, users_panel_kont) action" where
  "up_create_effect OnSaved w = up_load w"
| "up_create_effect OnClose w = upd (\<lambda>s. s\<lparr>up_create := (up_create s)\<lparr>cu_open := False\<rparr>\<rparr>) w"
| "up_create_effect x w = emit x w"

fun up_reset_effect :: "effect \<Rightarrow> (users_panel, users_panel_kont) action" where
  "up_reset_effect OnSaved w = up_load w"
| "up_reset_effect OnClose w = upd (\<lambda>s. s\<lparr>up_reset := rp_sync None (up_reset s)\<rparr>) w"
| "up_reset_effect x w = emit x w"

definition in_create_user :: "(create_user, create_user_kont) action \<Rightarrow> (users_panel, users_panel_kont) action" where
  "in_create_user a = embed up_create (\<lambda>c p. p\<lparr>up_create := c\<rparr>) UkCreate up_create_effect a"

definition in_reset :: "(reset_password, reset_password_kont) action \<Rightarrow> (users_panel, users_panel_kont) action" where
  "in_reset a = embed up_reset (\<lambda>c p. p\<lparr>up_reset := c\<rparr>) UkReset up_reset_effect a"

definition doDelete :: "(users_panel, users_panel_kont) action" where
  "doDelete w = (case up_delete (st w) of
     None \<Rightarrow> w
   | Some u \<Rightarrow> run [upd (up_busy_update (\<lambda>_. True)), call [DeleteUser (u_id u)] UkDelete] w)"

fun up_handle :: "users_panel_event \<Rightarrow> (users_panel, users_panel_kont) action" where
  "up_handle UpAdd w = in_create_user (cu_handle (CuOpen True)) w"
| "up_handle (UpAskReset u) w = in_reset (rp_handle (RpUser (Some u))) w"
| "up_handle (UpAskDelete u) w = upd (up_delete_update (\<lambda>_. Some u)) w"
| "up_handle UpCloseDelete w = upd (up_delete_update (\<lambda>_. None)) w"
| "up_handle UpConfirmDelete w = doDelete w"
| "up_handle (UpCreateEv e) w = in_create_user (cu_handle e) w"
| "up_handle (UpResetEv e) w = in_reset (rp_handle e) w"

fun up_resume :: "users_panel_kont \<Rightarrow> reply \<Rightarrow> (users_panel, users_panel_kont) action" where
  "up_resume UkLoad r w = upd (up_loaded r) w"
| "up_resume UkDelete r w = (case r of
     Inr ps \<Rightarrow> run [upd (up_delete_update (\<lambda>_. None)), call [GetUsers] UkReload] w
   | Inl e \<Rightarrow> upd (\<lambda>s. s\<lparr>up_error := Some (errText e), up_delete := None, up_busy := False\<rparr>) w)"
| "up_resume UkReload r w = upd (\<lambda>s. (up_loaded r s)\<lparr>up_busy := False\<rparr>) w"
| "up_resume (UkCreate k) r w = in_create_user (cu_resume k r) w"
| "up_resume (UkReset k) r w = in_reset (rp_resume k r) w"

definition up_row :: "(string \<Rightarrow> string) \<Rightarrow> user \<Rightarrow> user \<Rightarrow> users_panel_event ui" where
  "up_row fmt me u = Box ''row''
     ([Txt (u_username u)] @ (if u_id u = u_id me then [Txt '' (you)''] else []) @
      [Box (''state'' @ (if u_role u = Admin then '' state-running'' else '''')) [Txt (if u_role u = Admin then ''admin'' else ''viewer'')],
       Txt (fmt (u_createdAt u)), Btn ''Reset password'' False (UpAskReset u),
       Btn ''Remove'' (u_id u = u_id me) (UpAskDelete u)])"

text \<open>\<open>ConfirmDelete\<close>; unlike the shared dialog it has no overlay to press.\<close>

definition ConfirmDelete :: "user option \<Rightarrow> bool \<Rightarrow> users_panel_event ui list" where
  "ConfirmDelete target busy = (case target of None \<Rightarrow> [] | Some u \<Rightarrow>
     [Txt ''Delete user'', Btn ''Close'' busy UpCloseDelete,
      Txt (''Remove user '' @ u_username u @ '' ('' @ role_str (u_role u) @ '')? This cannot be undone.''),
      Btn ''Cancel'' busy UpCloseDelete,
      Btn (if busy then ''Deleting'' @ ellipsis else ''Delete user'') busy UpConfirmDelete])"

definition up_view :: "(string \<Rightarrow> string) \<Rightarrow> user \<Rightarrow> users_panel \<Rightarrow> users_panel_event ui list" where
  "up_view fmt me s = [Txt ''Local users'', Btn ''Add user'' False UpAdd] @ alert (up_error s) @
     (if up_loading s then [EmptyState (''Loading'' @ ellipsis) (Some '''') []]
      else if up_users s = [] then [EmptyState ''No users'' (Some ''Add a local user to grant access to UltraV.'') []]
      else map (up_row fmt me) (up_users s))"

definition up_overlay :: "users_panel \<Rightarrow> bool" where
  "up_overlay s = (cu_open (up_create s) \<or> rp_user (up_reset s) \<noteq> None \<or> up_delete s \<noteq> None)"

definition up_enabled :: "(string \<Rightarrow> string) \<Rightarrow> user \<Rightarrow> users_panel \<Rightarrow> users_panel_event \<Rightarrow> bool" where
  "up_enabled fmt me s e = (case e of
     UpCreateEv ce \<Rightarrow> (case ce of CuOpen b \<Rightarrow> False | _ \<Rightarrow> cu_enabled (up_create s) ce)
   | UpResetEv re \<Rightarrow> (case re of RpUser u \<Rightarrow> False | _ \<Rightarrow> rp_enabled (up_reset s) re)
   | UpCloseDelete \<Rightarrow> offers_any (ConfirmDelete (up_delete s) (up_busy s)) e
   | UpConfirmDelete \<Rightarrow> offers_any (ConfirmDelete (up_delete s) (up_busy s)) e
   | _ \<Rightarrow> \<not> up_overlay s \<and> offers_any (up_view fmt me s) e)"

subsection \<open>The page\<close>

text \<open>
  A panel is mounted when it comes into view and unmounted when it leaves it; \<open>sg_mount\<close>
  numbers the mountings, so that the answers to an unmounted panel's requests go nowhere.
\<close>

record settings_page =
  sg_tab :: string
  sg_mount :: nat
  sg_users :: users_panel
  sg_account :: account

datatype settings_page_event =
    SgTab string
  | SgUsers users_panel_event
  | SgAccount account_event

datatype settings_page_kont =
    SgkUsers nat users_panel_kont
  | SgkAccount nat account_kont

definition settings_page_init :: settings_page where
  "settings_page_init = \<lparr>sg_tab = ''users'', sg_mount = 0, sg_users = users_panel_init, sg_account = account_init\<rparr>"

definition users_shown :: "user \<Rightarrow> settings_page \<Rightarrow> bool" where
  "users_shown me s = (sg_tab s = ''users'' \<and> u_role me = Admin)"

definition in_users :: "nat \<Rightarrow> (users_panel, users_panel_kont) action \<Rightarrow> (settings_page, settings_page_kont) action" where
  "in_users m a = embed (\<lambda>p. if sg_mount p = m then sg_users p else users_panel_init)
     (\<lambda>c p. if sg_mount p = m then p\<lparr>sg_users := c\<rparr> else p) (SgkUsers m) emit a"

definition in_account :: "nat \<Rightarrow> (account, account_kont) action \<Rightarrow> (settings_page, settings_page_kont) action" where
  "in_account m a = embed (\<lambda>p. if sg_mount p = m then sg_account p else account_init)
     (\<lambda>c p. if sg_mount p = m then p\<lparr>sg_account := c\<rparr> else p) (SgkAccount m) emit a"

definition sg_tab_to :: "user \<Rightarrow> string \<Rightarrow> (settings_page, settings_page_kont) action" where
  "sg_tab_to me t w =
     (let w1 = upd (sg_tab_update (\<lambda>_. t)) w in
      if users_shown me (st w1) = users_shown me (st w) then w1
      else (let w2 = upd (\<lambda>s. s\<lparr>sg_mount := Suc (sg_mount s), sg_users := users_panel_init, sg_account := account_init\<rparr>) w1 in
            if users_shown me (st w2) then in_users (sg_mount (st w2)) up_load w2 else w2))"

fun sg_handle :: "user \<Rightarrow> settings_page_event \<Rightarrow> (settings_page, settings_page_kont) action" where
  "sg_handle me (SgTab t) w = sg_tab_to me t w"
| "sg_handle me (SgUsers e) w = in_users (sg_mount (st w)) (up_handle e) w"
| "sg_handle me (SgAccount e) w = in_account (sg_mount (st w)) (ac_handle e) w"

fun sg_resume :: "settings_page_kont \<Rightarrow> reply \<Rightarrow> (settings_page, settings_page_kont) action" where
  "sg_resume (SgkUsers m k) r w = in_users m (up_resume k r) w"
| "sg_resume (SgkAccount m k) r w = in_account m (ac_resume k r) w"

definition sg_boot :: "user \<Rightarrow> (settings_page, settings_page_kont) world" where
  "sg_boot me = (if users_shown me settings_page_init then in_users 0 up_load (fresh settings_page_init)
     else fresh settings_page_init)"

definition sg_view :: "user \<Rightarrow> settings_page \<Rightarrow> settings_page_event ui list" where
  "sg_view me s = [Txt ''Settings'', Txt ''User management and account preferences''] @
     (if u_role me = Admin then [Btn ''Users'' False (SgTab ''users'')] else []) @
     [Btn ''Account'' False (SgTab ''account'')]"

definition sg_enabled :: "(string \<Rightarrow> string) \<Rightarrow> user \<Rightarrow> settings_page \<Rightarrow> settings_page_event \<Rightarrow> bool" where
  "sg_enabled fmt me s e = (case e of
     SgTab t \<Rightarrow> \<not> (users_shown me s \<and> up_overlay (sg_users s)) \<and> offers_any (sg_view me s) e
   | SgUsers ue \<Rightarrow> users_shown me s \<and> up_enabled fmt me (sg_users s) ue
   | SgAccount ae \<Rightarrow> \<not> users_shown me s \<and> ac_enabled me (sg_account s) ae)"

abbreviation sg_reach :: "(string \<Rightarrow> string) \<Rightarrow> user \<Rightarrow> (settings_page, settings_page_kont) world \<Rightarrow> bool" where
  "sg_reach fmt me \<equiv> reachable (sg_boot me) (sg_enabled fmt me) (sg_handle me) sg_resume"

subsection \<open>What the panel may ask for\<close>

fun settings_ok :: "user \<Rightarrow> request \<Rightarrow> bool" where
  "settings_ok me GetUsers = (u_role me = Admin)"
| "settings_ok me (PostUser n p r) = (u_role me = Admin \<and> n \<noteq> '''' \<and> js_trim n = n \<and> MIN_PASSWORD \<le> length p)"
| "settings_ok me (PutUserPassword i p) = (u_role me = Admin \<and> MIN_PASSWORD \<le> length p)"
| "settings_ok me (DeleteUser i) = (u_role me = Admin \<and> i \<noteq> u_id me)"
| "settings_ok me (PutOwnPassword c n) = (c \<noteq> '''' \<and> MIN_PASSWORD \<le> length n)"
| "settings_ok me q = False"

definition calls_ok :: "user \<Rightarrow> ('s, 'k) world \<Rightarrow> bool" where
  "calls_ok me w = list_all (\<lambda>c. list_all (settings_ok me) (fst c)) (calls w)"

lemma calls_ok_act [simp]:
  "calls_ok me (upd f w) = calls_ok me w" "calls_ok me (emit x w) = calls_ok me w"
  "calls_ok me (call qs k w) = (calls_ok me w \<and> list_all (settings_ok me) qs)"
  "calls_ok me (fresh s)"
  by (simp_all add: calls_ok_def)

lemma calls_ok_take: "calls_ok me w \<Longrightarrow> calls_ok me (take_call i w)"
  using set_remove_nth_subset [of i "calls w"] by (auto simp: calls_ok_def list_all_iff)

text \<open>An embedded segment adds the child's requests and those of the parent's callbacks.\<close>

lemma embed_settings_ok:
  assumes "calls_ok me w" "calls_ok me (a (fresh (get (st w))))" "\<And>x w. calls_ok me w \<Longrightarrow> calls_ok me (h x w)"
  shows "calls_ok me (embed get put tag h a w)"
  using assms unfolding calls_ok_def by (intro embed_all_calls) simp_all

lemma up_effect_calls:
  "u_role me = Admin \<Longrightarrow> calls_ok me w \<Longrightarrow> calls_ok me (up_create_effect x w)"
  "u_role me = Admin \<Longrightarrow> calls_ok me w \<Longrightarrow> calls_ok me (up_reset_effect x w)"
  by (cases x; simp add: up_load_def)+

text \<open>The panel never has its own user as the target of a deletion.\<close>

definition up_safe :: "user \<Rightarrow> users_panel \<Rightarrow> bool" where
  "up_safe me s = (\<forall>u. up_delete s = Some u \<longrightarrow> u_id u \<noteq> u_id me)"

lemma up_effect_safe:
  "up_delete (st (up_create_effect x w)) = up_delete (st w)" "up_delete (st (up_reset_effect x w)) = up_delete (st w)"
  by (cases x; simp add: up_load_def)+

lemma run_effects_delete:
  "up_delete (st (run (map up_create_effect xs) w)) = up_delete (st w)"
  "up_delete (st (run (map up_reset_effect xs) w)) = up_delete (st w)"
  by (induction xs arbitrary: w) (simp_all add: up_effect_safe)

lemma in_forms_delete [simp]:
  "up_delete (st (in_create_user a w)) = up_delete (st w)" "up_delete (st (in_reset b w)) = up_delete (st w)"
  by (simp_all add: in_create_user_def in_reset_def embed_def Let_def run_effects_delete)

lemma in_forms_calls:
  "u_role me = Admin \<Longrightarrow> calls_ok me w \<Longrightarrow> calls_ok me (a (fresh (up_create (st w)))) \<Longrightarrow> calls_ok me (in_create_user a w)"
  "u_role me = Admin \<Longrightarrow> calls_ok me w \<Longrightarrow> calls_ok me (b (fresh (up_reset (st w)))) \<Longrightarrow> calls_ok me (in_reset b w)"
  unfolding in_create_user_def in_reset_def by (rule embed_settings_ok; simp add: up_effect_calls)+

lemma cu_handle_calls:
  "u_role me = Admin \<Longrightarrow> (e = CuSubmit \<Longrightarrow> cu_valid s) \<Longrightarrow> calls_ok me (cu_handle e (fresh s))"
  by (cases e) (simp_all add: cu_submit_def cu_valid_def js_trim_idem)

lemma rp_handle_calls:
  "u_role me = Admin \<Longrightarrow> (e = RpSubmit \<Longrightarrow> MIN_PASSWORD \<le> length (rp_password s)) \<Longrightarrow> calls_ok me (rp_handle e (fresh s))"
  by (cases e) (simp_all add: rp_submit_def split: option.split)

lemma forms_resume_calls: "calls_ok me (cu_resume k r (fresh s))" "calls_ok me (rp_resume k' r (fresh s'))"
  by (cases k; cases k'; simp split: sum.split)+

lemma up_enabled_iff:
  "up_enabled fmt me s (UpCreateEv CuSubmit) \<longleftrightarrow> cu_open (up_create s) \<and> cu_valid (up_create s) \<and> \<not> cu_submitting (up_create s)"
  "up_enabled fmt me s (UpResetEv RpSubmit) \<longleftrightarrow> rp_user (up_reset s) \<noteq> None \<and> MIN_PASSWORD \<le> length (rp_password (up_reset s))
     \<and> \<not> rp_submitting (up_reset s)"
  "up_enabled fmt me s UpConfirmDelete \<longleftrightarrow> up_delete s \<noteq> None \<and> \<not> up_busy s"
  "up_enabled fmt me s UpCloseDelete \<longleftrightarrow> up_delete s \<noteq> None \<and> \<not> up_busy s"
  "up_enabled fmt me s (UpAskDelete u) \<longleftrightarrow> \<not> up_overlay s \<and> \<not> up_loading s \<and> u \<in> set (up_users s) \<and> u_id u \<noteq> u_id me"
  "up_enabled fmt me s (UpAskReset u) \<longleftrightarrow> \<not> up_overlay s \<and> \<not> up_loading s \<and> u \<in> set (up_users s)"
  "up_enabled fmt me s UpAdd \<longleftrightarrow> \<not> up_overlay s"
  by (auto simp: up_enabled_def cu_submit_enabled rp_enabled_iff ConfirmDelete_def up_view_def up_row_def offers_any_map
      split: option.splits)

lemma up_handle_safe:
  assumes "u_role me = Admin" "up_safe me (st w)" "calls_ok me w" "up_enabled fmt me (st w) e"
  shows "up_safe me (st (up_handle e w)) \<and> calls_ok me (up_handle e w)"
proof (cases e)
  case (UpCreateEv ce)
  have "ce = CuSubmit \<Longrightarrow> cu_valid (up_create (st w))" using assms(4) UpCreateEv by (simp add: up_enabled_iff)
  then have "calls_ok me (in_create_user (cu_handle ce) w)" using assms by (intro in_forms_calls cu_handle_calls)
  with assms UpCreateEv show ?thesis by (simp add: up_safe_def)
next
  case (UpResetEv re)
  have "re = RpSubmit \<Longrightarrow> MIN_PASSWORD \<le> length (rp_password (up_reset (st w)))" using assms(4) UpResetEv by (simp add: up_enabled_iff)
  then have "calls_ok me (in_reset (rp_handle re) w)" using assms by (intro in_forms_calls rp_handle_calls)
  with assms UpResetEv show ?thesis by (simp add: up_safe_def)
qed (use assms in \<open>auto simp: up_safe_def up_enabled_iff doDelete_def in_forms_calls split: option.split\<close>)

lemma up_loaded_delete [simp]: "up_delete (up_loaded r s) = up_delete s"
  by (auto simp: up_loaded_def split: sum.split list.split payload.split)

lemma up_resume_safe:
  assumes "u_role me = Admin" "up_safe me (st w)" "calls_ok me w"
  shows "up_safe me (st (up_resume k r w)) \<and> calls_ok me (up_resume k r w)"
  using assms by (cases k) (auto simp: up_safe_def in_forms_calls forms_resume_calls split: sum.split)


subsection \<open>The page's requests\<close>

definition sg_inv :: "user \<Rightarrow> (settings_page, settings_page_kont) world \<Rightarrow> bool" where
  "sg_inv me w = (calls_ok me w \<and> up_safe me (sg_users (st w))
     \<and> (\<forall>c \<in> set (calls w). case snd c of SgkUsers m k \<Rightarrow> u_role me = Admin | SgkAccount m k \<Rightarrow> True))"

lemma sg_invD: "sg_inv me w \<Longrightarrow> calls_ok me w" "sg_inv me w \<Longrightarrow> up_safe me (sg_users (st w))"
  by (simp_all add: sg_inv_def)

lemma sg_inv_admin:
  assumes "sg_inv me w" "i < length (calls w)" "snd (calls w ! i) = SgkUsers m k"
  shows "u_role me = Admin"
proof -
  have "calls w ! i \<in> set (calls w)" using assms(2) by simp
  with assms(1,3) show ?thesis unfolding sg_inv_def by fastforce
qed

lemma up_safe_init [simp]: "up_safe me users_panel_init"
  by (simp add: up_safe_def users_panel_init_def)

lemma sg_inv_in_users:
  assumes I: "sg_inv me w" and "u_role me = Admin"
    and a: "\<And>v. up_safe me (st v) \<Longrightarrow> calls_ok me v \<Longrightarrow> st v = (if sg_mount (st w) = m then sg_users (st w) else users_panel_init)
      \<Longrightarrow> up_safe me (st (a v)) \<and> calls_ok me (a v)"
  shows "sg_inv me (in_users m a w)"
proof -
  let ?v = "fresh (if sg_mount (st w) = m then sg_users (st w) else users_panel_init) :: (users_panel, users_panel_kont) world"
  have "up_safe me (st ?v)" using sg_invD(2) [OF I] by simp
  then have v: "up_safe me (st (a ?v))" "calls_ok me (a ?v)" using a [of ?v] by simp_all
  have "calls_ok me (in_users m a w)"
    unfolding in_users_def by (rule embed_settings_ok) (use sg_invD(1) [OF I] v(2) in simp_all)
  then show ?thesis
    using I v(1) assms(2) by (auto simp: sg_inv_def in_users_def embed_def Let_def run_emits)
qed

lemma sg_inv_in_account:
  assumes I: "sg_inv me w" and a: "calls_ok me (a (fresh (if sg_mount (st w) = m then sg_account (st w) else account_init)))"
  shows "sg_inv me (in_account m a w)"
proof -
  have "calls_ok me (in_account m a w)"
    unfolding in_account_def by (rule embed_settings_ok) (use sg_invD(1) [OF I] a in simp_all)
  then show ?thesis
    using I by (auto simp: sg_inv_def in_account_def embed_def Let_def run_emits)
qed

lemma sg_inv_upd: "sg_inv me w \<Longrightarrow> up_safe me (sg_users (f (st w))) \<Longrightarrow> sg_inv me (upd f w)"
  by (simp add: sg_inv_def)

lemma ac_calls: "calls_ok me (ac_handle e (fresh s))" "calls_ok me (ac_resume k r (fresh s))"
proof -
  show "calls_ok me (ac_handle e (fresh s))" by (cases e) (auto simp: ac_submit_def ac_valid_def)
  show "calls_ok me (ac_resume k r (fresh s))" by (cases k) (simp split: sum.split)
qed

lemma sg_inv_load: "sg_inv me w \<Longrightarrow> u_role me = Admin \<Longrightarrow> sg_inv me (in_users m up_load w)"
  by (rule sg_inv_in_users) (simp_all add: up_load_def)

interpretation sg_safe: component "sg_boot me" "sg_enabled fmt me" "sg_handle me" sg_resume "sg_inv me"
  for fmt me
proof unfold_locales
  have b: "sg_inv me (fresh settings_page_init)" by (simp add: sg_inv_def settings_page_init_def)
  then show "sg_inv me (sg_boot me)" by (simp add: sg_boot_def users_shown_def sg_inv_load)
next
  fix w :: "(settings_page, settings_page_kont) world" and e
  assume I: "sg_inv me w" and en: "sg_enabled fmt me (st w) e"
  show "sg_inv me (sg_handle me e w)"
  proof (cases e)
    case (SgTab t)
    have "sg_inv me (upd (sg_tab_update (\<lambda>_. t)) w)" using I by (intro sg_inv_upd) (simp_all add: sg_invD(2))
    then show ?thesis unfolding SgTab sg_handle.simps sg_tab_to_def Let_def
      by (auto intro!: sg_inv_load sg_inv_upd simp: users_shown_def)
  next
    case (SgUsers ue)
    with en have "u_role me = Admin" "up_enabled fmt me (sg_users (st w)) ue" by (simp_all add: sg_enabled_def users_shown_def)
    with I show ?thesis unfolding SgUsers sg_handle.simps
      by (intro sg_inv_in_users) (simp_all add: up_handle_safe)
  next
    case (SgAccount ae)
    with I show ?thesis by (auto intro!: sg_inv_in_account ac_calls)
  qed
next
  fix w :: "(settings_page, settings_page_kont) world" and i r
  assume I: "sg_inv me w" and i: "i < length (calls w)"
  have t: "sg_inv me (take_call i w)"
    using I set_remove_nth_subset [of i "calls w"] by (auto simp: sg_inv_def calls_ok_take)
  show "sg_inv me (sg_resume (snd (calls w ! i)) r (take_call i w))"
  proof (cases "snd (calls w ! i)")
    case (SgkUsers m k)
    with t sg_inv_admin [OF I i] show ?thesis
      by (simp only: sg_resume.simps) (intro sg_inv_in_users, simp_all add: up_resume_safe)
  next
    case (SgkAccount m k)
    with t show ?thesis by (auto intro!: sg_inv_in_account ac_calls)
  qed
qed

text \<open>
  C4. Whatever the user does on the settings page and however the server answers, every
  pending request of the page is one the signed-in user may make from it: for a viewer only
  the change of the own password; for an administrator also the list of users, the creation
  of a user with a trimmed non-empty name, a reset, and a deletion, but never the deletion of
  the administrator's own user. Every password sent to be set has at least eight characters.
\<close>

theorem settings_requests:
  assumes "sg_reach fmt me w" "c \<in> set (calls w)" "q \<in> set (fst c)"
  shows "settings_ok me q \<and> (u_role me \<noteq> Admin \<longrightarrow> (\<exists>cur new. q = PutOwnPassword cur new))
    \<and> q \<noteq> DeleteUser (u_id me)"
proof -
  have "settings_ok me q"
    using sg_invD(1) [OF sg_safe.reach_inv [OF assms(1)]] assms(2,3) by (auto simp: calls_ok_def list_all_iff)
  then show ?thesis by (cases q) auto
qed

definition admin0 :: user where
  "admin0 = \<lparr>u_id = 1, u_username = ''admin'', u_role = Admin, u_createdAt = ''2026-01-01T00:00:00Z''\<rparr>"

definition alice :: user where
  "alice = \<lparr>u_id = 2, u_username = ''alice'', u_role = Viewer, u_createdAt = ''2026-01-01T00:00:00Z''\<rparr>"

lemma admin0_sel [simp]: "u_id admin0 = 1" "u_role admin0 = Admin" "u_id alice = 2"
  by (simp_all add: admin0_def alice_def)

definition ask_script :: "settings_page_event stimulus list" where
  "ask_script = [Settle 0 (Inr [PUsers [admin0, alice] 2]), Ev (SgUsers (UpAskDelete alice))]"

lemma ask_play:
  "\<exists>w. play (sg_enabled id admin0) (sg_handle admin0) sg_resume ask_script (sg_boot admin0) = Some w
     \<and> up_delete (sg_users (st w)) = Some alice \<and> sg_enabled id admin0 (st w) (SgUsers UpConfirmDelete)"
  by (simp add: ask_script_def sg_boot_def settings_page_init_def users_shown_def sg_enabled_def
      up_enabled_iff in_users_def embed_def Let_def up_load_def users_panel_init_def reply_ok_def up_loaded_def up_overlay_def
      create_user_init_def reset_password_init_def)

lemma confirm_calls:
  "up_delete (sg_users (st w)) = Some u \<Longrightarrow>
    calls (sg_handle me (SgUsers UpConfirmDelete) w) = calls w @ [([DeleteUser (u_id u)], SgkUsers (sg_mount (st w)) UkDelete)]"
  by (simp add: in_users_def embed_def Let_def doDelete_def run_emits)

theorem settings_requests_witness:
  "\<exists>w. play (sg_enabled id admin0) (sg_handle admin0) sg_resume ask_script (sg_boot admin0) = Some w
     \<and> settings_ok admin0 (DeleteUser 2)
     \<and> [DeleteUser 2] \<in> set (map fst (calls (sg_handle admin0 (SgUsers UpConfirmDelete) w)))"
proof -
  obtain w where w: "play (sg_enabled id admin0) (sg_handle admin0) sg_resume ask_script (sg_boot admin0) = Some w"
    and d: "up_delete (sg_users (st w)) = Some alice" and e: "sg_enabled id admin0 (st w) (SgUsers UpConfirmDelete)"
    using ask_play by blast
  let ?c = "([DeleteUser (u_id alice)], SgkUsers (sg_mount (st w)) UkDelete)"
  have c: "?c \<in> set (calls (sg_handle admin0 (SgUsers UpConfirmDelete) w))"
    unfolding confirm_calls [OF d] by simp
  from settings_requests [OF reachable.event [OF play_reachable [OF reachable.boot w] e] c, of "DeleteUser 2"] w c
  show ?thesis by force
qed


subsection \<open>What a pending reset is for\<close>

definition up_boot :: "(users_panel, users_panel_kont) world" where
  "up_boot = up_load (fresh users_panel_init)"

abbreviation up_reach :: "(string \<Rightarrow> string) \<Rightarrow> user \<Rightarrow> (users_panel, users_panel_kont) world \<Rightarrow> bool" where
  "up_reach fmt me \<equiv> reachable up_boot (up_enabled fmt me) up_handle up_resume"

definition is_reset :: "users_panel_kont \<Rightarrow> bool" where
  "is_reset k = (case k of UkReset k' \<Rightarrow> True | _ \<Rightarrow> False)"

lemma is_reset_simps [simp]:
  "is_reset (UkReset k)" "\<not> is_reset UkLoad" "\<not> is_reset UkDelete" "\<not> is_reset UkReload" "\<not> is_reset (UkCreate k')"
  by (simp_all add: is_reset_def)

definition resets :: "(users_panel, users_panel_kont) world \<Rightarrow> (request list \<times> users_panel_kont) list" where
  "resets w = filter (\<lambda>c. is_reset (snd c)) (calls w)"

lemma resets_act [simp]:
  "resets (upd f w) = resets w" "resets (emit x w) = resets w"
  "resets (call qs k w) = resets w @ (if is_reset k then [(qs, k)] else [])"
  by (simp_all add: resets_def)

text \<open>The requests a form that shows what it shows has pending.\<close>

definition reset_calls :: "reset_password \<Rightarrow> (request list \<times> users_panel_kont) list" where
  "reset_calls s = (if rp_submitting s
     then (case rp_user s of Some u \<Rightarrow> [([PutUserPassword (u_id u) (rp_password s)], UkReset KRpSubmit)] | None \<Rightarrow> [])
     else [])"

definition rp_consistent :: "reset_password \<Rightarrow> bool" where
  "rp_consistent s = ((rp_submitting s \<longrightarrow> rp_user s \<noteq> None \<and> MIN_PASSWORD \<le> length (rp_password s))
     \<and> (rp_user s = None \<longrightarrow> rp_password s = ''''))"

definition reset_inv :: "(users_panel, users_panel_kont) world \<Rightarrow> bool" where
  "reset_inv w = (resets w = reset_calls (up_reset (st w)) \<and> rp_consistent (up_reset (st w)))"

lemma resets_create_effects:
  "up_reset (st (run (map up_create_effect xs) w)) = up_reset (st w) \<and> resets (run (map up_create_effect xs) w) = resets w"
proof (induction xs arbitrary: w)
  case (Cons x xs)
  have "up_reset (st (up_create_effect x w)) = up_reset (st w) \<and> resets (up_create_effect x w) = resets w"
    by (cases x) (simp_all add: up_load_def)
  with Cons show ?case by simp
qed simp

lemma reset_inv_create: "reset_inv w \<Longrightarrow> reset_inv (in_create_user a w)"
  by (simp add: reset_inv_def in_create_user_def embed_def Let_def resets_create_effects)
    (simp add: resets_def filter_map comp_def case_prod_unfold)

lemmas reset_evals = reset_inv_def reset_calls_def rp_consistent_def in_reset_def embed_def Let_def rp_sync_def up_load_def

lemma resets_world [simp]:
  "resets (w\<lparr>st := s, calls := cs\<rparr>) = filter (\<lambda>c. is_reset (snd c)) cs"
  "resets (w\<lparr>st := s\<rparr>) = resets w"
  by (simp_all add: resets_def)

lemma rp_panel_enabled:
  "up_enabled fmt me s (UpResetEv (RpPassword v)) \<longleftrightarrow> rp_user (up_reset s) \<noteq> None \<and> \<not> rp_submitting (up_reset s)"
  "up_enabled fmt me s (UpResetEv RpClose) \<longleftrightarrow> rp_user (up_reset s) \<noteq> None \<and> \<not> rp_submitting (up_reset s)"
  "\<not> up_enabled fmt me s (UpResetEv (RpUser u))"
  by (simp_all add: up_enabled_def rp_enabled_iff)

lemma filter_resets: "filter (\<lambda>c. is_reset (snd c)) (calls w) = resets w"
  by (simp add: resets_def)

lemma reset_inv_form:
  assumes "reset_inv w" "up_enabled fmt me (st w) (UpResetEv e)"
  shows "reset_inv (in_reset (rp_handle e) w)"
  using assms by (cases e) (auto simp: reset_evals rp_panel_enabled up_enabled_iff rp_submit_def filter_resets split: option.splits)

lemma reset_inv_open:
  assumes "reset_inv w" "rp_user (up_reset (st w)) = None"
  shows "reset_inv (in_reset (rp_handle (RpUser (Some u))) w)"
  using assms by (auto simp: reset_evals filter_resets)

lemma reset_inv_settled:
  assumes "resets w = []" "rp_consistent (up_reset (st w))"
  shows "reset_inv (in_reset (rp_resume k r) w)"
  using assms by (cases k) (auto simp: reset_evals filter_resets split: sum.split)

lemma reset_inv_acts [simp]:
  "(\<And>s. up_reset (f s) = up_reset s) \<Longrightarrow> reset_inv (upd f w) = reset_inv w"
  "\<not> is_reset k \<Longrightarrow> reset_inv (call qs k w) = reset_inv w"
  by (simp_all add: reset_inv_def)

lemma up_loaded_reset [simp]: "up_reset (up_loaded r s) = up_reset s"
  by (auto simp: up_loaded_def split: sum.split list.split payload.split)

interpretation up_resets: component up_boot "up_enabled fmt me" up_handle up_resume reset_inv
  for fmt me
proof unfold_locales
  show "reset_inv up_boot"
    by (simp add: reset_inv_def up_boot_def up_load_def resets_def users_panel_init_def reset_calls_def rp_consistent_def
        reset_password_init_def)
next
  fix w :: "(users_panel, users_panel_kont) world" and e
  assume I: "reset_inv w" and en: "up_enabled fmt me (st w) e"
  show "reset_inv (up_handle e w)"
  proof (cases e)
    case (UpAskReset u)
    then have "rp_user (up_reset (st w)) = None" using en by (simp add: up_enabled_iff up_overlay_def)
    with I UpAskReset show ?thesis by (simp add: reset_inv_open)
  next
    case (UpResetEv re)
    with I en show ?thesis by (simp add: reset_inv_form)
  qed (use I in \<open>simp_all add: reset_inv_create doDelete_def split: option.split\<close>)
next
  fix w :: "(users_panel, users_panel_kont) world" and i r
  assume I: "reset_inv w" and i: "i < length (calls w)"
  show "reset_inv (up_resume (snd (calls w ! i)) r (take_call i w))"
  proof (cases "is_reset (snd (calls w ! i))")
    case True
    then obtain k where k: "snd (calls w ! i) = UkReset k" by (auto simp: is_reset_def split: users_panel_kont.splits)
    have "length (resets w) = Suc (length (resets (take_call i w)))"
      using flight_take_call [OF i, of is_reset] True by (simp add: flight_def resets_def)
    moreover have "length (resets w) \<le> 1" using I by (simp add: reset_inv_def reset_calls_def split: option.split)
    ultimately have "resets (take_call i w) = []" by simp
    with I show ?thesis unfolding k up_resume.simps by (intro reset_inv_settled) (simp_all add: reset_inv_def)
  next
    case False
    have "resets (take_call i w) = resets w" using i False by (simp add: resets_def filter_remove_nth_other)
    then have "reset_inv (take_call i w)" using I by (simp add: reset_inv_def)
    with False show ?thesis
      by (cases "snd (calls w ! i)") (simp_all add: reset_inv_create split: sum.split)
  qed
qed

text \<open>
  While a reset of a password is pending, the form shows the user it is for and the
  password sent, which has at least eight characters, and no other reset is pending. While no
  user is shown the form holds no password, so that one typed for a user is never sent for
  another.
\<close>

theorem reset_password_shown:
  assumes "up_reach fmt me w"
  shows "resets w = reset_calls (up_reset (st w))
    \<and> (rp_submitting (up_reset (st w)) \<longrightarrow> (\<exists>u. rp_user (up_reset (st w)) = Some u
        \<and> resets w = [([PutUserPassword (u_id u) (rp_password (up_reset (st w)))], UkReset KRpSubmit)]
        \<and> MIN_PASSWORD \<le> length (rp_password (up_reset (st w)))))
    \<and> (rp_user (up_reset (st w)) = None \<longrightarrow> rp_password (up_reset (st w)) = '''')"
  using up_resets.reach_inv [OF assms] by (auto simp: reset_inv_def rp_consistent_def reset_calls_def)

definition reset_script :: "users_panel_event stimulus list" where
  "reset_script = [Settle 0 (Inr [PUsers [admin0, alice] 2]), Ev (UpAskReset alice), Ev (UpResetEv (RpPassword ''longenough'')),
     Ev (UpResetEv RpSubmit)]"

lemma reset_play:
  "\<exists>w. play (up_enabled id admin0) up_handle up_resume reset_script up_boot = Some w
     \<and> up_reset (st w) = \<lparr>rp_user = Some alice, rp_password = ''longenough'', rp_submitting = True, rp_error = None\<rparr>"
  by (simp add: reset_script_def up_boot_def up_load_def users_panel_init_def reply_ok_def up_loaded_def up_enabled_iff
      rp_panel_enabled up_overlay_def in_reset_def embed_def Let_def rp_sync_def rp_submit_def create_user_init_def
      reset_password_init_def MIN_PASSWORD_def)

theorem reset_password_shown_witness:
  "\<exists>w. play (up_enabled id admin0) up_handle up_resume reset_script up_boot = Some w
     \<and> resets w = [([PutUserPassword 2 ''longenough''], UkReset KRpSubmit)]"
proof -
  obtain w where w: "play (up_enabled id admin0) up_handle up_resume reset_script up_boot = Some w"
    and r: "up_reset (st w) = \<lparr>rp_user = Some alice, rp_password = ''longenough'', rp_submitting = True, rp_error = None\<rparr>"
    using reset_play by blast
  from reset_password_shown [OF play_reachable [OF reachable.boot w]] w show ?thesis by (auto simp: r)
qed

end
