(* ===== verification/Auth.thy ===== *)
theory Auth
  imports Hooks
begin

text \<open>
  The session: \<open>AuthProvider\<close> (\<open>frontend/src/lib/auth.tsx\<close>), the routes of \<open>main.tsx\<close>, the
  layout guard of \<open>App.tsx\<close> and the login page (\<open>pages/Login.tsx\<close>), as one component: the
  user and the loading flag of the provider, the browser's local storage, the current
  location and the login form. A page's own requests are not part of it; a 401 among their
  answers is the event \<open>GotUnauthorized\<close>.
\<close>

subsection \<open>Local storage as the token's store\<close>

text \<open>
  What the provider relies on: reading back what was stored, an empty store after \<open>null\<close>,
  and the last write winning.
\<close>

locale token_store =
  fixes get :: "'m \<Rightarrow> string option"
    and put :: "string option \<Rightarrow> 'm \<Rightarrow> 'm"
  assumes get_put: "t \<noteq> '''' \<Longrightarrow> get (put (Some t) m) = Some t"
    and get_clear: "get (put None m) = None"
    and put_put: "put x (put y m) = put x m"
begin

lemma clear_last: "get (put None (put x m)) = None"
  by (simp add: get_clear)

lemma relogin: "t \<noteq> '''' \<Longrightarrow> get (put (Some t) (put None m)) = Some t"
  by (simp add: get_put)

end

interpretation ls: token_store getToken setToken
  by unfold_locales (simp_all add: getToken_setToken setToken_setToken)

subsection \<open>Routes\<close>

datatype page =
    PgDashboard | PgVms | PgVmDetails string | PgStorage | PgNetwork | PgBackups | PgTasks | PgSettings

datatype target = ToLogin | ToConsole string | ToShell page | ToFallback

text \<open>The segments of a path; empty ones (a leading or trailing slash) do not count.\<close>

definition segments :: "string \<Rightarrow> string list" where
  "segments path = filter (\<lambda>s. s \<noteq> '''') (js_split (CHR ''/'') path)"

definition route_segments :: "string list \<Rightarrow> target" where
  "route_segments segs = (case segs of
     [] \<Rightarrow> ToShell PgDashboard
   | [a] \<Rightarrow>
       (if a = ''login'' then ToLogin
        else if a = ''vms'' then ToShell PgVms
        else if a = ''storage'' then ToShell PgStorage
        else if a = ''network'' then ToShell PgNetwork
        else if a = ''backups'' then ToShell PgBackups
        else if a = ''tasks'' then ToShell PgTasks
        else if a = ''settings'' then ToShell PgSettings
        else ToFallback)
   | [a, i] \<Rightarrow> (if a = ''vms'' then ToShell (PgVmDetails i) else ToFallback)
   | [a, i, b] \<Rightarrow> (if a = ''vms'' \<and> b = ''console'' then ToConsole i else ToFallback)
   | _ \<Rightarrow> ToFallback)"

definition route :: "string \<Rightarrow> target" where
  "route path = route_segments (segments path)"

subsection \<open>State\<close>

record session =
  se_user :: "user option"
  se_loading :: bool
  se_store :: storage
  se_path :: string
  se_from :: "string option"
  lg_mount :: nat
  lg_username :: string
  lg_password :: string
  lg_show :: bool
  lg_error :: "string option"
  lg_busy :: bool

text \<open>\<open>KMe\<close>: the check of a stored token at start. \<open>KLogin\<close>: a sign-in, with the mounted
  login form it belongs to and the page to return to.\<close>

datatype session_kont = KMe | KLogin nat string

datatype session_event =
    GoTo string
  | GotUnauthorized
  | LogOut
  | TypeUsername string
  | TypePassword string
  | TogglePassword
  | SubmitLogin

subsection \<open>The provider\<close>

definition logout :: "session \<Rightarrow> session" where
  "logout s = s\<lparr>se_store := setToken None (se_store s), se_user := None\<rparr>"

definition login_done :: "login_response \<Rightarrow> session \<Rightarrow> session" where
  "login_done l s = s\<lparr>se_store := setToken (Some (l_token l)) (se_store s), se_user := Some (l_user l)\<rparr>"

subsection \<open>The layout guard\<close>

datatype screen = LoadingCard | LoginScreen | ConsoleScreen string | Shell page | RedirectTo string

definition screen_of :: "session \<Rightarrow> screen" where
  "screen_of s = (case route (se_path s) of
     ToLogin \<Rightarrow> LoginScreen
   | ToConsole i \<Rightarrow> ConsoleScreen i
   | ToFallback \<Rightarrow> RedirectTo ''/''
   | ToShell p \<Rightarrow> if se_loading s then LoadingCard
       else (case se_user s of None \<Rightarrow> RedirectTo ''/login'' | Some u \<Rightarrow> Shell p))"

text \<open>Mounting the login page: its form starts empty.\<close>

definition fresh_login :: "session \<Rightarrow> session" where
  "fresh_login s = s\<lparr>lg_mount := Suc (lg_mount s), lg_username := '''', lg_password := '''',
     lg_show := False, lg_error := None, lg_busy := False\<rparr>"

text \<open>
  \<open>goto path from\<close> changes the location (with the history state a redirect carries) and
  mounts the login page if that is where it leads. \<open>redirects\<close> follows the \<open>Navigate\<close>
  elements the current screen renders.
\<close>

definition goto :: "string \<Rightarrow> string option \<Rightarrow> session \<Rightarrow> session" where
  "goto path from s =
     (let s1 = s\<lparr>se_path := path, se_from := from\<rparr> in
      if route path = ToLogin \<and> route (se_path s) \<noteq> ToLogin then fresh_login s1 else s1)"

definition redirect :: "session \<Rightarrow> session" where
  "redirect s = (case screen_of s of
     RedirectTo t \<Rightarrow> goto t (if t = ''/login'' then Some (se_path s) else None) s
   | _ \<Rightarrow> s)"

definition redirects :: "session \<Rightarrow> session" where
  "redirects s = redirect (redirect s)"

subsection \<open>The login page\<close>

text \<open>The text shown for a failed sign-in.\<close>

definition login_error_text :: "js_error \<Rightarrow> string" where
  "login_error_text e =
     (if js_includes (js_lower (err_message e)) ''credentials''
      then ''Invalid username or password.''
      else ''Unable to sign in. Check that the backend is available.'')"

definition login_view :: "session \<Rightarrow> session_event ui list" where
  "login_view s =
     (case lg_error s of Some m \<Rightarrow> if m = '''' then [] else [Box ''login-error'' [Txt m]] | None \<Rightarrow> []) @
     [Field ''Username'' (lg_username s) (lg_busy s) TypeUsername,
      Field ''Password'' (lg_password s) (lg_busy s) TypePassword,
      Btn (if lg_show s then ''Hide password'' else ''Show password'') False TogglePassword,
      \<comment> \<open>both inputs are \<open>required\<close>: the browser submits the form only when they are filled\<close>
      Btn (if lg_busy s then ''Signing in'' @ ellipsis else ''Sign in'')
        (lg_busy s \<or> lg_username s = '''' \<or> lg_password s = '''') SubmitLogin]"

definition session_enabled :: "session \<Rightarrow> session_event \<Rightarrow> bool" where
  "session_enabled s e = (case e of
     GoTo p \<Rightarrow> True
   | GotUnauthorized \<Rightarrow> True
   | LogOut \<Rightarrow> (case screen_of s of Shell p \<Rightarrow> True | _ \<Rightarrow> False)
   | _ \<Rightarrow> screen_of s = LoginScreen \<and> offers_any (login_view s) e)"

definition from_path :: "session \<Rightarrow> string" where
  "from_path s = orelse (se_from s) ''/''"

fun session_handle :: "session_event \<Rightarrow> (session, session_kont) action" where
  "session_handle (GoTo p) w = upd (\<lambda>s. redirects (goto p None s)) w"
| "session_handle GotUnauthorized w = upd (\<lambda>s. redirects (logout s)) w"
| "session_handle LogOut w = upd (\<lambda>s. redirects (logout s)) w"
| "session_handle (TypeUsername v) w = upd (lg_username_update (\<lambda>_. v)) w"
| "session_handle (TypePassword v) w = upd (lg_password_update (\<lambda>_. v)) w"
| "session_handle TogglePassword w = upd (\<lambda>s. s\<lparr>lg_show := \<not> lg_show s\<rparr>) w"
| "session_handle SubmitLogin w =
     run [upd (\<lambda>s. s\<lparr>lg_error := None, lg_busy := True\<rparr>),
          call [PostLogin (js_trim (lg_username (st w))) (lg_password (st w))]
            (KLogin (lg_mount (st w)) (from_path (st w)))] w"

text \<open>A write to the form by a sign-in started on an earlier mount has no effect.\<close>

definition on_mount :: "nat \<Rightarrow> (session \<Rightarrow> session) \<Rightarrow> session \<Rightarrow> session" where
  "on_mount m f s = (if lg_mount s = m then f s else s)"

text \<open>The response hook runs before the continuation of the same response.\<close>

definition hook :: "reply \<Rightarrow> session \<Rightarrow> session" where
  "hook r s = (case r of Inl (ApiError c m status) \<Rightarrow> if status = 401 then logout s else s | _ \<Rightarrow> s)"

definition me_done :: "reply \<Rightarrow> session \<Rightarrow> session" where
  "me_done r s = (case r of
     Inl e \<Rightarrow> s\<lparr>se_store := setToken None (se_store s), se_loading := False\<rparr>
   | Inr ps \<Rightarrow> s\<lparr>se_user := (case ps of [PUser u] \<Rightarrow> Some u | _ \<Rightarrow> None), se_loading := False\<rparr>)"

definition login_failed :: "nat \<Rightarrow> js_error \<Rightarrow> session \<Rightarrow> session" where
  "login_failed m e = on_mount m (\<lambda>s. s\<lparr>lg_error := Some (login_error_text e), lg_busy := False\<rparr>)"

definition login_settled :: "nat \<Rightarrow> string \<Rightarrow> reply \<Rightarrow> session \<Rightarrow> session" where
  "login_settled m from r s = (case r of
     Inl e \<Rightarrow> login_failed m e s
   | Inr ps \<Rightarrow> (case ps of
       [PLogin l] \<Rightarrow> on_mount m (\<lambda>s. s\<lparr>lg_busy := False\<rparr>) (goto from None (login_done l s))
     | _ \<Rightarrow> login_failed m (reading_undefined ''token'') s))"

fun session_resume :: "session_kont \<Rightarrow> reply \<Rightarrow> (session, session_kont) action" where
  "session_resume KMe r w = upd (\<lambda>s. redirects (me_done r (hook r s))) w"
| "session_resume (KLogin m from) r w = upd (\<lambda>s. redirects (login_settled m from r (hook r s))) w"

text \<open>
  Start-up: with a stored token the provider asks \<open>/auth/me\<close>, without one it is done.
\<close>

definition session_boot :: "storage \<Rightarrow> string \<Rightarrow> (session, session_kont) world" where
  "session_boot ls path =
     (let s0 = \<lparr>se_user = None, se_loading = True, se_store = ls, se_path = path, se_from = None,
               lg_mount = 0, lg_username = '''', lg_password = '''', lg_show = False,
               lg_error = None, lg_busy = False\<rparr>
      in if auth_header ls = None
         then run [upd (se_loading_update (\<lambda>_. False)), upd redirects] (fresh s0)
         else run [call [GetMe] KMe, upd redirects] (fresh s0))"

abbreviation session_reach :: "storage \<Rightarrow> string \<Rightarrow> (session, session_kont) world \<Rightarrow> bool" where
  "session_reach ls path \<equiv> reachable (session_boot ls path) session_enabled session_handle session_resume"

subsection \<open>Frame lemmas\<close>

lemma goto_frame [simp]:
  "se_user (goto p f s) = se_user s" "se_loading (goto p f s) = se_loading s"
  "se_store (goto p f s) = se_store s" "se_path (goto p f s) = p" "se_from (goto p f s) = f"
  by (simp_all add: goto_def fresh_login_def Let_def)

lemma redirect_frame [simp]:
  "se_user (redirect s) = se_user s" "se_loading (redirect s) = se_loading s"
  "se_store (redirect s) = se_store s"
  by (simp_all add: redirect_def split: screen.splits)

lemma redirects_frame [simp]:
  "se_user (redirects s) = se_user s" "se_loading (redirects s) = se_loading s"
  "se_store (redirects s) = se_store s"
  by (simp_all add: redirects_def)

lemma on_mount_frame [simp]:
  "se_user (on_mount m (\<lambda>s. s\<lparr>lg_busy := b\<rparr>) s) = se_user s"
  "se_loading (on_mount m (\<lambda>s. s\<lparr>lg_busy := b\<rparr>) s) = se_loading s"
  "se_store (on_mount m (\<lambda>s. s\<lparr>lg_busy := b\<rparr>) s) = se_store s"
  "se_path (on_mount m (\<lambda>s. s\<lparr>lg_busy := b\<rparr>) s) = se_path s"
  by (simp_all add: on_mount_def)

lemma login_failed_frame [simp]:
  "se_user (login_failed m e s) = se_user s" "se_loading (login_failed m e s) = se_loading s"
  "se_store (login_failed m e s) = se_store s" "se_path (login_failed m e s) = se_path s"
  by (simp_all add: login_failed_def on_mount_def)

lemma hook_frame [simp]: "se_loading (hook r s) = se_loading s" "se_path (hook r s) = se_path s"
  by (simp_all add: hook_def logout_def split: sum.splits js_error.splits)

lemma login_settled_loading [simp]: "se_loading (login_settled m f r s) = se_loading s"
  by (auto simp: login_settled_def login_done_def split: sum.splits list.splits payload.splits)

lemma segments_root [simp]: "segments ''/'' = []" and segments_login [simp]: "segments ''/login'' = [''login'']"
  by (simp_all add: segments_def)

lemma route_root [simp]: "route ''/'' = ToShell PgDashboard" and route_login [simp]: "route ''/login'' = ToLogin"
  by (simp_all add: route_def route_segments_def)

subsection \<open>Redirects come to rest\<close>

lemma redirect_rest: "(\<forall>t. screen_of s \<noteq> RedirectTo t) \<Longrightarrow> redirect s = s"
  by (auto simp: redirect_def split: screen.splits)

lemma redirect_login_rest:
  "screen_of s = RedirectTo ''/login'' \<Longrightarrow> screen_of (redirect s) = LoginScreen"
  by (simp add: redirect_def screen_of_def)

lemma screen_redirect_cases:
  "screen_of s = RedirectTo t \<Longrightarrow> t = ''/'' \<and> route (se_path s) = ToFallback
     \<or> t = ''/login'' \<and> \<not> se_loading s \<and> se_user s = None"
  by (auto simp: screen_of_def split: target.splits if_splits option.splits)

lemma redirects_rest: "screen_of (redirects s) \<noteq> RedirectTo t"
proof (cases "\<exists>u. screen_of s = RedirectTo u")
  case False
  then have "redirects s = s" by (simp add: redirects_def redirect_rest)
  with False show ?thesis by simp
next
  case True
  then obtain u where u: "screen_of s = RedirectTo u" by blast
  show ?thesis
  proof (cases "u = ''/login''")
    case True
    with u have l: "screen_of (redirect s) = LoginScreen" by (simp add: redirect_login_rest)
    then have "redirect (redirect s) = redirect s" by (intro redirect_rest) simp
    with l show ?thesis by (simp add: redirects_def)
  next
    case False
    with u screen_redirect_cases [OF u] have p: "se_path (redirect s) = ''/''"
      by (auto simp: redirect_def)
    show ?thesis
    proof (cases "screen_of (redirect s) = RedirectTo ''/login''")
      case True
      then have "screen_of (redirect (redirect s)) = LoginScreen" by (rule redirect_login_rest)
      then show ?thesis by (simp add: redirects_def)
    next
      case False
      with p have n: "\<forall>t. screen_of (redirect s) \<noteq> RedirectTo t"
        by (auto simp: screen_of_def split: if_splits option.splits)
      with redirect_rest [OF n] show ?thesis by (simp add: redirects_def)
    qed
  qed
qed

text \<open>
  The redirects of the router and of the layout guard cannot loop: from any state, however
  many \<open>Navigate\<close> elements are followed, from the second on the state no longer changes, and
  the screen reached is not a redirect. A path that matches no route needs both, the one to
  the start page and the one to the sign-in page.
\<close>

theorem redirects_terminate:
  "(redirect ^^ (n + 2)) s = redirects s \<and> screen_of ((redirect ^^ (n + 2)) s) \<noteq> RedirectTo t
    \<and> (se_path s = ''/nowhere'' \<and> se_user s = None \<and> \<not> se_loading s \<longrightarrow>
        screen_of (redirect s) = RedirectTo ''/login'' \<and> screen_of (redirects s) = LoginScreen)"
proof -
  have two: "(redirect ^^ 2) s = redirects s" by (simp add: numeral_2_eq_2 redirects_def)
  have stay: "(redirect ^^ n) (redirects s) = redirects s"
    by (induction n) (simp_all add: redirect_rest redirects_rest)
  have "(redirect ^^ (n + 2)) s = (redirect ^^ n) ((redirect ^^ 2) s)" unfolding funpow_add by simp
  then have all: "(redirect ^^ (n + 2)) s = redirects s" unfolding two stay .
  have r: "route ''/nowhere'' = ToFallback" "route ''/'' = ToShell PgDashboard" "route ''/login'' = ToLogin" by code_simp+
  have "screen_of (redirect s) = RedirectTo ''/login'' \<and> screen_of (redirects s) = LoginScreen"
    if "se_path s = ''/nowhere''" "se_user s = None" "\<not> se_loading s"
  proof -
    have a: "screen_of (redirect s) = RedirectTo ''/login''"
      using that r by (simp add: redirect_def screen_of_def)
    with redirect_login_rest [OF a] show ?thesis by (simp add: redirects_def)
  qed
  with all redirects_rest show ?thesis by simp
qed

definition lost_session :: session where
  "lost_session = \<lparr>se_user = None, se_loading = False, se_store = Map.empty, se_path = ''/nowhere'', se_from = None,
     lg_mount = 0, lg_username = '''', lg_password = '''', lg_show = False, lg_error = None, lg_busy = False\<rparr>"

theorem redirects_terminate_witness:
  "screen_of (redirect lost_session) = RedirectTo ''/login'' \<and> screen_of (redirects lost_session) = LoginScreen"
  using redirects_terminate [of 0 lost_session "''''"] by (simp add: lost_session_def)

subsection \<open>The loading flag and the check of the stored token\<close>

definition loading_inv :: "(session, session_kont) world \<Rightarrow> bool" where
  "loading_inv w \<longleftrightarrow>
     flight (\<lambda>k. k = KMe) w = (if se_loading (st w) then 1 else 0) \<and> (\<forall>t. screen_of (st w) \<noteq> RedirectTo t)"

lemma login_page_event:
  "session_enabled s e \<Longrightarrow> e \<in> {TypeUsername v, TypePassword v, TogglePassword, SubmitLogin} \<Longrightarrow> screen_of s = LoginScreen"
  by (auto simp: session_enabled_def)

lemma screen_of_cong:
  "se_path s' = se_path s \<Longrightarrow> se_loading s' = se_loading s \<Longrightarrow> se_user s' = se_user s \<Longrightarrow> screen_of s' = screen_of s"
  unfolding screen_of_def by (simp split: target.splits)

lemma screen_of_form [simp]:
  "screen_of (s\<lparr>lg_username := v\<rparr>) = screen_of s" "screen_of (s\<lparr>lg_password := v\<rparr>) = screen_of s"
  "screen_of (s\<lparr>lg_show := b\<rparr>) = screen_of s" "screen_of (s\<lparr>lg_error := x, lg_busy := b\<rparr>) = screen_of s"
  by (rule screen_of_cong; simp)+

lemma loading_inv_boot: "loading_inv (session_boot ls path)"
  by (simp add: loading_inv_def session_boot_def Let_def redirects_rest)

lemma loading_inv_event:
  assumes I: "loading_inv w" and en: "session_enabled (st w) e"
  shows "loading_inv (session_handle e w)"
proof (cases e)
  case (GoTo p)
  with I show ?thesis by (simp add: loading_inv_def redirects_rest)
next
  case GotUnauthorized
  with I show ?thesis by (simp add: loading_inv_def redirects_rest logout_def)
next
  case LogOut
  with I show ?thesis by (simp add: loading_inv_def redirects_rest logout_def)
qed (use I in \<open>simp_all add: loading_inv_def\<close>)

lemma loading_inv_reply:
  assumes I: "loading_inv w" and i: "i < length (calls w)"
  shows "loading_inv (session_resume (snd (calls w ! i)) r (take_call i w))"
proof (cases "snd (calls w ! i)")
  case KMe
  have "se_loading (me_done r s) = False" for s
    by (simp add: me_done_def split: sum.splits)
  with KMe I flight_take_call [OF i, of "\<lambda>k. k = KMe"] show ?thesis
    by (simp add: loading_inv_def redirects_rest split: if_splits)
next
  case (KLogin m f)
  with I flight_take_call [OF i, of "\<lambda>k. k = KMe"] show ?thesis
    by (simp add: loading_inv_def redirects_rest)
qed

interpretation session_run: component "session_boot ls path" session_enabled session_handle session_resume loading_inv
  for ls path
  by unfold_locales (rule loading_inv_boot, erule loading_inv_event, assumption, erule loading_inv_reply, assumption)

text \<open>
  C1. In every reachable state the pages behind the guard are shown only to a signed-in
  user, no redirect is left to follow, and the loading card is shown only while the one
  check of the stored token is pending.
\<close>

theorem shell_needs_user:
  assumes "session_reach ls path w"
  shows "(screen_of (st w) = Shell p \<longrightarrow> se_user (st w) \<noteq> None)
    \<and> (\<forall>t. screen_of (st w) \<noteq> RedirectTo t)
    \<and> (screen_of (st w) = LoadingCard \<longrightarrow> flight (\<lambda>k. k = KMe) w = 1)"
proof -
  have "loading_inv w" using assms by (rule session_run.reach_inv)
  then show ?thesis
    by (auto simp: loading_inv_def screen_of_def split: target.splits if_splits option.splits)
qed

theorem shell_needs_user_witness:
  "\<forall>t. screen_of (st (session_boot Map.empty ''/tasks'')) \<noteq> RedirectTo t"
  using shell_needs_user [OF reachable.boot, of Map.empty "''/tasks''" PgTasks] by blast

subsection \<open>Signing in and out\<close>

lemma route_shell_rest:
  "route (se_path s) = ToShell p \<Longrightarrow> se_user s = Some u \<Longrightarrow> redirects s = s"
  by (simp add: redirects_def redirect_rest screen_of_def)

text \<open>
  A visit to a guarded page without a session leads to the login page and back: the guard
  redirects to \<open>/login\<close> remembering the path, and a sign-in from there that succeeds stores
  the token, sends it with later requests, sets the user and shows the page first asked for.
\<close>

theorem login_returns_to_page:
  assumes guarded: "route path = ToShell p"
    and out: "\<not> se_loading s" "se_user s = None" "route (se_path s) \<noteq> ToLogin"
    and token: "l_token l \<noteq> ''''"
  shows "let s1 = redirects (goto path None s);
             s2 = redirects (login_settled (lg_mount s1) (from_path s1) (Inr [PLogin l]) s1)
    in screen_of s1 = LoginScreen \<and> lg_username s1 = '''' \<and> from_path s1 = path
      \<and> screen_of s2 = Shell p \<and> se_path s2 = path \<and> se_user s2 = Some (l_user l)
      \<and> getToken (se_store s2) = Some (l_token l)
      \<and> auth_header (se_store s2) = Some (''Bearer '' @ l_token l)"
proof -
  define s1 where "s1 = redirects (goto path None s)"
  have guard: "screen_of (goto path None s) = RedirectTo ''/login''"
    using guarded out by (simp add: screen_of_def)
  then have "screen_of (redirect (goto path None s)) = LoginScreen" by (rule redirect_login_rest)
  then have s1: "s1 = redirect (goto path None s)" "screen_of s1 = LoginScreen"
    by (simp_all add: s1_def redirects_def redirect_rest)
  have r: "redirect (goto path None s) = goto ''/login'' (Some path) (goto path None s)"
    using guard by (simp add: redirect_def)
  have "lg_username s1 = ''''"
    using s1 r guarded by (simp add: goto_def [of "''/login''"] fresh_login_def)
  moreover have "from_path s1 = path" using s1 r by (simp add: from_path_def)
  moreover define s2 where "s2 = login_settled (lg_mount s1) path (Inr [PLogin l]) s1"
  have u2: "se_user s2 = Some (l_user l)" "se_path s2 = path"
    "se_store s2 = setToken (Some (l_token l)) (se_store s1)"
    by (simp_all add: s2_def login_settled_def login_done_def)
  moreover have "redirects s2 = s2" using guarded u2 by (intro route_shell_rest) simp_all
  moreover have "\<not> se_loading s2"
    using out s1 r by (simp add: s2_def)
  moreover have "getToken (se_store s2) = Some (l_token l)"
    using u2 token ls.get_put by simp
  ultimately show ?thesis
    using s1(2) guarded token
    by (simp add: Let_def s1_def [symmetric] s2_def [symmetric] screen_of_def auth_header_def)
qed

definition demo_login :: login_response where
  "demo_login = \<lparr>l_token = ''jwt'', l_tokenType = ''Bearer'', l_expiresInSeconds = 3600,
     l_user = \<lparr>u_id = 1, u_username = ''admin'', u_role = Admin, u_createdAt = ''2025''\<rparr>\<rparr>"

theorem login_returns_to_page_witness:
  "let s = st (session_boot Map.empty ''/vms/erp01/console'');
       s1 = redirects (goto ''/tasks'' None s);
       s2 = redirects (login_settled (lg_mount s1) (from_path s1) (Inr [PLogin demo_login]) s1)
   in screen_of s2 = Shell PgTasks"
proof -
  let ?s = "st (session_boot Map.empty ''/vms/erp01/console'')"
  have r: "route ''/tasks'' = ToShell PgTasks" "route ''/vms/erp01/console'' = ToConsole ''erp01''"
    by (simp_all add: route_def route_segments_def segments_def)
  have s: "\<not> se_loading ?s" "se_user ?s = None" "route (se_path ?s) \<noteq> ToLogin"
    using r by (simp_all add: session_boot_def auth_header_def getToken_def redirects_def redirect_def
        screen_of_def Let_def)
  have "l_token demo_login \<noteq> ''''" by (simp add: demo_login_def)
  from login_returns_to_page [OF r(1) s this] show ?thesis unfolding Let_def by blast
qed

text \<open>
  Any way out clears the session: a log-out, an unauthorized answer to any request of a
  page, and a 401 answer to the token check or to a sign-in leave no user and no token, and
  no later request carries an \<open>Authorization\<close> header.
\<close>

theorem unauthorized_clears_session:
  assumes "e = LogOut \<or> e = GotUnauthorized"
  shows "(let s = st (session_handle e w) in
      se_user s = None \<and> getToken (se_store s) = None \<and> auth_header (se_store s) = None)
    \<and> (let s = st (session_resume k (Inl (ApiError c m 401)) w) in
      se_user s = None \<and> getToken (se_store s) = None \<and> auth_header (se_store s) = None)"
proof -
  have "auth_header (setToken None m) = None" for m
    by (simp add: auth_header_def ls.get_clear)
  then show ?thesis
    using assms ls.get_clear
    by (cases k) (auto simp: Let_def logout_def hook_def me_done_def login_settled_def setToken_setToken)
qed

theorem unauthorized_clears_session_witness:
  "se_user (st (session_handle GotUnauthorized (session_boot Map.empty ''/''))) = None"
  using unauthorized_clears_session [of GotUnauthorized "session_boot Map.empty ''/''" KMe] by (simp add: Let_def)

subsection \<open>A sign-in during the check of the stored token\<close>

text \<open>
  The login page is reachable while the token check is pending. If the check fails after
  a sign-in has succeeded, its \<open>catch\<close> removes the token of the new session but leaves the
  user set: the pages are shown and their requests are sent without authorization.
\<close>

definition race_script :: "session_event stimulus list" where
  "race_script =
    [Ev (TypeUsername ''admin''), Ev (TypePassword ''secret''), Ev SubmitLogin,
     Settle 1 (Inr [PLogin demo_login]),
     Settle 0 (Inl (OtherError ''TypeError'' ''Failed to fetch''))]"

definition stale_store :: storage where
  "stale_store = [TOKEN_KEY \<mapsto> ''stale'']"

definition race_world :: "(session, session_kont) world option" where
  "race_world = play session_enabled session_handle session_resume race_script (session_boot stale_store ''/login'')"

definition race_state :: session where
  "race_state = \<lparr>se_user = None, se_loading = True, se_store = stale_store, se_path = ''/login'', se_from = None,
     lg_mount = 0, lg_username = [], lg_password = [], lg_show = False, lg_error = None, lg_busy = False\<rparr>"

lemma race_boot: "session_boot stale_store ''/login'' = call [GetMe] KMe (fresh race_state)"
proof -
  have "auth_header stale_store \<noteq> None"
    by (simp add: auth_header_def stale_store_def getToken_def TOKEN_KEY_def)
  moreover have "redirects race_state = race_state"
    by (simp add: redirects_def redirect_rest screen_of_def race_state_def)
  ultimately show ?thesis
    by (simp add: session_boot_def race_state_def [symmetric] upd_def call_def fresh_def)
qed

lemma login_form_enabled:
  assumes "route (se_path s) = ToLogin" "\<not> lg_busy s"
  shows "session_enabled s (TypeUsername v)" "session_enabled s (TypePassword v)"
    "lg_username s \<noteq> [] \<Longrightarrow> lg_password s \<noteq> [] \<Longrightarrow> session_enabled s SubmitLogin"
  using assms by (auto simp: session_enabled_def login_view_def screen_of_def)

lemma goto_login_done:
  "route p = ToShell pg \<Longrightarrow> goto p None (login_done l s) = (login_done l s)\<lparr>se_path := p, se_from := None\<rparr>"
  by (simp add: goto_def)

lemma race_world_state:
  "\<exists>w. race_world = Some w \<and> se_user (st w) = Some (l_user demo_login) \<and> screen_of (st w) = Shell PgDashboard
     \<and> getToken (se_store (st w)) = None"
proof -
  let ?s3 = "race_state\<lparr>lg_username := ''admin'', lg_password := ''secret'', lg_error := None, lg_busy := True\<rparr>"
  let ?w3 = "\<lparr>st = ?s3, effs = [], calls = [([GetMe], KMe), ([PostLogin ''admin'' ''secret''], KLogin 0 ''/'')]\<rparr>"
  have trim: "js_trim ''admin'' = ''admin''" by code_simp
  have path: "route (se_path race_state) = ToLogin" "\<not> lg_busy race_state" by (simp_all add: race_state_def)
  have three: "play session_enabled session_handle session_resume race_script (session_boot stale_store ''/login'') =
      play session_enabled session_handle session_resume (drop 3 race_script) ?w3"
    using path by (simp add: race_script_def race_boot login_form_enabled trim upd_def call_def fresh_def
        from_path_def) (simp add: race_state_def)
  let ?s4 = "(login_done demo_login ?s3)\<lparr>se_path := ''/'', se_from := None, lg_busy := False\<rparr>"
  have settled: "login_settled 0 ''/'' (Inr [PLogin demo_login]) ?s3 = ?s4"
    by (simp add: login_settled_def goto_def on_mount_def login_done_def race_state_def)
  have rest4: "redirects ?s4 = ?s4"
    by (rule route_shell_rest [of _ PgDashboard "l_user demo_login"]) (simp_all add: login_done_def)
  let ?e = "Inl (OtherError ''TypeError'' ''Failed to fetch'')"
  let ?s5 = "?s4\<lparr>se_store := setToken None (se_store ?s4), se_loading := False\<rparr>"
  have rest5: "redirects ?s5 = ?s5"
    by (rule route_shell_rest [of _ PgDashboard "l_user demo_login"]) (simp_all add: login_done_def)
  have "race_world = Some \<lparr>st = ?s5, effs = [], calls = []\<rparr>"
    unfolding race_world_def three using rest5
    by (simp add: race_script_def reply_ok_def take_call_def upd_def settled rest4 hook_def me_done_def)
  moreover have "screen_of ?s5 = Shell PgDashboard"
    by (simp add: screen_of_def login_done_def)
  ultimately show ?thesis
    by (intro exI [of _ "\<lparr>st = ?s5, effs = [], calls = []\<rparr>"]) (simp add: login_done_def ls.get_clear)
qed

text \<open>
  The signed-in user and the stored token can part: some reachable state shows a page
  of the shell to a signed-in user while no token is stored.
\<close>

theorem session_without_token:
  "\<exists>w u. session_reach stale_store ''/login'' w \<and> screen_of (st w) = Shell PgDashboard
     \<and> se_user (st w) = Some u \<and> auth_header (se_store (st w)) = None"
proof -
  obtain w where w: "race_world = Some w" "se_user (st w) = Some (l_user demo_login)"
    "screen_of (st w) = Shell PgDashboard" "getToken (se_store (st w)) = None"
    using race_world_state by blast
  have "session_reach stale_store ''/login'' w"
    using w(1) unfolding race_world_def by (rule play_reachable [OF reachable.boot])
  with w show ?thesis by (auto simp: auth_header_def)
qed

subsection \<open>The text of a failed sign-in\<close>

text \<open>
  What the server answers to a wrong password
  (\<open>backend/internal/api/auth_handlers.go\<close>): the word the page looks for is in the code of
  the error only.
\<close>

definition invalid_credentials :: js_error where
  "invalid_credentials = ApiError ''INVALID_CREDENTIALS'' ''Invalid username or password'' 401"

text \<open>
  The server's answer to a wrong password is shown as a backend that cannot be reached:
  the page matches the message of the error, and the message does not hold the word.
\<close>

theorem wrong_password_text:
  "login_error_text invalid_credentials = ''Unable to sign in. Check that the backend is available.''
   \<and> (\<forall>c m s. js_includes (js_lower m) ''credentials'' \<longrightarrow>
        login_error_text (ApiError c m s) = ''Invalid username or password.'')"
proof
  show "login_error_text invalid_credentials = ''Unable to sign in. Check that the backend is available.''"
    by code_simp
qed (simp add: login_error_text_def)

theorem wrong_password_text_witness:
  "login_error_text (ApiError ''X'' ''Bad Credentials'' 401) = ''Invalid username or password.''"
proof -
  have "js_includes (js_lower ''Bad Credentials'') ''credentials''"
    by code_simp
  then show ?thesis using wrong_password_text by blast
qed

end
