(* ===== verification/Shell.thy ===== *)
theory Shell
  imports Auth VmsPage
begin

text \<open>
  The frame around the pages (\<open>frontend/src/components/AppShell.tsx\<close>): navigation, host card,
  user menu and search; the dashboard (\<open>pages/Dashboard.tsx\<close>), which loads the same data;
  and the page of a planned feature (\<open>pages/ComingSoon.tsx\<close>).
\<close>

subsection \<open>Loading the host and the machines\<close>

text \<open>
  Both loaders ask for the host first and for the machines once the host has answered; the
  component's state is the polling.
\<close>

datatype host_kont = HkHost | HkVms "host option"

datatype host_event = HvTick

definition host_of :: "payload list \<Rightarrow> host option" where
  "host_of ps = (case ps of [PHost h] \<Rightarrow> Some h | _ \<Rightarrow> None)"

definition vms_total_of :: "payload list \<Rightarrow> (vm list \<times> int) option" where
  "vms_total_of ps = (case ps of [PVms vs n] \<Rightarrow> Some (vs, n) | _ \<Rightarrow> None)"

fun hv_handle :: "host_event \<Rightarrow> (vms_data polling, host_kont) action" where
  "hv_handle HvTick w = call [GetHost] HkHost w"

fun hv_resume :: "host_kont \<Rightarrow> reply \<Rightarrow> (vms_data polling, host_kont) action" where
  "hv_resume HkHost r w = (case r of
     Inl e \<Rightarrow> upd (poll_done (Inl e)) w
   | Inr ps \<Rightarrow> call [GetVms] (HkVms (host_of ps)) w)"
| "hv_resume (HkVms h) r w = upd (poll_done (case r of
     Inl e \<Rightarrow> Inl e
   | Inr ps \<Rightarrow> Inr (Some \<lparr>vd_vms = vms_total_of ps, vd_host = h\<rparr>))) w"

definition hv_boot :: "(vms_data polling, host_kont) world" where
  "hv_boot = call [GetHost] HkHost (fresh poll_init)"

abbreviation hv_reach :: "(vms_data polling, host_kont) world \<Rightarrow> bool" where
  "hv_reach \<equiv> reachable hv_boot (\<lambda>s e. True) hv_handle hv_resume"

definition poll_failed :: "'d polling \<Rightarrow> string option" where
  "poll_failed p = (case poll_error p of Some m \<Rightarrow> if m = '''' then None else Some m | None \<Rightarrow> None)"

definition hv_host :: "vms_data polling \<Rightarrow> host option" where
  "hv_host p = Option.bind (poll_data p) vd_host"

definition hv_vms :: "vms_data polling \<Rightarrow> (vm list \<times> int) option" where
  "hv_vms p = Option.bind (poll_data p) vd_vms"

subsection \<open>The dashboard\<close>

datatype dashboard_event = DbOpen vm

definition db_running :: "vm list \<Rightarrow> nat" where
  "db_running vs = count_if (\<lambda>v. v_state v = Running) vs"

text \<open>Both totals of memory and storage are taken as positive when they are divided by.\<close>

definition db_memPct :: "host \<Rightarrow> rat" where
  "db_memPct h = of_int (h_memoryUsedBytes h) / of_int (h_memoryTotalBytes h) * 100"

definition db_storPct :: "host \<Rightarrow> rat option" where
  "db_storPct h = (case (h_storageTotalBytes h, h_storageUsedBytes h) of
     (Some t, Some u) \<Rightarrow> if t = 0 then None else Some (of_int u / of_int t * 100)
   | _ \<Rightarrow> None)"

definition db_vms_hint :: "vm list \<times> int \<Rightarrow> string" where
  "db_vms_hint d = nat_str (db_running (fst d)) @ '' running '' @ mid_dot @ '' ''
     @ int_str (snd d - int (db_running (fst d))) @ '' stopped''"

definition db_row :: "vm \<Rightarrow> dashboard_event ui" where
  "db_row v = Box ''row-clickable''
     [Btn ''row'' False (DbOpen v), Lnk (v_name v) (''/vms/'' @ v_id v), StateBadge (v_state v), Txt (int_str (v_vcpus v)),
      Txt (formatBytes (v_memoryBytes v) 0), Txt (orelse (v_ipAddress v) em_dash),
      Txt (if v_state v = Running then formatUptime (v_uptimeSeconds v) else em_dash)]"

definition db_cards :: "vms_data polling \<Rightarrow> dashboard_event ui list" where
  "db_cards p =
     (let loading = poll_loading p; host = hv_host p; cpuPct = orelse (Option.bind host (\<lambda>h. c_usagePercent (h_cpu h))) 0 in
      [MetricCard ''CPU Usage'' [Txt (to_fixed cpuPct 1 @ ''%'')]
         (map_option (\<lambda>h. [Txt (c_model (h_cpu h) @ '' '' @ mid_dot @ '' '' @ int_str (c_threads (h_cpu h)) @ '' threads'')]) host)
         None (Some cpuPct) loading ''blue'',
       MetricCard ''Memory Usage''
         [Txt (case host of Some h \<Rightarrow> formatBytes (h_memoryUsedBytes h) 1 @ '' / '' @ formatBytes (h_memoryTotalBytes h) 0 | None \<Rightarrow> em_dash)]
         (map_option (\<lambda>h. [Txt (int_str (math_round (db_memPct h)) @ ''% used'')]) host)
         None (map_option db_memPct host) loading ''violet'',
       MetricCard ''Storage Usage''
         [Txt (case host of Some h \<Rightarrow> formatBytes (orelse (h_storageUsedBytes h) 0) 1 @ '' / '' @ formatBytes (orelse (h_storageTotalBytes h) 0) 1
            | None \<Rightarrow> em_dash)]
         (map_option (\<lambda>x. [Txt (int_str (math_round x) @ ''% used'')]) (Option.bind host db_storPct))
         None (Option.bind host db_storPct) loading ''purple'',
       MetricCard ''Virtual Machines'' [Txt (case hv_vms p of Some d \<Rightarrow> int_str (snd d) | None \<Rightarrow> ''0'')]
         (map_option (\<lambda>d. [Txt (db_vms_hint d)]) (hv_vms p)) None None loading ''blue''])"

definition db_view :: "vms_data polling \<Rightarrow> dashboard_event ui list" where
  "db_view p = (case poll_failed p of
     Some m \<Rightarrow> [Box ''page page-wide error alert'' [Txt (''Failed to reach API: '' @ m)]]
   | None \<Rightarrow>
      [Txt ''Dashboard'',
       Txt (case hv_host p of Some h \<Rightarrow> h_hostname h @ '' '' @ mid_dot @ '' '' @ h_operatingSystem h @ '' '' @ mid_dot @ '' kernel '' @ h_kernel h
         | None \<Rightarrow> ''connecting'' @ ellipsis)] @
      (case hv_host p of Some h \<Rightarrow> [Txt (''up '' @ formatUptime (Some (h_uptimeSeconds h)))] | None \<Rightarrow> []) @
      db_cards p @ [Txt ''Virtual Machines''] @
      (if poll_loading p then [TableSkeleton 4 5]
       else case hv_vms p of
           None \<Rightarrow> [EmptyState ''No virtual machines'' (Some ''Create your first VM from the Virtual Machines page.'') []]
         | Some d \<Rightarrow> if fst d = [] then [EmptyState ''No virtual machines'' (Some ''Create your first VM from the Virtual Machines page.'') []]
             else map db_row (fst d)))"

fun db_handle :: "dashboard_event \<Rightarrow> (vms_data polling, host_kont) action" where
  "db_handle (DbOpen v) w = emit (Navigate (''/vms/'' @ v_id v)) w"

subsection \<open>The sidebar\<close>

record nav_item =
  ni_to :: string
  ni_label :: string
  ni_end :: bool

definition nav :: "nav_item list" where
  "nav = [\<lparr>ni_to = ''/'', ni_label = ''Dashboard'', ni_end = True\<rparr>,
     \<lparr>ni_to = ''/vms'', ni_label = ''Virtual Machines'', ni_end = False\<rparr>,
     \<lparr>ni_to = ''/storage'', ni_label = ''Storage'', ni_end = False\<rparr>,
     \<lparr>ni_to = ''/network'', ni_label = ''Network'', ni_end = False\<rparr>,
     \<lparr>ni_to = ''/backups'', ni_label = ''Backups'', ni_end = False\<rparr>,
     \<lparr>ni_to = ''/tasks'', ni_label = ''Tasks'', ni_end = False\<rparr>,
     \<lparr>ni_to = ''/settings'', ni_label = ''Settings'', ni_end = False\<rparr>]"

text \<open>
  \<open>NavLink\<close> marks its link as active on its own path and, unless \<open>end\<close> is given, on every
  path below it.
\<close>

definition nav_active :: "string \<Rightarrow> nav_item \<Rightarrow> bool" where
  "nav_active path n = (path = ni_to n
     \<or> \<not> ni_end n \<and> is_prefix (ni_to n) path \<and> length (ni_to n) < length path \<and> path ! length (ni_to n) = CHR ''/'')"

definition HostStatusCard :: "host option \<Rightarrow> int option \<Rightarrow> bool \<Rightarrow> 'e ui list" where
  "HostStatusCard host vmCount online = (case host of
     None \<Rightarrow> [Box ''host-card'' [Box ''skeleton'' [], Box ''skeleton'' []]]
   | Some h \<Rightarrow> [Box ''host-card''
      [Txt (h_hostname h), Box (''state'' @ (if online then '' state-running'' else '' state-error'')) [Txt (if online then ''Online'' else ''Offline'')],
       Txt ((case h_kvmEnabled h of None \<Rightarrow> ''hypervisor'' | Some b \<Rightarrow> if b then ''KVM'' else ''no KVM'') @ '' '' @ mid_dot @ '' ''
         @ formatBytes (h_memoryTotalBytes h) 0 @ '' '' @ mid_dot @ '' ''
         @ (case vmCount of None \<Rightarrow> em_dash | Some n \<Rightarrow> int_str n @ '' VM'' @ (if n = 1 then '''' else ''s'')))]])"

text \<open>Reading the total of machines that did not answer throws, and the whole frame is gone.\<close>

definition shell_crashed :: "vms_data polling \<Rightarrow> bool" where
  "shell_crashed p = (case poll_data p of Some d \<Rightarrow> vd_vms d = None | None \<Rightarrow> False)"

definition host_card :: "vms_data polling \<Rightarrow> 'e ui list" where
  "host_card p = HostStatusCard (hv_host p) (map_option snd (hv_vms p)) (poll_failed p = None \<and> poll_data p \<noteq> None)"

definition nav_link :: "string \<Rightarrow> nav_item \<Rightarrow> 'e ui" where
  "nav_link path n = Box (''nav-item'' @ (if nav_active path n then '' active'' else '''')) [Lnk (ni_label n) (ni_to n)]"

definition sidebar :: "string \<Rightarrow> vms_data polling \<Rightarrow> 'e ui list" where
  "sidebar path p = [Txt ''UV'', Txt ''UltraV'', Txt ''Virtualization Manager''] @ map (nav_link path) nav @ host_card p
     @ [Lnk ''API Docs'' ''/docs'']"

subsection \<open>The user menu\<close>

datatype user_menu_event = UmToggle | UmOutside | UmLogout

definition upper_char :: "char \<Rightarrow> char" where
  "upper_char c = (let n = of_char c :: nat in if 97 \<le> n \<and> n \<le> 122 then char_of (n - 32) else c)"

definition user_initial :: "user option \<Rightarrow> string" where
  "user_initial u = map upper_char (take 1 (case u of Some x \<Rightarrow> u_username x | None \<Rightarrow> ''?''))"

definition um_view :: "user option \<Rightarrow> bool \<Rightarrow> user_menu_event ui list" where
  "um_view u opened =
     [Btn (user_initial u @ '' '' @ (case u of Some x \<Rightarrow> u_username x | None \<Rightarrow> em_dash)) False UmToggle] @
     (if opened then
        [Txt (case u of Some x \<Rightarrow> u_username x | None \<Rightarrow> ''''),
         Txt (if map_option u_role u = Some Viewer then ''Somente leitura'' else ''Administrador''),
         Btn ''Sair'' False UmLogout, Btn ''document'' False UmOutside]
      else [])"

definition um_step :: "user_menu_event \<Rightarrow> bool \<Rightarrow> session \<Rightarrow> bool \<times> session" where
  "um_step e opened s = (case e of
     UmToggle \<Rightarrow> (\<not> opened, s) | UmOutside \<Rightarrow> (False, s) | UmLogout \<Rightarrow> (False, logout s))"

subsection \<open>The search\<close>

definition search_target :: "string \<Rightarrow> string" where
  "search_target q = (let term = js_trim q in
     if term \<noteq> '''' then ''/vms?q='' @ encode_uri_component term else ''/vms'')"

datatype topbar_event = TbQuery string | TbSearch

fun tb_handle :: "topbar_event \<Rightarrow> (string, unit) action" where
  "tb_handle (TbQuery v) w = upd (\<lambda>_. v) w"
| "tb_handle TbSearch w = emit (Navigate (search_target (st w))) w"

definition tb_view :: "string \<Rightarrow> topbar_event ui list" where
  "tb_view q = [Field ''Search virtual machines'' q False TbQuery, Btn ''submit'' False TbSearch,
     Box ''icon-btn disabled'' [Txt ''Notifications (coming in a later phase)'']]"

text \<open>
  \<open>URLSearchParams.get\<close>: the value of the first pair with the key, with \<open>+\<close> read as a space
  and percent escapes decoded.
\<close>

definition query_of :: "string \<Rightarrow> string" where
  "query_of url = drop 1 (dropWhile (\<lambda>c. c \<noteq> CHR ''?'') url)"

definition form_decode :: "string \<Rightarrow> string" where
  "form_decode s = percent_decode (map (\<lambda>c. if c = CHR ''+'' then CHR '' '' else c) s)"

definition search_param :: "string \<Rightarrow> string \<Rightarrow> string option" where
  "search_param key url =
     map_option (\<lambda>p. form_decode (drop 1 (dropWhile (\<lambda>c. c \<noteq> CHR ''='') p)))
       (find (\<lambda>p. takeWhile (\<lambda>c. c \<noteq> CHR ''='') p = key) (js_split (CHR ''&'') (query_of url)))"

subsection \<open>A planned feature\<close>

definition ComingSoon :: "string \<Rightarrow> 'e ui list" where
  "ComingSoon title = [Txt title, Txt ''Planned feature'',
     EmptyState ''Coming Soon'' (Some (''This area will be enabled together with its API endpoints. Everything is an API ''
       @ em_dash @ '' the UI never exposes what the API does not.'')) []]"


subsection \<open>Searching from any page\<close>

lemma encoded_plain:
  "CHR ''&'' \<notin> set (encode_uri_component t)" "CHR ''+'' \<notin> set (encode_uri_component t)"
proof -
  have "\<not> unreserved (CHR ''&'')" "\<not> unreserved (CHR ''+'')" by code_simp+
  then show "CHR ''&'' \<notin> set (encode_uri_component t)" "CHR ''+'' \<notin> set (encode_uri_component t)"
    by (auto dest!: encode_uri_component_chars)
qed

lemma form_decode_encode: "form_decode (encode_uri_component t) = t"
proof -
  have "map (\<lambda>c. if c = CHR ''+'' then CHR '' '' else c) (encode_uri_component t) = encode_uri_component t"
    using encoded_plain(2) by (intro map_idI) auto
  then show ?thesis by (simp add: form_decode_def percent_decode_encode)
qed

text \<open>
  A search from any page arrives: the address it navigates to is routed to the list of
  machines, and the list reads from it exactly the trimmed text, whatever characters it holds,
  or no text when there is none.
\<close>

theorem search_arrives:
  "search_param ''q'' (search_target q) = (if js_trim q = '''' then None else Some (js_trim q))
    \<and> takeWhile (\<lambda>c. c \<noteq> CHR ''?'') (search_target q) = ''/vms''
    \<and> route ''/vms'' = ToShell PgVms
    \<and> vp_query (vms_page_init (search_param ''q'' (search_target q))) = js_trim q"
proof -
  have "CHR ''&'' \<notin> set (''q='' @ encode_uri_component t)" for t using encoded_plain(1) by simp
  then have "js_split (CHR ''&'') (''q='' @ encode_uri_component t) = [''q='' @ encode_uri_component t]" for t
    by (rule js_split_no_sep)
  then have "search_param ''q'' (search_target q) = (if js_trim q = '''' then None else Some (js_trim q))"
    by (simp add: search_param_def search_target_def Let_def query_of_def form_decode_encode del: js_split.simps(2))
  moreover have "route ''/vms'' = ToShell PgVms" by code_simp
  moreover have "takeWhile (\<lambda>c. c \<noteq> CHR ''?'') (search_target q) = ''/vms''" by (simp add: search_target_def Let_def)
  ultimately show ?thesis by (simp add: vms_page_init_def orelse_def)
qed

subsection \<open>Navigation\<close>

text \<open>The address of a list of segments, and the entry of the sidebar of a page.\<close>

definition path_of :: "string list \<Rightarrow> string" where
  "path_of segs = (if segs = [] then ''/'' else concat (map (\<lambda>s. CHR ''/'' # s) segs))"

fun page_label :: "page \<Rightarrow> string" where
  "page_label PgDashboard = ''Dashboard''"
| "page_label PgVms = ''Virtual Machines''"
| "page_label (PgVmDetails i) = ''Virtual Machines''"
| "page_label PgStorage = ''Storage''"
| "page_label PgNetwork = ''Network''"
| "page_label PgBackups = ''Backups''"
| "page_label PgTasks = ''Tasks''"
| "page_label PgSettings = ''Settings''"

definition segment_ok :: "string \<Rightarrow> bool" where
  "segment_ok s = (s \<noteq> '''' \<and> CHR ''/'' \<notin> set s)"

lemma js_split_path:
  "list_all segment_ok segs \<Longrightarrow> js_split (CHR ''/'') (concat (map (\<lambda>s. CHR ''/'' # s) segs)) = [] # segs"
proof (induction segs)
  case (Cons a segs)
  then have IH: "js_split (CHR ''/'') (concat (map (\<lambda>s. CHR ''/'' # s) segs)) = [] # segs" and a: "CHR ''/'' \<notin> set a"
    by (simp_all add: segment_ok_def)
  show ?case
  proof (cases segs)
    case Nil
    with a show ?thesis by (simp add: js_split_no_sep)
  next
    case (Cons b bs)
    with IH a show ?thesis by (simp add: js_split_append)
  qed
qed simp

lemma segments_path: "list_all segment_ok segs \<Longrightarrow> segments (path_of segs) = segs"
proof -
  assume ok: "list_all segment_ok segs"
  then have "filter (\<lambda>s. s \<noteq> '''') segs = segs" by (auto simp: list_all_iff segment_ok_def intro: filter_True)
  with js_split_path [OF ok] show ?thesis by (simp add: segments_def path_of_def)
qed

text \<open>
  On the address of any page of the frame the sidebar marks exactly one entry as active,
  the one that leads to that page; on the page of a machine it is the list of machines.
\<close>

theorem nav_marks_page:
  assumes "list_all segment_ok segs" "route (path_of segs) = ToShell pg"
  shows "map ni_label (filter (nav_active (path_of segs)) nav) = [page_label pg]"
proof -
  have r: "route_segments segs = ToShell pg" using assms segments_path by (simp add: route_def)
  consider "segs = []" "pg = PgDashboard" | a where "segs = [a]" | i where "segs = [''vms'', i]" "pg = PgVmDetails i"
    using r by (auto simp: route_segments_def split: list.splits if_splits)
  then show ?thesis
  proof cases
    case 1
    have "map ni_label (filter (nav_active (path_of [])) nav) = [page_label PgDashboard]" by code_simp
    with 1 show ?thesis by simp
  next
    case 2
    have each: "list_all (\<lambda>(a, pg). map ni_label (filter (nav_active (path_of [a])) nav) = [page_label pg])
      [(''vms'', PgVms), (''storage'', PgStorage), (''network'', PgNetwork), (''backups'', PgBackups),
       (''tasks'', PgTasks), (''settings'', PgSettings)]" by code_simp
    have "(a, pg) \<in> {(''vms'', PgVms), (''storage'', PgStorage), (''network'', PgNetwork), (''backups'', PgBackups),
       (''tasks'', PgTasks), (''settings'', PgSettings)}"
      using r 2 by (simp add: route_segments_def split: if_splits)
    with each 2 show ?thesis by (auto simp: list_all_iff)
  next
    case 3
    have "nav_active (path_of [''vms'', i]) n = (ni_to n = ''/vms'' \<and> \<not> ni_end n)" if "n \<in> set nav" for n
      using that by (auto simp: path_of_def nav_active_def is_prefix_def nav_def)
    then have f: "filter (nav_active (path_of [''vms'', i])) nav = filter (\<lambda>n. ni_to n = ''/vms'' \<and> \<not> ni_end n) nav"
      by (intro filter_cong) auto
    have "map ni_label (filter (\<lambda>n. ni_to n = ''/vms'' \<and> \<not> ni_end n) nav) = [''Virtual Machines'']" by code_simp
    then show ?thesis unfolding 3 f by simp
  qed
qed

theorem nav_marks_page_witness:
  "map ni_label (filter (nav_active (path_of [''vms'', ''app''])) nav) = [''Virtual Machines'']"
proof -
  have "list_all segment_ok [''vms'', ''app'']" "route (path_of [''vms'', ''app'']) = ToShell (PgVmDetails ''app'')" by code_simp+
  from nav_marks_page [OF this] show ?thesis by simp
qed


subsection \<open>The counts of the dashboard\<close>

text \<open>
  When the total is the number of machines listed, the number shown as stopped counts every
  machine that does not run: the stopped ones and also the paused, starting, stopping and
  failed ones.
\<close>

theorem dashboard_stopped_count:
  assumes "snd d = int (length (fst d))"
  shows "db_vms_hint d = nat_str (db_running (fst d)) @ '' running '' @ mid_dot @ '' ''
    @ int_str (int (count_if (\<lambda>v. v_state v = Stopped) (fst d))
        + int (count_if (\<lambda>v. v_state v \<noteq> Running \<and> v_state v \<noteq> Stopped) (fst d))) @ '' stopped''"
proof -
  have "length vs = count_if (\<lambda>v. v_state v = Running) vs + count_if (\<lambda>v. v_state v = Stopped) vs
      + count_if (\<lambda>v. v_state v \<noteq> Running \<and> v_state v \<noteq> Stopped) vs" for vs
    by (induction vs) (auto simp: count_if_def)
  from this [of "fst d"] assms show ?thesis by (simp add: db_vms_hint_def db_running_def algebra_simps)
qed

subsection \<open>The host card\<close>

lemma poll_failed_done: "poll_failed (poll_done r p) = (case r of Inl e \<Rightarrow> if err_message e = '''' then None else Some (err_message e) | Inr d \<Rightarrow> None)"
  by (simp add: poll_failed_def poll_done_error split: sum.split)

text \<open>
  A load that fails after one that succeeded leaves the host on its card, marked as offline
  (as online if the error has no text), while the dashboard shows only the failure; the next
  load that succeeds brings both back with the new data.
\<close>

lemma host_card_after:
  "host_card (poll_done (Inl e) p) = HostStatusCard (hv_host p) (map_option snd (hv_vms p)) (err_message e = '''' \<and> poll_data p \<noteq> None)"
  "host_card (poll_done (Inr (Some d)) p) = HostStatusCard (vd_host d) (map_option snd (vd_vms d)) True"
  "err_message e \<noteq> '''' \<Longrightarrow> db_view (poll_done (Inl e) p) = [Box ''page page-wide error alert'' [Txt (''Failed to reach API: '' @ err_message e)]]"
  by (simp_all add: host_card_def poll_failed_done hv_host_def hv_vms_def db_view_def)

end
