(* ===== verification/Server.thy ===== *)
theory Server
  imports Patterns Client
begin

text \<open>
  What the server checks before it acts, at the boundary of the API
  (\<open>backend/internal/api\<close> and the validation of \<open>backend/internal/scheduler\<close>): the role of
  the caller, the path parameter, the decoding of the body and its validation. \<open>None\<close> stands
  for a request that is handed on to the hypervisor, the scheduler or the user database,
  which may still refuse it for the state they find (a name that is taken, a machine that runs).
\<close>

subsection \<open>Errors\<close>

datatype refusal = Refusal (rf_code: string) (rf_message: string)

definition errorStatus :: "string \<Rightarrow> int" where
  "errorStatus code =
     (if code = ''VALIDATION_ERROR'' then 400
      else if code = ''UNAUTHORIZED'' \<or> code = ''INVALID_CREDENTIALS'' then 401
      else if code = ''FORBIDDEN'' then 403
      else if code \<in> {''VM_NOT_FOUND'', ''NOT_FOUND'', ''STORAGE_POOL_NOT_FOUND'', ''NETWORK_NOT_FOUND'', ''ISO_NOT_FOUND'',
        ''USER_NOT_FOUND'', ''BACKUP_NOT_FOUND'', ''SCHEDULE_NOT_FOUND'', ''TASK_NOT_FOUND''} then 404
      else if code = ''METHOD_NOT_ALLOWED'' then 405
      else if code = ''INTERNAL_ERROR'' then 500
      else if code \<in> {''VM_INVALID_STATE'', ''VM_ALREADY_EXISTS'', ''STORAGE_POOL_ALREADY_EXISTS'', ''NETWORK_INVALID_STATE'',
        ''NETWORK_ALREADY_EXISTS'', ''ISO_ALREADY_EXISTS'', ''USER_ALREADY_EXISTS'', ''LAST_ADMIN'', ''CONSOLE_UNAVAILABLE'',
        ''STORAGE_UNAVAILABLE'', ''KVM_UNAVAILABLE'', ''NETWORK_INACTIVE'', ''BACKUP_INVALID_STATE'',
        ''SCHEDULE_ALREADY_EXISTS'', ''TASK_NOT_CANCELLABLE''} then 409
      else 0)"

text \<open>What \<open>unwrap\<close> makes of the envelope the server writes.\<close>

definition writeError :: "refusal \<Rightarrow> js_error" where
  "writeError x = ApiError (rf_code x) (if rf_code x = ''INTERNAL_ERROR'' then ''An internal error occurred'' else rf_message x)
     (errorStatus (rf_code x))"

definition validation :: "string \<Rightarrow> refusal option" where
  "validation msg = (if msg = '''' then None else Some (Refusal ''VALIDATION_ERROR'' msg))"

subsection \<open>Path parameters\<close>

definition vmIDPattern :: rx where
  "vmIDPattern = Seq (Cls is_alnum) (Rep (Cls is_name_char) 0 63)"

definition schedulerIDPattern :: rx where
  "schedulerIDPattern = Seq (lit (CHR ''s'')) (Seq (lit (CHR ''c'')) (Seq (lit (CHR ''h'')) (Seq (lit (CHR ''-'')) (Rep (Cls is_name_char) 1 60))))"

definition backupIDPattern :: rx where
  "backupIDPattern = Seq (lit (CHR ''b'')) (Seq (lit (CHR ''k'')) (Seq (lit (CHR ''-'')) (Rep (Cls is_name_char) 1 80)))"

definition taskIDRE :: rx where
  "taskIDRE = Seq (lit (CHR ''t'')) (Seq (lit (CHR ''a'')) (Seq (lit (CHR ''s'')) (Seq (lit (CHR ''k'')) (Seq (lit (CHR ''-''))
     (Rep (Cls is_name_char) 1 64)))))"

definition ValidID :: rx where
  "ValidID = Seq (Cls is_alnum) (Seq (Rep (Cls (\<lambda>c. is_name_char c \<or> c = CHR '' '')) 0 127)
     (Seq (lit (CHR ''.'')) (Seq (lit (CHR ''i'')) (Seq (lit (CHR ''s'')) (lit (CHR ''o''))))))"

definition requireValidVMID :: "string \<Rightarrow> string" where
  "requireValidVMID i = (if rx_test vmIDPattern i then '''' else ''Invalid virtual machine identifier'')"

definition requireValidScheduleID :: "string \<Rightarrow> string" where
  "requireValidScheduleID i = (if rx_test schedulerIDPattern i then '''' else ''Invalid backup schedule identifier'')"

definition requireValidBackupID :: "string \<Rightarrow> string" where
  "requireValidBackupID i = (if rx_test backupIDPattern i then '''' else ''Invalid backup identifier'')"

definition requireValidTaskID :: "string \<Rightarrow> string" where
  "requireValidTaskID i = (if rx_test taskIDRE i then '''' else ''Invalid task identifier'')"

subsection \<open>Decoding\<close>

text \<open>
  A JSON number decodes into an \<open>int\<close> or an \<open>int64\<close> exactly when it is an integer in the
  range of 64 bits; an absent property leaves a pointer \<open>nil\<close>.
\<close>

definition go_int :: "rat \<Rightarrow> int option" where
  "go_int x = (if x = of_int \<lfloor>x\<rfloor> \<and> - (2 ^ 63) \<le> \<lfloor>x\<rfloor> \<and> \<lfloor>x\<rfloor> < 2 ^ 63 then Some \<lfloor>x\<rfloor> else None)"

definition invalid_body :: string where
  "invalid_body = ''Invalid JSON body''"

definition decoded :: "rat option \<Rightarrow> (int option \<Rightarrow> string) \<Rightarrow> string" where
  "decoded x f = (case x of None \<Rightarrow> f None | Some v \<Rightarrow> (case go_int v of None \<Rightarrow> invalid_body | Some n \<Rightarrow> f (Some n)))"

text \<open>The message of the first check that fails.\<close>

fun first_error :: "string list \<Rightarrow> string" where
  "first_error [] = ''''"
| "first_error (m # ms) = (if m = '''' then first_error ms else m)"

lemma first_error_Nil: "first_error ms = '''' \<longleftrightarrow> (\<forall>m \<in> set ms. m = '''')"
  by (induction ms) auto

subsection \<open>Machines\<close>

definition validateCreateVM :: "string \<Rightarrow> int \<Rightarrow> int \<Rightarrow> string \<Rightarrow> int \<Rightarrow> string" where
  "validateCreateVM name vcpus memory poolId bytes =
     (if \<not> rx_test vmIDPattern name then ''Invalid virtual machine name''
      else if vcpus < 1 \<or> 64 < vcpus then ''vcpus must be between 1 and 64''
      else if memory < 16 * 1024 * 1024 then ''memoryBytes must be at least 16 MiB''
      else if poolId = '''' then ''disk.poolId is required''
      else if bytes < 1024 * 1024 then ''disk.sizeBytes must be at least 1 MiB''
      else '''')"

definition handleCreateVM :: "vm_create \<Rightarrow> string" where
  "handleCreateVM b =
     (case (go_int (vc_vcpus b), go_int (of_int (vc_memoryBytes b)), go_int (of_int (dc_sizeBytes (vc_disk b)))) of
        (Some n, Some m, Some d) \<Rightarrow> validateCreateVM (vc_name b) n m (dc_poolId (vc_disk b)) d
      | _ \<Rightarrow> invalid_body)"

definition validateUpdateVM :: "int option \<Rightarrow> int option \<Rightarrow> string option \<Rightarrow> string" where
  "validateUpdateVM vcpus memory isoId =
     (if (case vcpus of Some n \<Rightarrow> n < 1 \<or> 64 < n | None \<Rightarrow> False) then ''vcpus must be between 1 and 64''
      else if (case memory of Some m \<Rightarrow> m < 16 * 1024 * 1024 | None \<Rightarrow> False) then ''memoryBytes must be at least 16 MiB''
      else if (case isoId of Some i \<Rightarrow> i \<noteq> '''' \<and> \<not> rx_test ValidID i | None \<Rightarrow> False) then ''isoId must be a valid ISO filename''
      else '''')"

definition handleUpdateVM :: "vm_update \<Rightarrow> string" where
  "handleUpdateVM b = decoded (vu_vcpus b) (\<lambda>n. decoded (map_option of_int (vu_memoryBytes b)) (\<lambda>m.
     validateUpdateVM n m (vu_isoId b)))"

subsection \<open>Storage\<close>

definition absPathPattern :: rx where
  "absPathPattern = Seq (lit (CHR ''/'')) (Rep (Cls (\<lambda>c. is_name_char c \<or> c = CHR ''/'')) 0 254)"

definition validateCreateStoragePool :: "pool_create \<Rightarrow> string" where
  "validateCreateStoragePool b =
     (if \<not> rx_test vmIDPattern (pc_name b) then ''Invalid storage pool name''
      else if \<not> rx_test absPathPattern (pc_targetPath b) \<or> js_includes (pc_targetPath b) ''..''
      then ''targetPath must be an absolute path without '' @ [CHR 0x27] @ ''..'' @ [CHR 0x27]
      else if pc_type b \<noteq> Pool_dir then ''only '' @ [CHR 0x27] @ ''dir'' @ [CHR 0x27] @ '' storage pools are supported''
      else '''')"

definition handleUploadIso :: "string \<Rightarrow> string" where
  "handleUploadIso fileName = (if rx_test ValidID (last (js_split (CHR ''/'') fileName)) then ''''
     else ''Filename must end in .iso (letters, digits, dot, dash, underscore, space)'')"

subsection \<open>Networks\<close>

definition cidrPattern :: rx where
  "cidrPattern = Seq (Rep (Seq (Rep (Cls is_digit) 1 3) (lit (CHR ''.''))) 3 3)
     (Seq (Rep (Cls is_digit) 1 3) (Seq (lit (CHR ''/''))
       (Alt (Cls is_digit) (Alt (Seq (one_of ''12'') (Cls is_digit)) (Seq (lit (CHR ''3'')) (one_of ''012''))))))"

text \<open>
  \<open>net.ParseCIDR\<close> of an IPv4 subnet: four decimal groups below 256 without a
  leading zero, and a prefix length of at most 32.
\<close>

definition go_octet :: "string \<Rightarrow> bool" where
  "go_octet o8 = (o8 \<noteq> '''' \<and> list_all is_digit o8 \<and> (1 < length o8 \<longrightarrow> hd o8 \<noteq> CHR ''0'') \<and> parse_digits o8 \<le> 255)"

definition ParseCIDR :: "string \<Rightarrow> bool" where
  "ParseCIDR s = (case js_split (CHR ''/'') s of
     [addr, len] \<Rightarrow> length (js_split (CHR ''.'') addr) = 4 \<and> list_all go_octet (js_split (CHR ''.'') addr)
       \<and> len \<noteq> '''' \<and> list_all is_digit len \<and> parse_digits len \<le> 32
   | _ \<Rightarrow> False)"

definition validateCreateNetwork :: "network_body \<Rightarrow> string" where
  "validateCreateNetwork b =
     (if \<not> rx_test vmIDPattern (orelse (nb_name b) '''') then ''Invalid network name''
      else (case nb_mode b of
        Some Bridge \<Rightarrow> (case nb_bridgeName b of
            Some n \<Rightarrow> if rx_test vmIDPattern n then '''' else ''bridgeName is required for bridge networks and must be a valid interface name''
          | None \<Rightarrow> ''bridgeName is required for bridge networks and must be a valid interface name'')
      | Some m \<Rightarrow> (case nb_cidr b of
            Some c \<Rightarrow> if \<not> rx_test cidrPattern c then ''cidr is required for nat/isolated networks (e.g. 192.168.100.0/24)''
              else if \<not> ParseCIDR c then ''cidr is not a valid subnet'' else ''''
          | None \<Rightarrow> ''cidr is required for nat/isolated networks (e.g. 192.168.100.0/24)'')
      | None \<Rightarrow> ''mode must be one of: nat, bridge, isolated''))"

definition validateUpdateNetwork :: "network_body \<Rightarrow> string" where
  "validateUpdateNetwork b =
     (if (case nb_cidr b of Some c \<Rightarrow> \<not> rx_test cidrPattern c \<or> \<not> ParseCIDR c | None \<Rightarrow> False)
      then ''cidr is not a valid subnet (e.g. 192.168.100.0/24)''
      else if (case nb_bridgeName b of Some n \<Rightarrow> \<not> rx_test vmIDPattern n | None \<Rightarrow> False)
      then ''bridgeName must be a valid interface name'' else '''')"

subsection \<open>Users\<close>

text \<open>Lengths are in bytes, which on ASCII are characters.\<close>

definition minPasswordLength :: nat where
  "minPasswordLength = 8"

definition handleCreateUser :: "string \<Rightarrow> string \<Rightarrow> string" where
  "handleCreateUser username password =
     (if js_trim username = '''' \<or> length password < minPasswordLength
      then ''username is required and password must have at least '' @ nat_str minPasswordLength @ '' characters'' else '''')"

definition parseUserID :: "int \<Rightarrow> string" where
  "parseUserID i = (if i < 1 \<or> 2 ^ 63 \<le> i then ''invalid user id'' else '''')"

definition handleResetUserPassword :: "string \<Rightarrow> string" where
  "handleResetUserPassword password = (if length password < minPasswordLength
     then ''password must have at least '' @ nat_str minPasswordLength @ '' characters'' else '''')"

definition handleChangeOwnPassword :: "string \<Rightarrow> string \<Rightarrow> string" where
  "handleChangeOwnPassword current new = (if current = '''' \<or> length new < minPasswordLength
     then ''currentPassword is required and newPassword must have at least '' @ nat_str minPasswordLength @ '' characters'' else '''')"

definition handleLogin :: "string \<Rightarrow> string \<Rightarrow> string" where
  "handleLogin u p = (if u = '''' \<or> p = '''' then ''username and password are required'' else '''')"

definition requireAdmin :: "user option \<Rightarrow> refusal option \<Rightarrow> refusal option" where
  "requireAdmin caller next = (case caller of
     None \<Rightarrow> Some (Refusal ''UNAUTHORIZED'' ''Authentication required'')
   | Some u \<Rightarrow> if u_role u \<noteq> Admin then Some (Refusal ''FORBIDDEN'' ''Admin role required'') else next)"

subsection \<open>Schedules\<close>

definition schedule_namePattern :: rx where
  "schedule_namePattern = Seq (Cls is_alnum) (Rep (Cls is_name_char) 0 63)"

definition schedule_timePattern :: rx where
  "schedule_timePattern =
     Seq (Alt (Seq (one_of ''01'') (Cls is_digit)) (Seq (lit (CHR ''2'')) (one_of ''0123'')))
       (Seq (lit (CHR '':'')) (Seq (one_of ''012345'') (Cls is_digit)))"

definition schedule_vmIDPattern :: rx where
  "schedule_vmIDPattern = Seq (Cls (\<lambda>c. is_alnum c \<or> c = CHR ''*'')) (Rep (Cls (\<lambda>c. is_name_char c \<or> c = CHR ''*'')) 0 63)"

text \<open>
  The messages of the scheduler carry the prefix of \<open>os.ErrInvalid\<close>. \<open>go_quote\<close> is \<open>%q\<close> on
  printable ASCII. An update first looks the schedule up; the model is of one that is found.
\<close>

definition retention_check :: "int option \<Rightarrow> string" where
  "retention_check n = (case n of Some k \<Rightarrow> if k < 0 then ''retentionKeepLast must be >= 0'' else '''' | None \<Rightarrow> '''')"

definition time_check :: "string \<Rightarrow> string" where
  "time_check t = (if rx_test schedule_timePattern t then '''' else ''time must be HH:MM (00:00'' @ [CHR 0xE2, CHR 0x80, CHR 0x93] @ ''23:59)'')"

definition invalid_argument :: "string \<Rightarrow> string" where
  "invalid_argument msg = (if msg = '''' then '''' else ''invalid argument: '' @ msg)"

definition go_quote :: "string \<Rightarrow> string" where
  "go_quote t = [CHR 0x22] @ concat (map (\<lambda>c. if c \<in> {CHR 0x22, CHR 0x5C} then [CHR 0x5C, c] else [c]) t) @ [CHR 0x22]"

definition schedule_create :: "schedule_body \<Rightarrow> string" where
  "schedule_create b = decoded (sb_retentionKeepLast b) (\<lambda>n. invalid_argument (first_error
     [if rx_test schedule_namePattern (orelse (sb_name b) '''') then '''' else ''Invalid schedule name'',
      time_check (orelse (sb_time b) ''''),
      if orelse (sb_vmIds b) [] = [] then ''vmIds must not be empty'' else '''',
      if list_all (rx_test schedule_vmIDPattern) (orelse (sb_vmIds b) []) then ''''
        else ''vmIds must be VM names or '' @ [CHR 0x27] @ ''*'' @ [CHR 0x27],
      retention_check n]))"

definition schedule_update :: "schedule_body \<Rightarrow> string" where
  "schedule_update b = decoded (sb_retentionKeepLast b) (\<lambda>n. invalid_argument (first_error
     [case sb_time b of Some t \<Rightarrow> time_check t | None \<Rightarrow> '''',
      case sb_vmIds b of Some ts \<Rightarrow> if ts = [] then ''vmIds must not be empty''
          else (case find (\<lambda>t. \<not> rx_test schedule_vmIDPattern t) ts of Some t \<Rightarrow> ''invalid vmId '' @ go_quote t | None \<Rightarrow> '''')
        | None \<Rightarrow> '''',
      retention_check n]))"

subsection \<open>Tasks\<close>

definition handleListTasks :: "string option \<Rightarrow> int \<Rightarrow> string" where
  "handleListTasks status limit =
     (if orelse status '''' \<notin> {'''', ''queued'', ''running'', ''succeeded'', ''failed'', ''cancelling'', ''cancelled''} then ''invalid status filter''
      else if limit < 1 \<or> 500 < limit then ''limit must be between 1 and 500'' else '''')"

subsection \<open>The boundary\<close>

text \<open>The refusal of a request of a caller that has been authenticated (or need not be).\<close>

fun boundary :: "user option \<Rightarrow> request \<Rightarrow> refusal option" where
  "boundary u (PostLogin n p) = validation (handleLogin n p)"
| "boundary u (PutOwnPassword c n) = (if u = None then Some (Refusal ''UNAUTHORIZED'' ''Authentication required'')
     else validation (handleChangeOwnPassword c n))"
| "boundary u GetUsers = requireAdmin u None"
| "boundary u (PostUser n p r) = requireAdmin u (validation (handleCreateUser n p))"
| "boundary u (DeleteUser i) = requireAdmin u (validation (parseUserID i))"
| "boundary u (PutUserPassword i p) = requireAdmin u (validation (first_error [parseUserID i, handleResetUserPassword p]))"
| "boundary u (PostPool b) = validation (validateCreateStoragePool b)"
| "boundary u (DeletePool i) = validation (requireValidVMID i)"
| "boundary u (PostPoolRefresh i) = validation (requireValidVMID i)"
| "boundary u (PostIso f) = validation (handleUploadIso f)"
| "boundary u (DeleteIso i) = validation (requireValidVMID i)"
| "boundary u (PostNetwork b) = validation (validateCreateNetwork b)"
| "boundary u (PutNetwork i b) = validation (first_error [requireValidVMID i, validateUpdateNetwork b])"
| "boundary u (DeleteNetwork i) = validation (requireValidVMID i)"
| "boundary u (PostNetworkAction i a) = validation (requireValidVMID i)"
| "boundary u (PostVm b) = validation (handleCreateVM b)"
| "boundary u (GetVm i) = validation (requireValidVMID i)"
| "boundary u (DeleteVm i d) = validation (requireValidVMID i)"
| "boundary u (PatchVm i b) = validation (first_error [requireValidVMID i, handleUpdateVM b])"
| "boundary u (PostVmAction i a) = validation (requireValidVMID i)"
| "boundary u (PostSchedule b) = validation (schedule_create b)"
| "boundary u (PutSchedule i b) = validation (first_error [requireValidScheduleID i, schedule_update b])"
| "boundary u (DeleteSchedule i) = validation (requireValidScheduleID i)"
| "boundary u (GetBackups i) = validation (requireValidVMID i)"
| "boundary u (PostBackup i t) = validation (requireValidVMID i)"
| "boundary u (DeleteBackup i) = validation (requireValidBackupID i)"
| "boundary u (PostRestore i) = validation (requireValidBackupID i)"
| "boundary u (GetTasks s l) = validation (handleListTasks s l)"
| "boundary u (PostTaskCancel i) = validation (requireValidTaskID i)"
| "boundary u q = None"

text \<open>
  The whole handler of the own password: \<open>current_is\<close> is the comparison with the stored hash of the
  caller's password; a failure of the database is left out.
\<close>

definition handle_own_password :: "(string \<Rightarrow> bool) \<Rightarrow> user option \<Rightarrow> string \<Rightarrow> string \<Rightarrow> js_error + payload list" where
  "handle_own_password current_is caller cur new =
     (case boundary caller (PutOwnPassword cur new) of
        Some x \<Rightarrow> Inl (writeError x)
      | None \<Rightarrow> if current_is cur then Inr [PUndefined]
          else Inl (writeError (Refusal ''INVALID_CREDENTIALS'' ''Current password is incorrect'')))"

subsection \<open>Both ends of the API use the same patterns\<close>

lemma same_patterns:
  "vmIDPattern = NAME_RE" "schedule_namePattern = NAME_RE" "absPathPattern = PATH_RE"
  "cidrPattern = CIDR_RE" "schedule_timePattern = TIME_RE"
  by (simp_all add: vmIDPattern_def NAME_RE_def schedule_namePattern_def absPathPattern_def PATH_RE_def
      cidrPattern_def CIDR_RE_def octet_re_def schedule_timePattern_def TIME_RE_def)

subsection \<open>Simplification\<close>

lemma go_int_of_int [simp]: "go_int (of_int n) = (if - (2 ^ 63) \<le> n \<and> n < 2 ^ 63 then Some n else None)"
  by (simp add: go_int_def)

lemma decoded_simps [simp]: "decoded None f = f None" "go_int v = Some n \<Longrightarrow> decoded (Some v) f = f (Some n)"
  "go_int v = None \<Longrightarrow> decoded (Some v) f = invalid_body"
  by (simp_all add: decoded_def)

lemma invalid_body_ne [simp]: "invalid_body \<noteq> ''''"
  by (simp add: invalid_body_def)

lemma invalid_argument_Nil [simp]: "invalid_argument m = '''' \<longleftrightarrow> m = ''''"
  by (simp add: invalid_argument_def)

lemma time_check_Nil [simp]: "time_check t = '''' \<longleftrightarrow> rx_test TIME_RE t"
  by (simp add: time_check_def same_patterns)

lemma validation_None [simp]: "validation m = None \<longleftrightarrow> m = ''''"
  by (simp add: validation_def)

lemma requireAdmin_None [simp]: "requireAdmin c x = None \<longleftrightarrow> (\<exists>u. c = Some u \<and> u_role u = Admin) \<and> x = None"
  by (auto simp: requireAdmin_def split: option.split)

lemma requireValid_Nil [simp]:
  "requireValidVMID i = '''' \<longleftrightarrow> rx_test vmIDPattern i"
  "requireValidScheduleID i = '''' \<longleftrightarrow> rx_test schedulerIDPattern i"
  by (simp_all add: requireValidVMID_def requireValidScheduleID_def)

end
