(* ===== verification/Agreement.thy ===== *)
theory Agreement
  imports Server NetworkForms StorageParts Wizard Schedules SettingsPage VmSettings
begin

text \<open>
  The two ends of the API against each other: for every form of the interface, what the
  server's own checks make of the requests the form can send.
\<close>

lemma call_of_requests: "map fst (calls w) = [qs] \<Longrightarrow> \<exists>c. c \<in> set (calls w) \<and> fst c = qs"
  by (cases "calls w") auto

subsection \<open>Machines\<close>

lemma boundary_create_vm:
  assumes "vm_create_ok b"
  shows "boundary u (PostVm b) =
    (if vc_vcpus b = of_int \<lfloor>vc_vcpus b\<rfloor> \<and> vc_memoryBytes b < 2 ^ 63 \<and> dc_sizeBytes (vc_disk b) < 2 ^ 63 then None
     else Some (Refusal ''VALIDATION_ERROR'' invalid_body))"
proof -
  define n where "n = \<lfloor>vc_vcpus b\<rfloor>"
  have ok: "rx_test NAME_RE (vc_name b)" "1 \<le> vc_vcpus b" "vc_vcpus b \<le> 64" "17179869 \<le> vc_memoryBytes b"
    "dc_poolId (vc_disk b) \<noteq> ''''" "1024 ^ 3 \<le> dc_sizeBytes (vc_disk b)"
    using assms by (simp_all add: vm_create_ok_def)
  have r: "1 \<le> n" "n \<le> 64" using ok(2,3) unfolding n_def by linarith+
  then have i: "go_int (vc_vcpus b) = (if vc_vcpus b = of_int n then Some n else None)"
    by (simp add: go_int_def n_def)
  show ?thesis
    unfolding n_def [symmetric] boundary.simps handleCreateVM_def i go_int_of_int
    using ok r by (simp add: validateCreateVM_def validation_def same_patterns)
qed

text \<open>
  C18. The server takes every machine the wizard asks for, unless its number of virtual CPUs is
  not whole or a size does not fit 64 bits: such a body is refused as one it cannot read.
\<close>

theorem wizard_accepted:
  assumes "wz_reach w" "c \<in> set (calls w)" "PostVm b \<in> set (fst c)"
  shows "boundary u (PostVm b) =
    (if vc_vcpus b = of_int \<lfloor>vc_vcpus b\<rfloor> \<and> vc_memoryBytes b < 2 ^ 63 \<and> dc_sizeBytes (vc_disk b) < 2 ^ 63 then None
     else Some (Refusal ''VALIDATION_ERROR'' ''Invalid JSON body''))"
proof -
  have "vm_create_ok b"
    using wz_requests_run.reach_inv [OF assms(1)] assms(2,3) by (auto simp: wz_requests_ok_def)
  from boundary_create_vm [OF this] show ?thesis by (simp add: invalid_body_def)
qed

definition fractional_script :: "wizard_event stimulus list" where
  "fractional_script =
    [Ev (WzOpen True), Ev (WzName ''app01''), Ev (WzVcpus ''2.5''),
     Settle 0 (Inr [PPools [pool_x] 1, PNetworks [] 0, PIsos [] 0]),
     Ev WzNext, Ev WzNext, Ev WzNext, Ev WzNext, Ev WzSubmit]"

lemma fractional_example:
  "\<exists>w b. play wz_enabled wz_handle wz_resume fractional_script (fresh wizard_init) = Some w
     \<and> map fst (calls w) = [[PostVm b]] \<and> vc_vcpus b = 5 / 2"
proof -
  have v: "rx_test NAME_RE ''app01''" "number_or_0 ''2.5'' = 5 / 2" by code_simp+
  have p: "p_id pool_x = ''default''" "p_state pool_x = Active" "p_availableBytes pool_x = 10 ^ 12"
    by (simp_all add: pool_x_def)
  show ?thesis
    by (simp add: fractional_script_def wz_enabled_def wz_view_def wz_foot_def Let_def wizard_init_def wizard_form_init_def wz_open_changed_def
        wz_general_def set_form_def wz_loaded_def wz_defaults_def pick_id_def stepErrors_def STEPS_def v p
        poolFull_def selectedPool_def GiB_def wz_submit_def reply_ok_def upt_rec wz_body_def)
qed

theorem wizard_accepted_witness:
  "\<exists>w b. play wz_enabled wz_handle wz_resume fractional_script (fresh wizard_init) = Some w
     \<and> map fst (calls w) = [[PostVm b]]
     \<and> boundary None (PostVm b) = Some (Refusal ''VALIDATION_ERROR'' ''Invalid JSON body'')"
proof -
  obtain w b where w: "play wz_enabled wz_handle wz_resume fractional_script (fresh wizard_init) = Some w"
    "map fst (calls w) = [[PostVm b]]" "vc_vcpus b = 5 / 2" using fractional_example by (elim exE conjE)
  from call_of_requests [OF w(2)] obtain c where c: "c \<in> set (calls w)" "PostVm b \<in> set (fst c)" by auto
  have "\<lfloor>5 / 2 :: rat\<rfloor> = 2" by (simp add: floor_eq_iff)
  then show ?thesis
    using wizard_accepted [OF play_reachable [OF reachable.boot w(1)] c, of None] w by auto
qed

subsection \<open>Networks\<close>

lemma octet_split: "is_octet a \<Longrightarrow> CHR ''.'' \<notin> set a \<and> CHR ''/'' \<notin> set a"
proof -
  have "\<not> is_digit (CHR ''.'')" "\<not> is_digit (CHR ''/'')" by (simp_all add: is_digit_def)
  then show "is_octet a \<Longrightarrow> CHR ''.'' \<notin> set a \<and> CHR ''/'' \<notin> set a"
    by (auto simp: is_octet_def list_all_iff)
qed

lemma ParseCIDR_groups:
  assumes "is_octet a" "is_octet b" "is_octet c" "is_octet d" "k \<le> 32"
  shows "ParseCIDR (a @ ''.'' @ b @ ''.'' @ c @ ''.'' @ d @ ''/'' @ nat_str k) = list_all go_octet [a, b, c, d]"
proof -
  have k: "nat_str k \<noteq> ''''" "list_all is_digit (nat_str k)" "parse_digits (nat_str k) = k"
    by (simp_all add: digits_nat_str)
  have "\<not> is_digit (CHR ''/'')" by (simp add: is_digit_def)
  with k(2) have nk: "CHR ''/'' \<notin> set (nat_str k)" by (auto simp: list_all_iff)
  note o = assms(1-4) [THEN octet_split]
  have "js_split (CHR ''/'') ((a @ ''.'' @ b @ ''.'' @ c @ ''.'' @ d) @ CHR ''/'' # nat_str k)
      = [a @ ''.'' @ b @ ''.'' @ c @ ''.'' @ d, nat_str k]"
    using o nk by (subst js_split_append) (simp_all add: js_split_no_sep)
  moreover have "js_split (CHR ''.'') (a @ CHR ''.'' # b @ CHR ''.'' # c @ CHR ''.'' # d) = [a, b, c, d]"
    using o by (simp add: js_split_append js_split_no_sep)
  ultimately show ?thesis using assms(5) k by (simp add: ParseCIDR_def)
qed

lemma iface_is_name: "rx_test IFACE_RE s \<Longrightarrow> rx_test NAME_RE s"
  using names_accepted [of s] by auto

lemma boundary_create_network:
  assumes "net_create_ok b"
  shows "boundary u (PostNetwork b) =
    (if nb_mode b = Some Bridge \<or> (\<exists>c. nb_cidr b = Some c \<and> ParseCIDR c) then None
     else Some (Refusal ''VALIDATION_ERROR'' ''cidr is not a valid subnet''))"
  using assms
  by (auto simp: net_create_ok_def validateCreateNetwork_def validation_def same_patterns iface_is_name
      split: option.splits if_splits net_mode.splits)

text \<open>
  The server takes every network the create form asks for, unless a group of the subnet is
  not a decimal byte without leading zeros: the pattern of the form does not bound them.
\<close>

theorem network_accepted:
  assumes "reachable (fresh create_net_init) cn_enabled cn_handle cn_resume w"
    "x \<in> set (calls w)" "PostNetwork b \<in> set (fst x)"
  shows "boundary u (PostNetwork b) =
      (if nb_mode b = Some Bridge \<or> (\<exists>c. nb_cidr b = Some c \<and> ParseCIDR c) then None
       else Some (Refusal ''VALIDATION_ERROR'' ''cidr is not a valid subnet''))
    \<and> (nb_mode b \<noteq> Some Bridge \<longrightarrow>
      (\<exists>g1 g2 g3 g4 k. nb_cidr b = Some (g1 @ ''.'' @ g2 @ ''.'' @ g3 @ ''.'' @ g4 @ ''/'' @ nat_str k) \<and> k \<le> 32
        \<and> (ParseCIDR (g1 @ ''.'' @ g2 @ ''.'' @ g3 @ ''.'' @ g4 @ ''/'' @ nat_str k) \<longleftrightarrow> list_all go_octet [g1, g2, g3, g4])))"
    (is "?accepted \<and> (_ \<longrightarrow> ?groups)")
proof (intro conjI impI)
  have ok: "net_create_ok b"
    using cn_requests_run.reach_inv [OF assms(1)] assms(2,3) by (auto simp: cn_requests_ok_def)
  then show ?accepted by (rule boundary_create_network)
  assume "nb_mode b \<noteq> Some Bridge"
  with ok obtain c where c: "nb_cidr b = Some c" "rx_test CIDR_RE c"
    by (auto simp: net_create_ok_def split: option.splits if_splits)
  from c(2) obtain g1 g2 g3 g4 k where g: "c = g1 @ ''.'' @ g2 @ ''.'' @ g3 @ ''.'' @ g4 @ ''/'' @ nat_str k"
    "is_octet g1" "is_octet g2" "is_octet g3" "is_octet g4" "k \<le> 32"
    unfolding cidr_accepted by blast
  from c(1) ParseCIDR_groups [OF g(2-6)] g(1,6) show ?groups
    by (intro exI [of _ g1] exI [of _ g2] exI [of _ g3] exI [of _ g4] exI [of _ k]) simp
qed

definition large_script :: "create_net_event stimulus list" where
  "large_script = [Ev (CnOpen True), Ev (CnName ''lab-net''), Ev (CnCidr ''192.168.300.0/24''), Ev CnSubmit]"

lemma large_example:
  "\<exists>w. play cn_enabled cn_handle cn_resume large_script (fresh create_net_init) = Some w
     \<and> map fst (calls w) = [[PostNetwork (cn_body (create_net_init\<lparr>cn_name := ''lab-net'', cn_cidr := ''192.168.300.0/24''\<rparr>))]]"
proof -
  have v: "rx_test NAME_RE ''lab-net''" "rx_test CIDR_RE ''192.168.100.0/24''" "rx_test CIDR_RE ''192.168.300.0/24''"
    by code_simp+
  show ?thesis
    by (simp add: large_script_def cn_enabled_def cn_view_def create_net_init_def cn_handle_def cn_effect_def
        Let_def cn_submit_def cn_valid_def cn_nameOk_def cidrOk_def bridgeOk_def v cn_body_def)
qed

theorem network_accepted_witness:
  "\<exists>w b. play cn_enabled cn_handle cn_resume large_script (fresh create_net_init) = Some w
     \<and> map fst (calls w) = [[PostNetwork b]]
     \<and> boundary None (PostNetwork b) = Some (Refusal ''VALIDATION_ERROR'' ''cidr is not a valid subnet'')"
proof -
  let ?b = "cn_body (create_net_init\<lparr>cn_name := ''lab-net'', cn_cidr := ''192.168.300.0/24''\<rparr>)"
  obtain w where w: "play cn_enabled cn_handle cn_resume large_script (fresh create_net_init) = Some w"
    "map fst (calls w) = [[PostNetwork ?b]]" using large_example by (elim exE conjE)
  from call_of_requests [OF w(2)] obtain c where c: "c \<in> set (calls w)" "PostNetwork ?b \<in> set (fst c)" by auto
  have "nb_mode ?b = Some Nat" "nb_cidr ?b = Some ''192.168.300.0/24''"
    by (simp_all add: cn_body_def create_net_init_def)
  moreover have "\<not> ParseCIDR ''192.168.300.0/24''" by code_simp
  ultimately have "boundary None (PostNetwork ?b) = Some (Refusal ''VALIDATION_ERROR'' ''cidr is not a valid subnet'')"
    using network_accepted [OF play_reachable [OF reachable.boot w(1)] c, of None] by simp
  with w show ?thesis by (intro exI conjI)
qed

subsection \<open>Storage\<close>

text \<open>The server takes every pool the create form asks for.\<close>

lemma pool_accepted:
  assumes "cp_valid s"
  shows "boundary u (PostPool (cp_body s)) = None"
  using assms by (simp add: cp_valid_def cp_body_def validateCreateStoragePool_def same_patterns)

lemma ValidID_accepted:
  "rx_test ValidID s \<longleftrightarrow> (\<exists>c m. s = c # m @ ''.iso'' \<and> is_alnum c
     \<and> list_all (\<lambda>c. is_name_char c \<or> c = CHR '' '') m \<and> length m \<le> 127)"
proof -
  have tail: "rx_lang (Seq (lit (CHR ''.'')) (Seq (lit (CHR ''i'')) (Seq (lit (CHR ''s'')) (lit (CHR ''o''))))) = {''.iso''}"
    by (auto simp: lit_def conc_def)
  show ?thesis
    unfolding ValidID_def rx_test_lang Cls_Seq_lang lang_Seq [of _ "Rep _ _ _"] rx_lang_Rep_Cls tail by auto
qed

lemma ValidID_facts:
  assumes "rx_test ValidID s"
  shows "suffix ''.iso'' s" "CHR ''/'' \<notin> set s" "s \<noteq> ''''" "is_alnum (hd s)"
    "list_all (\<lambda>c. is_name_char c \<or> c = CHR '' '') s"
proof -
  obtain c m where s: "s = c # m @ ''.iso''" "is_alnum c" "list_all (\<lambda>c. is_name_char c \<or> c = CHR '' '') m"
    using assms ValidID_accepted by auto
  show "suffix ''.iso'' s" using s(1) by (auto simp: suffix_def)
  show "s \<noteq> ''''" "is_alnum (hd s)" using s by simp_all
  have e: "list_all is_name_char ''.iso''" by code_simp
  show all: "list_all (\<lambda>c. is_name_char c \<or> c = CHR '' '') s"
    using s e by (auto simp: list_all_iff is_name_char_def)
  have "\<not> (is_name_char (CHR ''/'') \<or> CHR ''/'' = CHR '' '')" by code_simp
  then show "CHR ''/'' \<notin> set s" using all by (auto simp: list_all_iff)
qed

lemma lower_iso: "suffix ''.iso'' s \<Longrightarrow> js_ends_with (js_lower s) ''.iso''"
proof -
  have "js_lower ''.iso'' = ''.iso''" by code_simp
  then show "suffix ''.iso'' s \<Longrightarrow> js_ends_with (js_lower s) ''.iso''"
    by (auto simp: js_ends_with_suffix suffix_def js_lower_def)
qed

text \<open>
  The library cannot remove every file it takes: a name the server takes for an upload may
  have spaces and 132 characters, and the route that deletes refuses a name with a space or of
  more than 64 characters.
\<close>

theorem iso_delete_refused:
  assumes "rx_test ValidID name"
  shows "map fst (calls (il_handle (IlFile name) w)) = map fst (calls w) @ [[PostIso name]]
    \<and> boundary u (PostIso name) = None
    \<and> (i_id img = name \<and> il_confirmDel (st w) = Some img \<longrightarrow>
        map fst (calls (il_handle IlConfirmDelete w)) = map fst (calls w) @ [[DeleteIso name]]
        \<and> boundary u (DeleteIso name) =
          (if CHR '' '' \<notin> set name \<and> length name \<le> 64 then None
           else Some (Refusal ''VALIDATION_ERROR'' ''Invalid virtual machine identifier'')))"
proof -
  note f = ValidID_facts [OF assms]
  have "handleUploadIso name = ''''"
    using f(2) assms by (simp add: handleUploadIso_def js_split_no_sep)
  moreover have "onFile name w = run [upd (\<lambda>s. s\<lparr>il_error := None, il_uploading := Some name, il_pct := 0\<rparr>),
      call [PostIso name] (IkUpload name)] w"
    using lower_iso [OF f(1)] by (simp add: onFile_def)
  moreover have "rx_test vmIDPattern name \<longleftrightarrow> CHR '' '' \<notin> set name \<and> length name \<le> 64"
  proof -
    have "\<not> is_name_char (CHR '' '')" by code_simp
    then have "list_all is_name_char name \<longleftrightarrow> CHR '' '' \<notin> set name"
      using f(5) by (auto simp: list_all_iff)
    then show ?thesis using f(3,4) names_accepted [of name] by (simp add: same_patterns)
  qed
  ultimately show ?thesis by (auto simp: del_iso_def validation_def requireValidVMID_def)
qed

theorem iso_delete_refused_witness:
  "boundary None (PostIso ''Windows Server.iso'') = None
   \<and> boundary None (DeleteIso ''Windows Server.iso'') = Some (Refusal ''VALIDATION_ERROR'' ''Invalid virtual machine identifier'')"
proof -
  let ?n = "''Windows Server.iso''"
  let ?img = "\<lparr>i_id = ?n, i_fileName = ?n, i_sizeBytes = 1, i_uploadedAt = None\<rparr>"
  have v: "rx_test ValidID ?n" by code_simp
  have "il_confirmDel (st (fresh (iso_library_init\<lparr>il_confirmDel := Some ?img\<rparr>))) = Some ?img" by simp
  with iso_delete_refused [OF v, of "fresh (iso_library_init\<lparr>il_confirmDel := Some ?img\<rparr>)" None ?img] show ?thesis by simp
qed

subsection \<open>Schedules\<close>

definition targets_taken :: "schedule_body \<Rightarrow> bool" where
  "targets_taken b = (list_all (rx_test schedule_vmIDPattern) (orelse (sb_vmIds b) []) \<and> orelse (sb_retentionKeepLast b) 0 < 2 ^ 63)"

lemma schedule_body_decoded:
  assumes "schedule_body_ok b"
  obtains t ts n where "sb_time b = Some t" "rx_test TIME_RE t" "sb_vmIds b = Some ts" "ts \<noteq> []"
    "sb_retentionKeepLast b = Some (of_int n)" "0 \<le> n"
proof -
  from assms obtain t ts x where b: "sb_time b = Some t" "rx_test TIME_RE t" "sb_vmIds b = Some ts" "ts \<noteq> []"
    "sb_retentionKeepLast b = Some x" "0 \<le> x" "x = of_int \<lfloor>x\<rfloor>"
    by (auto simp: schedule_body_ok_def split: option.splits)
  show thesis by (rule that [of t ts "\<lfloor>x\<rfloor>"]) (use b in simp_all)
qed

lemma schedule_create_taken:
  assumes "schedule_body_ok b"
  shows "schedule_create b = '''' \<longleftrightarrow> rx_test NAME_RE (orelse (sb_name b) '''') \<and> targets_taken b"
proof -
  from assms obtain t ts n where b: "sb_time b = Some t" "rx_test TIME_RE t" "sb_vmIds b = Some ts" "ts \<noteq> []"
    "sb_retentionKeepLast b = Some (of_int n)" "0 \<le> n" by (rule schedule_body_decoded)
  show ?thesis
    using b by (simp add: schedule_create_def decoded_def targets_taken_def same_patterns retention_check_def)
qed

lemma find_all: "find (\<lambda>x. \<not> P x) xs = None \<longleftrightarrow> list_all P xs"
  by (auto simp: find_None_iff list_all_iff)

lemma schedule_update_taken:
  assumes "schedule_body_ok b"
  shows "schedule_update b = '''' \<longleftrightarrow> targets_taken b"
proof -
  from assms obtain t ts n where b: "sb_time b = Some t" "rx_test TIME_RE t" "sb_vmIds b = Some ts" "ts \<noteq> []"
    "sb_retentionKeepLast b = Some (of_int n)" "0 \<le> n" by (rule schedule_body_decoded)
  show ?thesis
    using b by (auto simp: schedule_update_def decoded_def targets_taken_def retention_check_def find_all [symmetric]
        split: option.splits)
qed

text \<open>
  What the server takes of the requests of the schedule form: the form checks neither the name
  nor the targets. A new schedule needs an accepted name, which the empty one the form starts
  with is not, and every target has to be the name of a machine or a pattern of stars.
\<close>

theorem schedule_accepted:
  assumes "sf_reach w" "c \<in> set (calls w)" "q \<in> set (fst c)"
  shows "(\<exists>b. q = PostSchedule b \<and>
      (boundary u q = None \<longleftrightarrow> rx_test NAME_RE (orelse (sb_name b) '''') \<and> targets_taken b))
    \<or> (\<exists>i b. q = PutSchedule i b \<and> (boundary u q = None \<longleftrightarrow> rx_test schedulerIDPattern i \<and> targets_taken b))"
proof -
  have "schedule_request_ok q"
    using sf_requests_run.reach_inv [OF assms(1)] assms(2,3) by (auto simp: list_all_iff)
  then show ?thesis
    by (cases q) (simp_all add: schedule_create_taken schedule_update_taken)
qed

definition unnamed_script :: "schedule_form_event stimulus list" where
  "unnamed_script = [Ev (SfProps True None), Ev SfSubmit]"

lemma unnamed_example:
  "\<exists>w. play sf_offered sf_handle sf_resume unnamed_script (fresh (schedule_form_init None)) = Some w
     \<and> map fst (calls w) = [[PostSchedule (sf_body (schedule_form_init None))]]"
proof -
  have "rx_test TIME_RE ''03:00''" "targets_of ''*'' \<noteq> []" "\<not> keepErr (schedule_form_init None)" by code_simp+
  then show ?thesis
    by (simp add: unnamed_script_def sf_offered_def sf_view_def Let_def sf_valid_def sf_submit_def schedule_form_init_def
        keepErr_def sf_request_def sf_body_def keepLast_num_def)
qed

theorem schedule_accepted_witness:
  "\<exists>w. play sf_offered sf_handle sf_resume unnamed_script (fresh (schedule_form_init None)) = Some w
     \<and> map fst (calls w) = [[PostSchedule (sf_body (schedule_form_init None))]]
     \<and> boundary None (PostSchedule (sf_body (schedule_form_init None))) \<noteq> None"
proof -
  let ?b = "sf_body (schedule_form_init None)"
  obtain w where w: "play sf_offered sf_handle sf_resume unnamed_script (fresh (schedule_form_init None)) = Some w"
    "map fst (calls w) = [[PostSchedule ?b]]" using unnamed_example by (elim exE conjE)
  from call_of_requests [OF w(2)] obtain c where c: "c \<in> set (calls w)" "PostSchedule ?b \<in> set (fst c)" by auto
  have n: "orelse (sb_name ?b) '''' = ''''" by (simp add: sf_body_def schedule_form_init_def)
  have e: "\<not> rx_test NAME_RE ''''" by code_simp
  have "boundary None (PostSchedule ?b) = None \<longleftrightarrow> rx_test NAME_RE (orelse (sb_name ?b) '''') \<and> targets_taken ?b"
    using schedule_accepted [OF play_reachable [OF reachable.boot w(1)] c, of None] by blast
  then have "boundary None (PostSchedule ?b) \<noteq> None" unfolding n using e by blast
  with w show ?thesis by (intro exI conjI)
qed

subsection \<open>Users\<close>

text \<open>
  The server takes every request of the settings page: the checks of the forms are its own,
  and only an administrator is shown what needs one. The ids are those of its database.
\<close>

theorem settings_accepted:
  assumes "sg_reach fmt me w" "c \<in> set (calls w)" "q \<in> set (fst c)"
    and ids: "\<And>i p. q = DeleteUser i \<or> q = PutUserPassword i p \<Longrightarrow> 1 \<le> i \<and> i < 2 ^ 63"
  shows "boundary (Some me) q = None"
proof -
  have "settings_ok me q"
    using sg_invD(1) [OF sg_safe.reach_inv [OF assms(1)]] assms(2,3) by (auto simp: calls_ok_def list_all_iff)
  then show ?thesis
    using ids by (cases q) (auto simp: MIN_PASSWORD_def minPasswordLength_def handleCreateUser_def parseUserID_def
        handleResetUserPassword_def handleChangeOwnPassword_def)
qed

theorem settings_accepted_witness:
  "boundary (Some admin0) (DeleteUser 2) = None"
proof -
  obtain w where w: "play (sg_enabled id admin0) (sg_handle admin0) sg_resume ask_script (sg_boot admin0) = Some w"
    and d: "up_delete (sg_users (st w)) = Some alice" and e: "sg_enabled id admin0 (st w) (SgUsers UpConfirmDelete)"
    using ask_play by blast
  let ?c = "([DeleteUser (u_id alice)], SgkUsers (sg_mount (st w)) UkDelete)"
  have c: "?c \<in> set (calls (sg_handle admin0 (SgUsers UpConfirmDelete) w))"
    unfolding confirm_calls [OF d] by simp
  from settings_accepted [OF reachable.event [OF play_reachable [OF reachable.boot w] e] c] show ?thesis by simp
qed

subsection \<open>The settings of a machine\<close>

text \<open>
  A save of the settings of a stopped machine passes the server's checks as long as the id and
  the ISO are ones the server knows how to name and the memory fits 64 bits: the browser keeps
  the number of virtual CPUs whole.
\<close>

theorem settings_patch_accepted:
  assumes "vs_enabled v s VsSubmit" "v_state v = Stopped"
    and known: "rx_test NAME_RE (v_id v)" "vs_isoId s = '''' \<or> rx_test ValidID (vs_isoId s)"
  shows "boundary u (PatchVm (v_id v) (vs_body v s)) =
    (if \<forall>m. vu_memoryBytes (vs_body v s) = Some m \<longrightarrow> m < 2 ^ 63 then None
     else Some (Refusal ''VALIDATION_ERROR'' ''Invalid JSON body''))"
proof -
  let ?b = "vs_body v s"
  from assms(1) have "vs_valid s" by (simp add: vs_enabled_def vs_submit_offered)
  then obtain m where m: "memoryBytes s = Some m" "16 * 1024 * 1024 \<le> m" by (auto simp: vs_valid_def split: option.splits)
  obtain n where n: "vcpusNum s = Some (of_int n)" "1 \<le> n" "n \<le> 64"
    using vs_whole_vcpus [OF assms(1,2)] by blast
  have vc: "vu_vcpus ?b = None \<or> vu_vcpus ?b = Some (of_int n)" using n by (simp add: vs_body_def)
  have me: "vu_memoryBytes ?b = None \<or> vu_memoryBytes ?b = Some m" using m by (simp add: vs_body_def)
  have i: "vu_isoId ?b = None \<or> vu_isoId ?b = Some (vs_isoId s)" by (simp add: vs_body_def)
  have "handleUpdateVM ?b = (if \<forall>m. vu_memoryBytes ?b = Some m \<longrightarrow> m < 2 ^ 63 then '''' else invalid_body)"
    using vc me i n m(2) known(2) by (elim disjE) (simp_all add: handleUpdateVM_def validateUpdateVM_def decoded_def)
  then show ?thesis using known(1) by (simp add: same_patterns validation_def invalid_body_def)
qed

theorem settings_patch_accepted_witness:
  "boundary None (PatchVm ''alpine'' \<lparr>vu_vcpus = Some 4, vu_memoryBytes = None, vu_isoId = None, vu_networkId = None\<rparr>) = None"
proof -
  have "rx_test NAME_RE ''alpine''" by code_simp
  moreover have "vs_isoId edited_settings = ''''" by (simp add: edited_settings_def vs_init_def)
  ultimately show ?thesis
    using settings_patch_accepted [OF edited_example(1), of None] by (simp add: edited_example(2) del: boundary.simps)
qed

fun manages_users :: "request \<Rightarrow> bool" where
  "manages_users GetUsers = True"
| "manages_users (PostUser n p r) = True"
| "manages_users (DeleteUser i) = True"
| "manages_users (PutUserPassword i p) = True"
| "manages_users q = False"

text \<open>
  The role of the caller decides about the management of users only: everything else, the
  deletion of machines, pools, networks and backups included, is taken from a viewer exactly
  as from an administrator.
\<close>

theorem role_decides_users_only:
  assumes "u_role v = Viewer" "u_role a = Admin"
  shows "boundary (Some v) q = (if manages_users q then Some (Refusal ''FORBIDDEN'' ''Admin role required'')
      else boundary (Some a) q)"
  using assms by (cases q) (simp_all add: requireAdmin_def)

theorem role_decides_users_only_witness:
  "boundary (Some alice) (DeleteVm ''app01'' True) = None \<and> boundary (Some alice) (DeleteUser 1) \<noteq> None"
proof -
  have v: "u_role alice = Viewer" by (simp add: alice_def)
  have "rx_test NAME_RE ''app01''" by code_simp
  then have "boundary (Some admin0) (DeleteVm ''app01'' True) = None" by (simp add: same_patterns)
  then show ?thesis
    using role_decides_users_only [OF v admin0_sel(2), of "DeleteVm ''app01'' True"]
      role_decides_users_only [OF v admin0_sel(2), of "DeleteUser 1"] by (simp del: boundary.simps)
qed

end
