(* ===== verification/App.thy ===== *)
theory App
  imports Auth Agreement
begin

text \<open>
  A page under the session: what an answer to a request of a page does to the session that
  shows it (\<open>api/client.ts\<close>, \<open>lib/auth.tsx\<close> and the guard of \<open>App.tsx\<close>), and to the
  request that changes the own password in particular.
\<close>

subsection \<open>The answers of a page\<close>

text \<open>
  The response hook runs first, whichever page sent the request; then the continuation of the
  request; then the guard renders again. The segments of the page are its own, so the order
  of the two does not matter to either.
\<close>

definition page_reply :: "('k \<Rightarrow> reply \<Rightarrow> ('s, 'k) action) \<Rightarrow> nat \<Rightarrow> reply \<Rightarrow> session \<times> ('s, 'k) world \<Rightarrow> session \<times> ('s, 'k) world" where
  "page_reply resume i r sw =
     (redirects (hook r (fst sw)), resume (snd (calls (snd sw) ! i)) r (take_call i (snd sw)))"

text \<open>What is on the screen of a page: nothing once the guard shows something else.\<close>

definition page_shown :: "page \<Rightarrow> ('s \<Rightarrow> 'e ui list) \<Rightarrow> session \<times> ('s, 'k) world \<Rightarrow> 'e ui list" where
  "page_shown p view sw = (if screen_of (fst sw) = Shell p then view (st (snd sw)) else [])"

lemma shell_session: "screen_of s = Shell p \<longleftrightarrow> route (se_path s) = ToShell p \<and> \<not> se_loading s \<and> se_user s \<noteq> None"
  by (auto simp: screen_of_def split: target.splits option.splits)

lemma logout_to_login:
  assumes "screen_of s = Shell p"
  shows "screen_of (redirects (logout s)) = LoginScreen" "from_path (redirects (logout s)) = se_path s"
    "se_user (redirects (logout s)) = None" "se_loading (redirects (logout s)) = se_loading s"
    "getToken (se_store (redirects (logout s))) = None" "lg_username (redirects (logout s)) = ''''"
proof -
  have g: "screen_of (logout s) = RedirectTo ''/login''"
    using assms by (simp add: shell_session) (simp add: screen_of_def logout_def)
  then have l: "screen_of (redirect (logout s)) = LoginScreen" by (rule redirect_login_rest)
  then have r: "redirects (logout s) = redirect (logout s)" by (simp add: redirects_def redirect_rest)
  with l show "screen_of (redirects (logout s)) = LoginScreen" by simp
  have d: "redirect (logout s) = goto ''/login'' (Some (se_path s)) (logout s)"
    using g by (simp add: redirect_def) (simp add: logout_def)
  then show "from_path (redirects (logout s)) = se_path s" using r by (simp add: from_path_def)
  show "se_user (redirects (logout s)) = None" "se_loading (redirects (logout s)) = se_loading s"
    by (simp_all add: logout_def)
  show "getToken (se_store (redirects (logout s))) = None" by (simp add: logout_def ls.get_clear)
  have "route (se_path (logout s)) \<noteq> ToLogin" using assms by (simp add: shell_session logout_def)
  then show "lg_username (redirects (logout s)) = ''''"
    unfolding r d by (simp add: goto_def fresh_login_def)
qed


definition settings_session :: session where
  "settings_session = (st (session_boot Map.empty ''/login''))\<lparr>se_user := Some alice, se_path := ''/settings'',
     se_store := setToken (Some ''jwt'') Map.empty\<rparr>"

lemma settings_session_shown: "screen_of settings_session = Shell PgSettings" "se_user settings_session = Some alice"
proof -
  have "route ''/settings'' = ToShell PgSettings" by (simp add: route_def route_segments_def segments_def)
  moreover have "\<not> se_loading settings_session"
    by (simp add: settings_session_def session_boot_def auth_header_def getToken_def Let_def)
  ultimately show "screen_of settings_session = Shell PgSettings"
    by (simp add: shell_session) (simp add: settings_session_def)
  show "se_user settings_session = Some alice" by (simp add: settings_session_def)
qed


subsection \<open>The own password\<close>

lemma own_password_answer:
  assumes "settings_ok me (PutOwnPassword cur new)"
  shows "handle_own_password current_is (Some me) cur new = (if current_is cur then Inr [PUndefined]
    else Inl (ApiError ''INVALID_CREDENTIALS'' ''Current password is incorrect'' 401))"
  using assms by (simp add: handle_own_password_def handleChangeOwnPassword_def MIN_PASSWORD_def minPasswordLength_def
      validation_def writeError_def errorStatus_def)

text \<open>
  C9. Changing the own password with the right current one confirms it on the panel. With a wrong
  one the user is signed out: the server answers a wrong password as it answers a missing
  token, so the hook ends the session; the text the panel has prepared is never on the screen.
\<close>

theorem wrong_current_password_signs_out:
  fixes current_is :: "string \<Rightarrow> bool"
  assumes shown: "screen_of s = Shell PgSettings" "se_user s = Some me"
    and pending: "sg_reach fmt me w" "i < length (calls w)"
      "calls w ! i = ([PutOwnPassword cur new], SgkAccount (sg_mount (st w)) KAcSubmit)"
  defines "sw \<equiv> page_reply sg_resume i (handle_own_password current_is (se_user s) cur new) (s, w)"
  shows "if current_is cur
    then fst sw = s \<and> ac_done (sg_account (st (snd sw))) \<and> ac_current (sg_account (st (snd sw))) = ''''
    else screen_of (fst sw) = LoginScreen \<and> se_user (fst sw) = None \<and> getToken (se_store (fst sw)) = None
      \<and> ac_error (sg_account (st (snd sw))) = Some ''Current password is incorrect''
      \<and> page_shown PgSettings (\<lambda>x. ac_view me (sg_account x)) sw = []"
proof -
  have "list_all (settings_ok me) (fst (calls w ! i))"
    using sg_invD(1) [OF sg_safe.reach_inv [OF pending(1)]] nth_mem [OF pending(2)]
    by (auto simp: calls_ok_def list_all_iff simp del: nth_mem)
  then have "settings_ok me (PutOwnPassword cur new)" using pending(3) by simp
  then have a: "handle_own_password current_is (se_user s) cur new = (if current_is cur then Inr [PUndefined]
      else Inl (ApiError ''INVALID_CREDENTIALS'' ''Current password is incorrect'' 401))"
    using shown(2) by (simp add: own_password_answer)
  have e: "errText (ApiError ''INVALID_CREDENTIALS'' ''Current password is incorrect'' 401)
      = ''Current password is incorrect''" by code_simp
  have stay: "redirects s = s" using shown(1) by (simp add: redirects_def redirect_rest)
  show ?thesis
    using stay logout_to_login [OF shown(1)] pending(2,3) e unfolding sw_def a page_reply_def page_shown_def
    by (simp add: hook_def in_account_def embed_def Let_def)
qed

definition password_script :: "settings_page_event stimulus list" where
  "password_script = [Ev (SgAccount (AcCurrent ''guessed'')), Ev (SgAccount (AcNext ''longenough'')),
     Ev (SgAccount (AcConfirm ''longenough'')), Ev (SgAccount AcSubmit)]"

lemma password_example:
  "\<exists>w. play (sg_enabled id alice) (sg_handle alice) sg_resume password_script (sg_boot alice) = Some w
     \<and> calls w = [([PutOwnPassword ''guessed'' ''longenough''], SgkAccount (sg_mount (st w)) KAcSubmit)]"
proof -
  have v: "u_role alice = Viewer" by (simp add: alice_def)
  show ?thesis
    by (simp add: password_script_def sg_boot_def settings_page_init_def users_shown_def sg_enabled_def v
        ac_enabled_def ac_view_def alert_def account_init_def in_account_def embed_def Let_def ac_valid_def ac_submit_def MIN_PASSWORD_def)
qed

theorem wrong_current_password_signs_out_witness:
  "\<exists>w. play (sg_enabled id alice) (sg_handle alice) sg_resume password_script (sg_boot alice) = Some w
     \<and> screen_of (fst (page_reply sg_resume 0
          (handle_own_password (\<lambda>c. c = ''secret'') (se_user settings_session) ''guessed'' ''longenough'') (settings_session, w))) = LoginScreen"
proof -
  obtain w where w: "play (sg_enabled id alice) (sg_handle alice) sg_resume password_script (sg_boot alice) = Some w"
    "calls w = [([PutOwnPassword ''guessed'' ''longenough''], SgkAccount (sg_mount (st w)) KAcSubmit)]"
    using password_example by (elim exE conjE)
  then have c: "0 < length (calls w)"
    "calls w ! 0 = ([PutOwnPassword ''guessed'' ''longenough''], SgkAccount (sg_mount (st w)) KAcSubmit)" by simp_all
  from wrong_current_password_signs_out [OF settings_session_shown play_reachable [OF reachable.boot w(1)] c,
      of "\<lambda>c. c = ''secret''"] w(1) show ?thesis by (intro exI [of _ w]) simp
qed

end
