(* ===== verification/Application.thy ===== *)
theory Application
  imports App TasksPage VmDetails NetworkPage StoragePage BackupsPage
begin

text \<open>
  The whole application around one page: the session with its router and guard, the page that
  is mounted while the guard shows it, and the pages left behind, whose pending requests still
  settle and whose continuations still run. A page is given by its code; the ones whose code
  needs nothing of the signed-in user are instances.
\<close>

subsection \<open>The code of a page\<close>

record ('s, 'e, 'k) page_code =
  cd_page :: page
  cd_boot :: "('s, 'k) world"
  cd_enabled :: "'s \<Rightarrow> 'e \<Rightarrow> bool"
  cd_handle :: "'e \<Rightarrow> ('s, 'k) action"
  cd_resume :: "'k \<Rightarrow> reply \<Rightarrow> ('s, 'k) action"

definition tasks_code :: "(string \<Rightarrow> string) \<Rightarrow> (tasks_page, tasks_page_event, tasks_page_kont) page_code" where
  "tasks_code fmt = \<lparr>cd_page = PgTasks, cd_boot = tk_boot, cd_enabled = tk_enabled fmt, cd_handle = tk_handle, cd_resume = tk_resume\<rparr>"

definition details_code :: "string \<Rightarrow> int \<Rightarrow> (string \<Rightarrow> string) \<Rightarrow> (vm_details, vm_details_event, vm_details_kont) page_code" where
  "details_code i now fmt = \<lparr>cd_page = PgVmDetails i, cd_boot = vd_boot i now, cd_enabled = vd_enabled fmt,
     cd_handle = vd_handle i, cd_resume = vd_resume i\<rparr>"

definition storage_code :: "(string \<Rightarrow> string) \<Rightarrow> (storage_page, storage_page_event, storage_page_kont) page_code" where
  "storage_code fmt = \<lparr>cd_page = PgStorage, cd_boot = sp_boot, cd_enabled = sp_enabled fmt, cd_handle = sp_handle, cd_resume = sp_resume\<rparr>"

definition network_code :: "(network_page, network_page_event, network_page_kont) page_code" where
  "network_code = \<lparr>cd_page = PgNetwork, cd_boot = np_boot, cd_enabled = np_enabled, cd_handle = np_handle, cd_resume = np_resume\<rparr>"

definition backups_code :: "(string \<Rightarrow> string) \<Rightarrow> (backups_page, backups_page_event, backups_page_kont) page_code" where
  "backups_code fmt = \<lparr>cd_page = PgBackups, cd_boot = bp_boot, cd_enabled = bp_enabled fmt, cd_handle = bp_handle, cd_resume = bp_resume\<rparr>"

subsection \<open>State\<close>

record ('s, 'k) app =
  ap_session :: "(session, session_kont) world"
  ap_page :: "('s, 'k) world option"
  ap_gone :: "('s, 'k) world list"

text \<open>After a change of the session: the guard mounts the page, keeps it or leaves it behind.\<close>

definition under_guard :: "('s, 'e, 'k) page_code \<Rightarrow> (session, session_kont) world \<Rightarrow> ('s, 'k) app \<Rightarrow> ('s, 'k) app" where
  "under_guard c v a =
     (if screen_of (st v) = Shell (cd_page c)
      then a\<lparr>ap_session := v, ap_page := Some (orelse (ap_page a) (cd_boot c))\<rparr>
      else a\<lparr>ap_session := v, ap_page := None, ap_gone := ap_gone a @ (case ap_page a of Some w \<Rightarrow> [w] | None \<Rightarrow> [])\<rparr>)"

definition app_boot :: "('s, 'e, 'k) page_code \<Rightarrow> storage \<Rightarrow> string \<Rightarrow> ('s, 'k) app" where
  "app_boot c ls path = under_guard c (session_boot ls path) \<lparr>ap_session = session_boot ls path, ap_page = None, ap_gone = []\<rparr>"

text \<open>
  What a segment of a page does to the session: the hook on the answer it settles, and the
  navigations it asks for. \<open>useNavigate\<close> works after the page has been left.
\<close>

definition unauthorized :: "reply \<Rightarrow> bool" where
  "unauthorized r = (case r of Inl (ApiError c m s) \<Rightarrow> s = 401 | _ \<Rightarrow> False)"

definition answered :: "reply \<Rightarrow> (session, session_kont) action" where
  "answered r v = (if unauthorized r then session_handle GotUnauthorized v else v)"

fun navigate :: "effect list \<Rightarrow> (session, session_kont) action" where
  "navigate [] v = v"
| "navigate (Navigate path # xs) v = navigate xs (session_handle (GoTo path) v)"
| "navigate (x # xs) v = navigate xs v"

definition navigated :: "('s, 'k) world \<Rightarrow> ('s, 'k) world \<Rightarrow> (session, session_kont) action" where
  "navigated w w' = navigate (drop (length (effs w)) (effs w'))"

subsection \<open>Steps\<close>

datatype 'e app_step =
    SessionEvent session_event
  | SessionReply nat reply
  | PageEvent 'e
  | PageReply nat reply
  | GoneReply nat nat reply

text \<open>\<open>GotUnauthorized\<close> is no event of its own here: it is the hook on the answers below.\<close>

fun app_do :: "('s, 'e, 'k) page_code \<Rightarrow> 'e app_step \<Rightarrow> ('s, 'k) app \<Rightarrow> ('s, 'k) app option" where
  "app_do c (SessionEvent e) a =
     (if e \<noteq> GotUnauthorized \<and> session_enabled (st (ap_session a)) e
      then Some (under_guard c (session_handle e (ap_session a)) a) else None)"
| "app_do c (SessionReply i r) a =
     (let v = ap_session a in
      if i < length (calls v) \<and> reply_ok (fst (calls v ! i)) r
      then Some (under_guard c (session_resume (snd (calls v ! i)) r (take_call i v)) a) else None)"
| "app_do c (PageEvent e) a = (case ap_page a of None \<Rightarrow> None | Some w \<Rightarrow>
     if cd_enabled c (st w) e
     then (let w' = cd_handle c e w in Some (under_guard c (navigated w w' (ap_session a)) (a\<lparr>ap_page := Some w'\<rparr>)))
     else None)"
| "app_do c (PageReply i r) a = (case ap_page a of None \<Rightarrow> None | Some w \<Rightarrow>
     if i < length (calls w) \<and> reply_ok (fst (calls w ! i)) r
     then (let w' = cd_resume c (snd (calls w ! i)) r (take_call i w) in
       Some (under_guard c (navigated w w' (answered r (ap_session a))) (a\<lparr>ap_page := Some w'\<rparr>)))
     else None)"
| "app_do c (GoneReply j i r) a =
     (if j < length (ap_gone a) then (let w = ap_gone a ! j in
        if i < length (calls w) \<and> reply_ok (fst (calls w ! i)) r
        then (let w' = cd_resume c (snd (calls w ! i)) r (take_call i w) in
          Some (under_guard c (navigated w w' (answered r (ap_session a))) (a\<lparr>ap_gone := (ap_gone a)[j := w']\<rparr>)))
        else None) else None)"

inductive app_reach :: "('s, 'e, 'k) page_code \<Rightarrow> storage \<Rightarrow> string \<Rightarrow> ('s, 'k) app \<Rightarrow> bool"
  for c ls path where
  app_start: "app_reach c ls path (app_boot c ls path)"
| app_next: "app_reach c ls path a \<Longrightarrow> app_do c x a = Some a' \<Longrightarrow> app_reach c ls path a'"

abbreviation page_reach :: "('s, 'e, 'k) page_code \<Rightarrow> ('s, 'k) world \<Rightarrow> bool" where
  "page_reach c \<equiv> reachable (cd_boot c) (cd_enabled c) (cd_handle c) (cd_resume c)"

subsection \<open>Both parts keep what is proved of them\<close>

lemma navigate_reach: "session_reach ls path v \<Longrightarrow> session_reach ls path (navigate xs v)"
proof (induction xs v rule: navigate.induct)
  case (2 t xs v)
  have "session_reach ls path (session_handle (GoTo t) v)"
    by (rule reachable.event [OF "2.prems"]) (simp add: session_enabled_def)
  then show ?case unfolding navigate.simps by (rule "2.IH")
qed simp_all

lemma answered_reach: "session_reach ls path v \<Longrightarrow> session_reach ls path (answered r v)"
  unfolding answered_def using reachable.event [of _ session_enabled session_handle session_resume v GotUnauthorized]
  by (simp add: session_enabled_def)

lemma list_all_update: "list_all P xs \<Longrightarrow> P y \<Longrightarrow> list_all P (xs[j := y])"
  using set_update_subset_insert [of xs j y] by (auto simp: list_all_iff)

definition app_inv :: "('s, 'e, 'k) page_code \<Rightarrow> storage \<Rightarrow> string \<Rightarrow> ('s, 'k) app \<Rightarrow> bool" where
  "app_inv c ls path a = (session_reach ls path (ap_session a) \<and> pred_option (page_reach c) (ap_page a)
     \<and> list_all (page_reach c) (ap_gone a) \<and> (ap_page a \<noteq> None) = (screen_of (st (ap_session a)) = Shell (cd_page c)))"

lemma app_inv_guard:
  assumes "session_reach ls path v" "pred_option (page_reach c) (ap_page a)" "list_all (page_reach c) (ap_gone a)"
  shows "app_inv c ls path (under_guard c v a)"
  using assms by (auto simp: app_inv_def under_guard_def orelse_def intro: reachable.boot split: option.splits)

lemma app_inv_step:
  assumes I: "app_inv c ls path a" and x: "app_do c x a = Some a'"
  shows "app_inv c ls path a'"
proof -
  from I have s: "session_reach ls path (ap_session a)" and p: "pred_option (page_reach c) (ap_page a)"
    and g: "list_all (page_reach c) (ap_gone a)" by (simp_all add: app_inv_def)
  have n: "session_reach ls path (navigated w w' v)" if "session_reach ls path v" for w w' v
    using that unfolding navigated_def by (rule navigate_reach)
  show ?thesis
  proof (cases x)
    case (SessionEvent e)
    then show ?thesis using x s p g by (auto split: if_splits intro: app_inv_guard reachable.event)
  next
    case (SessionReply i r)
    then show ?thesis using x s p g by (auto simp: Let_def split: if_splits intro: app_inv_guard reachable.reply)
  next
    case (PageEvent e)
    then show ?thesis using x s p g
      by (auto simp: Let_def split: if_splits option.splits intro!: app_inv_guard n intro: reachable.event)
  next
    case (PageReply i r)
    then show ?thesis using x s p g
      by (auto simp: Let_def split: if_splits option.splits intro!: app_inv_guard n answered_reach intro: reachable.reply)
  next
    case (GoneReply j i r)
    let ?w = "ap_gone a ! j"
    from GoneReply x have j: "j < length (ap_gone a)" and i: "i < length (calls ?w)" "reply_ok (fst (calls ?w ! i)) r"
      by (auto simp: Let_def split: if_splits)
    then have w: "page_reach c (cd_resume c (snd (calls ?w ! i)) r (take_call i ?w))"
      using g by (intro reachable.reply) (auto simp: list_all_length)
    with g have "list_all (page_reach c) ((ap_gone a)[j := cd_resume c (snd (calls ?w ! i)) r (take_call i ?w)])"
      by (intro list_all_update)
    then show ?thesis using x GoneReply i j s p
      by (auto simp: Let_def split: if_splits intro!: app_inv_guard n answered_reach)
  qed
qed

lemma app_reach_inv: "app_reach c ls path a \<Longrightarrow> app_inv c ls path a"
proof (induction rule: app_reach.induct)
  case app_start
  show ?case unfolding app_boot_def by (rule app_inv_guard) (simp_all add: reachable.boot)
next
  case (app_next a x a')
  then show ?case by (blast intro: app_inv_step)
qed


lemma logout_form: "screen_of s = Shell p \<Longrightarrow> \<not> lg_busy (redirects (logout s))"
proof -
  assume a: "screen_of s = Shell p"
  have g: "screen_of (logout s) = RedirectTo ''/login''"
    using a by (simp add: shell_session) (simp add: screen_of_def logout_def)
  then have "redirects (logout s) = redirect (logout s)"
    by (simp add: redirects_def redirect_rest redirect_login_rest)
  also have "\<dots> = goto ''/login'' (Some (se_path s)) (logout s)"
    using g by (simp add: redirect_def) (simp add: logout_def)
  finally show ?thesis
    using a by (simp add: shell_session goto_def fresh_login_def logout_def)
qed

subsection \<open>Runs\<close>

fun app_play :: "('s, 'e, 'k) page_code \<Rightarrow> 'e app_step list \<Rightarrow> ('s, 'k) app \<Rightarrow> ('s, 'k) app option" where
  "app_play c [] a = Some a"
| "app_play c (x # xs) a = (case app_do c x a of Some a' \<Rightarrow> app_play c xs a' | None \<Rightarrow> None)"

lemma app_play_append: "app_play c (xs @ ys) a = (case app_play c xs a of Some a' \<Rightarrow> app_play c ys a' | None \<Rightarrow> None)"
  by (induction xs arbitrary: a) (simp_all split: option.split)

lemma app_play_reach: "app_reach c ls path a \<Longrightarrow> app_play c xs a = Some a' \<Longrightarrow> app_reach c ls path a'"
  by (induction xs arbitrary: a) (auto split: option.splits intro: app_next)

text \<open>A visitor at the sign-in form with nothing pending, sent there from the page of \<open>c\<close>.\<close>

definition at_login :: "('s, 'e, 'k) page_code \<Rightarrow> string \<Rightarrow> ('s, 'k) app \<Rightarrow> bool" where
  "at_login c path a = (route (se_path (st (ap_session a))) = ToLogin \<and> from_path (st (ap_session a)) = path
     \<and> calls (ap_session a) = [] \<and> \<not> se_loading (st (ap_session a)) \<and> \<not> lg_busy (st (ap_session a))
     \<and> route path = ToShell (cd_page c) \<and> ap_page a = None)"

text \<open>A user on a freshly mounted page.\<close>

definition on_page :: "('s, 'e, 'k) page_code \<Rightarrow> string \<Rightarrow> ('s, 'k) app \<Rightarrow> bool" where
  "on_page c path a = (screen_of (st (ap_session a)) = Shell (cd_page c) \<and> se_path (st (ap_session a)) = path
     \<and> route path = ToShell (cd_page c)
     \<and> calls (ap_session a) = [] \<and> \<not> lg_busy (st (ap_session a)) \<and> ap_page a = Some (cd_boot c))"

definition sign_in :: "'e app_step list" where
  "sign_in = [SessionEvent (TypeUsername ''admin''), SessionEvent (TypePassword ''secret''), SessionEvent SubmitLogin,
     SessionReply 0 (Inr [PLogin demo_login])]"

lemma sign_in_play:
  assumes "at_login c path a"
  shows "\<exists>a'. app_play c sign_in a = Some a' \<and> on_page c path a' \<and> ap_gone a' = ap_gone a"
proof -
  obtain s es where v: "ap_session a = \<lparr>st = s, effs = es, calls = []\<rparr>"
    using assms by (cases "ap_session a") (auto simp: at_login_def)
  with assms have s: "route (se_path s) = ToLogin" "from_path s = path" "\<not> se_loading s" "\<not> lg_busy s"
    "route path = ToShell (cd_page c)" "ap_page a = None" by (simp_all add: at_login_def)
  let ?s3 = "s\<lparr>lg_username := ''admin'', lg_password := ''secret'', lg_error := None, lg_busy := True\<rparr>"
  let ?a = "\<lambda>s cs. a\<lparr>ap_session := \<lparr>st = s, effs = es, calls = cs\<rparr>\<rparr>"
  have guard: "under_guard c w b = b\<lparr>ap_session := w\<rparr>" if "route (se_path (st w)) = ToLogin" "ap_page b = None" for w b
    using that by (cases b) (simp add: under_guard_def screen_of_def)
  have trim: "js_trim ''admin'' = ''admin''" by code_simp
  have 1: "app_do c (SessionEvent (TypeUsername ''admin'')) a = Some (?a (s\<lparr>lg_username := ''admin''\<rparr>) [])"
    using s v by (simp add: login_form_enabled upd_def guard)
  have 2: "app_do c (SessionEvent (TypePassword ''secret'')) (?a (s\<lparr>lg_username := ''admin''\<rparr>) [])
      = Some (?a (s\<lparr>lg_username := ''admin'', lg_password := ''secret''\<rparr>) [])"
    using s by (simp add: login_form_enabled upd_def guard)
  have 3: "app_do c (SessionEvent SubmitLogin) (?a (s\<lparr>lg_username := ''admin'', lg_password := ''secret''\<rparr>) [])
      = Some (?a ?s3 [([PostLogin ''admin'' ''secret''], KLogin (lg_mount s) path)])"
    using s by (simp add: login_form_enabled upd_def call_def guard trim from_path_def)
  let ?s4 = "(login_done demo_login ?s3)\<lparr>se_path := path, se_from := None, lg_busy := False\<rparr>"
  have settled: "login_settled (lg_mount s) path (Inr [PLogin demo_login]) ?s3 = ?s4"
    using s by (simp add: login_settled_def goto_def on_mount_def login_done_def)
  have rest: "redirects ?s4 = ?s4"
    using s by (intro route_shell_rest [of _ "cd_page c" "l_user demo_login"]) (simp_all add: login_done_def)
  have shown: "screen_of ?s4 = Shell (cd_page c)"
    using s by (simp add: screen_of_def login_done_def)
  have 4: "app_do c (SessionReply 0 (Inr [PLogin demo_login])) (?a ?s3 [([PostLogin ''admin'' ''secret''], KLogin (lg_mount s) path)])
      = Some (a\<lparr>ap_session := \<lparr>st = ?s4, effs = es, calls = []\<rparr>, ap_page := Some (cd_boot c)\<rparr>)"
    using s(6) rest shown by (simp add: reply_ok_def take_call_def upd_def hook_def settled under_guard_def)
  have "app_play c sign_in a = Some (a\<lparr>ap_session := \<lparr>st = ?s4, effs = es, calls = []\<rparr>, ap_page := Some (cd_boot c)\<rparr>)"
    unfolding sign_in_def app_play.simps 1 option.case 2 3 4 by (rule refl)
  then show ?thesis using shown s(5) by (simp add: on_page_def)
qed

lemma log_out_play:
  assumes "on_page c path a"
  shows "\<exists>a'. app_do c (SessionEvent LogOut) a = Some a' \<and> at_login c path a' \<and> ap_gone a' = ap_gone a @ [cd_boot c]"
proof -
  from assms have s: "screen_of (st (ap_session a)) = Shell (cd_page c)" "se_path (st (ap_session a)) = path"
    "calls (ap_session a) = []" "\<not> lg_busy (st (ap_session a))" "ap_page a = Some (cd_boot c)" "route path = ToShell (cd_page c)"
    by (simp_all add: on_page_def)
  note out = logout_to_login [OF s(1)]
  let ?v = "session_handle LogOut (ap_session a)"
  have "route (se_path (redirects (logout (st (ap_session a))))) = ToLogin"
    using out(1) by (auto simp: screen_of_def split: target.splits if_splits option.splits)
  moreover have "\<not> se_loading (st (ap_session a))" using s(1) by (simp add: shell_session)
  moreover have "\<not> lg_busy (redirects (logout (st (ap_session a))))" using logout_form [OF s(1)] .
  moreover have "app_do c (SessionEvent LogOut) a = Some (under_guard c ?v a)"
    using s(1) by (simp add: session_enabled_def)
  ultimately show ?thesis using out s
    by (intro exI [of _ "under_guard c ?v a"]) (simp add: at_login_def under_guard_def)
qed

lemma boot_at_login:
  assumes "route path = ToShell (cd_page c)"
  shows "at_login c path (app_boot c Map.empty path) \<and> ap_gone (app_boot c Map.empty path) = []"
proof -
  define s where "s = \<lparr>se_user = None, se_loading = False, se_store = Map.empty, se_path = path, se_from = None,
    lg_mount = 0, lg_username = '''', lg_password = '''', lg_show = False, lg_error = None, lg_busy = False\<rparr>"
  have b: "session_boot Map.empty path = fresh (redirects s)"
    by (simp add: session_boot_def auth_header_def getToken_def Let_def s_def upd_def fresh_def)
  have g: "screen_of s = RedirectTo ''/login''" using assms by (simp add: screen_of_def s_def)
  then have "redirects s = redirect s" by (simp add: redirects_def redirect_rest redirect_login_rest)
  also have "\<dots> = goto ''/login'' (Some path) s" using g by (simp add: redirect_def) (simp add: s_def)
  finally have "redirects s = (fresh_login s)\<lparr>se_path := ''/login'', se_from := Some path\<rparr>"
    using assms by (simp add: goto_def s_def fresh_login_def)
  then show ?thesis using assms
    by (simp add: app_boot_def b at_login_def under_guard_def screen_of_def from_path_def fresh_login_def s_def)
qed


text \<open>The run of a page alone, as long as it says nothing to the session, is one of the application.\<close>

fun quiet :: "('s, 'e, 'k) page_code \<Rightarrow> 'e stimulus list \<Rightarrow> ('s, 'k) world \<Rightarrow> bool" where
  "quiet c [] w = True"
| "quiet c (Ev e # xs) w = (effs (cd_handle c e w) = effs w \<and> quiet c xs (cd_handle c e w))"
| "quiet c (Settle i r # xs) w = (\<not> unauthorized r \<and> effs (cd_resume c (snd (calls w ! i)) r (take_call i w)) = effs w
     \<and> quiet c xs (cd_resume c (snd (calls w ! i)) r (take_call i w)))"

fun app_step_of :: "'e stimulus \<Rightarrow> 'e app_step" where
  "app_step_of (Ev e) = PageEvent e"
| "app_step_of (Settle i r) = PageReply i r"

lemma under_guard_same:
  "screen_of (st (ap_session a)) = Shell (cd_page c) \<Longrightarrow> ap_page a = Some w \<Longrightarrow> under_guard c (ap_session a) (a\<lparr>ap_page := Some w'\<rparr>) = a\<lparr>ap_page := Some w'\<rparr>"
  by (cases a) (simp add: under_guard_def)

lemma quiet_play:
  assumes "screen_of (st (ap_session a)) = Shell (cd_page c)" "ap_page a = Some w"
    "play (cd_enabled c) (cd_handle c) (cd_resume c) xs w = Some w'" "quiet c xs w"
  shows "app_play c (map app_step_of xs) a = Some (a\<lparr>ap_page := Some w'\<rparr>)"
  using assms
proof (induction xs arbitrary: a w)
  case Nil
  then show ?case by (cases a) simp
next
  case (Cons x xs)
  show ?case
  proof (cases x)
    case (Ev e)
    with Cons show ?thesis
      by (auto simp: Let_def navigated_def under_guard_same split: if_splits)
  next
    case (Settle i r)
    with Cons show ?thesis
      by (auto simp: Let_def navigated_def answered_def under_guard_same split: if_splits)
  qed
qed

subsection \<open>Requests of pages left behind\<close>

lemma under_guard_session [simp]: "ap_session (under_guard c v a) = v"
  by (simp add: under_guard_def)

lemma navigated_quiet: "effs w' = effs w @ xs \<Longrightarrow> (\<And>t. Navigate t \<notin> set xs) \<Longrightarrow> navigated w w' v = v"
proof -
  have "(\<forall>t. Navigate t \<notin> set xs) \<Longrightarrow> navigate xs v = v" for xs and v :: "(session, session_kont) world"
    by (induction xs v rule: navigate.induct) auto
  then show "effs w' = effs w @ xs \<Longrightarrow> (\<And>t. Navigate t \<notin> set xs) \<Longrightarrow> navigated w w' v = v"
    by (simp add: navigated_def)
qed

text \<open>A segment that asks for no navigation.\<close>

definition stay :: "('s, 'k) world \<Rightarrow> ('t, 'l) world \<Rightarrow> bool" where
  "stay w w' = (\<exists>xs. effs w' = effs w @ xs \<and> (\<forall>t. Navigate t \<notin> set xs))"

lemma stay_same [simp, intro]: "effs w' = effs w \<Longrightarrow> stay w w'"
  by (simp add: stay_def)

lemma stay_trans: "stay w w' \<Longrightarrow> stay w' w'' \<Longrightarrow> stay w w''"
  unfolding stay_def by (elim exE conjE, rename_tac xs ys, rule_tac x = "xs @ ys" in exI) auto

lemma stay_steps [simp]:
  "stay w (upd f w') = stay w w'" "stay w (call rs k w') = stay w w'"
  "(\<And>t. x \<noteq> Navigate t) \<Longrightarrow> stay w w' \<Longrightarrow> stay w (emit x w')"
proof -
  show "stay w (upd f w') = stay w w'" "stay w (call rs k w') = stay w w'"
    by (simp_all add: stay_def upd_def call_def)
  assume "\<And>t. x \<noteq> Navigate t" "stay w w'"
  moreover have "stay w' (emit x w')" if "\<forall>t. x \<noteq> Navigate t"
    unfolding stay_def using that by (intro exI [of _ "[x]"]) (auto simp: emit_def)
  ultimately show "stay w (emit x w')" by (blast intro: stay_trans)
qed

lemma stay_embed:
  assumes a: "\<And>g. stay (fresh g) (a (fresh g))" and h: "\<And>x v. (\<And>t. x \<noteq> Navigate t) \<Longrightarrow> stay v (h x v)"
  shows "stay w (embed get put tag h a w)"
proof -
  let ?c = "a (fresh (get (st w)))"
  have r: "\<forall>t. Navigate t \<notin> set xs \<Longrightarrow> stay v (run (map h xs) v)" for xs v
  proof (induction xs arbitrary: v)
    case (Cons x xs)
    then have "stay v (h x v)" by (intro h) auto
    moreover have "stay (h x v) (run (map h xs) (h x v))" using Cons by simp
    ultimately show ?case by (auto intro: stay_trans)
  qed simp
  have "\<forall>t. Navigate t \<notin> set (effs ?c)"
    using a [of "get (st w)"] by (auto simp: stay_def fresh_def)
  then have "stay w (run (map h (effs ?c)) w1)" if "effs w1 = effs w" for w1
    by (rule stay_trans [OF stay_same [OF that] r])
  then show ?thesis by (simp add: embed_def Let_def)
qed

text \<open>The contract of a page whose continuations do not navigate when their request failed.\<close>

locale stays_on_error =
  fixes c :: "('s, 'e, 'k) page_code"
  assumes stays: "stay w (cd_resume c k (Inl e) w)"
begin

lemma failed_navigates: "navigated w (cd_resume c k (Inl e) (take_call i w)) v = v"
  using stays [of "take_call i w" k e] navigated_quiet [of "cd_resume c k (Inl e) (take_call i w)" w]
  by (auto simp: stay_def take_call_def)

lemma gone_unauthorized:
  assumes a: "app_reach c ls path a" and shown: "screen_of (st (ap_session a)) = Shell q"
    and late: "j < length (ap_gone a)" "i < length (calls (ap_gone a ! j))"
  shows "\<exists>a'. app_do c (GoneReply j i (Inl (ApiError code msg 401))) a = Some a' \<and> app_reach c ls path a'
    \<and> screen_of (st (ap_session a')) = LoginScreen \<and> se_user (st (ap_session a')) = None
    \<and> getToken (se_store (st (ap_session a'))) = None \<and> ap_page a' = None"
proof -
  let ?e = "ApiError code msg 401" and ?w = "ap_gone a ! j"
  define w' where "w' = cd_resume c (snd (calls ?w ! i)) (Inl ?e) (take_call i ?w)"
  define v where "v = session_handle GotUnauthorized (ap_session a)"
  define a' where "a' = under_guard c v (a\<lparr>ap_gone := (ap_gone a)[j := w']\<rparr>)"
  have do: "app_do c (GoneReply j i (Inl ?e)) a = Some a'"
    using late by (simp add: Let_def reply_ok_def answered_def unauthorized_def failed_navigates a'_def v_def w'_def)
  moreover have "app_reach c ls path a'" by (rule app_next [OF a do])
  moreover have out: "screen_of (st v) = LoginScreen" "se_user (st v) = None" "getToken (se_store (st v)) = None"
    using logout_to_login [OF shown] by (simp_all add: v_def)
  moreover from out have "ap_session a' = v" "ap_page a' = None"
    by (simp_all add: a'_def under_guard_def)
  ultimately show ?thesis by (intro exI [of _ a'] conjI) simp_all
qed

end

interpretation tasks: stays_on_error "tasks_code fmt" for fmt
proof
  show "stay w (cd_resume (tasks_code fmt) k (Inl e) w)" for w k e
    by (cases k) (simp_all add: tasks_code_def tk_load_def)
qed

lemma stay_sp_polled: "stay w (sp_polled r w)"
  by (simp add: sp_polled_def sp_remount_def Let_def)

lemma stay_np_polled: "stay w (np_polled r w)"
proof -
  have emits: "(\<And>t. x \<noteq> Navigate t) \<Longrightarrow> stay v (np_edit_effect x v)" for x v
    by (cases x) simp_all
  have r: "stay v (np_remount v)" for v
    unfolding np_remount_def in_edit_def
    by (auto split: option.split intro!: stay_embed emits simp: skip_def)
  have "stay w (np_remount (upd f w))" for f
    by (rule stay_trans [OF _ r]) simp
  then show ?thesis by (simp add: np_polled_def Let_def)
qed

interpretation storage: stays_on_error "storage_code fmt" for fmt
proof
  have pool: "stay w (in_pool m (cp_resume k (Inl e)) w)" for w m k e
    unfolding in_pool_def by (rule stay_embed, cases k, simp, rename_tac x v, case_tac x) simp_all
  have iso: "stay w (in_iso m (il_resume k (Inl e)) w)" for w m k e
    unfolding in_iso_def by (rule stay_embed, cases k) (simp_all add: il_polled_def)
  show "stay w (cd_resume (storage_code fmt) k (Inl e) w)" for w k e
    by (cases k) (simp_all add: storage_code_def stay_sp_polled pool iso)
qed

interpretation network: stays_on_error network_code
proof
  have create: "stay w (in_create m (cn_resume k (Inl e)) w)" for w m k e
    unfolding in_create_def by (rule stay_embed, cases k, simp, simp, rename_tac x v, case_tac x) simp_all
  have edit: "stay w (in_edit m (en_resume k (Inl e)) w)" for w m k e
    unfolding in_edit_def by (rule stay_embed, cases k, simp, simp, rename_tac x v, case_tac x) simp_all
  show "stay w (cd_resume network_code k (Inl e) w)" for w k e
    by (cases k) (simp_all add: network_code_def stay_np_polled create edit)
qed

interpretation backups: stays_on_error "backups_code fmt" for fmt
proof
  have form: "stay w (in_form (sf_resume k (Inl e)) w)" for w k e
    unfolding in_form_def
    by (rule stay_embed, cases k, simp, rename_tac x v, case_tac x) (simp_all add: bp_refreshAll_def load_points_def load_schedules_def)
  show "stay w (cd_resume (backups_code fmt) k (Inl e) w)" for w k e
    by (cases k) (simp_all add: backups_code_def form bp_change_def load_points_def Let_def)
qed

text \<open>
  C23. A request of an earlier session can end a later one: while any page is shown to a user
  who has just signed in, an answer of status 401 to a request that a page left behind sent
  with its old token removes the new token and shows the sign-in form.
\<close>

theorem late_unauthorized:
  fixes a :: "(tasks_page, tasks_page_kont) app"
  assumes a: "app_reach (tasks_code fmt) ls path a" and shown: "screen_of (st (ap_session a)) = Shell q"
    and late: "j < length (ap_gone a)" "i < length (calls (ap_gone a ! j))"
  shows "\<exists>a'. app_do (tasks_code fmt) (GoneReply j i (Inl (ApiError code msg 401))) a = Some a'
    \<and> app_reach (tasks_code fmt) ls path a'
    \<and> screen_of (st (ap_session a')) = LoginScreen \<and> se_user (st (ap_session a')) = None
    \<and> getToken (se_store (st (ap_session a'))) = None \<and> ap_page a' = None"
  by (rule tasks.gone_unauthorized [OF assms])

theorem late_unauthorized_witness:
  "\<exists>a a'. app_reach (tasks_code id) Map.empty ''/tasks'' a
     \<and> screen_of (st (ap_session a)) = Shell PgTasks
     \<and> app_do (tasks_code id) (GoneReply 0 0 (Inl (ApiError ''UNAUTHORIZED'' ''Authentication required'' 401))) a = Some a'
     \<and> screen_of (st (ap_session a')) = LoginScreen"
proof -
  let ?c = "tasks_code id"
  have r: "route ''/tasks'' = ToShell (cd_page ?c)" by (simp add: tasks_code_def route_def route_segments_def segments_def)
  from boot_at_login [OF r] sign_in_play obtain a1 where
    a1: "app_play ?c sign_in (app_boot ?c Map.empty ''/tasks'') = Some a1" "on_page ?c ''/tasks'' a1" "ap_gone a1 = []" by metis
  from log_out_play [OF a1(2)] obtain a2 where
    a2: "app_do ?c (SessionEvent LogOut) a1 = Some a2" "at_login ?c ''/tasks'' a2" "ap_gone a2 = [cd_boot ?c]" using a1(3) by auto
  from sign_in_play [OF a2(2)] obtain a where
    a: "app_play ?c sign_in a2 = Some a" "on_page ?c ''/tasks'' a" "ap_gone a = [cd_boot ?c]" using a2(3) by auto
  have reach: "app_reach ?c Map.empty ''/tasks'' a"
    by (rule app_play_reach [OF app_next [OF app_play_reach [OF app_start a1(1)] a2(1)] a(1)])
  have shown: "screen_of (st (ap_session a)) = Shell PgTasks" using a(2) by (simp add: on_page_def tasks_code_def)
  have late: "0 < length (ap_gone a)" "0 < length (calls (ap_gone a ! 0))"
    using a(3) by (simp_all add: tasks_code_def tk_boot_def tk_load_def)
  from late_unauthorized [OF reach shown late] reach shown show ?thesis by metis
qed

lemma vd_gone_effs [simp]: "effs (vd_change i (vdp_gone_update (\<lambda>_. True)) w) = effs w"
  by (simp add: vd_change_def Let_def vd_shown_def)

text \<open>
  A deletion that succeeds after the user has left the page of the machine takes the user
  away from whatever page is shown: the continuation still navigates to the list of machines.
\<close>

theorem late_navigation:
  fixes a :: "(vm_details, vm_details_kont) app"
  assumes a: "app_reach (details_code i now fmt) ls path a" and shown: "screen_of (st (ap_session a)) = Shell q"
    and late: "j < length (ap_gone a)" "n < length (calls (ap_gone a ! j))"
      "calls (ap_gone a ! j) ! n = ([DeleteVm i d], DkDelete d done_text)"
  shows "\<exists>a'. app_do (details_code i now fmt) (GoneReply j n (Inr [PUndefined])) a = Some a'
    \<and> app_reach (details_code i now fmt) ls path a'
    \<and> se_path (st (ap_session a')) = ''/vms'' \<and> screen_of (st (ap_session a')) = Shell PgVms
    \<and> se_user (st (ap_session a')) = se_user (st (ap_session a))"
proof -
  let ?r = "Inr [PUndefined] :: reply" and ?w = "ap_gone a ! j"
  define w' where "w' = vd_resume i (DkDelete d done_text) ?r (take_call n ?w)"
  define v where "v = session_handle (GoTo ''/vms'') (ap_session a)"
  define a' where "a' = under_guard (details_code i now fmt) v (a\<lparr>ap_gone := (ap_gone a)[j := w']\<rparr>)"
  have e: "effs w' = effs ?w @ [Toast TSuccess done_text, Navigate ''/vms'']"
    by (simp add: w'_def)
  have do: "app_do (details_code i now fmt) (GoneReply j n ?r) a = Some a'"
    using late e by (simp add: Let_def reply_ok_def details_code_def answered_def unauthorized_def navigated_def a'_def v_def w'_def [symmetric]
        del: vd_resume.simps)
  moreover have "app_reach (details_code i now fmt) ls path a'" by (rule app_next [OF a do])
  moreover have "route ''/vms'' = ToShell PgVms" by (simp add: route_def route_segments_def segments_def)
  then have g: "screen_of (goto ''/vms'' None (st (ap_session a))) = Shell PgVms"
    using shown by (simp add: shell_session)
  then have "st v = goto ''/vms'' None (st (ap_session a))"
    by (simp add: v_def redirects_def redirect_rest)
  moreover have "ap_session a' = v" by (simp add: a'_def)
  ultimately show ?thesis using g by (intro exI [of _ a'] conjI) simp_all
qed

definition stopped_vm :: vm where
  "stopped_vm = small_vm\<lparr>v_state := Stopped\<rparr>"

lemma stopped_vm_sel [simp]: "v_id stopped_vm = ''alpine''" "v_state stopped_vm = Stopped"
  by (simp_all add: stopped_vm_def)

definition delete_script :: "vm_details_event stimulus list" where
  "delete_script = [Settle 0 (Inr [PVm stopped_vm]), Ev (VdAsk CDelete), Ev VdConfirm]"

lemma delete_play:
  "\<exists>w text_done. play (vd_enabled id) (vd_handle ''alpine'') (vd_resume ''alpine'') delete_script (vd_boot ''alpine'' 0) = Some w
    \<and> quiet (details_code ''alpine'' 0 id) delete_script (vd_boot ''alpine'' 0)
    \<and> 1 < length (calls w) \<and> calls w ! 1 = ([DeleteVm ''alpine'' False], DkDelete False text_done)"
  by (simp add: delete_script_def vd_boot_def reply_ok_def vd_polled_def vd_change_def vd_mount_def Let_def
        in_history_def embed_def vm_details_init_def vd_shown_def vd_error_def vm_of_def poll_init_def vd_panel_def panel_sync_def
        vd_enabled_buttons vd_delete_def details_code_def unauthorized_def)

theorem late_navigation_witness:
  "\<exists>a a'. app_reach (details_code ''alpine'' 0 id) Map.empty ''/vms/alpine'' a
     \<and> screen_of (st (ap_session a)) = Shell PgTasks
     \<and> app_do (details_code ''alpine'' 0 id) (GoneReply 0 1 (Inr [PUndefined])) a = Some a'
     \<and> screen_of (st (ap_session a')) = Shell PgVms"
proof -
  let ?c = "details_code ''alpine'' 0 id"
  have r: "route ''/vms/alpine'' = ToShell (cd_page ?c)"
    by (simp add: details_code_def route_def route_segments_def segments_def)
  from boot_at_login [OF r] sign_in_play obtain a1 where
    a1: "app_play ?c sign_in (app_boot ?c Map.empty ''/vms/alpine'') = Some a1" "on_page ?c ''/vms/alpine'' a1" "ap_gone a1 = []" by metis
  obtain w text_done where w: "play (cd_enabled ?c) (cd_handle ?c) (cd_resume ?c) delete_script (cd_boot ?c) = Some w"
    "quiet ?c delete_script (cd_boot ?c)" "1 < length (calls w)" "calls w ! 1 = ([DeleteVm ''alpine'' False], DkDelete False text_done)"
    using delete_play by (auto simp: details_code_def)
  have s1: "screen_of (st (ap_session a1)) = Shell (cd_page ?c)" "ap_page a1 = Some (cd_boot ?c)"
    using a1(2) by (simp_all add: on_page_def)
  note a2 = quiet_play [OF s1 w(1,2)]
  let ?a2 = "a1\<lparr>ap_page := Some w\<rparr>" and ?v = "session_handle (GoTo ''/tasks'') (ap_session a1)"
  have p: "route ''/tasks'' = ToShell PgTasks" by (simp add: route_def route_segments_def segments_def)
  then have g: "screen_of (goto ''/tasks'' None (st (ap_session a1))) = Shell PgTasks"
    using s1(1) by (simp add: shell_session)
  then have v: "screen_of (st ?v) = Shell PgTasks" by (simp add: redirects_def redirect_rest)
  define a where "a = under_guard ?c ?v ?a2"
  have a: "app_do ?c (SessionEvent (GoTo ''/tasks'')) ?a2 = Some a"
    by (simp add: a_def session_enabled_def)
  have reach: "app_reach ?c Map.empty ''/vms/alpine'' a"
    by (rule app_next [OF app_play_reach [OF app_play_reach [OF app_start a1(1)] a2] a])
  have shown: "screen_of (st (ap_session a)) = Shell PgTasks" using v by (simp add: a_def)
  have "ap_gone a = [w]" using v a1(3) by (simp add: a_def under_guard_def details_code_def)
  then have late: "0 < length (ap_gone a)" "1 < length (calls (ap_gone a ! 0))"
    "calls (ap_gone a ! 0) ! 1 = ([DeleteVm ''alpine'' False], DkDelete False text_done)" using w(3,4) by simp_all
  from late_navigation [OF reach shown late] reach shown show ?thesis by metis
qed

end
