(* ===== verification/Users.thy ===== *)
theory Users
  imports Server Runtime
begin

text \<open>
  The user database of the server (\<open>backend/internal/auth/auth.go\<close>) and the handlers that the
  settings page and the sign-in reach (\<open>backend/internal/api/users_handlers.go\<close>,
  \<open>auth_handlers.go\<close>). The table is a list in the order of the ids. bcrypt and the signing of
  tokens are libraries: hashing, the comparison with a hash and the subject of a valid token
  are arguments. Failures of the database are left out.
\<close>

subsection \<open>The table\<close>

record row =
  rw_user :: user
  rw_hash :: string

record users_db =
  db_rows :: "row list"
  db_seq :: int

record bcrypt =
  bc_gen :: "string \<Rightarrow> string option"
  bc_ok :: "string \<Rightarrow> string \<Rightarrow> bool"

datatype auth_error = ErrUserExists | ErrLastAdmin | ErrNoRows | ErrInvalidCredentials | ErrInvalidToken | ErrHash

definition byID :: "int \<Rightarrow> users_db \<Rightarrow> row option" where
  "byID i db = find (\<lambda>x. u_id (rw_user x) = i) (db_rows db)"

definition byUsername :: "string \<Rightarrow> users_db \<Rightarrow> row option" where
  "byUsername n db = find (\<lambda>x. u_username (rw_user x) = n) (db_rows db)"

definition is_admin :: "row \<Rightarrow> bool" where
  "is_admin x = (u_role (rw_user x) = Admin)"

definition count_admins :: "users_db \<Rightarrow> nat" where
  "count_admins db = length (filter is_admin (db_rows db))"

subsection \<open>The service\<close>

definition CreateUser :: "bcrypt \<Rightarrow> string \<Rightarrow> string \<Rightarrow> string \<Rightarrow> role \<Rightarrow> users_db \<Rightarrow> (auth_error + user) \<times> users_db" where
  "CreateUser B now n p r db = (case bc_gen B p of
     None \<Rightarrow> (Inl ErrHash, db)
   | Some h \<Rightarrow> if byUsername n db \<noteq> None then (Inl ErrUserExists, db)
       else (let u = \<lparr>u_id = db_seq db + 1, u_username = n, u_role = r, u_createdAt = now\<rparr>
             in (Inr u, db\<lparr>db_rows := db_rows db @ [\<lparr>rw_user = u, rw_hash = h\<rparr>], db_seq := db_seq db + 1\<rparr>)))"

definition BootstrapAdmin :: "bcrypt \<Rightarrow> string \<Rightarrow> string \<Rightarrow> string \<Rightarrow> string \<Rightarrow> users_db \<Rightarrow> (auth_error option) \<times> users_db" where
  "BootstrapAdmin B now username password generated db =
     (if db_rows db \<noteq> [] then (None, db)
      else (case CreateUser B now (if username = '''' then ''admin'' else username)
              (if password = '''' then generated else password) Admin db of
         (Inl e, db') \<Rightarrow> (Some e, db') | (Inr u, db') \<Rightarrow> (None, db')))"

definition Login :: "bcrypt \<Rightarrow> string \<Rightarrow> string \<Rightarrow> users_db \<Rightarrow> auth_error + user" where
  "Login B n p db = (case byUsername n db of
     None \<Rightarrow> Inl ErrInvalidCredentials
   | Some x \<Rightarrow> if bc_ok B (rw_hash x) p then Inr (rw_user x) else Inl ErrInvalidCredentials)"

text \<open>\<open>subject tok\<close> is the \<open>sub\<close> claim of a token whose signature and expiry are valid.\<close>

definition Verify :: "(string \<Rightarrow> string option) \<Rightarrow> string \<Rightarrow> users_db \<Rightarrow> auth_error + user" where
  "Verify subject tok db = (case subject tok of
     None \<Rightarrow> Inl ErrInvalidToken
   | Some n \<Rightarrow> if n = '''' then Inl ErrInvalidToken
       else (case byUsername n db of None \<Rightarrow> Inl ErrInvalidToken | Some x \<Rightarrow> Inr (rw_user x)))"

definition delete_row :: "int \<Rightarrow> users_db \<Rightarrow> users_db" where
  "delete_row i db = db\<lparr>db_rows := filter (\<lambda>x. u_id (rw_user x) \<noteq> i) (db_rows db)\<rparr>"

definition DeleteUserRow :: "int \<Rightarrow> int \<Rightarrow> users_db \<Rightarrow> auth_error option \<times> users_db" where
  "DeleteUserRow callerID i db =
     (if callerID = i then (Some ErrLastAdmin, db)
      else if length (filter (\<lambda>x. is_admin x \<and> u_id (rw_user x) = i) (db_rows db)) = 1 \<and> count_admins db \<le> 1
      then (Some ErrLastAdmin, db)
      else if byID i db = None then (Some ErrNoRows, db)
      else (None, delete_row i db))"

definition set_hash :: "int \<Rightarrow> string \<Rightarrow> users_db \<Rightarrow> users_db" where
  "set_hash i h db = db\<lparr>db_rows := map (\<lambda>x. if u_id (rw_user x) = i then x\<lparr>rw_hash := h\<rparr> else x) (db_rows db)\<rparr>"

definition UpdatePassword :: "bcrypt \<Rightarrow> int \<Rightarrow> string \<Rightarrow> users_db \<Rightarrow> auth_error option \<times> users_db" where
  "UpdatePassword B i p db = (case bc_gen B p of
     None \<Rightarrow> (Some ErrHash, db)
   | Some h \<Rightarrow> if byID i db = None then (Some ErrNoRows, db) else (None, set_hash i h db))"

definition ChangeOwnPassword :: "bcrypt \<Rightarrow> int \<Rightarrow> string \<Rightarrow> string \<Rightarrow> users_db \<Rightarrow> auth_error option \<times> users_db" where
  "ChangeOwnPassword B i cur new db = (case byID i db of
     None \<Rightarrow> (Some ErrNoRows, db)
   | Some x \<Rightarrow> if bc_ok B (rw_hash x) cur then UpdatePassword B i new db else (Some ErrInvalidCredentials, db))"

subsection \<open>The handlers\<close>

text \<open>\<open>withAuth\<close>: the caller of a request with a token.\<close>

definition withAuth :: "(string \<Rightarrow> string option) \<Rightarrow> string \<Rightarrow> users_db \<Rightarrow> user option" where
  "withAuth subject tok db = (case Verify subject tok db of Inr u \<Rightarrow> Some u | Inl e \<Rightarrow> None)"

definition internal_error :: js_error where
  "internal_error = writeError (Refusal ''INTERNAL_ERROR'' '''')"

definition error_reply :: "string \<Rightarrow> string \<Rightarrow> reply" where
  "error_reply code msg = Inl (writeError (Refusal code msg))"

definition no_content :: "auth_error option \<Rightarrow> (auth_error \<Rightarrow> reply) \<Rightarrow> reply" where
  "no_content e f = (case e of None \<Rightarrow> Inr [PUndefined] | Some x \<Rightarrow> f x)"

definition user_not_found :: "auth_error \<Rightarrow> reply" where
  "user_not_found e = (if e = ErrNoRows then error_reply ''USER_NOT_FOUND'' ''User was not found'' else Inl internal_error)"

text \<open>The requests these handlers serve, past the checks of \<open>Server\<close>.\<close>

fun users_handle :: "bcrypt \<Rightarrow> string \<Rightarrow> user \<Rightarrow> request \<Rightarrow> users_db \<Rightarrow> (reply \<times> users_db) option" where
  "users_handle B now me GetUsers db = Some (Inr [PUsers (map rw_user (db_rows db)) (int (length (db_rows db)))], db)"
| "users_handle B now me (PostUser n p r) db = Some (case CreateUser B now (js_trim n) p r db of
     (Inl e, db') \<Rightarrow> (if e = ErrUserExists then error_reply ''USER_ALREADY_EXISTS'' ''A user with this username already exists''
        else Inl internal_error, db')
   | (Inr u, db') \<Rightarrow> (Inr [PUser u], db'))"
| "users_handle B now me (DeleteUser i) db = Some (let (e, db') = DeleteUserRow (u_id me) i db in
     (no_content e (\<lambda>x. if x = ErrLastAdmin then error_reply ''LAST_ADMIN'' ''Cannot delete yourself or the last admin user''
        else user_not_found x), db'))"
| "users_handle B now me (PutUserPassword i p) db = Some (let (e, db') = UpdatePassword B i p db in
     (no_content e user_not_found, db'))"
| "users_handle B now me (PutOwnPassword cur new) db = Some (let (e, db') = ChangeOwnPassword B (u_id me) cur new db in
     (no_content e (\<lambda>x. if x = ErrInvalidCredentials then error_reply ''INVALID_CREDENTIALS'' ''Current password is incorrect''
        else Inl internal_error), db'))"
| "users_handle B now me GetMe db = Some (Inr [PUser me], db)"
| "users_handle B now me q db = None"

definition users_serve :: "bcrypt \<Rightarrow> string \<Rightarrow> user \<Rightarrow> request \<Rightarrow> users_db \<Rightarrow> (reply \<times> users_db) option" where
  "users_serve B now me q db = (case boundary (Some me) q of
     Some x \<Rightarrow> Some (Inl (writeError x), db)
   | None \<Rightarrow> users_handle B now me q db)"

text \<open>\<open>sign\<close> makes the token of a user; it is valid for 24 hours.\<close>

definition login_answer :: "bcrypt \<Rightarrow> (user \<Rightarrow> string) \<Rightarrow> string \<Rightarrow> string \<Rightarrow> users_db \<Rightarrow> reply" where
  "login_answer B sign n p db = (case boundary None (PostLogin n p) of
     Some x \<Rightarrow> Inl (writeError x)
   | None \<Rightarrow> (case Login B n p db of
       Inl e \<Rightarrow> error_reply ''INVALID_CREDENTIALS'' ''Invalid username or password''
     | Inr u \<Rightarrow> Inr [PLogin \<lparr>l_token = sign u, l_tokenType = ''Bearer'', l_expiresInSeconds = 86400, l_user = u\<rparr>]))"

subsection \<open>What the table keeps\<close>

definition db_wf :: "users_db \<Rightarrow> bool" where
  "db_wf db = (distinct (map (\<lambda>x. u_id (rw_user x)) (db_rows db)) \<and> distinct (map (\<lambda>x. u_username (rw_user x)) (db_rows db))
     \<and> list_all (\<lambda>x. 1 \<le> u_id (rw_user x) \<and> u_id (rw_user x) \<le> db_seq db) (db_rows db) \<and> 0 \<le> db_seq db)"

definition db_ok :: "users_db \<Rightarrow> bool" where
  "db_ok db = (db_wf db \<and> 0 < count_admins db)"

lemma find_NoneE: "find P xs = None \<longleftrightarrow> (\<forall>x \<in> set xs. \<not> P x)"
  by (auto simp: find_None_iff)

lemma find_SomeD: "find P xs = Some x \<Longrightarrow> x \<in> set xs \<and> P x"
  by (auto simp: find_Some_iff)

lemma CreateUser_wf:
  assumes "db_wf db" "CreateUser B now n p r db = (e, db')"
  shows "db_wf db' \<and> count_admins db \<le> count_admins db' \<and> set (map rw_user (db_rows db)) \<subseteq> set (map rw_user (db_rows db'))"
  using assms
  by (fastforce simp: CreateUser_def db_wf_def Let_def byUsername_def find_NoneE count_admins_def list_all_iff
      split: option.splits if_splits)

lemma set_hash_users [simp]: "map rw_user (db_rows (set_hash i h db)) = map rw_user (db_rows db)"
  by (simp add: set_hash_def)

lemma same_users:
  assumes "map rw_user (db_rows db') = map rw_user (db_rows db)" "db_seq db' = db_seq db"
  shows "db_wf db' = db_wf db" "count_admins db' = count_admins db"
proof -
  have m: "map (\<lambda>x. f (rw_user x)) (db_rows db') = map (\<lambda>x. f (rw_user x)) (db_rows db)" for f :: "user \<Rightarrow> 'b"
    using arg_cong [OF assms(1), of "map f"] by (simp add: comp_def)
  have l: "list_all (\<lambda>x. P (rw_user x)) (db_rows db') = list_all (\<lambda>x. P (rw_user x)) (db_rows db)" for P
    using arg_cong [OF assms(1), of "list_all P"] by (simp add: list.pred_map comp_def)
  show "db_wf db' = db_wf db" unfolding db_wf_def m assms(2) l [of "\<lambda>u. 1 \<le> u_id u \<and> u_id u \<le> db_seq db"] by (rule refl)
  have c: "count_admins d = length (filter (\<lambda>u. u_role u = Admin) (map rw_user (db_rows d)))" for d
    by (simp add: count_admins_def is_admin_def [abs_def] filter_map comp_def)
  show "count_admins db' = count_admins db" unfolding c assms(1) by (rule refl)
qed

lemma UpdatePassword_users:
  "UpdatePassword B i p db = (e, db') \<Longrightarrow> map rw_user (db_rows db') = map rw_user (db_rows db) \<and> db_seq db' = db_seq db"
  by (auto simp: UpdatePassword_def split: option.splits if_splits) (simp_all add: set_hash_def)

lemma ChangeOwnPassword_users:
  "ChangeOwnPassword B i c p db = (e, db') \<Longrightarrow> map rw_user (db_rows db') = map rw_user (db_rows db) \<and> db_seq db' = db_seq db"
  by (auto simp: ChangeOwnPassword_def UpdatePassword_users split: option.splits if_splits)

lemma delete_row_wf: "db_wf db \<Longrightarrow> db_wf (delete_row i db)"
  by (auto simp: db_wf_def delete_row_def distinct_map_filter list_all_iff)

text \<open>The only row with an id is the admin counted for it.\<close>

lemma admins_after_delete:
  assumes "db_wf db"
  shows "count_admins db = count_admins (delete_row i db) + length (filter (\<lambda>x. is_admin x \<and> u_id (rw_user x) = i) (db_rows db))"
    "length (filter (\<lambda>x. is_admin x \<and> u_id (rw_user x) = i) (db_rows db)) \<le> 1"
proof -
  have "length (filter is_admin xs) = length (filter is_admin (filter (\<lambda>x. u_id (rw_user x) \<noteq> i) xs))
      + length (filter (\<lambda>x. is_admin x \<and> u_id (rw_user x) = i) xs)" for xs
    by (induction xs) auto
  then show "count_admins db = count_admins (delete_row i db) + length (filter (\<lambda>x. is_admin x \<and> u_id (rw_user x) = i) (db_rows db))"
    by (simp add: count_admins_def delete_row_def)
  have "distinct (map (\<lambda>x. u_id (rw_user x)) xs) \<Longrightarrow> length (filter (\<lambda>x. is_admin x \<and> u_id (rw_user x) = i) xs) \<le> 1" for xs
  proof (induction xs)
    case (Cons x xs)
    have "\<forall>y \<in> set xs. u_id (rw_user y) \<noteq> u_id (rw_user x)" using Cons.prems by (auto simp: image_iff)
    then have "u_id (rw_user x) = i \<Longrightarrow> filter (\<lambda>x. is_admin x \<and> u_id (rw_user x) = i) xs = []"
      by (auto simp: filter_empty_conv)
    with Cons show ?case by auto
  qed simp
  with assms show "length (filter (\<lambda>x. is_admin x \<and> u_id (rw_user x) = i) (db_rows db)) \<le> 1" by (simp add: db_wf_def)
qed

lemma DeleteUserRow_ok:
  assumes "db_ok db" "DeleteUserRow c i db = (e, db')"
  shows "db_ok db' \<and> (\<forall>u \<in> set (map rw_user (db_rows db)). u_id u \<noteq> i \<longrightarrow> u \<in> set (map rw_user (db_rows db')))
    \<and> (c = i \<longrightarrow> db' = db)"
proof -
  let ?n = "length (filter (\<lambda>x. is_admin x \<and> u_id (rw_user x) = i) (db_rows db))"
  from assms(1) have wf: "db_wf db" "0 < count_admins db" by (simp_all add: db_ok_def)
  note a = admins_after_delete [OF wf(1), of i]
  have "db_ok (delete_row i db)" if "\<not> (?n = 1 \<and> count_admins db \<le> 1)"
  proof -
    have "0 < count_admins (delete_row i db)" using wf(2) a that by linarith
    then show ?thesis by (simp add: db_ok_def delete_row_wf [OF wf(1)])
  qed
  moreover have "\<forall>u \<in> set (map rw_user (db_rows db)). u_id u \<noteq> i \<longrightarrow> u \<in> set (map rw_user (db_rows (delete_row i db)))"
    by (auto simp: delete_row_def)
  ultimately show ?thesis using assms by (auto simp: DeleteUserRow_def split: if_splits)
qed

subsection \<open>One request at a time\<close>

lemma users_in: "rw_user ` set (db_rows db) = set (map rw_user (db_rows db))"
  by simp

text \<open>
  C14. Served one at a time, no request of any user breaks the table: ids and names stay unique,
  at least one administrator remains, the caller's own row remains, and every answer is an
  error or has the payload the contract gives.
\<close>

theorem users_served:
  assumes "db_ok db" "me \<in> rw_user ` set (db_rows db)" "users_serve B now me q db = Some (r, db')"
  shows "db_ok db' \<and> me \<in> rw_user ` set (db_rows db') \<and> reply_ok [q] r"
proof (cases "boundary (Some me) q")
  case (Some x)
  with assms show ?thesis by (auto simp: users_serve_def reply_ok_def)
next
  case None
  with assms(3) have h: "users_handle B now me q db = Some (r, db')" by (simp add: users_serve_def)
  have same: "db_ok d \<and> me \<in> rw_user ` set (db_rows d)"
    if "map rw_user (db_rows d) = map rw_user (db_rows db) \<and> db_seq d = db_seq db" for d
    using that assms(1,2) same_users [of d db] unfolding users_in by (simp add: db_ok_def)
  show ?thesis
  proof (cases q)
    case (PostUser n p ro)
    obtain e d where c: "CreateUser B now (js_trim n) p ro db = (e, d)" by fastforce
    from c PostUser h have "db' = d" "reply_ok [q] r"
      by (auto simp: reply_ok_def error_reply_def internal_error_def writeError_def split: sum.splits if_splits)
    with CreateUser_wf [OF _ c] assms(1,2) show ?thesis unfolding users_in by (auto simp: db_ok_def)
  next
    case (DeleteUser i)
    obtain e d where c: "DeleteUserRow (u_id me) i db = (e, d)" by fastforce
    from c DeleteUser h have "db' = d" "reply_ok [q] r"
      by (auto simp: reply_ok_def no_content_def user_not_found_def error_reply_def internal_error_def writeError_def
          split: option.splits)
    moreover from DeleteUserRow_ok [OF assms(1) c] assms(2) have "db_ok d" "me \<in> rw_user ` set (db_rows d)"
      unfolding users_in by (cases "u_id me = i"; auto)+
    ultimately show ?thesis by simp
  next
    case (PutUserPassword i p)
    obtain e d where c: "UpdatePassword B i p db = (e, d)" by fastforce
    from c PutUserPassword h have "db' = d" "reply_ok [q] r"
      by (auto simp: reply_ok_def no_content_def user_not_found_def error_reply_def internal_error_def writeError_def
          split: option.splits)
    with same [OF UpdatePassword_users [OF c]] show ?thesis by simp
  next
    case (PutOwnPassword cur new)
    obtain e d where c: "ChangeOwnPassword B (u_id me) cur new db = (e, d)" by fastforce
    from c PutOwnPassword h have "db' = d" "reply_ok [q] r"
      by (auto simp: reply_ok_def no_content_def error_reply_def internal_error_def writeError_def split: option.splits)
    with same [OF ChangeOwnPassword_users [OF c]] show ?thesis by simp
  qed (use h assms(1,2) in \<open>auto simp: reply_ok_def\<close>)
qed

subsection \<open>Two deletions at a time\<close>

text \<open>
  \<open>DeleteUser\<close> is three statements and no transaction: the requests of two administrators may
  interleave between them (the pool of one connection serializes single statements only).
\<close>

datatype delete_step = CountTarget | CountAdmins | Execute | Finished "auth_error option"

record deletion =
  dl_caller :: int
  dl_id :: int
  dl_at :: delete_step

definition start_delete :: "int \<Rightarrow> int \<Rightarrow> deletion" where
  "start_delete c i = \<lparr>dl_caller = c, dl_id = i, dl_at = CountTarget\<rparr>"

fun delete_next :: "users_db \<Rightarrow> deletion \<Rightarrow> users_db \<times> delete_step" where
  "delete_next db d = (case dl_at d of
     CountTarget \<Rightarrow> (db, if dl_caller d = dl_id d then Finished (Some ErrLastAdmin)
       else if length (filter (\<lambda>x. is_admin x \<and> u_id (rw_user x) = dl_id d) (db_rows db)) = 1 then CountAdmins else Execute)
   | CountAdmins \<Rightarrow> (db, if count_admins db \<le> 1 then Finished (Some ErrLastAdmin) else Execute)
   | Execute \<Rightarrow> if byID (dl_id d) db = None then (db, Finished (Some ErrNoRows)) else (delete_row (dl_id d) db, Finished None)
   | Finished e \<Rightarrow> (db, Finished e))"

fun deletes :: "nat list \<Rightarrow> users_db \<times> deletion list \<Rightarrow> users_db \<times> deletion list" where
  "deletes [] s = s"
| "deletes (i # is) (db, ds) = (let (db', p) = delete_next db (ds ! i) in deletes is (db', ds[i := (ds ! i)\<lparr>dl_at := p\<rparr>]))"

text \<open>Run without interruption, the statements are the operation.\<close>

lemma deletes_alone:
  "deletes [0, 0, 0] (db, [start_delete c i]) =
    (snd (DeleteUserRow c i db), [(start_delete c i)\<lparr>dl_at := Finished (fst (DeleteUserRow c i db))\<rparr>])"
  by (auto simp: start_delete_def DeleteUserRow_def Let_def)

lemma byID_row: "x \<in> set (db_rows db) \<Longrightarrow> byID (u_id (rw_user x)) db \<noteq> None"
  by (auto simp: byID_def find_NoneE)

lemma one_row:
  assumes "db_wf db" "x \<in> set (db_rows db)" "is_admin x"
  shows "length (filter (\<lambda>y. is_admin y \<and> u_id (rw_user y) = u_id (rw_user x)) (db_rows db)) = 1"
proof -
  have "filter (\<lambda>y. is_admin y \<and> u_id (rw_user y) = u_id (rw_user x)) (db_rows db) \<noteq> []"
    using assms(2,3) by (auto simp: filter_empty_conv)
  with admins_after_delete(2) [OF assms(1), of "u_id (rw_user x)"] show ?thesis
    by (cases "filter (\<lambda>y. is_admin y \<and> u_id (rw_user y) = u_id (rw_user x)) (db_rows db)") auto
qed

lemma no_admin_stays:
  assumes "count_admins d = 0" "me \<in> rw_user ` set (db_rows d)" "users_serve B now me q d = Some (r, d')"
  shows "count_admins d' = 0"
proof -
  from assms(1,2) have v: "u_role me \<noteq> Admin"
    by (auto simp: count_admins_def filter_empty_conv is_admin_def)
  show ?thesis
  proof (cases q)
    case (PutOwnPassword cur new)
    then have "d' = d \<or> (\<exists>e. ChangeOwnPassword B (u_id me) cur new d = (e, d'))"
      using assms(3) by (auto simp: users_serve_def split: option.splits prod.splits)
    then show ?thesis
      using assms(1) ChangeOwnPassword_users same_users(2) by metis
  qed (use assms(1,3) v in \<open>auto simp: users_serve_def requireAdmin_def split: option.splits\<close>)
qed


definition row0 :: "int \<Rightarrow> string \<Rightarrow> role \<Rightarrow> row" where
  "row0 i n r = \<lparr>rw_user = \<lparr>u_id = i, u_username = n, u_role = r, u_createdAt = ''''\<rparr>, rw_hash = ''#secret123''\<rparr>"

definition two_admins :: users_db where
  "two_admins = \<lparr>db_rows = [row0 1 ''admin'' Admin, row0 2 ''root'' Admin, row0 3 ''eve'' Viewer], db_seq = 3\<rparr>"

text \<open>A hashing function for the examples.\<close>

definition plain_bcrypt :: bcrypt where
  "plain_bcrypt = \<lparr>bc_gen = (\<lambda>p. if length p \<le> 72 then Some (CHR ''#'' # p) else None), bc_ok = (\<lambda>h q. h = CHR ''#'' # q)\<rparr>"

lemma two_admins_ok: "db_ok two_admins"
  by (simp add: db_ok_def db_wf_def two_admins_def row0_def count_admins_def is_admin_def)


theorem users_served_witness:
  "\<exists>r db'. users_serve plain_bcrypt '''' (rw_user (row0 1 ''admin'' Admin)) (DeleteUser 2) two_admins = Some (r, db') \<and> db_ok db'"
proof -
  let ?me = "rw_user (row0 1 ''admin'' Admin)"
  have me: "?me \<in> rw_user ` set (db_rows two_admins)" by (simp add: two_admins_def)
  have b: "boundary (Some ?me) (DeleteUser 2) = None" by (simp add: row0_def parseUserID_def)
  have "\<exists>r db'. users_serve plain_bcrypt '''' ?me (DeleteUser 2) two_admins = Some (r, db')"
    unfolding users_serve_def b by (cases "DeleteUserRow (u_id ?me) 2 two_admins") (simp add: case_prod_unfold)
  then obtain r db' where served: "users_serve plain_bcrypt '''' ?me (DeleteUser 2) two_admins = Some (r, db')"
    by (elim exE)
  from served users_served [OF two_admins_ok me served] show ?thesis by blast
qed

subsection \<open>Passwords\<close>

text \<open>
  What bcrypt promises: it refuses passwords of more than 72 bytes, and up to that length a
  hash is matched by its own password only.
\<close>

definition bcrypt_ok :: "bcrypt \<Rightarrow> bool" where
  "bcrypt_ok B = ((\<forall>p. bc_gen B p = None \<longleftrightarrow> 72 < length p)
     \<and> (\<forall>p h q. bc_gen B p = Some h \<and> length q \<le> 72 \<longrightarrow> (bc_ok B h q \<longleftrightarrow> q = p)))"

lemma find_map_users:
  assumes "\<And>x. u_username (rw_user (f x)) = u_username (rw_user x)"
  shows "find (\<lambda>x. u_username (rw_user x) = n) (map f xs) = map_option f (find (\<lambda>x. u_username (rw_user x) = n) xs)"
  using assms by (induction xs) auto

lemma byUsername_set_hash:
  "byUsername n (set_hash i h db) = map_option (\<lambda>x. if u_id (rw_user x) = i then x\<lparr>rw_hash := h\<rparr> else x) (byUsername n db)"
  unfolding byUsername_def set_hash_def by (simp add: find_map_users)

lemma found_row:
  assumes "db_wf db" "x \<in> set (db_rows db)"
  shows "byID (u_id (rw_user x)) db = Some x" "byUsername (u_username (rw_user x)) db = Some x"
proof -
  have f: "find (\<lambda>y. f (rw_user y) = f (rw_user x)) xs = Some x" if "distinct (map (\<lambda>x. f (rw_user x)) xs)" "x \<in> set xs"
    for f :: "user \<Rightarrow> 'b" and xs
    using that by (induction xs) (auto simp: image_iff)
  show "byID (u_id (rw_user x)) db = Some x" "byUsername (u_username (rw_user x)) db = Some x"
    using assms f [of u_id] f [of u_username] by (simp_all add: byID_def byUsername_def db_wf_def)
qed

text \<open>
  After a change of the own password that the server confirms, exactly the new password
  signs the user in, and every other user as before; a new password of more than 72 bytes,
  which the form and the first checks let through, fails with an internal error.
\<close>

theorem own_password_change:
  assumes B: "bcrypt_ok B" and wf: "db_wf db" and x: "x \<in> set (db_rows db)"
    and ask: "cur \<noteq> ''''" "8 \<le> length new" and right: "bc_ok B (rw_hash x) cur"
  shows "if length new \<le> 72
    then (\<exists>db'. users_serve B now (rw_user x) (PutOwnPassword cur new) db = Some (Inr [PUndefined], db')
      \<and> (\<forall>q. length q \<le> 72 \<longrightarrow> Login B (u_username (rw_user x)) q db' = (if q = new then Inr (rw_user x) else Inl ErrInvalidCredentials))
      \<and> (\<forall>n q. n \<noteq> u_username (rw_user x) \<longrightarrow> Login B n q db' = Login B n q db))
    else users_serve B now (rw_user x) (PutOwnPassword cur new) db
      = Some (Inl (ApiError ''INTERNAL_ERROR'' ''An internal error occurred'' 500), db)"
proof -
  note f = found_row [OF wf x]
  have b: "boundary (Some (rw_user x)) (PutOwnPassword cur new) = None"
    using ask by (simp add: handleChangeOwnPassword_def minPasswordLength_def)
  show ?thesis
  proof (cases "length new \<le> 72")
    case False
    with B have "bc_gen B new = None" by (simp add: bcrypt_ok_def)
    with f right b False show ?thesis
      by (simp add: users_serve_def ChangeOwnPassword_def UpdatePassword_def no_content_def internal_error_def writeError_def errorStatus_def
          del: boundary.simps)
  next
    case True
    with B obtain h where h: "bc_gen B new = Some h" by (auto simp: bcrypt_ok_def) (metis not_less option.exhaust)
    let ?db = "set_hash (u_id (rw_user x)) h db"
    have s: "users_serve B now (rw_user x) (PutOwnPassword cur new) db = Some (Inr [PUndefined], ?db)"
      using f right b h by (simp add: users_serve_def ChangeOwnPassword_def UpdatePassword_def no_content_def del: boundary.simps)
    have "Login B (u_username (rw_user x)) q ?db = (if q = new then Inr (rw_user x) else Inl ErrInvalidCredentials)"
      if "length q \<le> 72" for q
      using f(2) h B that by (simp add: Login_def byUsername_set_hash bcrypt_ok_def)
    moreover have "Login B n q ?db = Login B n q db" if n: "n \<noteq> u_username (rw_user x)" for n q
    proof (cases "byUsername n db")
      case (Some y)
      then have y: "y \<in> set (db_rows db)" "u_username (rw_user y) = n"
        by (auto simp: byUsername_def dest: find_SomeD)
      then have "u_id (rw_user y) \<noteq> u_id (rw_user x)"
        using n f(1) found_row(1) [OF wf y(1)] by auto
      with Some show ?thesis by (simp add: Login_def byUsername_set_hash)
    qed (simp add: Login_def byUsername_set_hash)
    ultimately show ?thesis using s True by auto
  qed
qed

theorem own_password_change_witness:
  "\<exists>db'. users_serve plain_bcrypt '''' (rw_user (row0 1 ''admin'' Admin)) (PutOwnPassword ''secret123'' ''longenough'') two_admins
     = Some (Inr [PUndefined], db') \<and> Login plain_bcrypt ''admin'' ''longenough'' db' = Inr (rw_user (row0 1 ''admin'' Admin))"
proof -
  have B: "bcrypt_ok plain_bcrypt" by (auto simp: bcrypt_ok_def plain_bcrypt_def split: if_splits)
  have "row0 1 ''admin'' Admin \<in> set (db_rows two_admins)" by (simp add: two_admins_def)
  moreover have "db_wf two_admins" using two_admins_ok by (simp add: db_ok_def)
  moreover have "bc_ok plain_bcrypt (rw_hash (row0 1 ''admin'' Admin)) ''secret123''" by (simp add: plain_bcrypt_def row0_def)
  ultimately show ?thesis
    using own_password_change [OF B, of two_admins "row0 1 ''admin'' Admin" "''secret123''" "''longenough''"]
    by (force simp: row0_def)
qed


subsection \<open>Tokens\<close>

text \<open>
  C27. A token names its user by the name only: it stops with the user's deletion, but not with a
  new password, and when a user of that name is created again, it signs its holder in as the new
  one, whatever the role.
\<close>

theorem token_follows_name:
  assumes ok: "db_wf db" and x: "x \<in> set (db_rows db)" "u_username (rw_user x) \<noteq> ''''"
    and tok: "subject tok = Some (u_username (rw_user x))"
    and del: "DeleteUserRow c (u_id (rw_user x)) db = (None, db1)"
    and new: "CreateUser B now (u_username (rw_user x)) p r db1 = (Inr u, db2)"
  shows "Verify subject tok db = Inr (rw_user x)
    \<and> Verify subject tok (snd (UpdatePassword B (u_id (rw_user x)) q db)) = Inr (rw_user x)
    \<and> Verify subject tok db1 = Inl ErrInvalidToken
    \<and> Verify subject tok db2 = Inr u \<and> u_id u \<noteq> u_id (rw_user x) \<and> u_role u = r"
proof -
  note f = found_row [OF ok x(1)]
  have d1: "db1 = delete_row (u_id (rw_user x)) db" using del by (auto simp: DeleteUserRow_def split: if_splits)
  have uniq: "u_id (rw_user y) = u_id (rw_user x)" if "y \<in> set (db_rows db)" "u_username (rw_user y) = u_username (rw_user x)" for y
    using found_row(2) [OF ok that(1)] that(2) f(2) by simp
  have gone: "byUsername (u_username (rw_user x)) db1 = None"
    using uniq by (auto simp: byUsername_def d1 delete_row_def find_NoneE)
  obtain h where u: "u = \<lparr>u_id = db_seq db1 + 1, u_username = u_username (rw_user x), u_role = r, u_createdAt = now\<rparr>"
    "db_rows db2 = db_rows db1 @ [\<lparr>rw_user = u, rw_hash = h\<rparr>]"
    using new gone by (auto simp: CreateUser_def Let_def split: option.splits)
  have "find P (xs @ ys) = (case find P xs of Some z \<Rightarrow> Some z | None \<Rightarrow> find P ys)" for P and xs ys :: "row list"
    by (induction xs) auto
  then have "byUsername (u_username (rw_user x)) db2 = Some \<lparr>rw_user = u, rw_hash = h\<rparr>"
    using gone u by (simp add: byUsername_def)
  moreover have "u_id u \<noteq> u_id (rw_user x)"
    using ok x(1) by (auto simp: u(1) d1 delete_row_def db_wf_def list_all_iff)
  moreover have "Verify subject tok (snd (UpdatePassword B (u_id (rw_user x)) q db)) = Inr (rw_user x)"
    using f x(2) tok by (simp add: UpdatePassword_def Verify_def byUsername_set_hash split: option.split)
  ultimately show ?thesis using f(2) x(2) tok gone u(1) by (simp add: Verify_def)
qed

theorem token_follows_name_witness:
  "\<exists>u db2. CreateUser plain_bcrypt '''' ''eve'' ''secret123'' Admin (delete_row 3 two_admins) = (Inr u, db2)
     \<and> Verify (\<lambda>t. Some t) ''eve'' db2 = Inr u \<and> u_role u = Admin"
proof -
  let ?x = "row0 3 ''eve'' Viewer"
  have wf: "db_wf two_admins" using two_admins_ok by (simp add: db_ok_def)
  have x: "?x \<in> set (db_rows two_admins)" "u_username (rw_user ?x) \<noteq> ''''" "u_username (rw_user ?x) = ''eve''"
    by (simp_all add: two_admins_def row0_def)
  have del: "DeleteUserRow 1 (u_id (rw_user ?x)) two_admins = (None, delete_row 3 two_admins)"
    by (simp add: DeleteUserRow_def two_admins_def row0_def is_admin_def byID_def delete_row_def)
  obtain u db2 where c: "CreateUser plain_bcrypt '''' (u_username (rw_user ?x)) ''secret123'' Admin (delete_row 3 two_admins) = (Inr u, db2)"
    by (simp add: CreateUser_def plain_bcrypt_def byUsername_def delete_row_def two_admins_def row0_def Let_def)
  from token_follows_name [OF wf x(1,2) _ del c, of "\<lambda>t. Some t" "''eve''"] c x(3) show ?thesis by simp
qed

end
