(* ===== verification/TaskManager.thy ===== *)
theory TaskManager
  imports Server TasksPage
begin

text \<open>
  The tasks of the server (\<open>backend/internal/tasks/tasks.go\<close>, with the handlers of
  \<open>api/tasks_handlers.go\<close>): the history, the workers that run beside it, and how the cancel
  button of the tasks page and the server agree. One step is one critical section under the
  lock of the manager. What a worker does is unknown; it is the reports it makes and the
  error it ends with. \<open>fmt t\<close> is the JSON text of a time.
\<close>

subsection \<open>State\<close>

text \<open>
  \<open>j_ctx\<close> is \<open>ctx.Err() != nil\<close> and \<open>j_cancel\<close> is \<open>t.cancel != nil\<close>; a time that is zero is
  \<open>None\<close>. A worker has not begun while \<open>j_started\<close> is \<open>None\<close>.
\<close>

record job =
  j_id :: string
  j_type :: task_type
  j_status :: task_status
  j_resourceID :: string
  j_resourceName :: string
  j_message :: string
  j_err :: string
  j_progress :: int
  j_warnings :: "string list"
  j_created :: int
  j_started :: "int option"
  j_finished :: "int option"
  j_cancel :: bool
  j_ctx :: bool

text \<open>\<open>byID\<close> holds the tasks of \<open>order\<close> under their ids: both change together, under the lock.\<close>

record manager =
  tm_seq :: nat
  tm_order :: "job list"

definition NewManager :: manager where
  "NewManager = \<lparr>tm_seq = 0, tm_order = []\<rparr>"

definition tm_byID :: "string \<Rightarrow> manager \<Rightarrow> job option" where
  "tm_byID i m = find (\<lambda>j. j_id j = i) (tm_order m)"

definition task_name :: "nat \<Rightarrow> string" where
  "task_name n = ''task-'' @ pad_left 6 (nat_str n)"

definition terminal :: "job \<Rightarrow> bool" where
  "terminal j = (j_status j = Succeeded \<or> j_status j = Failed \<or> j_status j = Cancelled)"

definition maxHistory :: nat where
  "maxHistory = 500"

subsection \<open>Operations\<close>

text \<open>
  The loop that trims the history shifts the slice it ranges over: after a task has been
  dropped, the one behind it is passed over. \<open>k\<close> is the number of tasks that are too many.
\<close>

fun trim :: "nat \<Rightarrow> job list \<Rightarrow> job list" where
  "trim k [] = []"
| "trim k [x] = (if 0 < k \<and> terminal x then [] else [x])"
| "trim k (x # y # js) =
     (if k = 0 then x # y # js
      else if terminal x then y # trim (k - 1) js
      else x # trim k (y # js))"

definition new_job :: "nat \<Rightarrow> task_type \<Rightarrow> string \<Rightarrow> string \<Rightarrow> int \<Rightarrow> job" where
  "new_job n t res name now = \<lparr>j_id = task_name n, j_type = t, j_status = Queued, j_resourceID = res, j_resourceName = name,
     j_message = '''', j_err = '''', j_progress = 0, j_warnings = [], j_created = now, j_started = None, j_finished = None,
     j_cancel = True, j_ctx = False\<rparr>"

definition Start :: "task_type \<Rightarrow> string \<Rightarrow> string \<Rightarrow> int \<Rightarrow> manager \<Rightarrow> manager" where
  "Start t res name now m =
     (let n = Suc (tm_seq m); js = tm_order m @ [new_job n t res name now] in
      \<lparr>tm_seq = n, tm_order = (if maxHistory < length js then trim (length js - maxHistory) js else js)\<rparr>)"

datatype report = SetProgress int | SetMessage string | AddWarning string | SetResourceID string

fun reported :: "report \<Rightarrow> job \<Rightarrow> job" where
  "reported (SetProgress p) j = j\<lparr>j_progress := (if p < 0 then 0 else if 100 < p then 100 else p)\<rparr>"
| "reported (SetMessage s) j = j\<lparr>j_message := s\<rparr>"
| "reported (AddWarning s) j = j\<lparr>j_warnings := j_warnings j @ [s]\<rparr>"
| "reported (SetResourceID i) j = j\<lparr>j_resourceID := i\<rparr>"

text \<open>The two critical sections of \<open>run\<close>; \<open>err\<close> is what the work returned.\<close>

definition run_begin :: "int \<Rightarrow> job \<Rightarrow> job" where
  "run_begin now j = j\<lparr>j_status := TRunning, j_started := Some now\<rparr>"

definition run_end :: "string option \<Rightarrow> int \<Rightarrow> job \<Rightarrow> job" where
  "run_end err now j0 =
     (let j = j0\<lparr>j_finished := Some now, j_cancel := False\<rparr> in
      if j_ctx j then j\<lparr>j_status := Cancelled, j_message := ''cancelled''\<rparr>
      else (case err of
        Some e \<Rightarrow> j\<lparr>j_status := Failed, j_err := e\<rparr>
      | None \<Rightarrow> j\<lparr>j_status := Succeeded, j_progress := (if j_progress j < 100 then 100 else j_progress j)\<rparr>))"

definition cancellable :: "job \<Rightarrow> bool" where
  "cancellable j = (j_status j = Queued \<or> j_status j = TRunning)"

definition cancelling :: "job \<Rightarrow> job" where
  "cancelling j = j\<lparr>j_status := Cancelling, j_ctx := (j_cancel j \<or> j_ctx j)\<rparr>"

text \<open>A change of the task with an id.\<close>

definition tm_set :: "string \<Rightarrow> (job \<Rightarrow> job) \<Rightarrow> manager \<Rightarrow> manager" where
  "tm_set i f m = m\<lparr>tm_order := map (\<lambda>j. if j_id j = i then f j else j) (tm_order m)\<rparr>"

definition strPtr :: "string \<Rightarrow> string option" where
  "strPtr s = (if s = '''' then None else Some s)"

definition viewLocked :: "(int \<Rightarrow> string) \<Rightarrow> job \<Rightarrow> task" where
  "viewLocked fmt j = \<lparr>t_id = j_id j, t_type = j_type j, t_status = j_status j, t_resourceId = strPtr (j_resourceID j),
     t_resourceName = strPtr (j_resourceName j), t_message = strPtr (j_message j), t_error = strPtr (j_err j),
     t_progress = j_progress j, t_warnings = (if j_warnings j = [] then None else Some (j_warnings j)),
     t_cancellable = cancellable j, t_createdAt = fmt (j_created j),
     t_startedAt = map_option fmt (j_started j), t_finishedAt = map_option fmt (j_finished j)\<rparr>"

definition Cancel :: "(int \<Rightarrow> string) \<Rightarrow> string \<Rightarrow> manager \<Rightarrow> (task option \<times> bool) \<times> manager" where
  "Cancel fmt i m = (case tm_byID i m of
     None \<Rightarrow> ((None, False), m)
   | Some j \<Rightarrow> if cancellable j then ((Some (viewLocked fmt (cancelling j)), True), tm_set i cancelling m)
       else ((Some (viewLocked fmt j), False), m))"

text \<open>\<open>sort.Slice\<close> is not stable: tasks of the same creation time may come in any order; here the oldest is first.\<close>

definition task_list :: "(int \<Rightarrow> string) \<Rightarrow> string \<Rightarrow> nat \<Rightarrow> manager \<Rightarrow> task list" where
  "task_list fmt status limit m =
     (let ts = map (viewLocked fmt) (filter (\<lambda>j. status = '''' \<or> task_status_str (j_status j) = status)
        (sort_key (\<lambda>j. - j_created j) (tm_order m)))
      in if 0 < limit then take limit ts else ts)"

subsection \<open>Steps\<close>

datatype tm_event =
    StartTask task_type string string int
  | Begin string int
  | Report string report
  | End string "string option" int
  | CancelTask string

definition begun :: "job \<Rightarrow> bool" where
  "begun j = (j_started j \<noteq> None \<and> j_finished j = None)"

fun tm_enabled :: "manager \<Rightarrow> tm_event \<Rightarrow> bool" where
  "tm_enabled m (StartTask t res name now) = True"
| "tm_enabled m (Begin i now) = (case tm_byID i m of Some j \<Rightarrow> j_started j = None | None \<Rightarrow> False)"
| "tm_enabled m (Report i r) = (case tm_byID i m of Some j \<Rightarrow> begun j | None \<Rightarrow> False)"
| "tm_enabled m (End i err now) = (case tm_byID i m of Some j \<Rightarrow> begun j | None \<Rightarrow> False)"
| "tm_enabled m (CancelTask i) = True"

fun tm_step :: "tm_event \<Rightarrow> manager \<Rightarrow> manager" where
  "tm_step (StartTask t res name now) m = Start t res name now m"
| "tm_step (Begin i now) m = tm_set i (run_begin now) m"
| "tm_step (Report i r) m = tm_set i (reported r) m"
| "tm_step (End i err now) m = tm_set i (run_end err now) m"
| "tm_step (CancelTask i) m = snd (Cancel (\<lambda>_. '''') i m)"

inductive tm_reach :: "manager \<Rightarrow> manager \<Rightarrow> bool" for m0 where
  tm_refl: "tm_reach m0 m0"
| tm_next: "tm_reach m0 m \<Longrightarrow> tm_enabled m e \<Longrightarrow> tm_reach m0 (tm_step e m)"

subsection \<open>What every task keeps\<close>

definition job_ok :: "job \<Rightarrow> bool" where
  "job_ok j = (0 \<le> j_progress j \<and> j_progress j \<le> 100
     \<and> (j_finished j \<noteq> None \<longleftrightarrow> terminal j) \<and> (j_started j = None \<longrightarrow> j_status j = Queued \<or> j_status j = Cancelling)
     \<and> (j_status j = Queued \<longrightarrow> j_started j = None) \<and> j_cancel j = (j_finished j = None)
     \<and> (j_status j = Succeeded \<longrightarrow> j_progress j = 100) \<and> (j_err j \<noteq> '''' \<longrightarrow> j_status j = Failed)
     \<and> (j_status j = Cancelling \<longrightarrow> j_ctx j) \<and> (terminal j \<longrightarrow> (j_ctx j \<longleftrightarrow> j_status j = Cancelled)))"

definition tm_ok :: "manager \<Rightarrow> bool" where
  "tm_ok m = (list_all job_ok (tm_order m) \<and> distinct (map j_id (tm_order m))
     \<and> list_all (\<lambda>j. \<exists>n \<le> tm_seq m. j_id j = task_name n) (tm_order m))"

text \<open>How a task may change from one moment to a later one.\<close>

definition follows :: "job \<Rightarrow> job \<Rightarrow> bool" where
  "follows j j' = (j_id j' = j_id j \<and> j_type j' = j_type j \<and> j_created j' = j_created j
     \<and> (terminal j \<longrightarrow> j' = j) \<and> (j_ctx j \<longrightarrow> j_ctx j') \<and> (j_started j \<noteq> None \<longrightarrow> j_started j' = j_started j)
     \<and> (j_status j' = Queued \<longrightarrow> j_status j = Queued))"

lemma follows_refl [simp]: "follows j j"
  by (simp add: follows_def)

lemma follows_trans: "follows a b \<Longrightarrow> follows b c \<Longrightarrow> follows a c"
  by (auto simp: follows_def)

lemma task_name_inj [simp]: "task_name m = task_name n \<longleftrightarrow> m = n"
proof
  assume "task_name m = task_name n"
  then have "parse_digits (pad_left 6 (nat_str m)) = parse_digits (pad_left 6 (nat_str n))" by (simp add: task_name_def)
  then show "m = n" by (simp add: pad_left_def parse_digits_append)
qed simp

lemma byID_found: "tm_byID i m = Some j \<Longrightarrow> j \<in> set (tm_order m) \<and> j_id j = i"
  by (auto simp: tm_byID_def find_Some_iff)

lemma byID_unique: "distinct (map j_id (tm_order m)) \<Longrightarrow> j \<in> set (tm_order m) \<Longrightarrow> tm_byID (j_id j) m = Some j"
proof -
  have "distinct (map j_id js) \<Longrightarrow> j \<in> set js \<Longrightarrow> find (\<lambda>x. j_id x = j_id j) js = Some j" for js
    by (induction js) (auto simp: image_iff)
  then show "distinct (map j_id (tm_order m)) \<Longrightarrow> j \<in> set (tm_order m) \<Longrightarrow> tm_byID (j_id j) m = Some j"
    by (simp add: tm_byID_def)
qed

subsubsection \<open>Trimming\<close>

lemma trim_zero [simp]: "trim 0 js = js"
  by (induction "0::nat" js rule: trim.induct) auto

lemma trim_sub: "set (trim k js) \<subseteq> set js"
  by (induction k js rule: trim.induct) auto

lemma trim_distinct: "distinct (map j_id js) \<Longrightarrow> distinct (map j_id (trim k js))"
proof (induction k js rule: trim.induct)
  case (3 k x y js)
  have sub: "j_id ` set (trim n ys) \<subseteq> j_id ` set ys" for n ys
    by (rule image_mono [OF trim_sub])
  have "j_id x \<notin> j_id ` set (trim k (y # js))" "j_id y \<notin> j_id ` set (trim (k - 1) js)"
    using "3.prems" sub [of k "y # js"] sub [of "k - 1" js] by (simp_all del: trim.simps) blast+
  then show ?case using 3 by simp
qed simp_all

lemma trim_keeps: "j \<in> set js \<Longrightarrow> \<not> terminal j \<Longrightarrow> j \<in> set (trim k js)"
  by (induction k js rule: trim.induct) auto

lemma trim_one:
  "trim 1 js = (if \<exists>j \<in> set js. terminal j then takeWhile (\<lambda>j. \<not> terminal j) js @ tl (dropWhile (\<lambda>j. \<not> terminal j) js) else js)"
  by (induction "1::nat" js rule: trim.induct) auto

text \<open>Two that are too many: the first finished task goes, the second stays, the third goes.\<close>

lemma trim_skips: "terminal a \<Longrightarrow> terminal c \<Longrightarrow> trim 2 (a # b # c # d # js) = b # d # js"
  by (cases js) (simp_all add: numeral_2_eq_2)


lemma trim_length: "length js - k \<le> length (trim k js)"
  by (induction k js rule: trim.induct) auto

subsubsection \<open>Single changes\<close>

lemma terminal_status:
  "j_status j = Cancelled \<Longrightarrow> terminal j" "j_status j = Failed \<Longrightarrow> terminal j" "j_status j = Succeeded \<Longrightarrow> terminal j"
  "terminal j \<Longrightarrow> \<not> cancellable j" "terminal j \<Longrightarrow> j_status j \<noteq> Cancelling"
  by (auto simp: terminal_def cancellable_def)

lemma new_job_ok [simp]: "job_ok (new_job n t res name now)"
  by (simp add: job_ok_def new_job_def terminal_def)

lemma begin_ok: "job_ok j \<Longrightarrow> j_started j = None \<Longrightarrow> job_ok (run_begin now j) \<and> follows j (run_begin now j)"
  by (auto simp: job_ok_def run_begin_def follows_def terminal_def)

lemma report_ok: "job_ok j \<Longrightarrow> begun j \<Longrightarrow> job_ok (reported r j) \<and> follows j (reported r j)"
  by (cases r) (auto simp: job_ok_def follows_def terminal_def begun_def)

lemma end_ok: "job_ok j \<Longrightarrow> begun j \<Longrightarrow> job_ok (run_end err now j) \<and> follows j (run_end err now j)"
  by (auto simp: job_ok_def run_end_def follows_def terminal_def begun_def Let_def split: option.split)

lemma cancel_ok: "job_ok j \<Longrightarrow> cancellable j \<Longrightarrow> job_ok (cancelling j) \<and> follows j (cancelling j)"
  by (auto simp: job_ok_def cancelling_def follows_def terminal_def cancellable_def)

text \<open>What holds of the changed task holds of the manager.\<close>

lemma tm_set_ok:
  assumes "tm_ok m" and f: "\<And>j. tm_byID i m = Some j \<Longrightarrow> job_ok j \<Longrightarrow> job_ok (f j) \<and> follows j (f j)"
  shows "tm_ok (tm_set i f m) \<and> (\<forall>j \<in> set (tm_order m). \<exists>j' \<in> set (tm_order (tm_set i f m)). follows j j')"
proof -
  let ?g = "\<lambda>j. if j_id j = i then f j else j"
  have g: "job_ok (?g j) \<and> follows j (?g j)" if "j \<in> set (tm_order m)" for j
    using that assms byID_unique [of m j] by (auto simp: tm_ok_def list_all_iff)
  then have ids: "map j_id (map ?g (tm_order m)) = map j_id (tm_order m)"
    by (simp add: follows_def)
  then have "list_all P (map j_id (map ?g (tm_order m))) = list_all P (map j_id (tm_order m))" for P
    by (rule arg_cong)
  then have "list_all (\<lambda>j. P (j_id j)) (map ?g (tm_order m)) = list_all (\<lambda>j. P (j_id j)) (tm_order m)" for P
    by (simp only: list.pred_map comp_def)
  note names = this [of "\<lambda>i. \<exists>n \<le> tm_seq m. i = task_name n"]
  have "list_all job_ok (map ?g (tm_order m))"
    unfolding list_all_iff set_map using g by blast
  moreover have "distinct (map j_id (map ?g (tm_order m)))"
    unfolding ids using assms(1) by (simp add: tm_ok_def)
  moreover have m: "tm_order (tm_set i f m) = map ?g (tm_order m)" "tm_seq (tm_set i f m) = tm_seq m"
    by (simp_all add: tm_set_def)
  moreover have "list_all (\<lambda>j. \<exists>n \<le> tm_seq m. j_id j = task_name n) (map ?g (tm_order m))"
    using names assms(1) unfolding tm_ok_def by blast
  ultimately have "tm_ok (tm_set i f m)" unfolding tm_ok_def m by blast
  moreover have "\<forall>j \<in> set (tm_order m). \<exists>j' \<in> set (tm_order (tm_set i f m)). follows j j'"
    unfolding m(1) set_map using g by blast
  ultimately show ?thesis by simp
qed

lemma Start_ok:
  assumes "tm_ok m"
  shows "tm_ok (Start t res name now m)
    \<and> (\<forall>j \<in> set (tm_order m). \<not> terminal j \<longrightarrow> j \<in> set (tm_order (Start t res name now m)))
    \<and> new_job (Suc (tm_seq m)) t res name now \<in> set (tm_order (Start t res name now m))
    \<and> set (tm_order (Start t res name now m)) \<subseteq> insert (new_job (Suc (tm_seq m)) t res name now) (set (tm_order m))"
proof -
  let ?new = "new_job (Suc (tm_seq m)) t res name now"
  define js where "js = tm_order m @ [?new]"
  define ks where "ks = (if maxHistory < length js then trim (length js - maxHistory) js else js)"
  have "\<forall>j \<in> set (tm_order m). j_id j \<noteq> task_name (Suc (tm_seq m))"
    using assms by (fastforce simp: tm_ok_def list_all_iff)
  then have "distinct (map j_id js)" using assms by (auto simp: js_def tm_ok_def new_job_def image_iff)
  then have d: "distinct (map j_id ks)" by (simp add: ks_def trim_distinct)
  have sub: "set ks \<subseteq> set js" using trim_sub by (auto simp: ks_def)
  have keep: "j \<in> set ks" if "j \<in> set js" "\<not> terminal j" for j
    using that trim_keeps by (simp add: ks_def)
  have all: "list_all job_ok js" "list_all (\<lambda>j. \<exists>n \<le> Suc (tm_seq m). j_id j = task_name n) js"
    using assms new_job_ok by (auto simp: js_def tm_ok_def list_all_iff le_Suc_eq) (simp add: new_job_def)
  have S: "Start t res name now m = \<lparr>tm_seq = Suc (tm_seq m), tm_order = ks\<rparr>"
    by (simp add: Start_def js_def ks_def Let_def)
  have "\<not> terminal ?new" by (simp add: new_job_def terminal_def)
  then show ?thesis using d all sub keep unfolding S tm_ok_def by (auto simp: list_all_iff js_def)
qed


subsection \<open>The life of a task\<close>

lemma tm_step_ok:
  assumes ok: "tm_ok m" and e: "tm_enabled m e"
  shows "tm_ok (tm_step e m)
    \<and> (\<forall>j \<in> set (tm_order m). terminal j \<or> (\<exists>j' \<in> set (tm_order (tm_step e m)). follows j j'))
    \<and> (\<forall>j' \<in> set (tm_order (tm_step e m)). (\<exists>j \<in> set (tm_order m). follows j j') \<or> j_status j' = Queued \<and> j_id j' = task_name (Suc (tm_seq m)))
    \<and> tm_seq m \<le> tm_seq (tm_step e m)"
proof -
  have prev: "\<forall>j' \<in> set (tm_order (tm_set i f m)). \<exists>j \<in> set (tm_order m). follows j j'"
    if "\<And>j. tm_byID i m = Some j \<Longrightarrow> job_ok j \<Longrightarrow> job_ok (f j) \<and> follows j (f j)" for i f
  proof
    fix j' assume "j' \<in> set (tm_order (tm_set i f m))"
    then obtain j where j: "j \<in> set (tm_order m)" "j' = (if j_id j = i then f j else j)" by (auto simp: tm_set_def)
    then have "follows j j'" using that ok byID_unique [of m j] by (auto simp: tm_ok_def list_all_iff)
    with j(1) show "\<exists>j \<in> set (tm_order m). follows j j'" ..
  qed
  have set_ok: ?thesis
    if "tm_step e m = tm_set i f m" "\<And>j. tm_byID i m = Some j \<Longrightarrow> job_ok j \<Longrightarrow> job_ok (f j) \<and> follows j (f j)" for i f
  proof -
    have "tm_seq (tm_set i f m) = tm_seq m" by (simp add: tm_set_def)
    with tm_set_ok [OF ok that(2)] prev [OF that(2)] show ?thesis unfolding that(1) by (metis order_refl)
  qed
  show ?thesis
  proof (cases e)
    case (StartTask t res name now)
    have new: "j_status (new_job (Suc (tm_seq m)) t res name now) = Queued"
      "j_id (new_job (Suc (tm_seq m)) t res name now) = task_name (Suc (tm_seq m))" by (simp_all add: new_job_def)
    have "tm_seq (Start t res name now m) = Suc (tm_seq m)" by (simp add: Start_def Let_def)
    with Start_ok [OF ok, of t res name now] StartTask new show ?thesis
      by simp (metis follows_refl insert_iff subsetD)
  next
    case (Begin i now)
    with e show ?thesis by (intro set_ok [of i "run_begin now"]) (auto simp: begin_ok)
  next
    case (Report i r)
    with e show ?thesis by (intro set_ok [of i "reported r"]) (auto simp: report_ok)
  next
    case (End i err now)
    with e show ?thesis by (intro set_ok [of i "run_end err now"]) (auto simp: end_ok)
  next
    case (CancelTask i)
    show ?thesis
    proof (cases "\<exists>j. tm_byID i m = Some j \<and> cancellable j")
      case True
      with CancelTask show ?thesis by (intro set_ok [of i cancelling]) (auto simp: Cancel_def cancel_ok)
    next
      case False
      with CancelTask have "tm_step e m = m" by (auto simp: Cancel_def split: option.split)
      with ok show ?thesis by (auto intro: follows_refl)
    qed
  qed
qed

lemma tm_reach_ok: "tm_reach m0 m \<Longrightarrow> tm_ok m0 \<Longrightarrow> tm_ok m"
  by (induction rule: tm_reach.induct) (simp_all add: tm_step_ok)

lemma tm_reach_seq: "tm_reach m0 m \<Longrightarrow> tm_ok m0 \<Longrightarrow> tm_seq m0 \<le> tm_seq m"
proof (induction rule: tm_reach.induct)
  case (tm_next m e)
  then show ?case using tm_step_ok [OF tm_reach_ok tm_next.hyps(2)] by (metis order_trans)
qed simp

lemma New_ok [simp]: "tm_ok NewManager"
  by (simp add: tm_ok_def NewManager_def)

lemma tm_reach_later:
  assumes "tm_reach m0 m" "tm_ok m0" "j \<in> set (tm_order m0)" "j' \<in> set (tm_order m)" "j_id j' = j_id j"
  shows "follows j j'"
  using assms
proof (induction arbitrary: j' rule: tm_reach.induct)
  case tm_refl
  then show ?case using byID_unique [of m0 j] byID_unique [of m0 j'] by (simp add: tm_ok_def)
next
  case (tm_next m e)
  have ok: "tm_ok m" and m: "tm_seq m0 \<le> tm_seq m"
    using tm_reach_ok [OF tm_next.hyps(1) tm_next.prems(1)] tm_reach_seq [OF tm_next.hyps(1) tm_next.prems(1)] by simp_all
  obtain n where n: "n \<le> tm_seq m0" "j_id j = task_name n"
    using tm_next.prems(1,2) by (auto simp: tm_ok_def list_all_iff)
  with m tm_next.prems(4) have "j_id j' \<noteq> task_name (Suc (tm_seq m))" by simp
  then obtain k where k: "k \<in> set (tm_order m)" "follows k j'"
    using tm_step_ok [OF ok tm_next.hyps(2)] tm_next.prems(3) by blast
  with tm_next.prems(4) have "j_id k = j_id j" by (simp add: follows_def)
  from tm_next.IH [OF tm_next.prems(1,2) k(1) this] k(2) show ?case by (rule follows_trans)
qed


text \<open>
  C8. Whatever is started, reported and cancelled, in whatever order the workers run: the
  progress of a task is a percentage and 100 once it has succeeded, it has an end exactly when
  its status is final, an error only when it failed, and it can be cancelled only before its
  end; a final task never changes again, a task that has begun is never queued again, and no
  task is forgotten before its end.
\<close>

theorem task_lifecycle:
  assumes m: "tm_reach NewManager m" and j: "j \<in> set (tm_order m)"
  shows "0 \<le> j_progress j \<and> j_progress j \<le> 100 \<and> (j_status j = Succeeded \<longrightarrow> j_progress j = 100)
    \<and> (j_finished j \<noteq> None \<longleftrightarrow> terminal j) \<and> (j_err j \<noteq> '''' \<longrightarrow> j_status j = Failed)
    \<and> (t_cancellable (viewLocked fmt j) \<longrightarrow> t_finishedAt (viewLocked fmt j) = None)
    \<and> (\<forall>m' j'. tm_reach m m' \<and> j' \<in> set (tm_order m') \<and> j_id j' = j_id j \<longrightarrow>
        (terminal j \<longrightarrow> j' = j) \<and> (j_started j \<noteq> None \<longrightarrow> j_status j' \<noteq> Queued))
    \<and> (\<forall>e. \<not> terminal j \<and> tm_enabled m e \<longrightarrow> (\<exists>j' \<in> set (tm_order (tm_step e m)). j_id j' = j_id j))"
proof -
  have ok: "tm_ok m" using tm_reach_ok [OF m New_ok] .
  then have jo: "job_ok j" using j by (simp add: tm_ok_def list_all_iff)
  have later: "(terminal j \<longrightarrow> j' = j) \<and> (j_started j \<noteq> None \<longrightarrow> j_status j' \<noteq> Queued)"
    if "tm_reach m m'" "j' \<in> set (tm_order m')" "j_id j' = j_id j" for m' j'
  proof -
    have "follows j j'" by (rule tm_reach_later [OF that(1) ok j that(2,3)])
    then show ?thesis using jo by (auto simp: follows_def job_ok_def)
  qed
  have kept: "\<exists>j' \<in> set (tm_order (tm_step e m)). j_id j' = j_id j" if "\<not> terminal j" "tm_enabled m e" for e
    using tm_step_ok [OF ok that(2)] that(1) j by (metis follows_def)
  have "t_cancellable (viewLocked fmt j) \<longrightarrow> t_finishedAt (viewLocked fmt j) = None"
    using jo by (auto simp: viewLocked_def job_ok_def dest: terminal_status)
  moreover have "\<forall>m' j'. tm_reach m m' \<and> j' \<in> set (tm_order m') \<and> j_id j' = j_id j \<longrightarrow>
      (terminal j \<longrightarrow> j' = j) \<and> (j_started j \<noteq> None \<longrightarrow> j_status j' \<noteq> Queued)"
    using later by blast
  ultimately show ?thesis using jo kept by (simp add: job_ok_def)
qed

text \<open>
  C32. A task whose cancellation was accepted ends as cancelled, if it ends, even when its work
  succeeded; but one that was cancelled before its worker began is overwritten by it: it is
  shown as running again, with a Cancel that the server accepts a second time.
\<close>

theorem cancelled_stays:
  assumes m: "tm_reach NewManager m" and j: "tm_byID i m = Some j" "cancellable j"
  defines "c \<equiv> tm_step (CancelTask i) m"
  shows "(\<forall>m' j'. tm_reach c m' \<and> j' \<in> set (tm_order m') \<and> j_id j' = i \<and> terminal j' \<longrightarrow> j_status j' = Cancelled)
    \<and> (j_started j = None \<longrightarrow> tm_enabled c (Begin i now) \<and>
        (\<exists>r. tm_byID i (tm_step (Begin i now) c) = Some r \<and> j_status r = TRunning \<and> j_ctx r
          \<and> fst (Cancel fmt i (tm_step (Begin i now) c)) = (Some (viewLocked fmt (cancelling r)), True)))"
proof -
  have ok: "tm_ok m" using tm_reach_ok [OF m New_ok] .
  have okc: "tm_ok c" unfolding c_def using tm_step_ok [OF ok, of "CancelTask i"] by simp
  have "job_ok j" using byID_found [OF j(1)] ok by (simp add: tm_ok_def list_all_iff)
  then have ctx: "j_ctx (cancelling j)" using j(2) by (auto simp: cancelling_def job_ok_def dest: terminal_status)
  have find_map: "find (\<lambda>x. j_id x = i) (map (\<lambda>x. if j_id x = i then f x else x) js) = map_option f (find (\<lambda>x. j_id x = i) js)"
    if "\<And>x. j_id (f x) = j_id x" for f js
    using that by (induction js) auto
  have setf: "tm_byID i (tm_set i f m) = map_option f (tm_byID i m)" if "\<And>x. j_id (f x) = j_id x" for f m
    by (simp add: tm_byID_def tm_set_def find_map [OF that])
  have c: "tm_byID i c = Some (cancelling j)"
    using j by (simp add: c_def Cancel_def setf cancelling_def)
  note cj = byID_found [OF c]
  have "j_status j' = Cancelled" if "tm_reach c m'" "j' \<in> set (tm_order m')" "j_id j' = i" "terminal j'" for m' j'
  proof -
    have "follows (cancelling j) j'"
      using tm_reach_later [OF that(1) okc _ that(2)] cj that(3) by simp
    moreover have "job_ok j'" using tm_reach_ok [OF that(1) okc] that(2) by (simp add: tm_ok_def list_all_iff)
    ultimately show ?thesis using ctx that(4) by (simp add: follows_def job_ok_def)
  qed
  moreover have "tm_byID i (tm_step (Begin i now) c) = Some (run_begin now (cancelling j))"
    using c by (simp add: setf run_begin_def)
  moreover from this have "fst (Cancel fmt i (tm_step (Begin i now) c)) = (Some (viewLocked fmt (cancelling (run_begin now (cancelling j)))), True)"
    by (simp add: Cancel_def cancellable_def run_begin_def)
  ultimately show ?thesis using c ctx by (auto simp: cancelling_def run_begin_def)
qed

definition two_jobs :: manager where
  "two_jobs = tm_step (Begin ''task-000001'' 2) (tm_step (StartTask Backup_create ''db'' ''db'' 1)
     (tm_step (StartTask Vm_create ''app'' ''app'' 0) NewManager))"

lemma two_jobs_reach: "tm_reach NewManager two_jobs"
proof -
  have 1: "tm_enabled (tm_step (StartTask Backup_create ''db'' ''db'' 1) (tm_step (StartTask Vm_create ''app'' ''app'' 0) NewManager))
      (Begin ''task-000001'' 2)" by code_simp
  show ?thesis unfolding two_jobs_def by (intro tm_next [OF _ 1] tm_next tm_refl) simp_all
qed

lemma two_jobs_find:
  "map_option j_status (tm_byID ''task-000001'' two_jobs) = Some TRunning"
  "map_option j_status (tm_byID ''task-000002'' two_jobs) = Some Queued"
  "map_option j_started (tm_byID ''task-000002'' two_jobs) = Some None"
  by code_simp+

theorem task_lifecycle_witness:
  "list_all (\<lambda>j. 0 \<le> j_progress j \<and> j_progress j \<le> 100) (tm_order two_jobs) \<and> length (tm_order two_jobs) = 2"
proof
  show "list_all (\<lambda>j. 0 \<le> j_progress j \<and> j_progress j \<le> 100) (tm_order two_jobs)"
    using task_lifecycle [OF two_jobs_reach] by (simp add: list_all_iff)
  show "length (tm_order two_jobs) = 2" by code_simp
qed

theorem cancelled_stays_witness:
  "\<exists>r. tm_byID ''task-000002'' (tm_step (Begin ''task-000002'' 5) (tm_step (CancelTask ''task-000002'') two_jobs)) = Some r
     \<and> j_status r = TRunning \<and> j_ctx r"
proof -
  from two_jobs_find obtain j where j: "tm_byID ''task-000002'' two_jobs = Some j" "j_status j = Queued" "j_started j = None"
    by auto
  then have "cancellable j" by (simp add: cancellable_def)
  from cancelled_stays [OF two_jobs_reach j(1) this] j(3) show ?thesis by blast
qed


subsection \<open>The history\<close>

text \<open>
  As long as the history holds no more than 500 tasks and not all of them are unfinished,
  starting one more keeps it so, and drops exactly the oldest finished task when it was full.
\<close>

theorem history_bounded:
  assumes "length (tm_order m) \<le> maxHistory" "length (tm_order m) < maxHistory \<or> (\<exists>j \<in> set (tm_order m). terminal j)"
  shows "length (tm_order (Start t res name now m)) \<le> maxHistory
    \<and> tm_order (Start t res name now m) =
      (if length (tm_order m) < maxHistory then tm_order m
       else takeWhile (\<lambda>j. \<not> terminal j) (tm_order m) @ tl (dropWhile (\<lambda>j. \<not> terminal j) (tm_order m)))
      @ [new_job (Suc (tm_seq m)) t res name now]"
proof -
  let ?new = "new_job (Suc (tm_seq m)) t res name now" and ?u = "\<lambda>j. \<not> terminal j"
  show ?thesis
  proof (cases "length (tm_order m) < maxHistory")
    case True
    then show ?thesis by (simp add: Start_def Let_def)
  next
    case False
    with assms have l: "length (tm_order m) = maxHistory" and e: "\<exists>j \<in> set (tm_order m). terminal j" by auto
    from e have dw: "dropWhile ?u (tm_order m) \<noteq> []" by (auto simp: dropWhile_eq_Nil_conv)
    then obtain x xs where x: "dropWhile ?u (tm_order m) = x # xs" by (cases "dropWhile ?u (tm_order m)") auto
    have "tm_order m = takeWhile ?u (tm_order m) @ x # xs" using x by (metis takeWhile_dropWhile_id)
    then have "length (takeWhile ?u (tm_order m) @ xs) = maxHistory - 1" using l by (metis One_nat_def add_Suc_right diff_Suc_1 length_Cons length_append)
    moreover have "trim 1 (tm_order m @ [?new]) = takeWhile ?u (tm_order m) @ xs @ [?new]"
    proof -
      from e obtain z where z: "z \<in> set (tm_order m)" "\<not> \<not> terminal z" by blast
      have "\<exists>j \<in> set (tm_order m @ [?new]). terminal j" using e by auto
      then show ?thesis
        using z takeWhile_append1 [of z "tm_order m" ?u "[?new]"] dropWhile_append1 [of z "tm_order m" ?u "[?new]"] x
        unfolding trim_one by simp
    qed
    moreover have "tm_order (Start t res name now m) = trim 1 (tm_order m @ [?new])"
      using l by (simp add: Start_def Let_def)
    ultimately show ?thesis using x l by (simp add: maxHistory_def)
  qed
qed

theorem history_bounded_witness:
  "length (tm_order (Start Vm_create ''app'' ''app'' 9 two_jobs)) \<le> maxHistory"
proof -
  have "length (tm_order two_jobs) < maxHistory" by code_simp
  with history_bounded [of two_jobs] show ?thesis by simp
qed

subsection \<open>The handlers of the API\<close>

fun tasks_handle :: "(int \<Rightarrow> string) \<Rightarrow> request \<Rightarrow> manager \<Rightarrow> (reply \<times> manager) option" where
  "tasks_handle fmt (GetTasks status limit) m =
     (let items = task_list fmt (orelse status '''') (nat limit) m in Some (Inr [PTasks items (int (length items))], m))"
| "tasks_handle fmt (PostTaskCancel i) m = Some (case Cancel fmt i m of
     ((Some t, True), m') \<Rightarrow> (Inr [PTask t], m')
   | ((_, _), m') \<Rightarrow> (Inl (writeError (if tm_byID i m' = None then Refusal ''TASK_NOT_FOUND'' ''Task was not found''
        else Refusal ''TASK_NOT_CANCELLABLE'' ''Task already reached a terminal state'')), m'))"
| "tasks_handle fmt q m = None"

definition tasks_serve :: "(int \<Rightarrow> string) \<Rightarrow> user \<Rightarrow> request \<Rightarrow> manager \<Rightarrow> (reply \<times> manager) option" where
  "tasks_serve fmt me q m = (case boundary (Some me) q of
     Some x \<Rightarrow> Some (Inl (writeError x), m)
   | None \<Rightarrow> tasks_handle fmt q m)"

lemma task_name_valid: "n < 2 ^ 63 \<Longrightarrow> requireValidTaskID (task_name n) = ''''"
proof -
  assume "n < 2 ^ 63"
  then have "n < 10 ^ 20" by simp
  then have l: "length (nat_str n) \<le> 20" by (intro length_nat_str) simp_all
  have "list_all is_name_char ''0123456789''" by code_simp
  then have "is_digit c \<Longrightarrow> is_name_char c" for c unfolding is_digit_def list_all_iff by blast
  with digits_nat_str have "list_all is_name_char (nat_str n)" by (rule list.pred_mono_strong)
  moreover have "is_name_char (CHR ''0'')" by code_simp
  ultimately have "list_all is_name_char (pad_left 6 (nat_str n))" by (auto simp: pad_left_def list_all_append list_all_iff)
  moreover have "1 \<le> length (pad_left 6 (nat_str n))" "length (pad_left 6 (nat_str n)) \<le> 64" using l by (auto simp: pad_left_def)
  ultimately have "rx_test taskIDRE (task_name n)"
    unfolding taskIDRE_def rx_test_lang lit_def Cls_Seq_lang rx_lang_Rep_Cls by (simp add: task_name_def)
  then show ?thesis by (simp add: requireValidTaskID_def)
qed


lemma serve_cancel:
  assumes "requireValidTaskID i = ''''" "tm_byID i m = Some j"
  shows "tasks_serve fmt me (PostTaskCancel i) m = Some
    (if cancellable j then (Inr [PTask (viewLocked fmt (cancelling j))], tm_set i cancelling m)
     else (Inl (ApiError ''TASK_NOT_CANCELLABLE'' ''Task already reached a terminal state'' 409), m))"
  using assms by (simp add: tasks_serve_def validation_def Cancel_def writeError_def errorStatus_def)

text \<open>A row of the list shows a task of the history.\<close>

lemma task_list_jobs: "t \<in> set (task_list fmt status limit m) \<Longrightarrow> \<exists>j \<in> set (tm_order m). t = viewLocked fmt j"
  by (auto simp: task_list_def Let_def split: if_splits dest!: in_set_takeD)

lemma view_id [simp]: "t_id (viewLocked fmt j) = j_id j" "t_cancellable (viewLocked fmt j) = cancellable j"
  by (simp_all add: viewLocked_def)

text \<open>
  C13. The tasks page offers Cancel for a task of the list it shows exactly when the server would
  then accept the cancellation, whichever filter the list was made with; when the task ends
  before the click, the server answers that it cannot be cancelled and changes nothing.
\<close>

theorem cancel_button_agrees:
  assumes m: "tm_reach NewManager m" "tm_seq m < 2 ^ 63"
    and page: "poll_data (tk_poll s) = Some (task_list fmt0 status limit m, n)" "\<not> poll_loading (tk_poll s)" "tk_cancelling s = None"
    and row: "i \<in> t_id ` set (task_list fmt0 status limit m)"
  shows "(tk_enabled fmt s (TkCancel i) \<longleftrightarrow>
      (\<exists>t m'. tasks_serve fmt0 me (PostTaskCancel i) m = Some (Inr [PTask t], m') \<and> t_id t = i \<and> t_status t = Cancelling))
    \<and> (\<forall>err now. tm_enabled m (End i err now) \<longrightarrow>
        tasks_serve fmt0 me (PostTaskCancel i) (tm_step (End i err now) m)
          = Some (Inl (ApiError ''TASK_NOT_CANCELLABLE'' ''Task already reached a terminal state'' 409), tm_step (End i err now) m))"
proof -
  have ok: "tm_ok m" using tm_reach_ok [OF m(1) New_ok] .
  from row obtain j where j: "j \<in> set (tm_order m)" "i = j_id j" by (auto dest: task_list_jobs)
  with ok have f: "tm_byID i m = Some j" using byID_unique [of m j] by (simp add: tm_ok_def)
  have uniq: "k = j" if "k \<in> set (tm_order m)" "j_id k = i" for k
    using that f byID_unique [of m k] ok by (simp add: tm_ok_def)
  obtain k where "k \<le> tm_seq m" "i = task_name k"
    using ok j by (auto simp: tm_ok_def list_all_iff)
  with m(2) have v: "requireValidTaskID i = ''''" by (simp add: task_name_valid)
  have off: "tk_enabled fmt s (TkCancel i) \<longleftrightarrow> cancellable j"
  proof -
    have "tk_enabled fmt s (TkCancel i) \<longleftrightarrow> (\<exists>t \<in> set (task_list fmt0 status limit m). t_id t = i \<and> t_cancellable t)"
      using page by (simp add: tk_enabled_cancel tk_items_def)
    also have "\<dots> \<longleftrightarrow> cancellable j"
      using row uniq by (force dest: task_list_jobs)
    finally show ?thesis .
  qed
  have acc: "cancellable j \<longleftrightarrow>
      (\<exists>t m'. tasks_serve fmt0 me (PostTaskCancel i) m = Some (Inr [PTask t], m') \<and> t_id t = i \<and> t_status t = Cancelling)"
    using serve_cancel [OF v f, of fmt0 me] j(2) by (auto simp: cancelling_def viewLocked_def)
  have "tasks_serve fmt0 me (PostTaskCancel i) (tm_step (End i err now) m)
      = Some (Inl (ApiError ''TASK_NOT_CANCELLABLE'' ''Task already reached a terminal state'' 409), tm_step (End i err now) m)"
    if e: "tm_enabled m (End i err now)" for err now
  proof -
    let ?m = "tm_step (End i err now) m" and ?j = "run_end err now j"
    have "job_ok j" using j(1) ok by (simp add: tm_ok_def list_all_iff)
    then have "job_ok ?j" using e f end_ok by simp
    moreover have "j_finished ?j \<noteq> None" by (simp add: run_end_def Let_def split: option.split)
    ultimately have "\<not> cancellable ?j" by (auto simp: job_ok_def dest: terminal_status)
    moreover have "j_id ?j = i" using j(2) by (simp add: run_end_def Let_def split: option.split)
    then have "?j \<in> set (tm_order ?m)" using j by (force simp: tm_set_def)
    with \<open>j_id ?j = i\<close> have "tm_byID i ?m = Some ?j"
      using tm_step_ok [OF ok e] byID_unique [of ?m ?j] by (simp add: tm_ok_def del: tm_step.simps)
    ultimately show ?thesis using serve_cancel [OF v] by simp
  qed
  with off acc show ?thesis by blast
qed

theorem cancel_button_agrees_witness:
  "tk_enabled id (tasks_page_init\<lparr>tk_poll := poll_init\<lparr>poll_data := Some (task_list (\<lambda>_. '''') '''' 200 two_jobs, 2), poll_loading := False\<rparr>\<rparr>)
     (TkCancel ''task-000002'')"
proof -
  let ?s = "tasks_page_init\<lparr>tk_poll := poll_init\<lparr>poll_data := Some (task_list (\<lambda>_. '''') '''' 200 two_jobs, 2), poll_loading := False\<rparr>\<rparr>"
  have s: "poll_data (tk_poll ?s) = Some (task_list (\<lambda>_. '''') '''' 200 two_jobs, 2)" "\<not> poll_loading (tk_poll ?s)" "tk_cancelling ?s = None"
    by (simp_all add: tasks_page_init_def)
  have "tm_seq two_jobs = 2" by code_simp
  then have l: "tm_seq two_jobs < 2 ^ 63" by simp
  have row: "''task-000002'' \<in> t_id ` set (task_list (\<lambda>_. '''') '''' 200 two_jobs)" by code_simp
  from two_jobs_find obtain j where j: "tm_byID ''task-000002'' two_jobs = Some j" "j_status j = Queued" by auto
  have "task_name 2 = ''task-000002''" by code_simp
  then have v: "requireValidTaskID ''task-000002'' = ''''" using task_name_valid [of 2] by simp
  have i: "j_id j = ''task-000002''" using byID_found [OF j(1)] by simp
  then have "\<exists>t m'. tasks_serve (\<lambda>_. '''') u (PostTaskCancel ''task-000002'') two_jobs = Some (Inr [PTask t], m')
      \<and> t_id t = ''task-000002'' \<and> t_status t = Cancelling" for u
    using serve_cancel [OF v j(1)] j(2) by (simp add: cancellable_def cancelling_def viewLocked_def)
  with cancel_button_agrees [OF two_jobs_reach l s row, THEN conjunct1] show ?thesis by blast
qed

end
