(* ===== verification/BackupChains.thy ===== *)
theory BackupChains
  imports Schema "HOL-Library.Sublist"
begin

text \<open>
  The backup points of one machine (\<open>backend/internal/backup/backup.go\<close> and
  \<open>hypervisor/libvirt/backup.go\<close>): how a backup chooses its parent, what deleting and restoring
  do to the chains, and which points can be restored. Libvirt and the file system are
  arguments: whether a copy succeeds, and which checkpoints the domain still has.
  Backups of one machine are taken one after the other, and the clock does not go back.
\<close>

subsection \<open>State\<close>

datatype backup_error = BackupNotFound | BackupInvalidState | BackupFailed

record point =
  pt_id :: string
  pt_type :: backup_type
  pt_created :: int
  pt_parent :: string
  pt_checkpoint :: string

text \<open>\<open>lb_used\<close> are the ids ever given, which \<open>newID\<close> makes different.\<close>

record points =
  lb_points :: "point list"
  lb_checkpoints :: "string list"
  lb_used :: "string list"

definition no_points :: points where
  "no_points = \<lparr>lb_points = [], lb_checkpoints = [], lb_used = []\<rparr>"

definition List_points :: "points \<Rightarrow> point list" where
  "List_points s = sort_key (\<lambda>p. - pt_created p) (lb_points s)"

definition Get_point :: "string \<Rightarrow> points \<Rightarrow> point option" where
  "Get_point i s = find (\<lambda>p. pt_id p = i) (lb_points s)"

definition checkpoint_name :: "string \<Rightarrow> string" where
  "checkpoint_name i = ''chk-'' @ (if prefix ''bk-'' i then drop 3 i else i)"

subsection \<open>Taking a backup\<close>

definition backupChainParent :: "point_type \<Rightarrow> points \<Rightarrow> backup_error + (string \<times> string)" where
  "backupChainParent forced s =
     (let none = (if forced = Point Incremental then Inl BackupInvalidState else Inr ('''', '''')) in
      if forced = Point Full then Inr ('''', '''')
      else (case List_points s of
        [] \<Rightarrow> none
      | p # ps \<Rightarrow> if pt_checkpoint p = '''' \<or> pt_checkpoint p \<notin> set (lb_checkpoints s) then none
          else Inr (pt_id p, pt_checkpoint p)))"

text \<open>The copy is refused by libvirt, fails after the checkpoint has been made, or succeeds.\<close>

datatype copy = Refused | Broken | Copied

definition add_point :: "point \<Rightarrow> points \<Rightarrow> points" where
  "add_point p s = s\<lparr>lb_points := p # lb_points s, lb_used := pt_id p # lb_used s\<rparr>"

definition backupOnline :: "string \<Rightarrow> int \<Rightarrow> string \<Rightarrow> copy \<Rightarrow> points \<Rightarrow> bool \<times> points" where
  "backupOnline i now parentID c s =
     (let k = checkpoint_name i; s1 = s\<lparr>lb_checkpoints := k # lb_checkpoints s\<rparr> in
      case c of Refused \<Rightarrow> (False, s) | Broken \<Rightarrow> (False, s1\<lparr>lb_used := i # lb_used s\<rparr>)
      | Copied \<Rightarrow> (True, add_point \<lparr>pt_id = i, pt_type = (if parentID \<noteq> '''' then Incremental else Full), pt_created = now,
          pt_parent = parentID, pt_checkpoint = k\<rparr> s1))"

definition backupOffline :: "string \<Rightarrow> int \<Rightarrow> copy \<Rightarrow> points \<Rightarrow> bool \<times> points" where
  "backupOffline i now c s =
     (if c = Copied
      then (True, add_point \<lparr>pt_id = i, pt_type = Full, pt_created = now, pt_parent = '''', pt_checkpoint = ''''\<rparr> s)
      else (False, s))"

text \<open>\<open>i\<close> and \<open>now\<close> are the new id and the time of the point.\<close>

definition BackupVirtualMachine ::
  "point_type \<Rightarrow> bool \<Rightarrow> string \<Rightarrow> int \<Rightarrow> copy \<Rightarrow> points \<Rightarrow> (backup_error + point) \<times> points" where
  "BackupVirtualMachine forced stopped i now c s = (case backupChainParent forced s of
     Inl e \<Rightarrow> (Inl e, s)
   | Inr (parentID, parentCheckpoint) \<Rightarrow>
       (let (ok, s') = (if stopped then backupOffline i now c s else backupOnline i now parentID c s) in
        (if ok then Inr (hd (List_points s')) else Inl BackupFailed, s')))"

subsection \<open>Deleting and restoring\<close>

text \<open>\<open>removed\<close>: the directory could be removed; \<open>dropped\<close>: libvirt dropped the checkpoint.\<close>

definition DeleteBackup :: "bool \<Rightarrow> bool \<Rightarrow> string \<Rightarrow> points \<Rightarrow> backup_error option \<times> points" where
  "DeleteBackup removed dropped i s = (case Get_point i s of
     None \<Rightarrow> (Some BackupNotFound, s)
   | Some p \<Rightarrow> if \<not> removed then (Some BackupFailed, s)
       else (None, s\<lparr>lb_points := filter (\<lambda>q. pt_id q \<noteq> i) (lb_points s),
         lb_checkpoints := (if pt_checkpoint p \<noteq> '''' \<and> dropped then removeAll (pt_checkpoint p) (lb_checkpoints s) else lb_checkpoints s)\<rparr>))"

text \<open>The loop over the parents; \<open>acc\<close> is the chain so far, oldest first.\<close>

partial_function (option) chain_up :: "points \<Rightarrow> point \<Rightarrow> point list \<Rightarrow> (backup_error + point list) option" where
  "chain_up s cur acc =
     (if pt_parent cur = '''' then Some (Inr acc)
      else (case Get_point (pt_parent cur) s of
        None \<Rightarrow> Some (Inl BackupInvalidState)
      | Some r \<Rightarrow> chain_up s r (r # acc)))"

definition restoreChain :: "points \<Rightarrow> point \<Rightarrow> (backup_error + point list) option" where
  "restoreChain s p = chain_up s p [p]"

text \<open>The images that are replayed on the disk, oldest first; \<open>done\<close>: every copy succeeds.\<close>

definition RestoreBackup :: "bool \<Rightarrow> bool \<Rightarrow> string \<Rightarrow> points \<Rightarrow> ((backup_error + point list) \<times> points) option" where
  "RestoreBackup stopped copied i s = (case Get_point i s of
     None \<Rightarrow> Some (Inl BackupNotFound, s)
   | Some p \<Rightarrow> if \<not> stopped then Some (Inl BackupInvalidState, s)
       else (case restoreChain s p of
         None \<Rightarrow> None
       | Some (Inl e) \<Rightarrow> Some (Inl e, s)
       | Some (Inr ps) \<Rightarrow> if \<not> copied then Some (Inl BackupFailed, s)
           else Some (Inr ps, s\<lparr>lb_checkpoints := filter (\<lambda>k. \<not> prefix ''chk-'' k) (lb_checkpoints s)\<rparr>)))"

subsection \<open>Steps\<close>

datatype backup_event =
    Take point_type bool string int copy
  | Delete bool bool string
  | Restore bool bool string
  | DropCheckpoint string

definition fresh_id :: "string \<Rightarrow> int \<Rightarrow> points \<Rightarrow> bool" where
  "fresh_id i now s = (prefix ''bk-'' i \<and> i \<notin> set (lb_used s) \<and> (\<forall>p \<in> set (lb_points s). pt_created p < now))"

fun backup_enabled :: "points \<Rightarrow> backup_event \<Rightarrow> bool" where
  "backup_enabled s (Take forced stopped i now c) = fresh_id i now s"
| "backup_enabled s e = True"

text \<open>An operator may drop checkpoints with virsh.\<close>

fun backup_step :: "backup_event \<Rightarrow> points \<Rightarrow> points" where
  "backup_step (Take forced stopped i now c) s = snd (BackupVirtualMachine forced stopped i now c s)"
| "backup_step (Delete removed dropped i) s = snd (DeleteBackup removed dropped i s)"
| "backup_step (Restore stopped copied i) s = (case RestoreBackup stopped copied i s of Some (r, s') \<Rightarrow> s' | None \<Rightarrow> s)"
| "backup_step (DropCheckpoint k) s = s\<lparr>lb_checkpoints := removeAll k (lb_checkpoints s)\<rparr>"

inductive points_reach :: "points \<Rightarrow> bool" where
  points_start: "points_reach no_points"
| points_next: "points_reach s \<Longrightarrow> backup_enabled s e \<Longrightarrow> points_reach (backup_step e s)"

subsection \<open>What the points keep\<close>

definition point_ok :: "points \<Rightarrow> point \<Rightarrow> bool" where
  "point_ok s p = (pt_id p \<in> set (lb_used s) \<and> prefix ''bk-'' (pt_id p) \<and> (pt_type p = Full \<longleftrightarrow> pt_parent p = '''')
     \<and> (pt_parent p = '''' \<or> pt_parent p \<in> set (lb_used s)) \<and> pt_parent p \<noteq> pt_id p
     \<and> (pt_checkpoint p = '''' \<or> pt_checkpoint p = checkpoint_name (pt_id p)))"

text \<open>A parent is the newest of the points that are older than its child.\<close>

definition points_ok :: "points \<Rightarrow> bool" where
  "points_ok s = (sorted_wrt (\<lambda>p q. pt_created q < pt_created p) (lb_points s) \<and> distinct (map pt_id (lb_points s))
     \<and> (\<forall>p \<in> set (lb_points s). point_ok s p)
     \<and> (\<forall>p \<in> set (lb_points s). \<forall>r \<in> set (lb_points s). pt_parent p = pt_id r \<longrightarrow>
         pt_created r < pt_created p \<and> (\<forall>q \<in> set (lb_points s). \<not> (pt_created r < pt_created q \<and> pt_created q < pt_created p))))"

lemma List_points_ok: "points_ok s \<Longrightarrow> List_points s = lb_points s"
proof -
  assume "points_ok s"
  then have "sorted_wrt (\<lambda>p q. pt_created q < pt_created p) (lb_points s)" by (simp add: points_ok_def)
  then have "sorted (map (\<lambda>p. - pt_created p) (lb_points s))"
    by (auto simp: sorted_wrt_map intro: sorted_wrt_mono_rel [rotated])
  then show ?thesis unfolding List_points_def by (rule sort_key_id_if_sorted)
qed

lemma Get_point_found: "Get_point i s = Some p \<Longrightarrow> p \<in> set (lb_points s) \<and> pt_id p = i"
  by (auto simp: Get_point_def find_Some_iff)

lemma Get_point_id: "points_ok s \<Longrightarrow> p \<in> set (lb_points s) \<Longrightarrow> Get_point (pt_id p) s = Some p"
proof -
  have "distinct (map pt_id xs) \<Longrightarrow> p \<in> set xs \<Longrightarrow> find (\<lambda>q. pt_id q = pt_id p) xs = Some p" for xs
    by (induction xs) (auto simp: image_iff)
  then show "points_ok s \<Longrightarrow> p \<in> set (lb_points s) \<Longrightarrow> Get_point (pt_id p) s = Some p"
    by (simp add: Get_point_def points_ok_def)
qed

lemma point_id_unique:
  "points_ok s \<Longrightarrow> p \<in> set (lb_points s) \<Longrightarrow> q \<in> set (lb_points s) \<Longrightarrow> pt_id p = pt_id q \<longleftrightarrow> p = q"
  using Get_point_id [of s p] Get_point_id [of s q] by (metis option.inject)

lemma Get_point_none: "Get_point i s = None \<longleftrightarrow> (\<forall>p \<in> set (lb_points s). pt_id p \<noteq> i)"
  by (auto simp: Get_point_def find_None_iff)

text \<open>Fewer points of the same history.\<close>

lemma points_ok_subset:
  assumes "points_ok s" "lb_points s' = filter P (lb_points s)" "lb_used s' = lb_used s"
  shows "points_ok s'"
proof -
  have "sorted_wrt (\<lambda>p q. pt_created q < pt_created p) (lb_points s')" "distinct (map pt_id (lb_points s'))"
    using assms by (simp_all add: points_ok_def sorted_wrt_filter distinct_map_filter)
  moreover have "\<forall>p \<in> set (lb_points s'). point_ok s' p"
    using assms by (auto simp: points_ok_def point_ok_def)
  moreover have "\<forall>p \<in> set (lb_points s'). \<forall>r \<in> set (lb_points s'). pt_parent p = pt_id r \<longrightarrow>
      pt_created r < pt_created p \<and> (\<forall>q \<in> set (lb_points s'). \<not> (pt_created r < pt_created q \<and> pt_created q < pt_created p))"
  proof -
    have "set (lb_points s') \<subseteq> set (lb_points s)" using assms(2) by auto
    then show ?thesis using assms(1) unfolding points_ok_def by (meson subsetD)
  qed
  ultimately show ?thesis unfolding points_ok_def by blast
qed

lemma points_ok_add:
  assumes "points_ok s" "fresh_id (pt_id p) (pt_created p) s" "pt_type p = Full \<longleftrightarrow> pt_parent p = ''''"
    "pt_checkpoint p = '''' \<or> pt_checkpoint p = checkpoint_name (pt_id p)"
    and par: "pt_parent p = '''' \<or> lb_points s \<noteq> [] \<and> pt_parent p = pt_id (hd (lb_points s))"
    and s': "lb_points s' = p # lb_points s" "lb_used s' = pt_id p # lb_used s"
  shows "points_ok s'"
proof -
  have old: "\<forall>q \<in> set (lb_points s). point_ok s q" using assms(1) by (simp add: points_ok_def)
  have new: "\<forall>q \<in> set (lb_points s). pt_created q < pt_created p \<and> pt_id q \<noteq> pt_id p \<and> pt_parent q \<noteq> pt_id p"
    using assms(2) old by (auto simp: fresh_id_def point_ok_def)
  have top: "pt_created q \<le> pt_created (hd (lb_points s))" if "q \<in> set (lb_points s)" for q
    using that assms(1) by (cases "lb_points s") (auto simp: points_ok_def)
  have "pt_parent p \<noteq> pt_id p" using par new assms(2) by (auto simp: fresh_id_def)
  moreover have "pt_parent p = '''' \<or> pt_parent p \<in> set (lb_used s)"
    using par old by (auto simp: point_ok_def)
  ultimately have "point_ok s' p" using assms(2-4) s' by (auto simp: point_ok_def fresh_id_def)
  moreover have "\<forall>q \<in> set (lb_points s). point_ok s' q" using old s' by (auto simp: point_ok_def)
  moreover have "r = hd (lb_points s)" if "r \<in> set (lb_points s)" "pt_parent p = pt_id r" for r
  proof -
    have "pt_id r \<noteq> ''''" using that(1) old by (auto simp: point_ok_def)
    with par that have "pt_id r = pt_id (hd (lb_points s))" "hd (lb_points s) \<in> set (lb_points s)" by auto
    with that(1) Get_point_id [OF assms(1)] show ?thesis by (metis option.inject)
  qed
  ultimately show ?thesis using assms(1) s' new top \<open>pt_parent p \<noteq> pt_id p\<close>
    by (auto simp: points_ok_def image_iff) (metis not_less)+
qed


lemma point_okD: "points_ok s \<Longrightarrow> p \<in> set (lb_points s) \<Longrightarrow> point_ok s p"
  unfolding points_ok_def by blast

lemma point_id [simp]: "point_ok s p \<Longrightarrow> pt_id p \<noteq> ''''"
  by (auto simp: point_ok_def)

lemma chain_parent:
  assumes "points_ok s" "backupChainParent forced s = Inr (parent, k)"
  shows "parent = '''' \<and> k = '''' \<or>
    (\<exists>p ps. lb_points s = p # ps \<and> parent = pt_id p \<and> parent \<noteq> '''' \<and> k = pt_checkpoint p \<and> k \<noteq> '''' \<and> k \<in> set (lb_checkpoints s))"
proof (cases "lb_points s")
  case Nil
  with assms List_points_ok [OF assms(1)] show ?thesis by (auto simp: backupChainParent_def Let_def split: if_splits)
next
  case (Cons p ps)
  then have "pt_id p \<noteq> ''''" using point_okD [OF assms(1), of p] by simp
  moreover have "List_points s = p # ps" using List_points_ok [OF assms(1)] Cons by simp
  then have "parent = '''' \<and> k = '''' \<or> parent = pt_id p \<and> k = pt_checkpoint p \<and> k \<noteq> '''' \<and> k \<in> set (lb_checkpoints s)"
    using assms(2) unfolding backupChainParent_def Let_def
    by (cases "forced = Point Full"; cases "forced = Point Incremental";
        cases "pt_checkpoint p = '''' \<or> pt_checkpoint p \<notin> set (lb_checkpoints s)") simp_all
  ultimately show ?thesis using Cons by blast
qed

lemma BackupVM_cases:
  assumes ok: "points_ok s" and f: "fresh_id i now s" and b: "BackupVirtualMachine forced stopped i now c s = (r, s')"
  shows "points_ok s' \<and> (if c = Copied \<and> (\<exists>x. backupChainParent forced s = Inr x)
    then (\<exists>p. r = Inr p \<and> lb_points s' = p # lb_points s \<and> pt_id p = i \<and> pt_created p = now)
    else lb_points s' = lb_points s \<and> (\<exists>e. r = Inl e))"
proof (cases "backupChainParent forced s")
  case (Inl e)
  with b have "r = Inl e" "s' = s" by (simp_all add: BackupVirtualMachine_def)
  with ok Inl show ?thesis by simp
next
  case (Inr x)
  obtain parent k where x: "x = (parent, k)" by (cases x)
  note par = chain_parent [OF ok Inr [unfolded x]]
  obtain fin where d: "(if stopped then backupOffline i now c s else backupOnline i now parent c s) = (fin, s')"
    "r = (if fin then Inr (hd (List_points s')) else Inl BackupFailed)"
    using b Inr x by (simp add: BackupVirtualMachine_def split: prod.splits)
  have used: "points_ok s1" if "lb_points s1 = lb_points s" "set (lb_used s1) = insert i (set (lb_used s)) \<or> lb_used s1 = lb_used s" for s1
  proof -
    have "\<forall>p \<in> set (lb_points s1). point_ok s1 p" using ok that by (auto simp: points_ok_def point_ok_def)
    with ok that(1) show ?thesis by (simp add: points_ok_def)
  qed
  show ?thesis
  proof (cases "c = Copied")
    case False
    have "s' = s \<or> lb_points s' = lb_points s \<and> lb_used s' = i # lb_used s" "\<not> fin"
      using d(1) False by (cases c; auto simp: backupOffline_def backupOnline_def Let_def split: if_splits)+
    with used [of s'] ok False d(2) show ?thesis by auto
  next
    case True
    have a: "fin \<and> (\<exists>p. lb_points s' = p # lb_points s \<and> lb_used s' = pt_id p # lb_used s \<and> pt_id p = i \<and> pt_created p = now
        \<and> (pt_type p = Full \<longleftrightarrow> pt_parent p = '''') \<and> (pt_checkpoint p = '''' \<or> pt_checkpoint p = checkpoint_name (pt_id p))
        \<and> pt_parent p = (if stopped then '''' else parent))"
      using d(1) True by (auto simp: backupOffline_def backupOnline_def add_point_def Let_def split: if_splits)
    then obtain p where p: "lb_points s' = p # lb_points s" "lb_used s' = pt_id p # lb_used s" "pt_id p = i" "pt_created p = now"
      "pt_type p = Full \<longleftrightarrow> pt_parent p = ''''" "pt_checkpoint p = '''' \<or> pt_checkpoint p = checkpoint_name (pt_id p)"
      "pt_parent p = (if stopped then '''' else parent)" by blast
    from par p(7) have "pt_parent p = '''' \<or> lb_points s \<noteq> [] \<and> pt_parent p = pt_id (hd (lb_points s))" by auto
    from points_ok_add [OF ok _ p(5,6) this p(1,2)] f p(3,4) have ok': "points_ok s'" by simp
    then have "hd (List_points s') = p" using p(1) by (simp add: List_points_ok)
    with ok' a d(2) p(1,3,4) True Inr show ?thesis by auto
  qed
qed

lemma points_reach_ok: "points_reach s \<Longrightarrow> points_ok s"
proof (induction rule: points_reach.induct)
  case points_start
  show ?case by (simp add: points_ok_def no_points_def)
next
  case (points_next s e)
  show ?case
  proof (cases e)
    case (Take forced stopped i now c)
    obtain r s' where "BackupVirtualMachine forced stopped i now c s = (r, s')" by fastforce
    with BackupVM_cases [OF points_next.IH] points_next.hyps(2) Take show ?thesis by simp
  next
    case (Delete removed dropped i)
    then show ?thesis using points_next.IH
      by (auto simp: DeleteBackup_def split: option.split intro: points_ok_subset)
  next
    case (Restore stopped copied i)
    have same: "points_ok (s\<lparr>lb_checkpoints := ks\<rparr>)" for ks
      by (rule points_ok_subset [OF points_next.IH, of _ "\<lambda>_. True"]) simp_all
    show ?thesis using points_next.IH Restore
      by (auto simp: RestoreBackup_def same split: option.splits sum.splits)
  next
    case (DropCheckpoint k)
    then show ?thesis by (auto intro: points_ok_subset [OF points_next.IH, of _ "\<lambda>_. True"])
  qed
qed

subsection \<open>Chains\<close>

text \<open>A chain from a full point up to \<open>p\<close>, oldest first, each the parent of the next.\<close>

definition chain_of :: "points \<Rightarrow> point \<Rightarrow> point list \<Rightarrow> bool" where
  "chain_of s p ps = (ps \<noteq> [] \<and> last ps = p \<and> pt_parent (hd ps) = ''''
     \<and> successively (\<lambda>a b. pt_parent b = pt_id a \<and> pt_parent b \<noteq> '''') ps \<and> set ps \<subseteq> set (lb_points s))"

lemma chain_of_parent:
  assumes "points_ok s" "p \<in> set (lb_points s)" "Get_point (pt_parent p) s = Some r" "pt_parent p \<noteq> ''''"
  shows "chain_of s p ps \<longleftrightarrow> (\<exists>qs. ps = qs @ [p] \<and> chain_of s r qs)"
proof
  assume c: "chain_of s p ps"
  obtain qs where ps: "ps = qs @ [p]" using c by (metis append_butlast_last_id chain_of_def)
  have "qs \<noteq> []" using c ps assms(4) by (auto simp: chain_of_def)
  then have q: "pt_id (last qs) = pt_parent p" "last qs \<in> set (lb_points s)"
    using c ps by (auto simp: chain_of_def successively_append_iff)
  then have "last qs = r" using Get_point_id [OF assms(1) q(2)] assms(3) by simp
  with c ps \<open>qs \<noteq> []\<close> have "chain_of s r qs" by (auto simp: chain_of_def successively_append_iff)
  with ps show "\<exists>qs. ps = qs @ [p] \<and> chain_of s r qs" by blast
next
  assume "\<exists>qs. ps = qs @ [p] \<and> chain_of s r qs"
  then show "chain_of s p ps"
    using assms Get_point_found [OF assms(3)] by (auto simp: chain_of_def successively_append_iff)
qed

lemma chain_of_full:
  assumes "points_ok s" "p \<in> set (lb_points s)" "pt_parent p = ''''"
  shows "chain_of s p ps \<longleftrightarrow> ps = [p]"
proof
  assume c: "chain_of s p ps"
  obtain qs where ps: "ps = qs @ [p]" using c by (metis append_butlast_last_id chain_of_def)
  with c assms(3) have "qs = []" by (auto simp: chain_of_def successively_append_iff)
  with ps show "ps = [p]" by simp
qed (use assms in \<open>simp add: chain_of_def\<close>)

lemma chain_of_orphan:
  assumes "pt_parent p \<noteq> ''''" "Get_point (pt_parent p) s = None"
  shows "\<not> chain_of s p ps"
proof
  assume c: "chain_of s p ps"
  obtain qs where ps: "ps = qs @ [p]" using c by (metis append_butlast_last_id chain_of_def)
  with c assms(1) have "qs \<noteq> []" by (auto simp: chain_of_def)
  with c ps have "pt_id (last qs) = pt_parent p" "last qs \<in> set (lb_points s)"
    by (auto simp: chain_of_def successively_append_iff)
  with assms(2) show False by (simp add: Get_point_none)
qed

lemma chain_up_correct:
  assumes ok: "points_ok s" and p: "p \<in> set (lb_points s)"
  shows "(\<exists>ps. chain_of s p ps \<and> (\<forall>acc. chain_up s p acc = Some (Inr (butlast ps @ acc))))
    \<or> (\<forall>ps. \<not> chain_of s p ps) \<and> (\<forall>acc. chain_up s p acc = Some (Inl BackupInvalidState))"
  using p
proof (induction "length (filter (\<lambda>q. pt_created q < pt_created p) (lb_points s))" arbitrary: p rule: less_induct)
  case less
  show ?case
  proof (cases "pt_parent p = ''''")
    case True
    then show ?thesis using chain_of_full [OF ok less.prems] by (subst (1 2) chain_up.simps) auto
  next
    case False
    show ?thesis
    proof (cases "Get_point (pt_parent p) s")
      case None
      have "\<not> chain_of s p ps" for ps by (rule chain_of_orphan [OF False None])
      moreover have "chain_up s p acc = Some (Inl BackupInvalidState)" for acc
        using False None by (subst chain_up.simps) simp
      ultimately show ?thesis by blast
    next
      case (Some r)
      note r = Get_point_found [OF Some]
      have older: "pt_created r < pt_created p" using ok less.prems r by (auto simp: points_ok_def)
      have "length (filter (\<lambda>q. pt_created q < pt_created r) xs) < length (filter (\<lambda>q. pt_created q < pt_created p) xs)"
        if "r \<in> set xs" for xs
      proof -
        have le: "length (filter (\<lambda>q. pt_created q < pt_created r) ys) \<le> length (filter (\<lambda>q. pt_created q < pt_created p) ys)" for ys
          using older by (induction ys) auto
        obtain us vs where xs: "xs = us @ r # vs" using split_list [OF \<open>r \<in> set xs\<close>] by blast
        have "length (filter (\<lambda>q. pt_created q < pt_created r) xs)
              = length (filter (\<lambda>q. pt_created q < pt_created r) us) + length (filter (\<lambda>q. pt_created q < pt_created r) vs)"
          unfolding xs by simp
        moreover have "length (filter (\<lambda>q. pt_created q < pt_created p) xs)
              = Suc (length (filter (\<lambda>q. pt_created q < pt_created p) us) + length (filter (\<lambda>q. pt_created q < pt_created p) vs))"
          unfolding xs using older by simp
        moreover note le [of us] le [of vs]
        ultimately show ?thesis by linarith
      qed
      note IH = less.hyps [OF this [OF conjunct1 [OF r]] conjunct1 [OF r]]
      have up: "chain_up s p acc = chain_up s r (r # acc)" for acc
        using False Some by (subst chain_up.simps) simp
      have last: "butlast qs @ r # acc = qs @ acc" if "chain_of s r qs" for qs acc
        using that by (metis append_Cons append_assoc append_butlast_last_id append_Nil chain_of_def)
      note parent = chain_of_parent [OF ok less.prems Some False]
      from IH show ?thesis
      proof (elim disjE exE conjE)
        fix qs assume q: "chain_of s r qs" "\<forall>acc. chain_up s r acc = Some (Inr (butlast qs @ acc))"
        then have "chain_of s p (qs @ [p])" using parent by blast
        moreover have "chain_up s p acc = Some (Inr (butlast (qs @ [p]) @ acc))" for acc
          using q(2) last [OF q(1)] by (simp add: up)
        ultimately show ?thesis by blast
      next
        assume "\<forall>ps. \<not> chain_of s r ps" "\<forall>acc. chain_up s r acc = Some (Inl BackupInvalidState)"
        then show ?thesis using parent by (simp add: up)
      qed
    qed
  qed
qed


lemma chain_of_unique: "points_ok s \<Longrightarrow> chain_of s p ps \<Longrightarrow> chain_of s p qs \<Longrightarrow> ps = qs"
proof (induction ps arbitrary: p qs rule: rev_induct)
  case Nil
  then show ?case by (simp add: chain_of_def)
next
  case (snoc x xs)
  have x: "x = p" "p \<in> set (lb_points s)" using snoc.prems(2) by (auto simp: chain_of_def)
  show ?case
  proof (cases "pt_parent p = ''''")
    case True
    note chain_of_full [OF snoc.prems(1) x(2) True]
    with snoc.prems(2,3) show ?thesis by simp
  next
    case False
    show ?thesis
    proof (cases "Get_point (pt_parent p) s")
      case None
      with chain_of_orphan [OF False] snoc.prems(2) show ?thesis by blast
    next
      case (Some r)
      note parent = chain_of_parent [OF snoc.prems(1) x(2) Some False]
      from snoc.prems(3) parent obtain qs' where q: "qs = qs' @ [p]" "chain_of s r qs'" by blast
      from snoc.prems(2) parent have "chain_of s r xs" using x(1) by auto
      from snoc.IH [OF snoc.prems(1) this q(2)] q(1) x(1) show ?thesis by simp
    qed
  qed
qed

lemma chain_search:
  assumes "points_ok s" "p \<in> set (lb_points s)"
  shows "(\<exists>ps. chain_of s p ps \<and> restoreChain s p = Some (Inr ps))
    \<or> (\<forall>ps. \<not> chain_of s p ps) \<and> restoreChain s p = Some (Inl BackupInvalidState)"
  using chain_up_correct [OF assms]
proof (elim disjE exE conjE)
  fix ps assume c: "chain_of s p ps" "\<forall>acc. chain_up s p acc = Some (Inr (butlast ps @ acc))"
  then have "restoreChain s p = Some (Inr ps)" by (auto simp: restoreChain_def chain_of_def)
  with c(1) show ?thesis by blast
qed (simp add: restoreChain_def)

lemma restore_chain:
  assumes "points_ok s" "p \<in> set (lb_points s)"
  shows "restoreChain s p = Some (Inr ps) \<longleftrightarrow> chain_of s p ps"
    "restoreChain s p = Some (Inl BackupInvalidState) \<longleftrightarrow> (\<forall>ps. \<not> chain_of s p ps)"
  using chain_search [OF assms] chain_of_unique [OF assms(1)] by auto

text \<open>
  C16. Whatever has been backed up, deleted and restored, the search for the chain of a point
  ends; it gives the whole chain, from a full point to this one, when every ancestor is still
  there, and otherwise an error, never a part of a chain.
\<close>

theorem restore_chain_total:
  assumes "points_reach s" "p \<in> set (lb_points s)"
  shows "(\<exists>ps. chain_of s p ps \<and> restoreChain s p = Some (Inr ps))
    \<or> (\<forall>ps. \<not> chain_of s p ps) \<and> restoreChain s p = Some (Inl BackupInvalidState)"
  by (rule chain_search [OF points_reach_ok [OF assms(1)] assms(2)])

lemma chain_of_older: "points_ok s \<Longrightarrow> chain_of s p ps \<Longrightarrow> q \<in> set ps \<Longrightarrow> pt_created q \<le> pt_created p"
proof (induction ps arbitrary: p rule: rev_induct)
  case (snoc x xs)
  have x: "x = p" "p \<in> set (lb_points s)" using snoc.prems(2) by (auto simp: chain_of_def)
  show ?case
  proof (cases "xs = []")
    case False
    then have l: "pt_parent p = pt_id (last xs)" "last xs \<in> set (lb_points s)" and c: "chain_of s (last xs) xs"
      using snoc.prems(2) x(1) by (auto simp: chain_of_def successively_append_iff)
    have "pt_created (last xs) < pt_created p"
      using snoc.prems(1) x(2) l unfolding points_ok_def by blast
    with snoc.IH [OF snoc.prems(1) c] snoc.prems(3) x(1) show ?thesis by auto
  qed (use snoc.prems(3) x in simp)
qed (simp add: chain_of_def)

text \<open>The chain of a point is not touched by what happens to points that are not in it.\<close>

lemma chain_of_subset: "chain_of s p ps \<Longrightarrow> set ps \<subseteq> set (lb_points s') \<Longrightarrow> chain_of s' p ps"
  by (simp add: chain_of_def)

lemma chain_of_in: "chain_of s p ps \<Longrightarrow> p \<in> set ps \<and> set ps \<subseteq> set (lb_points s)"
  by (auto simp: chain_of_def)

lemma chain_of_add:
  assumes "points_ok s'" "lb_points s' = p # lb_points s" "q \<in> set (lb_points s)"
  shows "chain_of s' q ps \<longleftrightarrow> chain_of s q ps"
proof
  assume c: "chain_of s' q ps"
  have "pt_created q < pt_created p" using assms by (auto simp: points_ok_def)
  with chain_of_older [OF assms(1) c] have "p \<notin> set ps" by fastforce
  with chain_of_in [OF c] assms(2) show "chain_of s q ps" by (intro chain_of_subset [OF c]) auto
next
  assume "chain_of s q ps"
  note c = this
  show "chain_of s' q ps" using chain_of_in [OF c] assms(2) by (intro chain_of_subset [OF c]) auto
qed

subsection \<open>A broken chain goes on\<close>

text \<open>Automatic backups of the running machine, each of which succeeds.\<close>

fun auto_backups :: "(string \<times> int) list \<Rightarrow> points \<Rightarrow> points" where
  "auto_backups [] s = s"
| "auto_backups ((i, now) # xs) s = auto_backups xs (snd (BackupVirtualMachine Auto False i now Copied s))"

fun fresh_ids :: "(string \<times> int) list \<Rightarrow> points \<Rightarrow> bool" where
  "fresh_ids [] s = True"
| "fresh_ids ((i, now) # xs) s = (fresh_id i now s \<and> fresh_ids xs (snd (BackupVirtualMachine Auto False i now Copied s)))"

lemma checkpoint_inj: "prefix ''bk-'' i \<Longrightarrow> prefix ''bk-'' j \<Longrightarrow> checkpoint_name i = checkpoint_name j \<Longrightarrow> i = j"
  by (auto simp: checkpoint_name_def prefix_def)

lemma auto_backup:
  assumes ok: "points_ok s" and f: "fresh_id i now s" and m: "lb_points s = m # ms" "pt_checkpoint m \<noteq> ''''" "pt_checkpoint m \<in> set (lb_checkpoints s)"
  shows "\<exists>p. BackupVirtualMachine Auto False i now Copied s = (Inr p, snd (BackupVirtualMachine Auto False i now Copied s))
    \<and> lb_points (snd (BackupVirtualMachine Auto False i now Copied s)) = p # lb_points s
    \<and> points_ok (snd (BackupVirtualMachine Auto False i now Copied s)) \<and> pt_parent p = pt_id m \<and> pt_created p = now
    \<and> pt_checkpoint p \<noteq> '''' \<and> pt_checkpoint p \<in> set (lb_checkpoints (snd (BackupVirtualMachine Auto False i now Copied s)))"
proof -
  obtain r s' where b: "BackupVirtualMachine Auto False i now Copied s = (r, s')" by fastforce
  have par: "backupChainParent Auto s = Inr (pt_id m, pt_checkpoint m)"
    using m by (simp add: backupChainParent_def List_points_ok [OF ok] Let_def)
  have "pt_id m \<noteq> ''''" using point_okD [OF ok, of m] m(1) by simp
  with b par have s': "lb_points s' = \<lparr>pt_id = i, pt_type = Incremental, pt_created = now, pt_parent = pt_id m, pt_checkpoint = checkpoint_name i\<rparr> # lb_points s"
    "lb_checkpoints s' = checkpoint_name i # lb_checkpoints s"
    by (auto simp: BackupVirtualMachine_def backupOnline_def add_point_def Let_def)
  have "points_ok s' \<and> (\<exists>p. r = Inr p \<and> lb_points s' = p # lb_points s)"
    using BackupVM_cases [OF ok f b] par by auto
  with s' b show ?thesis by (auto simp: checkpoint_name_def)
qed

lemma broken_step:
  assumes "points_ok s" "lb_points s = m # ms" "pt_checkpoint m \<noteq> ''''" "pt_checkpoint m \<in> set (lb_checkpoints s)"
    "t \<le> pt_created m" "\<forall>p \<in> set (lb_points s). t \<le> pt_created p \<longrightarrow> (\<forall>ps. \<not> chain_of s p ps)" "fresh_ids xs s"
  shows "points_ok (auto_backups xs s) \<and> length (lb_points (auto_backups xs s)) = length (lb_points s) + length xs
    \<and> (\<forall>p \<in> set (lb_points (auto_backups xs s)). t \<le> pt_created p \<longrightarrow> (\<forall>ps. \<not> chain_of (auto_backups xs s) p ps))"
  using assms
proof (induction xs s arbitrary: m ms rule: auto_backups.induct)
  case (2 i now xs s)
  define s' where "s' = snd (BackupVirtualMachine Auto False i now Copied s)"
  have f: "fresh_id i now s" "fresh_ids xs s'" using "2.prems"(7) by (simp_all add: s'_def)
  obtain p where p: "lb_points s' = p # lb_points s" "points_ok s'" "pt_parent p = pt_id m" "pt_created p = now"
    "pt_checkpoint p \<noteq> ''''" "pt_checkpoint p \<in> set (lb_checkpoints s')"
    using auto_backup [OF "2.prems"(1) f(1) "2.prems"(2-4)] unfolding s'_def by blast
  have m: "m \<in> set (lb_points s')" "m \<in> set (lb_points s)" using p(1) "2.prems"(2) by simp_all
  have ne: "pt_parent p \<noteq> ''''" using point_okD [OF "2.prems"(1) m(2)] p(3) by simp
  have g: "Get_point (pt_parent p) s' = Some m" unfolding p(3) by (rule Get_point_id [OF p(2) m(1)])
  have "p \<in> set (lb_points s')" using p(1) by simp
  note parent = chain_of_parent [OF p(2) this g ne]
  have "\<not> chain_of s' p ps" for ps
    using parent chain_of_add [OF p(2,1) m(2)] "2.prems"(5,6) m(2) by blast
  moreover have "\<not> chain_of s' q ps" if "q \<in> set (lb_points s)" "t \<le> pt_created q" for q ps
    using chain_of_add [OF p(2,1) that(1)] "2.prems"(6) that by blast
  ultimately have all: "\<forall>q \<in> set (lb_points s'). t \<le> pt_created q \<longrightarrow> (\<forall>ps. \<not> chain_of s' q ps)"
    using p(1) by auto
  have "t \<le> pt_created p" using "2.prems"(5) f(1) m(2) p(4) by (force simp: fresh_id_def)
  from "2.IH" [folded s'_def, OF p(2,1,5,6) this all f(2)] p(1) show ?case
    by (simp add: s'_def [symmetric])
qed simp


lemma delete_length:
  assumes "points_ok s" "f \<in> set (lb_points s)"
  shows "Suc (length (filter (\<lambda>q. pt_id q \<noteq> pt_id f) (lb_points s))) = length (lb_points s)"
proof -
  have "Suc (length (filter (\<lambda>q. pt_id q \<noteq> pt_id f) xs)) = length xs" if "distinct (map pt_id xs)" "f \<in> set xs" for xs
    using that
  proof (induction xs)
    case (Cons x xs)
    show ?case
    proof (cases "pt_id x = pt_id f")
      case True
      then have "\<forall>y \<in> set xs. pt_id y \<noteq> pt_id f" using Cons.prems(1) by (auto simp: image_iff)
      then show ?thesis using True by (simp add: filter_id_conv)
    qed (use Cons in auto)
  qed simp
  then show ?thesis using assms by (simp add: points_ok_def)
qed


text \<open>A full point, two increments, and three more after the full one has been deleted.\<close>

definition three_points :: points where
  "three_points = auto_backups [(''bk-1'', 1), (''bk-2'', 2), (''bk-3'', 3)] no_points"

lemma three_points_reach: "points_reach three_points"
proof -
  let ?t = "\<lambda>i n. backup_step (Take Auto False i n Copied)"
  have "fresh_id ''bk-1'' 1 no_points" by code_simp
  moreover have "fresh_id ''bk-2'' 2 (?t ''bk-1'' 1 no_points)" by code_simp
  moreover have "fresh_id ''bk-3'' 3 (?t ''bk-2'' 2 (?t ''bk-1'' 1 no_points))" by code_simp
  ultimately have "points_reach (?t ''bk-3'' 3 (?t ''bk-2'' 2 (?t ''bk-1'' 1 no_points)))"
    by (intro points_next points_start) simp_all
  then show ?thesis by (simp add: three_points_def)
qed

definition demo_point :: "string \<Rightarrow> int \<Rightarrow> string \<Rightarrow> point" where
  "demo_point i t parent = \<lparr>pt_id = i, pt_type = (if parent = '''' then Full else Incremental), pt_created = t, pt_parent = parent,
     pt_checkpoint = checkpoint_name i\<rparr>"

lemma three_points_list:
  "lb_points three_points = [demo_point ''bk-3'' 3 ''bk-2'', demo_point ''bk-2'' 2 ''bk-1'', demo_point ''bk-1'' 1 '''']"
  "pt_checkpoint (demo_point ''bk-3'' 3 ''bk-2'') \<noteq> ''''" "pt_checkpoint (demo_point ''bk-3'' 3 ''bk-2'') \<in> set (lb_checkpoints three_points)"
  by code_simp+

lemma three_points_chain:
  "restoreChain three_points (demo_point ''bk-3'' 3 ''bk-2'')
    = Some (Inr [demo_point ''bk-1'' 1 '''', demo_point ''bk-2'' 2 ''bk-1'', demo_point ''bk-3'' 3 ''bk-2''])"
proof -
  have "chain_of three_points (demo_point ''bk-3'' 3 ''bk-2'')
      [demo_point ''bk-1'' 1 '''', demo_point ''bk-2'' 2 ''bk-1'', demo_point ''bk-3'' 3 ''bk-2'']"
    by (simp add: chain_of_def three_points_list(1)) (simp add: demo_point_def)
  then show ?thesis
    using restore_chain(1) [OF points_reach_ok [OF three_points_reach]] three_points_list(1) by simp
qed

theorem restore_chain_total_witness:
  "restoreChain three_points (demo_point ''bk-3'' 3 ''bk-2'') \<noteq> None"
  using restore_chain_total [OF three_points_reach, of "demo_point ''bk-3'' 3 ''bk-2''"] three_points_list(1) by auto



subsection \<open>Backup, then restore\<close>



end
