(* ===== verification/Scheduler.thy ===== *)
theory Scheduler
  imports Server Runtime BackupChains
begin

text \<open>
  The scheduler of the server (\<open>backend/internal/scheduler/scheduler.go\<close>, with the handlers of
  \<open>api/schedules_handlers.go\<close>): when a schedule is due, what a run does to the backups of its
  machines and which points the retention deletes, the store of the schedules behind the API,
  and how a run, its record and the edits of a schedule interleave. Times are nanoseconds of
  the server's local time, without changes of the offset; the file of the store can be written.
\<close>

subsection \<open>Data\<close>

record sched =
  sc_id :: string
  sc_name :: string
  sc_time :: string
  sc_vmIDs :: "string list"
  sc_type :: point_type
  sc_keep :: int
  sc_enabled :: bool
  sc_lastRun :: "int option"
  sc_created :: int

definition scheduleToModel :: "(int \<Rightarrow> string) \<Rightarrow> sched \<Rightarrow> schedule" where
  "scheduleToModel fmt x = \<lparr>s_id = sc_id x, s_name = sc_name x, s_time = sc_time x, s_vmIds = sc_vmIDs x, s_type = sc_type x,
     s_retentionKeepLast = sc_keep x, s_enabled = sc_enabled x, s_lastRun = map_option fmt (sc_lastRun x)\<rparr>"

subsection \<open>When a schedule is due\<close>

definition minute :: int where
  "minute = 60 * 10 ^ 9"

definition day :: int where
  "day = 24 * 60 * minute"

text \<open>\<open>Sscanf\<close> with \<open>%d:%d\<close> on the times the API lets into the store.\<close>

definition scan_time :: "string \<Rightarrow> (int \<times> int) option" where
  "scan_time t = (if rx_test schedule_timePattern t
     then Some (int (parse_digits (takeWhile is_digit t)), int (parse_digits (tl (dropWhile is_digit t)))) else None)"

definition midnight :: "int \<Rightarrow> int" where
  "midnight now = now div day * day"

definition due :: "sched \<Rightarrow> int \<Rightarrow> bool" where
  "due x now = (case scan_time (sc_time x) of
     None \<Rightarrow> False
   | Some (h, m) \<Rightarrow> (let today = midnight now + (60 * h + m) * minute in
       if now < today then False
       else (case sc_lastRun x of Some l \<Rightarrow> l < today | None \<Rightarrow> \<not> today < sc_created x)))"

text \<open>The time of the day at which a schedule runs, within the day.\<close>

definition at_time :: "sched \<Rightarrow> int" where
  "at_time x = (case scan_time (sc_time x) of Some (h, m) \<Rightarrow> (60 * h + m) * minute | None \<Rightarrow> 0)"

lemma takeWhile_pad:
  "takeWhile is_digit (pad_left 2 (nat_str h) @ '':'' @ s) = pad_left 2 (nat_str h)"
  "dropWhile is_digit (pad_left 2 (nat_str h) @ '':'' @ s) = '':'' @ s"
proof -
  have z: "is_digit (CHR ''0'')" by code_simp
  have "\<forall>c \<in> set (pad_left 2 (nat_str h)). is_digit c"
    using digits_nat_str [of h] z by (auto simp: pad_left_def list_all_iff)
  moreover have "\<not> is_digit (CHR '':'')" by code_simp
  ultimately show "takeWhile is_digit (pad_left 2 (nat_str h) @ '':'' @ s) = pad_left 2 (nat_str h)"
    "dropWhile is_digit (pad_left 2 (nat_str h) @ '':'' @ s) = '':'' @ s"
    by (simp_all add: takeWhile_append2 dropWhile_append2)
qed

lemma parse_pad: "parse_digits (pad_left k (nat_str n)) = n"
  by (simp add: pad_left_def parse_digits_append)

lemma scan_valid:
  assumes "rx_test schedule_timePattern t"
  shows "\<exists>h m. scan_time t = Some (int h, int m) \<and> h < 24 \<and> m < 60"
proof -
  obtain h m where t: "h < 24" "m < 60" "t = pad_left 2 (nat_str h) @ '':'' @ pad_left 2 (nat_str m)"
    using assms unfolding same_patterns time_accepted by blast
  have "scan_time t = Some (int h, int m)"
    using assms unfolding scan_time_def t(3) takeWhile_pad by (simp add: parse_pad)
  with t(1,2) show ?thesis by blast
qed

lemma at_time_range:
  assumes "rx_test schedule_timePattern (sc_time x)"
  shows "0 \<le> at_time x" "at_time x < day"
proof -
  obtain h m where "scan_time (sc_time x) = Some (int h, int m)" "h < 24" "m < 60" using scan_valid [OF assms] by blast
  then show "0 \<le> at_time x" "at_time x < day" by (auto simp: at_time_def day_def minute_def)
qed

lemma day_pos [simp]: "0 < day"
  by (simp add: day_def minute_def)

lemma midnight_range: "midnight now \<le> now" "now < midnight now + day"
proof -
  have "midnight now = now - now mod day" by (simp add: midnight_def minus_mod_eq_div_mult)
  with pos_mod_sign [OF day_pos, of now] pos_mod_bound [OF day_pos, of now]
  show "midnight now \<le> now" "now < midnight now + day" by linarith+
qed

lemma midnight_same:
  assumes "midnight now \<le> t" "t < midnight now + day"
  shows "midnight t = midnight now"
proof -
  have "t div day = now div day"
    by (rule int_div_pos_eq [of t day "now div day" "t - midnight now"])
      (use assms in \<open>simp_all add: midnight_def mult.commute\<close>)
  then show ?thesis by (simp add: midnight_def)
qed

lemma due_valid:
  assumes "rx_test schedule_timePattern (sc_time x)"
  shows "due x now \<longleftrightarrow> midnight now + at_time x \<le> now
    \<and> (case sc_lastRun x of Some l \<Rightarrow> l < midnight now + at_time x | None \<Rightarrow> sc_created x \<le> midnight now + at_time x)"
proof -
  obtain h m where "scan_time (sc_time x) = Some (int h, int m)" using scan_valid [OF assms] by blast
  then show ?thesis by (auto simp: due_def at_time_def Let_def split: option.split)
qed


text \<open>
  C28. A schedule that runs and is marked is not due again that day and is due once more from its
  time of the next day on; one that was due but did not run before midnight (another run held
  the lock, or the server was down) is not due after it: that day's backup is never made up for.
\<close>

theorem due_once_a_day:
  assumes t: "rx_test schedule_timePattern (sc_time x)" and d: "due x now"
  shows "\<not> due (x\<lparr>sc_lastRun := Some now\<rparr>) now
    \<and> (\<forall>t. now \<le> t \<and> t < midnight now + day + at_time x \<longrightarrow> \<not> due (x\<lparr>sc_lastRun := Some now\<rparr>) t)
    \<and> (\<forall>t. midnight now + day + at_time x \<le> t \<and> t < midnight now + 2 * day \<longrightarrow> due (x\<lparr>sc_lastRun := Some now\<rparr>) t)
    \<and> (\<forall>t. midnight now + day \<le> t \<and> t < midnight now + day + at_time x \<longrightarrow> \<not> due x t)"
proof -
  let ?x = "x\<lparr>sc_lastRun := Some now\<rparr>"
  note r = at_time_range [OF t] midnight_range [of now]
  have v: "due x u \<longleftrightarrow> midnight u + at_time x \<le> u
      \<and> (case sc_lastRun x of Some l \<Rightarrow> l < midnight u + at_time x | None \<Rightarrow> sc_created x \<le> midnight u + at_time x)" for u
    by (rule due_valid [OF t])
  have v': "due ?x u \<longleftrightarrow> midnight u + at_time x \<le> u \<and> now < midnight u + at_time x" for u
    using due_valid [of ?x u] t by (simp add: at_time_def)
  have here: "midnight now + at_time x \<le> now" using d v by blast
  have today: "midnight u = midnight now" if "now \<le> u" "u < midnight now + day" for u
    using that r by (intro midnight_same) auto
  have next_day: "midnight (midnight now + day) = midnight now + day"
    using day_pos by (simp add: midnight_def distrib_right)
  have tomorrow: "midnight u = midnight now + day" if "midnight now + day \<le> u" "u < midnight now + 2 * day" for u
    using that midnight_same [of "midnight now + day" u] next_day by simp
  show ?thesis
  proof (intro conjI allI impI)
    show "\<not> due ?x now" using v' here by auto
    show "\<not> due ?x u" if "now \<le> u \<and> u < midnight now + day + at_time x" for u
    proof (cases "u < midnight now + day")
      case True
      with that today [of u] v' here show ?thesis by auto
    next
      case False
      with that r tomorrow [of u] v' show ?thesis by auto
    qed
    show "due ?x u" if "midnight now + day + at_time x \<le> u \<and> u < midnight now + 2 * day" for u
      using that r tomorrow [of u] v' by auto
    show "\<not> due x u" if "midnight now + day \<le> u \<and> u < midnight now + day + at_time x" for u
      using that r tomorrow [of u] v [of u] by auto
  qed
qed

definition nightly :: sched where
  "nightly = \<lparr>sc_id = ''sch-1'', sc_name = ''nightly'', sc_time = ''23:00'', sc_vmIDs = [''*''], sc_type = Auto, sc_keep = 2,
     sc_enabled = True, sc_lastRun = None, sc_created = 0\<rparr>"

lemma nightly_due: "rx_test schedule_timePattern (sc_time nightly)" "due nightly (23 * 60 * minute)" "at_time nightly = 23 * 60 * minute"
  by code_simp+

theorem due_once_a_day_witness:
  "\<not> due (nightly\<lparr>sc_lastRun := Some (23 * 60 * minute)\<rparr>) (23 * 60 * minute)"
  using due_once_a_day [OF nightly_due(1,2)] by blast

subsection \<open>The retention\<close>

text \<open>\<open>fulls\<close> counts the full points met; the time of the \<open>keepLast\<close>-th is the cutoff.\<close>

fun cutoff :: "int \<Rightarrow> int \<Rightarrow> point list \<Rightarrow> int option" where
  "cutoff fulls keepLast [] = None"
| "cutoff fulls keepLast (m # ms) =
     (if pt_type m = Full then (if fulls + 1 = keepLast then Some (pt_created m) else cutoff (fulls + 1) keepLast ms)
      else cutoff fulls keepLast ms)"

text \<open>\<open>removed i\<close> and \<open>dropped\<close> are what the deletion of the point \<open>i\<close> meets.\<close>

fun prune_loop :: "(string \<Rightarrow> bool) \<Rightarrow> bool \<Rightarrow> int \<Rightarrow> point list \<Rightarrow> nat \<Rightarrow> points \<Rightarrow> nat \<times> points" where
  "prune_loop removed dropped c [] pruned s = (pruned, s)"
| "prune_loop removed dropped c (m # ms) pruned s =
     (if pt_created m < c then (case DeleteBackup (removed (pt_id m)) dropped (pt_id m) s of
        (Some e, s') \<Rightarrow> prune_loop removed dropped c ms pruned s'
      | (None, s') \<Rightarrow> prune_loop removed dropped c ms (Suc pruned) s')
      else prune_loop removed dropped c ms pruned s)"

text \<open>\<open>listed\<close>: the points of the machine can be listed.\<close>

definition prune :: "bool \<Rightarrow> (string \<Rightarrow> bool) \<Rightarrow> bool \<Rightarrow> int \<Rightarrow> points \<Rightarrow> nat \<times> points" where
  "prune listed removed dropped keepLast s =
     (if \<not> listed then (0, s)
      else (let metas = sort_key (\<lambda>p. - pt_created p) (List_points s) in
        case cutoff 0 keepLast metas of None \<Rightarrow> (0, s) | Some c \<Rightarrow> prune_loop removed dropped c metas 0 s))"

lemma cutoff_nth:
  "fulls < keepLast \<Longrightarrow> cutoff fulls keepLast ms = (let fs = filter (\<lambda>m. pt_type m = Full) ms; k = nat (keepLast - fulls) - 1 in
     if k < length fs then Some (pt_created (fs ! k)) else None)"
proof (induction fulls keepLast ms rule: cutoff.induct)
  case (2 fulls keepLast m ms)
  show ?case
  proof (cases "pt_type m = Full \<and> fulls + 1 \<noteq> keepLast")
    case True
    then have "fulls + 1 < keepLast" using "2.prems" by simp
    then obtain j where "nat (keepLast - (fulls + 1)) = Suc j" by (cases "nat (keepLast - (fulls + 1))") auto
    moreover from this have "nat (keepLast - fulls) = Suc (Suc j)" by simp
    ultimately show ?thesis using True "2.IH"(1) \<open>fulls + 1 < keepLast\<close> by (simp add: Let_def)
  next
    case False
    then show ?thesis using "2.IH"(2) "2.prems" by (auto simp: Let_def)
  qed
qed simp

lemma prune_loop_result:
  assumes "points_ok s" "set ms \<subseteq> set (lb_points s)" "distinct ms" "prune_loop removed dropped c ms n s = (k, s')"
  shows "lb_points s' = filter (\<lambda>p. \<not> (p \<in> set ms \<and> pt_created p < c \<and> removed (pt_id p))) (lb_points s) \<and> lb_used s' = lb_used s
    \<and> k = n + length (filter (\<lambda>p. pt_created p < c \<and> removed (pt_id p)) ms)"
  using assms
proof (induction ms arbitrary: n s)
  case (Cons m ms)
  have min: "m \<in> set (lb_points s)" using Cons.prems(2) by simp
  show ?case
  proof (cases "pt_created m < c \<and> removed (pt_id m)")
    case False
    then have "prune_loop removed dropped c (m # ms) n s = prune_loop removed dropped c ms n s"
      by (auto simp: DeleteBackup_def split: option.split)
    with Cons.IH [of s n] Cons.prems False show ?thesis by (auto intro!: filter_cong)
  next
    case True
    define s1 where "s1 = snd (DeleteBackup True dropped (pt_id m) s)"
    have g: "Get_point (pt_id m) s = Some m" by (rule Get_point_id [OF Cons.prems(1) min])
    have l: "prune_loop removed dropped c (m # ms) n s = prune_loop removed dropped c ms (Suc n) s1"
      using True g by (simp add: DeleteBackup_def s1_def)
    have s1: "lb_points s1 = filter (\<lambda>q. pt_id q \<noteq> pt_id m) (lb_points s)" "lb_used s1 = lb_used s"
      by (simp_all add: s1_def DeleteBackup_def g)
    have same: "pt_id q = pt_id m \<longleftrightarrow> q = m" if "q \<in> set (lb_points s)" for q
      using point_id_unique [OF Cons.prems(1) that min] .
    have "set ms \<subseteq> set (lb_points s1)"
    proof
      fix q assume "q \<in> set ms"
      then have "q \<in> set (lb_points s)" "q \<noteq> m" using Cons.prems(2,3) by auto
      with same [of q] show "q \<in> set (lb_points s1)" by (simp add: s1(1))
    qed
    from Cons.IH [OF points_ok_subset [OF Cons.prems(1) s1] this, of "Suc n"] Cons.prems(3,4) l
    have i: "lb_points s' = filter (\<lambda>p. \<not> (p \<in> set ms \<and> pt_created p < c \<and> removed (pt_id p))) (lb_points s1)"
      "lb_used s' = lb_used s1" "k = Suc n + length (filter (\<lambda>p. pt_created p < c \<and> removed (pt_id p)) ms)"
      by simp_all
    have "lb_points s' = filter (\<lambda>p. \<not> (p \<in> set (m # ms) \<and> pt_created p < c \<and> removed (pt_id p))) (lb_points s)"
    proof -
      have "(pt_id q \<noteq> pt_id m \<and> \<not> (q \<in> set ms \<and> pt_created q < c \<and> removed (pt_id q)))
          = (\<not> (q \<in> set (m # ms) \<and> pt_created q < c \<and> removed (pt_id q)))" if "q \<in> set (lb_points s)" for q
        using same [OF that] True by auto
      then show ?thesis unfolding i(1) s1(1) filter_filter by (intro filter_cong) simp_all
    qed
    with i(2,3) s1(2) True show ?thesis by simp
  qed
qed simp

text \<open>The points from a full one on are a closed part of the chains.\<close>

lemma chain_above_full:
  "points_ok s \<Longrightarrow> f \<in> set (lb_points s) \<Longrightarrow> pt_type f = Full \<Longrightarrow> chain_of s p ps \<Longrightarrow> pt_created f \<le> pt_created p
    \<Longrightarrow> q \<in> set ps \<Longrightarrow> pt_created f \<le> pt_created q"
proof (induction ps arbitrary: p rule: rev_induct)
  case (snoc x xs)
  have x: "x = p" "p \<in> set (lb_points s)" using snoc.prems(4) by (auto simp: chain_of_def)
  show ?case
  proof (cases "xs = []")
    case False
    then have l: "pt_parent p = pt_id (last xs)" "pt_parent p \<noteq> ''''" "last xs \<in> set (lb_points s)" and c: "chain_of s (last xs) xs"
      using snoc.prems(4) x(1) by (auto simp: chain_of_def successively_append_iff)
    have "f \<noteq> p" using l(2) snoc.prems(3) point_okD [OF snoc.prems(1,2)] by (auto simp: point_ok_def)
    have "pt_created f \<noteq> pt_created p"
    proof -
      have "inj_on pt_created (set xs)" if "sorted_wrt (\<lambda>p q. pt_created q < pt_created p) xs" for xs
        using that by (induction xs) auto
      then show ?thesis using snoc.prems(1,2) x(2) \<open>f \<noteq> p\<close> unfolding points_ok_def inj_on_def by blast
    qed
    then have "\<not> pt_created (last xs) < pt_created f"
      using snoc.prems(1,2,5) x(2) l(1,3) unfolding points_ok_def by (metis order_le_less)
    with snoc.IH [OF snoc.prems(1-3) c] snoc.prems(5,6) x(1) show ?thesis by auto
  qed (use snoc.prems(5,6) x in simp)
qed (simp add: chain_of_def)


text \<open>
  C22. The retention deletes exactly the points that are older than the full point it keeps last,
  as far as they can be deleted, and nothing while there are fewer full points than it keeps:
  of every point that is as new as that one the chain stays as it was.
\<close>

theorem prune_keeps_chains:
  assumes s: "points_reach s" and k: "0 < keepLast"
    and r: "prune True removed dropped keepLast s = (n, s')"
  defines "fulls \<equiv> filter (\<lambda>p. pt_type p = Full) (lb_points s)"
  shows "(int (length fulls) < keepLast \<longrightarrow> s' = s \<and> n = 0)
    \<and> (keepLast \<le> int (length fulls) \<longrightarrow> (let c = pt_created (fulls ! (nat keepLast - 1)) in
        lb_points s' = filter (\<lambda>p. \<not> (pt_created p < c \<and> removed (pt_id p))) (lb_points s)
        \<and> n + length (lb_points s') = length (lb_points s)
        \<and> (\<forall>p \<in> set (lb_points s). c \<le> pt_created p \<longrightarrow> restoreChain s' p = restoreChain s p)))"
proof -
  have ok: "points_ok s" by (rule points_reach_ok [OF s])
  have sorted: "sort_key (\<lambda>p. - pt_created p) (List_points s) = lb_points s"
    using List_points_ok [OF ok] by (simp add: List_points_def)
  have cut: "cutoff 0 keepLast (lb_points s) = (if nat keepLast - 1 < length fulls then Some (pt_created (fulls ! (nat keepLast - 1))) else None)"
    using cutoff_nth [OF k] by (simp add: Let_def fulls_def)
  show ?thesis
  proof (cases "keepLast \<le> int (length fulls)")
    case False
    then have "\<not> nat keepLast - 1 < length fulls" using k by linarith
    with cut r sorted False show ?thesis by (simp add: prune_def)
  next
    case True
    then have i: "nat keepLast - 1 < length fulls" using k by linarith
    define f where "f = fulls ! (nat keepLast - 1)"
    have f: "f \<in> set (lb_points s)" "pt_type f = Full" using nth_mem [OF i] by (simp_all add: f_def fulls_def)
    have dist: "distinct (lb_points s)" using ok by (simp add: points_ok_def distinct_map)
    have "prune_loop removed dropped (pt_created f) (lb_points s) 0 s = (n, s')"
      using r cut i sorted by (simp add: prune_def f_def)
    from prune_loop_result [OF ok order_refl dist this]
    have p: "lb_points s' = filter (\<lambda>p. \<not> (p \<in> set (lb_points s) \<and> pt_created p < pt_created f \<and> removed (pt_id p))) (lb_points s)"
      "lb_used s' = lb_used s" "n = length (filter (\<lambda>p. pt_created p < pt_created f \<and> removed (pt_id p)) (lb_points s))" by simp_all
    have p1: "lb_points s' = filter (\<lambda>p. \<not> (pt_created p < pt_created f \<and> removed (pt_id p))) (lb_points s)"
      unfolding p(1) by (rule filter_cong) auto
    have ok': "points_ok s'" by (rule points_ok_subset [OF ok p1 p(2)])
    have "n + length (lb_points s') = length (lb_points s)"
      unfolding p(3) p1 by (rule sum_length_filter_compl)
    moreover have "restoreChain s' q = restoreChain s q" if q: "q \<in> set (lb_points s)" "pt_created f \<le> pt_created q" for q
    proof -
      have q': "q \<in> set (lb_points s')" using q p1 by auto
      have "chain_of s' q qs \<longleftrightarrow> chain_of s q qs" for qs
      proof
        assume c: "chain_of s q qs"
        have "set qs \<subseteq> set (lb_points s')"
          using chain_above_full [OF ok f c q(2)] chain_of_in [OF c] p1 by fastforce
        then show "chain_of s' q qs" by (rule chain_of_subset [OF c])
      next
        assume c: "chain_of s' q qs"
        show "chain_of s q qs" using chain_of_in [OF c] p1 by (intro chain_of_subset [OF c]) auto
      qed
      with chain_search [OF ok q(1)] restore_chain [OF ok' q'] show ?thesis by auto
    qed
    ultimately show ?thesis using p1 True by (simp add: Let_def f_def)
  qed
qed

definition two_chains :: points where
  "two_chains = backup_step (Take (Point Full) False ''bk-7'' 7 Copied) three_points"

theorem prune_keeps_chains_witness:
  "fst (prune True (\<lambda>_. True) True 1 two_chains) = 3 \<and> length (lb_points (snd (prune True (\<lambda>_. True) True 1 two_chains))) = 1"
proof -
  have "fresh_id ''bk-7'' 7 three_points" by code_simp
  then have reach: "points_reach two_chains"
    unfolding two_chains_def by (intro points_next three_points_reach) simp
  have l: "length (filter (\<lambda>p. pt_type p = Full) (lb_points two_chains)) = 2" "length (lb_points two_chains) = 4"
    "length (filter (\<lambda>p. \<not> (pt_created p < pt_created (filter (\<lambda>p. pt_type p = Full) (lb_points two_chains) ! 0) \<and> True)) (lb_points two_chains)) = 1"
    by code_simp+
  obtain n s' where r: "prune True (\<lambda>_. True) True 1 two_chains = (n, s')" by fastforce
  have one: "(0 :: int) < 1" "(1 :: int) \<le> int (length (filter (\<lambda>p. pt_type p = Full) (lb_points two_chains)))" "nat 1 - 1 = 0"
    using l(1) by simp_all
  from prune_keeps_chains [OF reach one(1) r, THEN conjunct2, rule_format, OF one(2), unfolded Let_def one(3)]
  have "lb_points s' = filter (\<lambda>p. \<not> (pt_created p < pt_created (filter (\<lambda>p. pt_type p = Full) (lb_points two_chains) ! 0) \<and> True)) (lb_points two_chains)"
    "n + length (lb_points s') = length (lb_points two_chains)" by (blast, blast)
  with l(2,3) r show ?thesis by simp
qed


subsection \<open>A run\<close>

text \<open>What the backup of one machine and its retention meet.\<close>

record chance =
  ch_stopped :: bool
  ch_id :: string
  ch_now :: int
  ch_copy :: copy
  ch_listed :: bool
  ch_removed :: "string \<Rightarrow> bool"
  ch_dropped :: bool

text \<open>\<open>vms\<close> is the answer of \<open>ListVirtualMachines\<close>, \<open>None\<close> when it fails.\<close>

definition targets :: "string list option \<Rightarrow> string list \<Rightarrow> string list option" where
  "targets vms vmIDs = (if ''*'' \<in> set vmIDs then vms else Some vmIDs)"

definition run_vm :: "sched \<Rightarrow> chance \<Rightarrow> points \<Rightarrow> points" where
  "run_vm x o0 s = (case BackupVirtualMachine (sc_type x) (ch_stopped o0) (ch_id o0) (ch_now o0) (ch_copy o0) s of
     (Inl e, s') \<Rightarrow> s'
   | (Inr p, s') \<Rightarrow> if 0 < sc_keep x then snd (prune (ch_listed o0) (ch_removed o0) (ch_dropped o0) (sc_keep x) s') else s')"

fun run_vms :: "sched \<Rightarrow> (string \<Rightarrow> chance) \<Rightarrow> string list \<Rightarrow> (string \<Rightarrow> points) \<Rightarrow> string \<Rightarrow> points" where
  "run_vms x ch [] P = P"
| "run_vms x ch (i # is) P = run_vms x ch is (P(i := run_vm x (ch i) (P i)))"

text \<open>The second component tells whether the run is marked.\<close>

definition runSchedule :: "sched \<Rightarrow> string list option \<Rightarrow> (string \<Rightarrow> chance) \<Rightarrow> (string \<Rightarrow> points) \<Rightarrow> (string \<Rightarrow> points) \<times> bool" where
  "runSchedule x vms ch P = (case targets vms (sc_vmIDs x) of
     None \<Rightarrow> (P, False) | Some is \<Rightarrow> (run_vms x ch is P, True))"

lemma run_vms_each:
  "distinct is \<Longrightarrow> run_vms x ch is P i = (if i \<in> set is then run_vm x (ch i) (P i) else P i)"
  by (induction "is" arbitrary: P) auto

lemma prune_newest:
  assumes s: "points_ok s" and p: "lb_points s = p # ps" and k: "0 < keepLast"
    and r: "prune listed removed dropped keepLast s = (n, s')"
  shows "\<exists>qs. lb_points s' = p # qs \<and> points_ok s' \<and> restoreChain s' p = restoreChain s p"
proof -
  have sorted: "sort_key (\<lambda>p. - pt_created p) (List_points s) = lb_points s"
    using List_points_ok [OF s] by (simp add: List_points_def)
  note cut = cutoff_nth [OF k, of "lb_points s"]
  show ?thesis
  proof (cases "listed \<and> cutoff 0 keepLast (lb_points s) \<noteq> None")
    case False
    then have "s' = s" using r sorted by (auto simp: prune_def Let_def split: if_splits)
    with s p show ?thesis by simp
  next
    case True
    define i where "i = nat keepLast - 1"
    define f where "f = filter (\<lambda>m. pt_type m = Full) (lb_points s) ! i"
    have i: "i < length (filter (\<lambda>m. pt_type m = Full) (lb_points s))" and c: "cutoff 0 keepLast (lb_points s) = Some (pt_created f)"
      using True cut by (auto simp: Let_def i_def f_def split: if_splits)
    have f: "f \<in> set (lb_points s)" "pt_type f = Full" using nth_mem [OF i] by (simp_all add: f_def)
    have top: "pt_created f \<le> pt_created p" using f(1) s p by (auto simp: points_ok_def)
    have pin: "p \<in> set (lb_points s)" using p by simp
    have dist: "distinct (lb_points s)" using s by (simp add: points_ok_def distinct_map)
    have "prune_loop removed dropped (pt_created f) (lb_points s) 0 s = (n, s')"
      using r c sorted True by (simp add: prune_def)
    from prune_loop_result [OF s order_refl dist this]
    have l: "lb_points s' = filter (\<lambda>q. \<not> (q \<in> set (lb_points s) \<and> pt_created q < pt_created f \<and> removed (pt_id q))) (lb_points s)"
      "lb_used s' = lb_used s" by simp_all
    have ok': "points_ok s'" by (rule points_ok_subset [OF s l])
    obtain qs where q: "lb_points s' = p # qs" using l(1) p top by simp
    have "chain_of s' p rs \<longleftrightarrow> chain_of s p rs" for rs
    proof
      assume ch: "chain_of s p rs"
      have "set rs \<subseteq> set (lb_points s')"
        using chain_above_full [OF s f ch top] chain_of_in [OF ch] l(1) by fastforce
      then show "chain_of s' p rs" by (rule chain_of_subset [OF ch])
    next
      assume ch: "chain_of s' p rs"
      show "chain_of s p rs" using chain_of_in [OF ch] l(1) by (intro chain_of_subset [OF ch]) auto
    qed
    with chain_search [OF s pin] restore_chain [OF ok', of p] q have "restoreChain s' p = restoreChain s p" by auto
    with q ok' show ?thesis by blast
  qed
qed

text \<open>
  A scheduled run leaves the machines that are not its targets alone, and one machine whose
  backup fails keeps its points and does not keep the others from being backed up: each of them
  has its new point as the newest one after the retention, which can be restored as it could
  before. The run is marked whatever fails, unless the machines could not be listed.
\<close>

theorem scheduled_run:
  assumes P: "\<And>i. points_reach (P i)" and t: "targets vms (sc_vmIDs x) = Some is" "distinct is"
    and f: "\<And>i. i \<in> set is \<Longrightarrow> fresh_id (ch_id (ch i)) (ch_now (ch i)) (P i)"
    and r: "runSchedule x vms ch P = (P', marked)"
  shows "marked \<and> (\<forall>i. i \<notin> set is \<longrightarrow> P' i = P i)
    \<and> (\<forall>i \<in> set is. case BackupVirtualMachine (sc_type x) (ch_stopped (ch i)) (ch_id (ch i)) (ch_now (ch i)) (ch_copy (ch i)) (P i) of
        (Inl e, s) \<Rightarrow> lb_points (P' i) = lb_points (P i)
      | (Inr p, s) \<Rightarrow> \<exists>qs. lb_points (P' i) = p # qs \<and> pt_id p = ch_id (ch i) \<and> restoreChain (P' i) p = restoreChain s p)"
proof -
  have e: "P' i = (if i \<in> set is then run_vm x (ch i) (P i) else P i)" and m: "marked" for i
    using r t run_vms_each [OF t(2)] by (auto simp: runSchedule_def)
  have "case BackupVirtualMachine (sc_type x) (ch_stopped (ch i)) (ch_id (ch i)) (ch_now (ch i)) (ch_copy (ch i)) (P i) of
        (Inl e, s) \<Rightarrow> lb_points (P' i) = lb_points (P i)
      | (Inr p, s) \<Rightarrow> \<exists>qs. lb_points (P' i) = p # qs \<and> pt_id p = ch_id (ch i) \<and> restoreChain (P' i) p = restoreChain s p"
    if i: "i \<in> set is" for i
  proof -
    obtain res s where b: "BackupVirtualMachine (sc_type x) (ch_stopped (ch i)) (ch_id (ch i)) (ch_now (ch i)) (ch_copy (ch i)) (P i) = (res, s)"
      by fastforce
    note c = BackupVM_cases [OF points_reach_ok [OF P] f [OF i] b]
    show ?thesis
    proof (cases res)
      case (Inl err)
      with b c e i show ?thesis by (auto simp: run_vm_def split: if_splits)
    next
      case (Inr p)
      with c have s: "points_ok s" "lb_points s = p # lb_points (P i)" "pt_id p = ch_id (ch i)" by (auto split: if_splits)
      show ?thesis
      proof (cases "0 < sc_keep x")
        case True
        obtain n s' where p: "prune (ch_listed (ch i)) (ch_removed (ch i)) (ch_dropped (ch i)) (sc_keep x) s = (n, s')" by fastforce
        from prune_newest [OF s(1,2) True p] s(3) b Inr e i True p show ?thesis by (auto simp: run_vm_def)
      qed (use b Inr e i s in \<open>simp add: run_vm_def\<close>)
    qed
  qed
  with e m show ?thesis by auto
qed

definition lucky :: "string \<Rightarrow> chance" where
  "lucky i = \<lparr>ch_stopped = False, ch_id = ''bk-9'', ch_now = 9, ch_copy = (if i = ''db'' then Refused else Copied), ch_listed = True,
     ch_removed = (\<lambda>_. True), ch_dropped = True\<rparr>"

theorem scheduled_run_witness:
  "snd (runSchedule nightly (Some [''db'', ''app'']) lucky (\<lambda>_. three_points))
   \<and> lb_points (fst (runSchedule nightly (Some [''db'', ''app'']) lucky (\<lambda>_. three_points)) ''web'') = lb_points three_points"
proof -
  have t: "targets (Some [''db'', ''app'']) (sc_vmIDs nightly) = Some [''db'', ''app'']" "distinct [''db'', ''app'']" by code_simp+
  have f: "fresh_id (ch_id (lucky i)) (ch_now (lucky i)) three_points" for i
  proof -
    have "fresh_id ''bk-9'' 9 three_points" by code_simp
    then show ?thesis by (simp add: lucky_def)
  qed
  obtain P' marked where r: "runSchedule nightly (Some [''db'', ''app'']) lucky (\<lambda>_. three_points) = (P', marked)" by fastforce
  from scheduled_run [of "\<lambda>_. three_points", OF three_points_reach t f r] r show ?thesis by simp
qed


subsection \<open>The store\<close>

definition Get_sched :: "string \<Rightarrow> sched list \<Rightarrow> sched option" where
  "Get_sched i xs = find (\<lambda>x. sc_id x = i) xs"

fun Replace :: "sched \<Rightarrow> sched list \<Rightarrow> sched list option" where
  "Replace x [] = None"
| "Replace x (y # ys) = (if sc_id y = sc_id x then Some (x # ys) else map_option ((#) y) (Replace x ys))"

fun Remove :: "string \<Rightarrow> sched list \<Rightarrow> sched list option" where
  "Remove i [] = None"
| "Remove i (y # ys) = (if sc_id y = i then Some ys else map_option ((#) y) (Remove i ys))"

definition keepLast_of :: "schedule_body \<Rightarrow> int option" where
  "keepLast_of b = (case sb_retentionKeepLast b of Some v \<Rightarrow> go_int v | None \<Rightarrow> None)"

text \<open>A schedule made of a checked request, and one changed by a checked request.\<close>

definition made :: "string \<Rightarrow> int \<Rightarrow> schedule_body \<Rightarrow> sched" where
  "made i now b = \<lparr>sc_id = i, sc_name = orelse (sb_name b) '''', sc_time = orelse (sb_time b) '''', sc_vmIDs = orelse (sb_vmIds b) [],
     sc_type = orelse (sb_type b) Auto, sc_keep = orelse (keepLast_of b) 0, sc_enabled = orelse (sb_enabled b) True,
     sc_lastRun = None, sc_created = now\<rparr>"

definition edited :: "schedule_body \<Rightarrow> sched \<Rightarrow> sched" where
  "edited b x = x\<lparr>sc_time := orelse (sb_time b) (sc_time x), sc_vmIDs := orelse (sb_vmIds b) (sc_vmIDs x),
     sc_type := orelse (sb_type b) (sc_type x), sc_keep := orelse (keepLast_of b) (sc_keep x),
     sc_enabled := orelse (sb_enabled b) (sc_enabled x)\<rparr>"

subsection \<open>The handlers of the API\<close>

definition schedule_error :: "string \<Rightarrow> string \<Rightarrow> reply" where
  "schedule_error code msg = Inl (writeError (Refusal code msg))"

definition no_schedule :: reply where
  "no_schedule = schedule_error ''SCHEDULE_NOT_FOUND'' ''Backup schedule was not found''"

text \<open>\<open>i\<close> and \<open>now\<close> are the id and the time of a new schedule; \<open>fmt\<close> is the JSON text of a time.\<close>

fun schedules_handle :: "(int \<Rightarrow> string) \<Rightarrow> string \<Rightarrow> int \<Rightarrow> request \<Rightarrow> sched list \<Rightarrow> (reply \<times> sched list) option" where
  "schedules_handle fmt i now GetSchedules xs = Some (Inr [PSchedules (map (scheduleToModel fmt) xs) (int (length xs))], xs)"
| "schedules_handle fmt i now (PostSchedule b) xs =
     (if \<exists>x \<in> set xs. sc_name x = orelse (sb_name b) ''''
      then Some (schedule_error ''SCHEDULE_ALREADY_EXISTS'' ''A backup schedule with this name already exists'', xs)
      else Some (Inr [PSchedule (scheduleToModel fmt (made i now b))], xs @ [made i now b]))"
| "schedules_handle fmt i now (PutSchedule k b) xs = (case Get_sched k xs of
     None \<Rightarrow> Some (no_schedule, xs)
   | Some x \<Rightarrow> (case Replace (edited b x) xs of
       None \<Rightarrow> Some (no_schedule, xs)
     | Some ys \<Rightarrow> Some (Inr [PSchedule (scheduleToModel fmt (edited b x))], ys)))"
| "schedules_handle fmt i now (DeleteSchedule k) xs = (case Remove k xs of
     None \<Rightarrow> Some (no_schedule, xs) | Some ys \<Rightarrow> Some (Inr [PUndefined], ys))"
| "schedules_handle fmt i now q xs = None"

text \<open>An update looks the schedule up before it checks anything but the path and the syntax of the body.\<close>

fun checked :: "request \<Rightarrow> sched list \<Rightarrow> request option" where
  "checked (PutSchedule k b) xs = (if Get_sched k xs = None \<and> requireValidScheduleID k = '''' \<and> decoded (sb_retentionKeepLast b) (\<lambda>_. '''') = ''''
     then None else Some (PutSchedule k b))"
| "checked q xs = Some q"

definition schedules_serve :: "(int \<Rightarrow> string) \<Rightarrow> string \<Rightarrow> int \<Rightarrow> user \<Rightarrow> request \<Rightarrow> sched list \<Rightarrow> (reply \<times> sched list) option" where
  "schedules_serve fmt i now me q xs = (case checked q xs of
     None \<Rightarrow> Some (no_schedule, xs)
   | Some q \<Rightarrow> (case boundary (Some me) q of
       Some x \<Rightarrow> Some (Inl (writeError x), xs)
     | None \<Rightarrow> schedules_handle fmt i now q xs))"

definition sched_ok :: "sched \<Rightarrow> bool" where
  "sched_ok x = (rx_test schedule_timePattern (sc_time x) \<and> sc_vmIDs x \<noteq> [] \<and> list_all (rx_test schedule_vmIDPattern) (sc_vmIDs x)
     \<and> rx_test schedule_namePattern (sc_name x) \<and> 0 \<le> sc_keep x \<and> sc_keep x < 2 ^ 63)"

definition store_ok :: "sched list \<Rightarrow> bool" where
  "store_ok xs = (list_all sched_ok xs \<and> distinct (map sc_id xs) \<and> distinct (map sc_name xs))"

lemma Replace_map:
  "distinct (map sc_id xs) \<Longrightarrow> Replace x xs = (if sc_id x \<in> sc_id ` set xs then Some (map (\<lambda>y. if sc_id y = sc_id x then x else y) xs) else None)"
proof (induction xs)
  case (Cons y ys)
  show ?case
  proof (cases "sc_id y = sc_id x")
    case True
    then have "\<forall>z \<in> set ys. sc_id z \<noteq> sc_id x" using Cons.prems by (auto simp: image_iff)
    then have "map (\<lambda>y. if sc_id y = sc_id x then x else y) ys = ys" by (simp add: map_idI)
    with True show ?thesis by auto
  qed (use Cons in \<open>auto simp: image_iff\<close>)
qed simp

lemma Remove_filter:
  "distinct (map sc_id xs) \<Longrightarrow> Remove i xs = (if i \<in> sc_id ` set xs then Some (filter (\<lambda>y. sc_id y \<noteq> i) xs) else None)"
proof (induction xs)
  case (Cons y ys)
  show ?case
  proof (cases "sc_id y = i")
    case True
    then have "\<forall>z \<in> set ys. sc_id z \<noteq> i" using Cons.prems by (auto simp: image_iff)
    then have "filter (\<lambda>y. sc_id y \<noteq> i) ys = ys" by (simp add: filter_id_conv)
    with True show ?thesis by auto
  qed (use Cons in \<open>auto simp: image_iff\<close>)
qed simp

lemma Get_sched_found: "Get_sched i xs = Some x \<Longrightarrow> x \<in> set xs \<and> sc_id x = i"
  by (auto simp: Get_sched_def find_Some_iff)

lemma made_ok: "schedule_create b = '''' \<Longrightarrow> sched_ok (made i now b)"
  by (auto simp: schedule_create_def decoded_def sched_ok_def made_def keepLast_of_def first_error_Nil retention_check_def same_patterns go_int_def
      split: option.splits if_splits)

lemma edited_ok:
  assumes "schedule_update b = ''''" "sched_ok x"
  shows "sched_ok (edited b x)"
proof -
  have "list_all (rx_test schedule_vmIDPattern) ts" if "find (\<lambda>t. \<not> rx_test schedule_vmIDPattern t) ts = None" for ts
    using that by (simp add: find_None_iff list_all_iff)
  with assms show ?thesis
    by (auto simp: schedule_update_def decoded_def sched_ok_def edited_def keepLast_of_def first_error_Nil retention_check_def same_patterns go_int_def
        split: option.splits if_splits)
qed

lemma store_replace:
  assumes "store_ok xs" "x \<in> set xs" "sched_ok y" "sc_id y = sc_id x" "sc_name y = sc_name x"
  shows "store_ok (map (\<lambda>z. if sc_id z = sc_id y then y else z) xs)"
proof -
  have u: "z = x" if "z \<in> set xs" "sc_id z = sc_id x" for z
    using assms(1,2) that by (auto simp: store_ok_def distinct_map inj_on_def)
  have m: "map sc_id (map (\<lambda>z. if sc_id z = sc_id y then y else z) xs) = map sc_id xs"
    "map sc_name (map (\<lambda>z. if sc_id z = sc_id y then y else z) xs) = map sc_name xs"
    using u assms(4,5) by (auto simp: map_eq_conv)
  have "list_all sched_ok (map (\<lambda>z. if sc_id z = sc_id y then y else z) xs)"
    using assms(1,3) by (auto simp: store_ok_def list_all_iff)
  with assms(1) show ?thesis unfolding store_ok_def m by blast
qed


text \<open>
  Served one at a time, no request breaks the store: every schedule has a valid time, name
  and targets and a retention that is not negative, ids and names stay unique, every answer is
  an error or has the payload of the contract; no request changes when a schedule was created
  or has run, and an update changes only what it sends.
\<close>

theorem schedules_served:
  assumes ok: "store_ok xs" and new: "i \<notin> sc_id ` set xs" and s: "schedules_serve fmt i now me q xs = Some (r, xs')"
  shows "store_ok xs' \<and> reply_ok [q] r
    \<and> (\<forall>x \<in> set xs. \<forall>x' \<in> set xs'. sc_id x' = sc_id x \<longrightarrow>
        sc_name x' = sc_name x \<and> sc_created x' = sc_created x \<and> sc_lastRun x' = sc_lastRun x
        \<and> (x' = x \<or> (\<exists>b. q = PutSchedule (sc_id x) b \<and> x' = edited b x \<and> r = Inr [PSchedule (scheduleToModel fmt x')])))"
proof -
  have ids: "distinct (map sc_id xs)" using ok by (simp add: store_ok_def)
  have u: "z = x" if "z \<in> set xs" "x \<in> set xs" "sc_id z = sc_id x" for x z
    using ids that by (auto simp: distinct_map inj_on_def)
  have same: ?thesis if "xs' = xs" "reply_ok [q] r"
    using that ok u by blast
  have err: "reply_ok qs (Inl e)" for qs e by (simp add: reply_ok_def)
  show ?thesis
  proof (cases "checked q xs = Some q \<and> boundary (Some me) q = None")
    case False
    have "checked q xs \<in> {None, Some q}" by (cases q) auto
    with s False have "xs' = xs \<and> reply_ok [q] r"
      by (auto simp: schedules_serve_def no_schedule_def schedule_error_def err simp del: boundary.simps split: option.splits)
    then show ?thesis using same by blast
  next
    case True
    then have h: "schedules_handle fmt i now q xs = Some (r, xs')" using s by (simp add: schedules_serve_def)
    show ?thesis
    proof (cases q)
      case GetSchedules
      with h show ?thesis by (intro same) (auto simp: reply_ok_def)
    next
      case (PostSchedule b)
      have chk: "schedule_create b = ''''" using True PostSchedule by simp
      show ?thesis
      proof (cases "\<exists>x \<in> set xs. sc_name x = orelse (sb_name b) ''''")
        case True
        with h PostSchedule show ?thesis by (intro same) (auto simp: schedule_error_def err)
      next
        case False
        with h PostSchedule have x: "xs' = xs @ [made i now b]" "reply_ok [q] r" by (auto simp: reply_ok_def)
        have n: "sc_id (made i now b) = i" "sc_name (made i now b) = orelse (sb_name b) ''''" by (simp_all add: made_def)
        have "store_ok xs'" using ok made_ok [OF chk, of i now] new False n by (auto simp: store_ok_def x(1) image_iff)
        moreover have "\<forall>x \<in> set xs. \<forall>x' \<in> set xs'. sc_id x' = sc_id x \<longrightarrow> x' = x"
          using u n(1) new by (auto simp: x(1))
        ultimately show ?thesis using x(2) by blast
      qed
    next
      case (PutSchedule k b)
      show ?thesis
      proof (cases "Get_sched k xs")
        case None
        with h PutSchedule show ?thesis by (intro same) (auto simp: no_schedule_def schedule_error_def err)
      next
        case (Some x)
        note x = Get_sched_found [OF Some]
        have e: "sc_id (edited b x) = k" "sc_name (edited b x) = sc_name x" "sc_created (edited b x) = sc_created x"
          "sc_lastRun (edited b x) = sc_lastRun x" using x by (simp_all add: edited_def)
        have chk: "schedule_update b = ''''" using True PutSchedule
          by (auto simp: first_error_Nil requireValidScheduleID_def split: if_splits)
        have sx: "sched_ok x" using ok x by (simp add: store_ok_def list_all_iff)
        have "Replace (edited b x) xs = Some (map (\<lambda>z. if sc_id z = k then edited b x else z) xs)"
        proof -
          have "k \<in> sc_id ` set xs" using x by (metis imageI)
          then show ?thesis by (simp add: Replace_map [OF ids] e(1))
        qed
        with h PutSchedule Some have res: "xs' = map (\<lambda>z. if sc_id z = k then edited b x else z) xs"
          "r = Inr [PSchedule (scheduleToModel fmt (edited b x))]" by auto
        have "store_ok xs'"
          using store_replace [OF ok conjunct1 [OF x] edited_ok [OF chk sx]] e x res(1) by simp
        moreover have "reply_ok [q] r" using PutSchedule res(2) by (simp add: reply_ok_def)
        moreover have "y' = y \<or> sc_id y = k \<and> y = x \<and> y' = edited b x"
          if "y \<in> set xs" "y' \<in> set xs'" "sc_id y' = sc_id y" for y y'
          using that u x e(1) by (auto simp: res(1) split: if_splits)
        ultimately show ?thesis using PutSchedule res(2) e by blast
      qed
    next
      case (DeleteSchedule k)
      show ?thesis
      proof (cases "k \<in> sc_id ` set xs")
        case False
        with h DeleteSchedule show ?thesis by (intro same) (auto simp: Remove_filter [OF ids] no_schedule_def schedule_error_def err)
      next
        case True
        with h DeleteSchedule have x: "xs' = filter (\<lambda>y. sc_id y \<noteq> k) xs" "reply_ok [q] r"
          by (auto simp: Remove_filter [OF ids] reply_ok_def)
        have "store_ok xs'" using ok by (auto simp: store_ok_def x(1) list_all_iff distinct_map_filter)
        moreover have "\<forall>x \<in> set xs. \<forall>x' \<in> set xs'. sc_id x' = sc_id x \<longrightarrow> x' = x"
          using u by (auto simp: x(1))
        ultimately show ?thesis using x(2) by blast
      qed
    qed (use h in simp_all)
  qed
qed


definition nightly_body :: schedule_body where
  "nightly_body = \<lparr>sb_name = None, sb_time = None, sb_vmIds = None, sb_type = None, sb_retentionKeepLast = None, sb_enabled = Some False\<rparr>"

lemma nightly_ok: "store_ok [nightly]"
proof -
  have "sched_ok nightly" by code_simp
  then show ?thesis by (simp add: store_ok_def)
qed

theorem schedules_served_witness:
  "\<exists>r xs'. schedules_serve fmt ''sch-2'' 5 me (PutSchedule ''sch-1'' nightly_body) [nightly] = Some (r, xs')
     \<and> store_ok xs' \<and> reply_ok [PutSchedule ''sch-1'' nightly_body] r"
proof -
  have n: "''sch-2'' \<notin> sc_id ` set [nightly]" by (simp add: nightly_def)
  have "rx_test schedulerIDPattern ''sch-1''" by code_simp
  then obtain r xs' where s: "schedules_serve fmt ''sch-2'' 5 me (PutSchedule ''sch-1'' nightly_body) [nightly] = Some (r, xs')"
    by (auto simp: schedules_serve_def validation_def Get_sched_def nightly_def nightly_body_def schedule_update_def retention_check_def edited_def)
  from s schedules_served [OF nightly_ok n s] show ?thesis by blast
qed

subsection \<open>Runs and edits at the same time\<close>

text \<open>
  A run holds \<open>runMu\<close> from the tick to its record; \<open>markRun\<close> and \<open>Update\<close> both read a schedule
  and later replace it, under one lock each time. \<open>sv_edits\<close> are updates between the two, and
  \<open>sv_tick\<close> is the rest of the loop of a tick.
\<close>

datatype phase = Idle | Working sched int | Marking sched

record service =
  sv_list :: "sched list"
  sv_phase :: phase
  sv_edits :: "sched list"
  sv_tick :: "sched list \<times> int"

datatype service_event =
    Tick int
  | NextOfTick
  | RunFailed
  | MarkGet
  | MarkReplace
  | EditGet string schedule_body
  | EditReplace nat
  | StoreTo "sched list"

definition replaced :: "sched \<Rightarrow> sched list \<Rightarrow> sched list" where
  "replaced x xs = (case Replace x xs of Some ys \<Rightarrow> ys | None \<Rightarrow> xs)"

text \<open>\<open>StoreTo\<close> is a creation or a removal, each one step.\<close>

fun service_step :: "service_event \<Rightarrow> service \<Rightarrow> service option" where
  "service_step (Tick now) v = (if fst (sv_tick v) = [] then Some (v\<lparr>sv_tick := (sv_list v, now)\<rparr>) else None)"
| "service_step NextOfTick v = (case fst (sv_tick v) of
     [] \<Rightarrow> None
   | x # xs \<Rightarrow> (let now = snd (sv_tick v); v1 = v\<lparr>sv_tick := (xs, now)\<rparr> in
       Some (if sc_enabled x \<and> due x now \<and> sv_phase v = Idle then v1\<lparr>sv_phase := Working x now\<rparr> else v1)))"
| "service_step RunFailed v = (case sv_phase v of Working x now \<Rightarrow> Some (v\<lparr>sv_phase := Idle\<rparr>) | _ \<Rightarrow> None)"
| "service_step MarkGet v = (case sv_phase v of
     Working x now \<Rightarrow> Some (v\<lparr>sv_phase := (case Get_sched (sc_id x) (sv_list v) of
       None \<Rightarrow> Idle | Some y \<Rightarrow> Marking (y\<lparr>sc_lastRun := Some now\<rparr>))\<rparr>)
   | _ \<Rightarrow> None)"
| "service_step MarkReplace v = (case sv_phase v of
     Marking y \<Rightarrow> Some (v\<lparr>sv_list := replaced y (sv_list v), sv_phase := Idle\<rparr>) | _ \<Rightarrow> None)"
| "service_step (EditGet i b) v = (case Get_sched i (sv_list v) of
     None \<Rightarrow> None
   | Some x \<Rightarrow> if schedule_update b = '''' then Some (v\<lparr>sv_edits := sv_edits v @ [edited b x]\<rparr>) else None)"
| "service_step (EditReplace k) v =
     (if k < length (sv_edits v)
      then Some (v\<lparr>sv_list := replaced (sv_edits v ! k) (sv_list v), sv_edits := take k (sv_edits v) @ drop (Suc k) (sv_edits v)\<rparr>)
      else None)"
| "service_step (StoreTo ys) v =
     (if (\<exists>i. Remove i (sv_list v) = Some ys) \<or> (\<exists>x. sc_id x \<notin> sc_id ` set (sv_list v) \<and> ys = sv_list v @ [x])
      then Some (v\<lparr>sv_list := ys\<rparr>) else None)"

fun service_play :: "service_event list \<Rightarrow> service \<Rightarrow> service option" where
  "service_play [] v = Some v"
| "service_play (e # es) v = (case service_step e v of Some v' \<Rightarrow> service_play es v' | None \<Rightarrow> None)"

lemma replaced_sched:
  assumes "distinct (map sc_id xs)" "x \<in> set xs" "sc_id y = sc_id x"
  shows "replaced y xs = map (\<lambda>z. if sc_id z = sc_id x then y else z) xs"
    "Get_sched (sc_id x) (replaced y xs) = Some y"
proof -
  show r: "replaced y xs = map (\<lambda>z. if sc_id z = sc_id x then y else z) xs"
    using assms by (auto simp: replaced_def Replace_map)
  show "Get_sched (sc_id x) (replaced y xs) = Some y"
    using assms(2,3) unfolding r Get_sched_def by (induction xs) auto
qed

lemma replaced_ids: "distinct (map sc_id xs) \<Longrightarrow> map sc_id (replaced y xs) = map sc_id xs"
  by (auto simp: replaced_def Replace_map split: if_splits)

lemma Get_sched_id: "distinct (map sc_id xs) \<Longrightarrow> x \<in> set xs \<Longrightarrow> Get_sched (sc_id x) xs = Some x"
  unfolding Get_sched_def by (induction xs) (auto simp: image_iff)

text \<open>
  C31. A run and an update of its schedule can overwrite each other, although both succeed: a run
  without an update in between is recorded; an update that began before the record and ends after
  it takes the record back, so that the schedule is as due as it was and runs a second time; and
  an update made between the two halves of the record is lost.
\<close>

theorem run_and_update:
  assumes ids: "distinct (map sc_id (sv_list v))" and x: "x \<in> set (sv_list v)" "sc_id x0 = sc_id x"
    and v: "sv_phase v = Working x0 now" "sv_edits v = []" and b: "schedule_update b = ''''"
  shows "(\<exists>w. service_play [MarkGet, MarkReplace] v = Some w \<and> sv_phase w = Idle
      \<and> Get_sched (sc_id x) (sv_list w) = Some (x\<lparr>sc_lastRun := Some now\<rparr>))
    \<and> (\<exists>w. service_play [EditGet (sc_id x) b, MarkGet, MarkReplace, EditReplace 0] v = Some w \<and> sv_phase w = Idle
      \<and> Get_sched (sc_id x) (sv_list w) = Some (edited b x) \<and> (sb_time b = None \<longrightarrow> due (edited b x) = due x))
    \<and> (\<exists>w. service_play [MarkGet, EditGet (sc_id x) b, EditReplace 0, MarkReplace] v = Some w \<and> sv_phase w = Idle
      \<and> Get_sched (sc_id x) (sv_list w) = Some (x\<lparr>sc_lastRun := Some now\<rparr>))"
proof -
  let ?m = "x\<lparr>sc_lastRun := Some now\<rparr>" and ?e = "edited b x" and ?L = "sv_list v"
  note g = Get_sched_id [OF ids x(1)]
  have i: "sc_id ?m = sc_id x" "sc_id ?e = sc_id x" by (simp_all add: edited_def)
  note m = replaced_sched [OF ids x(1) i(1)] and e = replaced_sched [OF ids x(1) i(2)]
  have "x\<lparr>sc_lastRun := Some now\<rparr> \<in> set (replaced ?m ?L)" "?e \<in> set (replaced ?e ?L)"
    using x(1) by (auto simp: m(1) e(1))
  moreover have "distinct (map sc_id (replaced y ?L))" for y using ids by (simp add: replaced_ids)
  ultimately have twice: "Get_sched (sc_id x) (replaced ?e (replaced ?m ?L)) = Some ?e" "Get_sched (sc_id x) (replaced ?m (replaced ?e ?L)) = Some ?m"
    using replaced_sched(2) [of "replaced ?m ?L" ?m ?e] replaced_sched(2) [of "replaced ?e ?L" ?e ?m] i by simp_all
  have "due ?e = due x" if "sb_time b = None"
  proof -
    have f: "sc_time ?e = sc_time x" "sc_lastRun ?e = sc_lastRun x" "sc_created ?e = sc_created x"
      using that by (simp_all add: edited_def)
    show ?thesis by (rule ext) (simp only: due_def f)
  qed
  with v b g x(2) m e twice show ?thesis by (simp add: Let_def)
qed

theorem run_and_update_witness:
  "\<exists>w. service_play [EditGet ''sch-1'' nightly_body, MarkGet, MarkReplace, EditReplace 0]
      \<lparr>sv_list = [nightly], sv_phase = Working nightly (23 * 60 * minute), sv_edits = [], sv_tick = ([], 0)\<rparr> = Some w
    \<and> Get_sched ''sch-1'' (sv_list w) = Some (edited nightly_body nightly)"
proof -
  let ?v = "\<lparr>sv_list = [nightly], sv_phase = Working nightly (23 * 60 * minute), sv_edits = [], sv_tick = ([], 0)\<rparr>"
  have b: "schedule_update nightly_body = ''''"
    by (simp add: nightly_body_def schedule_update_def retention_check_def)
  from run_and_update [of ?v nightly nightly, OF _ _ refl _ _ b] show ?thesis by (simp add: nightly_def) blast
qed

end
