(* ===== verification/Hypervisor.thy ===== *)
theory Hypervisor
  imports Server NetworkPage VmsPage
begin

text \<open>
  The boundary between the API and what runs the machines (\<open>backend/internal/hypervisor\<close>):
  the errors of a provider, what the API makes of them (\<open>api/errors.go\<close>), and the contracts
  of \<open>provider.go\<close> that both providers keep, as locales: \<open>network_provider\<close> and
  \<open>machine_provider\<close>. They are interpreted on the simulated host (\<open>hypervisor/mock\<close>) and on the
  provider that calls libvirt, in \<open>HostNetworks\<close> and \<open>Machines\<close>.
\<close>

subsection \<open>Errors of a provider\<close>

text \<open>
  The argument is the whole text of the error, as \<open>err.Error()\<close> gives it; of the errors with a type of their
  own (an unreachable file, an inactive network, missing KVM) it is the text of the concrete error, which is
  what the API shows, without what other errors around it add.
\<close>

datatype provider_error =
    ErrVMNotFound
  | ErrVMAlreadyExists
  | ErrConsoleUnavailable
  | ErrInvalidVMState string
  | ErrPoolAlreadyExists
  | ErrPoolNotFound
  | ErrPoolInsufficientSpace string
  | ErrNetworkNotFound
  | ErrNetworkAlreadyExists
  | ErrIsoNotFound
  | ErrInvalidNetworkState string
  | ErrStorageUnavailable string
  | ErrNetworkInactive string
  | ErrKVMUnavailable string
  | ErrBackupNotFound
  | ErrBackupInvalidState string
  | ErrOther string

text \<open>\<open>fmt.Errorf("%w: ...", ErrInvalidVMState)\<close> and the same for networks.\<close>

definition invalid_vm :: "string \<Rightarrow> provider_error" where
  "invalid_vm m = ErrInvalidVMState (''operation is not valid for the current virtual machine state: '' @ m)"

definition invalid_net :: "string \<Rightarrow> provider_error" where
  "invalid_net m = ErrInvalidNetworkState (''operation is not valid for the current network state: '' @ m)"

fun writeProviderError :: "provider_error \<Rightarrow> refusal" where
  "writeProviderError ErrVMNotFound = Refusal ''VM_NOT_FOUND'' ''Virtual machine was not found''"
| "writeProviderError ErrPoolNotFound = Refusal ''STORAGE_POOL_NOT_FOUND'' ''Storage pool was not found''"
| "writeProviderError (ErrPoolInsufficientSpace m) = Refusal ''VALIDATION_ERROR'' m"
| "writeProviderError ErrPoolAlreadyExists = Refusal ''STORAGE_POOL_ALREADY_EXISTS'' ''A storage pool with this name already exists''"
| "writeProviderError ErrNetworkNotFound = Refusal ''NETWORK_NOT_FOUND'' ''Network was not found''"
| "writeProviderError (ErrInvalidNetworkState m) = Refusal ''NETWORK_INVALID_STATE'' m"
| "writeProviderError ErrNetworkAlreadyExists = Refusal ''NETWORK_ALREADY_EXISTS'' ''A network with this name already exists''"
| "writeProviderError (ErrInvalidVMState m) = Refusal ''VM_INVALID_STATE'' m"
| "writeProviderError ErrVMAlreadyExists = Refusal ''VM_ALREADY_EXISTS'' ''A virtual machine with this name already exists''"
| "writeProviderError ErrIsoNotFound = Refusal ''ISO_NOT_FOUND'' ''ISO image was not found''"
| "writeProviderError (ErrNetworkInactive m) = Refusal ''NETWORK_INACTIVE'' m"
| "writeProviderError (ErrKVMUnavailable m) = Refusal ''KVM_UNAVAILABLE'' m"
| "writeProviderError (ErrStorageUnavailable m) = Refusal ''STORAGE_UNAVAILABLE'' m"
| "writeProviderError ErrBackupNotFound = Refusal ''BACKUP_NOT_FOUND'' ''Backup was not found''"
| "writeProviderError (ErrBackupInvalidState m) = Refusal ''BACKUP_INVALID_STATE'' m"
| "writeProviderError ErrConsoleUnavailable = Refusal ''CONSOLE_UNAVAILABLE''
     ''This virtual machine has no graphical console configured (add a VNC <graphics> device to its domain XML)''"
| "writeProviderError (ErrOther m) = Refusal ''INTERNAL_ERROR'' ''''"

text \<open>
  A handler that checks the identifier in the path and hands it on: the reply the client gets, and
  the state of the host. \<open>f\<close> makes the payload of a success.
\<close>

definition with_id :: "string \<Rightarrow> ('a \<Rightarrow> payload) \<Rightarrow> (string \<Rightarrow> 's \<Rightarrow> (provider_error + 'a) \<times> 's) \<Rightarrow> 's \<Rightarrow> reply \<times> 's" where
  "with_id i f op s = (case validation (requireValidVMID i) of
     Some x \<Rightarrow> (Inl (writeError x), s)
   | None \<Rightarrow> (case op i s of
       (Inl e, s') \<Rightarrow> (Inl (writeError (writeProviderError e)), s')
     | (Inr x, s') \<Rightarrow> (Inr [f x], s')))"

definition no_content :: "unit \<Rightarrow> payload" where
  "no_content x = PUndefined"

text \<open>A reply with a given code.\<close>

definition has_code :: "string \<Rightarrow> reply \<Rightarrow> bool" where
  "has_code c r = (case r of Inl (ApiError k m n) \<Rightarrow> k = c | _ \<Rightarrow> False)"

lemma with_id_valid [simp]:
  "rx_test vmIDPattern i \<Longrightarrow> with_id i f op s = (case op i s of
       (Inl e, s') \<Rightarrow> (Inl (writeError (writeProviderError e)), s')
     | (Inr x, s') \<Rightarrow> (Inr [f x], s'))"
  by (simp add: with_id_def validation_def)

lemma has_code_simps [simp]:
  "\<not> has_code c (Inr ps)" "has_code c (Inl (writeError x)) \<longleftrightarrow> rf_code x = c"
  by (simp_all add: has_code_def writeError_def)

lemma code_invalid_net [simp]:
  "rf_code (writeProviderError e) = ''NETWORK_INVALID_STATE'' \<longleftrightarrow> (\<exists>m. e = ErrInvalidNetworkState m)"
  "rf_code (writeProviderError e) = ''NETWORK_NOT_FOUND'' \<longleftrightarrow> e = ErrNetworkNotFound"
  by (cases e; simp)+

lemma code_invalid_vm [simp]:
  "rf_code (writeProviderError e) = ''VM_INVALID_STATE'' \<longleftrightarrow> (\<exists>m. e = ErrInvalidVMState m)"
  "rf_code (writeProviderError e) = ''VM_NOT_FOUND'' \<longleftrightarrow> e = ErrVMNotFound"
  by (cases e; simp)+

text \<open>No error of a provider is mistaken for another: the codes of the API tell them apart.\<close>

fun err_kind :: "provider_error \<Rightarrow> nat" where
  "err_kind ErrVMNotFound = 0" | "err_kind ErrVMAlreadyExists = 1" | "err_kind ErrConsoleUnavailable = 2"
| "err_kind (ErrInvalidVMState m) = 3" | "err_kind ErrPoolAlreadyExists = 4" | "err_kind ErrPoolNotFound = 5"
| "err_kind (ErrPoolInsufficientSpace m) = 6" | "err_kind ErrNetworkNotFound = 7" | "err_kind ErrNetworkAlreadyExists = 8"
| "err_kind ErrIsoNotFound = 9" | "err_kind (ErrInvalidNetworkState m) = 10" | "err_kind (ErrStorageUnavailable m) = 11"
| "err_kind (ErrNetworkInactive m) = 12" | "err_kind (ErrKVMUnavailable m) = 13" | "err_kind ErrBackupNotFound = 14"
| "err_kind (ErrBackupInvalidState m) = 15" | "err_kind (ErrOther m) = 16"

lemma provider_codes:
  "rf_code (writeProviderError a) = rf_code (writeProviderError b) \<longleftrightarrow> err_kind a = err_kind b"
  by (cases a; cases b; simp)

lemma provider_status:
  "errorStatus (rf_code (writeProviderError e)) = (if err_kind e \<in> {0, 5, 7, 9, 14} then 404 else if err_kind e = 6 then 400
     else if err_kind e = 16 then 500 else 409)"
  by (cases e) (simp_all add: errorStatus_def)

subsection \<open>Networks\<close>

text \<open>
  What the networks page relies on: \<open>known i s\<close> says that there is a network \<open>i\<close> and \<open>active i s\<close> is
  its activity, if it can be told. A provider refuses what does not fit the activity, changes nothing when it
  refuses, and refuses nothing else for the state.
\<close>

locale network_provider =
  fixes known :: "string \<Rightarrow> 's \<Rightarrow> bool"
    and active :: "string \<Rightarrow> 's \<Rightarrow> bool option"
    and start :: "string \<Rightarrow> 's \<Rightarrow> (provider_error + network) \<times> 's"
    and stop :: "string \<Rightarrow> 's \<Rightarrow> (provider_error + network) \<times> 's"
    and del :: "string \<Rightarrow> 's \<Rightarrow> (provider_error + unit) \<times> 's"
  assumes missing: "\<not> known i s \<Longrightarrow>
      start i s = (Inl ErrNetworkNotFound, s) \<and> stop i s = (Inl ErrNetworkNotFound, s) \<and> del i s = (Inl ErrNetworkNotFound, s)"
    and start_state: "active i s = Some b \<Longrightarrow> (\<exists>m. fst (start i s) = Inl (ErrInvalidNetworkState m)) \<longleftrightarrow> b"
    and stop_state: "active i s = Some b \<Longrightarrow> (\<exists>m. fst (stop i s) = Inl (ErrInvalidNetworkState m)) \<longleftrightarrow> \<not> b"
    and del_state: "active i s = Some b \<Longrightarrow> (\<exists>m. fst (del i s) = Inl (ErrInvalidNetworkState m)) \<longleftrightarrow> b"
    and start_frame: "fst (start i s) = Inl (ErrInvalidNetworkState m) \<Longrightarrow> snd (start i s) = s"
    and stop_frame: "fst (stop i s) = Inl (ErrInvalidNetworkState m) \<Longrightarrow> snd (stop i s) = s"
    and del_frame: "fst (del i s) = Inl (ErrInvalidNetworkState m) \<Longrightarrow> snd (del i s) = s"
begin

lemma refusal_of:
  assumes "rx_test vmIDPattern i" "(\<exists>m. fst (op i s) = Inl (ErrInvalidNetworkState m)) \<longleftrightarrow> b"
    and "\<And>m. fst (op i s) = Inl (ErrInvalidNetworkState m) \<Longrightarrow> snd (op i s) = s"
  shows "has_code ''NETWORK_INVALID_STATE'' (fst (with_id i f op s)) \<longleftrightarrow> b"
    and "b \<Longrightarrow> snd (with_id i f op s) = s"
  using assms by (auto split: prod.splits sum.splits)

text \<open>
  The answer to a button of the page refuses it for the state of the network exactly when the
  network has changed its activity since the list shown, and then nothing changes.
\<close>

lemma offered_action:
  assumes "rx_test vmIDPattern (n_id n)" "active (n_id n) s = Some b" "list_ex (\<lambda>it. item_offers it (NpRun n a)) (np_menu busy n)"
  shows "(has_code ''NETWORK_INVALID_STATE'' (fst (with_id (n_id n) PNetwork (case a of NStart \<Rightarrow> start | NStop \<Rightarrow> stop) s))
           \<longleftrightarrow> b \<noteq> (n_state n = Active))
    \<and> (b \<noteq> (n_state n = Active) \<longrightarrow> snd (with_id (n_id n) PNetwork (case a of NStart \<Rightarrow> start | NStop \<Rightarrow> stop) s) = s)"
proof (cases a)
  case NStart
  with assms(3) have "n_state n \<noteq> Active" by (auto simp: np_menu_def)
  with NStart assms(1) start_state [OF assms(2)] start_frame show ?thesis
    using refusal_of [of "n_id n" start s b PNetwork] by auto
next
  case NStop
  with assms(3) have "n_state n = Active" by (auto simp: np_menu_def)
  with NStop assms(1) stop_state [OF assms(2)] stop_frame show ?thesis
    using refusal_of [of "n_id n" stop s "\<not> b" PNetwork] by auto
qed

lemma offered_missing:
  assumes "rx_test vmIDPattern i" "\<not> known i s"
  shows "with_id i PNetwork start s = (Inl (writeError (writeProviderError ErrNetworkNotFound)), s)"
    and "with_id i PNetwork stop s = (Inl (writeError (writeProviderError ErrNetworkNotFound)), s)"
    and "with_id i no_content del s = (Inl (writeError (writeProviderError ErrNetworkNotFound)), s)"
  using assms missing [OF assms(2)] by simp_all

lemma offered_delete:
  assumes "rx_test vmIDPattern (n_id n)" "active (n_id n) s = Some b" "list_ex (\<lambda>it. item_offers it (NpDelete n True)) (np_menu busy n)"
  shows "(has_code ''NETWORK_INVALID_STATE'' (fst (with_id (n_id n) no_content del s)) \<longleftrightarrow> b)
    \<and> (b \<longrightarrow> snd (with_id (n_id n) no_content del s) = s)"
proof -
  show ?thesis
    using assms(1) del_state [OF assms(2)] del_frame refusal_of [of "n_id n" del s b no_content] by auto
qed

end

subsection \<open>Machines\<close>

text \<open>
  What the pages of the machines rely on: \<open>shown i s\<close> is the state of machine \<open>i\<close>, if it can be
  told. In between (a machine that is paused or shutting down) the providers need not agree.
\<close>

locale machine_provider =
  fixes there :: "string \<Rightarrow> 's \<Rightarrow> bool"
    and shown :: "string \<Rightarrow> 's \<Rightarrow> vm_state option"
    and act :: "power_action \<Rightarrow> string \<Rightarrow> 's \<Rightarrow> (provider_error + vm) \<times> 's"
    and del :: "string \<Rightarrow> bool \<Rightarrow> 's \<Rightarrow> (provider_error + unit) \<times> 's"
  assumes absent: "\<not> there i s \<Longrightarrow> act a i s = (Inl ErrVMNotFound, s) \<and> del i d s = (Inl ErrVMNotFound, s)"
    and start_law: "shown i s = Some x \<Longrightarrow> x \<in> {Running, Stopped, Paused, Error_state} \<Longrightarrow>
      (\<exists>m. fst (act AStart i s) = Inl (ErrInvalidVMState m)) \<longleftrightarrow> x = Running"
    and shutdown_law: "shown i s = Some x \<Longrightarrow> x \<in> {Running, Stopped} \<Longrightarrow>
      (\<exists>m. fst (act AShutdown i s) = Inl (ErrInvalidVMState m)) \<longleftrightarrow> x = Stopped"
    and reboot_law: "shown i s = Some x \<Longrightarrow>
      (\<exists>m. fst (act AReboot i s) = Inl (ErrInvalidVMState m)) \<longleftrightarrow> x \<noteq> Running"
    and stop_law: "shown i s = Some x \<Longrightarrow> x \<noteq> Stopped \<Longrightarrow> \<not> (\<exists>m. fst (act AStop i s) = Inl (ErrInvalidVMState m))"
    and del_law: "shown i s = Some x \<Longrightarrow>
      (\<exists>m. fst (del i d s) = Inl (ErrInvalidVMState m)) \<longleftrightarrow> x \<noteq> Stopped"
    and act_frame: "fst (act a i s) = Inl (ErrInvalidVMState m) \<Longrightarrow> snd (act a i s) = s"
    and del_frame: "fst (del i d s) = Inl (ErrInvalidVMState m) \<Longrightarrow> snd (del i d s) = s"
begin

lemma vm_refusal_of:
  assumes "rx_test vmIDPattern i" "(\<exists>m. fst (op i s) = Inl (ErrInvalidVMState m)) \<longleftrightarrow> b"
    and "\<And>m. fst (op i s) = Inl (ErrInvalidVMState m) \<Longrightarrow> snd (op i s) = s"
  shows "(has_code ''VM_INVALID_STATE'' (fst (with_id i f op s)) \<longleftrightarrow> b) \<and> (b \<longrightarrow> snd (with_id i f op s) = s)"
  using assms by (auto split: prod.splits sum.splits)

text \<open>
  A machine that is still in the state in which it was listed takes every action that the pages
  offer for a machine that is stopped or running.
\<close>

lemma fresh_action:
  assumes "rx_test vmIDPattern i" "shown i s = Some x"
    and "a = AStart \<and> x \<in> {Stopped, Error_state} \<or> a \<in> {AShutdown, AReboot, AStop} \<and> x = Running"
  shows "\<not> has_code ''VM_INVALID_STATE'' (fst (with_id i PVm (act a) s))"
proof -
  have "\<not> (\<exists>m. fst (act a i s) = Inl (ErrInvalidVMState m))"
    using assms(3) start_law [OF assms(2)] shutdown_law [OF assms(2)] reboot_law [OF assms(2)] stop_law [OF assms(2)]
    by auto
  then show ?thesis using vm_refusal_of [OF assms(1), of "act a" s False PVm] by auto
qed

lemma deletion:
  assumes "rx_test vmIDPattern i" "shown i s = Some x"
  shows "(has_code ''VM_INVALID_STATE'' (fst (with_id i no_content (\<lambda>i. del i d) s)) \<longleftrightarrow> x \<noteq> Stopped)
    \<and> (x \<noteq> Stopped \<longrightarrow> snd (with_id i no_content (\<lambda>i. del i d) s) = s)"
  using vm_refusal_of [where op = "\<lambda>i. del i d", OF assms(1) del_law [OF assms(2)] del_frame] .

text \<open>An action that comes too late, for a machine that has changed between stopped and running.\<close>

lemma late_action:
  assumes "rx_test vmIDPattern i" "shown i s = Some x"
    and "a = AStart \<and> x = Running \<or> a \<in> {AShutdown, AReboot} \<and> x = Stopped"
  shows "has_code ''VM_INVALID_STATE'' (fst (with_id i PVm (act a) s)) \<and> snd (with_id i PVm (act a) s) = s"
proof -
  have "\<exists>m. fst (act a i s) = Inl (ErrInvalidVMState m)"
    using assms(3) start_law [OF assms(2)] shutdown_law [OF assms(2)] reboot_law [OF assms(2)] by auto
  then show ?thesis using vm_refusal_of [OF assms(1), of "act a" s True PVm] act_frame by auto
qed

lemma gone:
  assumes "rx_test vmIDPattern i" "\<not> there i s"
  shows "with_id i PVm (act a) s = (Inl (writeError (writeProviderError ErrVMNotFound)), s)"
    and "with_id i no_content (\<lambda>i. del i d) s = (Inl (writeError (writeProviderError ErrVMNotFound)), s)"
  using assms absent [OF assms(2)] by simp_all

end


subsection \<open>Storage pools\<close>

text \<open>
  What the storage page relies on: a refresh is refused for the state of the pool exactly when it is
  inactive, and with the error for networks; a removal is never refused for the state.
\<close>

locale pool_provider =
  fixes has :: "string \<Rightarrow> 's \<Rightarrow> bool"
    and pool_active :: "string \<Rightarrow> 's \<Rightarrow> bool option"
    and refresh :: "string \<Rightarrow> 's \<Rightarrow> (provider_error + storage_pool) \<times> 's"
    and remove :: "string \<Rightarrow> 's \<Rightarrow> (provider_error + unit) \<times> 's"
  assumes unknown: "\<not> has i s \<Longrightarrow> refresh i s = (Inl ErrPoolNotFound, s) \<and> remove i s = (Inl ErrPoolNotFound, s)"
    and refresh_law: "pool_active i s = Some b \<Longrightarrow> (\<exists>m. fst (refresh i s) = Inl (ErrInvalidNetworkState m)) \<longleftrightarrow> \<not> b"
    and refresh_frame: "fst (refresh i s) = Inl (ErrInvalidNetworkState m) \<Longrightarrow> snd (refresh i s) = s"
    and remove_law: "fst (remove i s) \<noteq> Inl (ErrInvalidNetworkState m)"
begin

lemma refresh_answer:
  assumes "rx_test vmIDPattern i" "pool_active i s = Some b"
  shows "has_code ''NETWORK_INVALID_STATE'' (fst (with_id i PPool refresh s)) \<longleftrightarrow> \<not> b"
    and "\<not> b \<Longrightarrow> snd (with_id i PPool refresh s) = s"
  using assms refresh_law [OF assms(2)] refresh_frame [of i s] by (auto split: prod.splits sum.splits)

lemma remove_answer:
  assumes "rx_test vmIDPattern i"
  shows "\<not> has_code ''NETWORK_INVALID_STATE'' (fst (with_id i no_content remove s))"
  using assms remove_law by (auto split: prod.splits sum.splits) (metis fst_conv)

lemma pool_gone:
  assumes "rx_test vmIDPattern i" "\<not> has i s"
  shows "with_id i PPool refresh s = (Inl (writeError (writeProviderError ErrPoolNotFound)), s)"
    and "with_id i no_content remove s = (Inl (writeError (writeProviderError ErrPoolNotFound)), s)"
  using assms unknown [OF assms(2)] by simp_all

end

end
