(* ===== verification/Domains.thy ===== *)
theory Domains
  imports Hypervisor VmDetails
begin

text \<open>
  The document that defines a machine in libvirt: how it is built from a creation request
  (\<open>backend/internal/hypervisor/libvirt/domainxml.go\<close>), what is read back from it (\<open>vms.go\<close>), its
  CD-ROM and its network card (\<open>update.go\<close>), and what the page of the machine then shows. The text
  of a document is represented by its elements; the devices and settings that are the same for
  every machine are left out (channel, random numbers, balloon, graphics, video, console, timers).
\<close>

subsection \<open>Documents\<close>

text \<open>An attribute or element that is absent is an empty string or \<open>None\<close>.\<close>

record disk_doc =
  xd_device :: string
  xd_type :: string
  xd_cache :: string
  xd_file :: string
  xd_dev :: string
  xd_bus :: string
  xd_boot :: "int option"

record nic_doc =
  xc_type :: string
  xc_mac :: string
  xc_network :: string
  xc_bridge :: string
  xc_target :: string
  xc_model :: string
  xc_queues :: "int option"

record domain_doc =
  xo_name :: string
  xo_memory :: int
  xo_unit :: string
  xo_current :: "int \<times> string"
  xo_vcpu :: int
  xo_os :: string
  xo_boot :: "string list"
  xo_hyperv :: "string list option"
  xo_cpu :: string
  xo_offset :: string
  xo_iothreads :: "int option"
  xo_controller :: "(int \<times> int) option"
  xo_disks :: "disk_doc list"
  xo_nics :: "nic_doc list"

subsection \<open>Building a document\<close>

record domain_spec =
  ds_name :: string
  ds_memoryBytes :: int
  ds_vcpus :: int
  ds_osType :: string
  ds_diskPath :: string
  ds_diskFormat :: string
  ds_networkId :: string
  ds_isoPath :: string
  ds_virtioIsoPath :: string
  ds_nicModel :: string

record host_features =
  hf_qemu :: nat
  hf_libvirt :: nat

definition queueCount :: "int \<Rightarrow> int" where
  "queueCount vcpus = (if vcpus < 1 then 1 else if vcpus > 8 then 8 else vcpus)"

definition ver :: "nat \<Rightarrow> nat \<Rightarrow> nat \<Rightarrow> nat" where
  "ver major minor micro = major * 1000000 + minor * 1000 + micro"

text \<open>The enlightenments, with the least versions of QEMU and libvirt.\<close>

definition hypervFeatures :: "(string \<times> nat \<times> nat) list" where
  "hypervFeatures =
    [(''relaxed'', 0, 0), (''vapic'', 0, 0), (''spinlocks'', 0, 0), (''vpindex'', 0, 0),
     (''synic'', ver 3 0 0, ver 1 2 0), (''stimer'', ver 3 0 0, ver 3 2 0), (''runtime'', ver 3 0 0, ver 3 2 0),
     (''frequencies'', ver 4 2 0, ver 5 10 0), (''reset'', ver 4 2 0, ver 5 10 0),
     (''tlbflush'', ver 5 0 0, ver 6 2 0), (''ipi'', ver 5 0 0, ver 6 2 0)]"

definition hyperv_ok :: "host_features \<Rightarrow> string \<times> nat \<times> nat \<Rightarrow> bool" where
  "hyperv_ok caps f = (fst (snd f) \<le> hf_qemu caps \<and> snd (snd f) \<le> hf_libvirt caps)"

definition selectHypervFeatures :: "host_features \<Rightarrow> string list \<times> string list" where
  "selectHypervFeatures caps =
     (map fst (filter (hyperv_ok caps) hypervFeatures), map fst (filter (\<lambda>f. \<not> hyperv_ok caps f) hypervFeatures))"

record applied_profile =
  ap_cpuMode :: string
  ap_diskBus :: string
  ap_cache :: string
  ap_nicModel :: string
  ap_ioThreads :: int
  ap_hyperv :: "string list"
  ap_skipped :: "string list"
  ap_osType :: string

definition profile_of :: "string \<Rightarrow> host_features \<Rightarrow> applied_profile" where
  "profile_of os caps =
     (let p = \<lparr>ap_cpuMode = ''host-passthrough'', ap_diskBus = ''scsi'', ap_cache = ''none'', ap_nicModel = ''virtio'',
        ap_ioThreads = 1, ap_hyperv = [], ap_skipped = [], ap_osType = os\<rparr> in
      if os = ''windows'' then p\<lparr>ap_hyperv := fst (selectHypervFeatures caps), ap_skipped := snd (selectHypervFeatures caps)\<rparr>
      else if os = ''other'' then p\<lparr>ap_cpuMode := ''host-model'', ap_diskBus := ''sata'', ap_cache := '''', ap_nicModel := ''e1000e'', ap_ioThreads := 0\<rparr>
      else p)"

text \<open>Device names in the order of attachment.\<close>

definition dev_name :: "nat \<Rightarrow> string" where
  "dev_name k = ''sd'' @ [char_of (97 + k)]"

definition cdrom_doc :: "string \<Rightarrow> string \<Rightarrow> string \<Rightarrow> int option \<Rightarrow> disk_doc" where
  "cdrom_doc file dev bus boot = \<lparr>xd_device = ''cdrom'', xd_type = ''raw'', xd_cache = '''', xd_file = file, xd_dev = dev, xd_bus = bus, xd_boot = boot\<rparr>"

definition spec_disks :: "domain_spec \<Rightarrow> applied_profile \<Rightarrow> disk_doc list" where
  "spec_disks s p =
     (let iso = (if ds_isoPath s \<noteq> '''' then [cdrom_doc (ds_isoPath s) (dev_name 0) ''sata'' (Some 1)] else []);
          drivers = (if ds_virtioIsoPath s \<noteq> '''' then [cdrom_doc (ds_virtioIsoPath s) (dev_name (length iso)) ''sata'' None] else []) in
      iso @ drivers @
      [\<lparr>xd_device = ''disk'', xd_type = ds_diskFormat s, xd_cache = ap_cache p, xd_file = ds_diskPath s,
        xd_dev = dev_name (length iso + length drivers), xd_bus = ap_diskBus p,
        xd_boot = (if ds_isoPath s \<noteq> '''' then Some 2 else None)\<rparr>])"

definition spec_os :: "domain_spec \<Rightarrow> string" where
  "spec_os s = (if ds_osType s = '''' then ''linux'' else ds_osType s)"

definition spec_profile :: "domain_spec \<Rightarrow> host_features \<Rightarrow> applied_profile" where
  "spec_profile s caps = (let p = profile_of (spec_os s) caps in
     if ds_nicModel s \<noteq> '''' then p\<lparr>ap_nicModel := ds_nicModel s\<rparr> else p)"

definition spec_doc :: "domain_spec \<Rightarrow> applied_profile \<Rightarrow> domain_doc" where
  "spec_doc s p = (let os = spec_os s; queue = queueCount (ds_vcpus s) in
     \<lparr>xo_name = ds_name s, xo_memory = ds_memoryBytes s, xo_unit = ''bytes'', xo_current = (0, ''''), xo_vcpu = ds_vcpus s,
      xo_os = ''hvm'', xo_boot = [],
      xo_hyperv = (if os = ''windows'' then Some (ap_hyperv p) else None),
      xo_cpu = ap_cpuMode p, xo_offset = (if os = ''windows'' then ''localtime'' else ''utc''),
      xo_iothreads = (if os = ''other'' then None else Some (ap_ioThreads p)),
      xo_controller = (if os = ''other'' then None else Some (queue, 1)),
      xo_disks = spec_disks s p,
      xo_nics = [\<lparr>xc_type = ''network'', xc_mac = '''', xc_network = ds_networkId s, xc_bridge = '''', xc_target = '''',
        xc_model = ap_nicModel p, xc_queues = (if ap_nicModel p = ''virtio'' then Some queue else None)\<rparr>]\<rparr>)"

definition buildDomainXML :: "domain_spec \<Rightarrow> host_features \<Rightarrow> string + (domain_doc \<times> applied_profile)" where
  "buildDomainXML s caps =
     (if ds_name s = '''' then Inl ''domain name is required''
      else if ds_vcpus s < 1 then Inl ''vcpus must be >= 1''
      else if ds_memoryBytes s < 1 then Inl ''memory must be > 0''
      else if ds_diskPath s = '''' \<or> ds_diskFormat s = '''' then Inl ''disk path and format are required''
      else if ds_networkId s = '''' then Inl ''network id is required''
      else if spec_os s \<notin> {''linux'', ''windows'', ''other''} then Inl (''unknown osType '' @ go_quote (spec_os s))
      else if ds_nicModel s \<notin> {'''', ''virtio'', ''e1000e'', ''rtl8139''} then Inl (''unknown nicModel '' @ go_quote (ds_nicModel s))
      else Inr (spec_doc s (spec_profile s caps), spec_profile s caps))"

subsection \<open>Reading a document\<close>

datatype domain_state =
    DOMAIN_NOSTATE | DOMAIN_RUNNING | DOMAIN_BLOCKED | DOMAIN_PAUSED | DOMAIN_SHUTDOWN | DOMAIN_SHUTOFF | DOMAIN_CRASHED | DOMAIN_PMSUSPENDED

fun stateToModel :: "domain_state \<Rightarrow> vm_state" where
  "stateToModel DOMAIN_RUNNING = Running"
| "stateToModel DOMAIN_BLOCKED = Running"
| "stateToModel DOMAIN_PAUSED = Paused"
| "stateToModel DOMAIN_SHUTDOWN = Stopped"
| "stateToModel DOMAIN_SHUTOFF = Stopped"
| "stateToModel DOMAIN_CRASHED = Stopped"
| "stateToModel DOMAIN_PMSUSPENDED = Paused"
| "stateToModel DOMAIN_NOSTATE = Error_state"

definition normalizeBytes :: "int \<Rightarrow> string \<Rightarrow> int" where
  "normalizeBytes v unit =
     (let u = js_lower unit in
      if u \<in> {''b'', ''bytes'', ''''} then v
      else if u \<in> {''kib'', ''k''} then v * 1024
      else if u \<in> {''mib'', ''m''} then v * 1024 * 1024
      else if u \<in> {''gib'', ''g''} then v * 1024 * 1024 * 1024
      else if u \<in> {''tib'', ''t''} then v * 1024 * 1024 * 1024 * 1024
      else if u = ''kb'' then v * 1000 else if u = ''mb'' then v * 1000 * 1000
      else if u = ''gb'' then v * 1000 * 1000 * 1000 else v)"

definition diskFormat :: "string \<Rightarrow> disk_format" where
  "diskFormat t = (if t = ''raw'' then Raw else Qcow2)"

definition diskBus :: "string \<Rightarrow> disk_bus option" where
  "diskBus b = (if b = ''virtio'' then Some Bus_virtio else if b = ''sata'' then Some Bus_sata else if b = ''scsi'' then Some Bus_scsi else None)"

definition nicModel :: "string \<Rightarrow> ni_model" where
  "nicModel ifaceType = (if ifaceType = ''virtio'' then NI_virtio else if ifaceType = ''e1000'' then NI_e1000 else NI_rtl8139)"

definition osNameFromXML :: "domain_doc \<Rightarrow> string option" where
  "osNameFromXML d = (if js_trim (xo_os d) = '''' then None else Some (js_trim (xo_os d)))"

definition osTypeFromDomainXML :: "domain_doc \<Rightarrow> os_type" where
  "osTypeFromDomainXML d = (if xo_hyperv d \<noteq> None then Windows else Linux)"

text \<open>The CPU mode, the cache and the model are copied as they are; only the values of the API are modelled.\<close>

definition cpu_mode_of :: "string \<Rightarrow> cpu_mode" where
  "cpu_mode_of m = (if m = ''host-passthrough'' then Host_passthrough else if m = ''host-model'' then Host_model else Custom_cpu)"

definition nic_model_of :: "string \<Rightarrow> nic_model option" where
  "nic_model_of m = (if m = ''virtio'' then Some Virtio else if m = ''e1000e'' then Some E1000e else if m = ''rtl8139'' then Some Rtl8139 else None)"

definition system_disks :: "domain_doc \<Rightarrow> disk_doc list" where
  "system_disks d = filter (\<lambda>x. xd_device x = ''disk'') (xo_disks d)"

definition detectProfileFromDomainXML :: "domain_doc \<Rightarrow> performance_profile option" where
  "detectProfileFromDomainXML d =
     (if xo_hyperv d = None then None
      else Some \<lparr>pp_cpuMode = Some (cpu_mode_of (xo_cpu d)),
        pp_diskBus = Some (if list_ex (\<lambda>x. xd_bus x = ''sata'') (system_disks d) then Bus_sata else Bus_scsi),
        pp_cache = (if list_ex (\<lambda>x. xd_cache x \<noteq> '''') (system_disks d) then Some Cache_none else None),
        pp_ioThreads = Some (orelse (xo_iothreads d) 0),
        pp_nicModel = (case xo_nics d of [] \<Rightarrow> None | ns \<Rightarrow> nic_model_of (xc_model (last ns))),
        pp_hyperv = None\<rparr>)"

text \<open>\<open>filepath.Base\<close> of an absolute path of a file.\<close>

definition path_base :: "string \<Rightarrow> string" where
  "path_base p = last (js_split (CHR ''/'') p)"

text \<open>
  What libvirt says beside the document is given: \<open>block f\<close> is the capacity and the allocation of
  a file, \<open>agent\<close> the address the guest agent reports, \<open>metrics\<close> the sample of the metrics.
\<close>

definition disk_model :: "(string \<Rightarrow> (int \<times> int) option) \<Rightarrow> disk_doc \<Rightarrow> disk" where
  "disk_model block x =
     (let info = (if xd_file x \<noteq> '''' then block (xd_file x) else None) in
      \<lparr>d_name = xd_dev x, d_format = diskFormat (xd_type x), d_sizeBytes = (case info of Some (c, a) \<Rightarrow> c | None \<Rightarrow> 0),
       d_usedBytes = map_option snd info, d_bus = diskBus (xd_bus x)\<rparr>)"

definition nic_to_model :: "nic_doc \<Rightarrow> net_interface" where
  "nic_to_model n = \<lparr>ni_name = xc_target n, ni_nicModel = nicModel (xc_type n), ni_macAddress = Some (xc_mac n), ni_ipAddress = None,
     ni_network = (if xc_network n \<noteq> '''' then Some (xc_network n) else if xc_bridge n \<noteq> '''' then Some (xc_bridge n) else None)\<rparr>"

definition attached_iso :: "domain_doc \<Rightarrow> string option" where
  "attached_iso d = map_option (\<lambda>x. path_base (xd_file x)) (find (\<lambda>x. xd_device x = ''cdrom'' \<and> xd_file x \<noteq> '''') (xo_disks d))"

definition domainToModel ::
  "(string \<Rightarrow> (int \<times> int) option) \<Rightarrow> string option \<Rightarrow> vm_metrics option \<Rightarrow> string \<Rightarrow> domain_state \<Rightarrow> domain_doc \<Rightarrow> vm" where
  "domainToModel block agent metrics name state d =
     (let m = normalizeBytes (xo_memory d) (xo_unit d); running = (stateToModel state = Running) in
      \<lparr>v_id = name, v_name = name, v_state = stateToModel state, v_vcpus = xo_vcpu d,
       v_memoryBytes = (if m = 0 then normalizeBytes (fst (xo_current d)) (snd (xo_current d)) else m),
       v_uptimeSeconds = None, v_os = osNameFromXML d, v_ipAddress = (if running then agent else None),
       v_isoId = attached_iso d, v_disks = map (disk_model block) (system_disks d),
       v_networkInterfaces = map nic_to_model (xo_nics d), v_metrics = (if running then metrics else None),
       v_bootTime = None, v_osType = Some (osTypeFromDomainXML d), v_performanceProfile = detectProfileFromDomainXML d,
       v_warnings = None\<rparr>)"


subsection \<open>The CD-ROM and the network card\<close>

definition currentCDROM :: "domain_doc \<Rightarrow> string \<times> string" where
  "currentCDROM d = (case find (\<lambda>x. xd_device x = ''cdrom'') (xo_disks d) of
     Some x \<Rightarrow> (xd_dev x, xd_bus x) | None \<Rightarrow> ('''', ''''))"

definition used_devs :: "domain_doc \<Rightarrow> string list" where
  "used_devs d = filter (\<lambda>n. n \<noteq> '''') (map xd_dev (xo_disks d))"

text \<open>The bus of the first device that is no CD-ROM and has one.\<close>

definition system_bus :: "domain_doc \<Rightarrow> string" where
  "system_bus d = (case find (\<lambda>x. xd_device x \<noteq> ''cdrom'' \<and> xd_bus x \<noteq> '''') (xo_disks d) of Some x \<Rightarrow> xd_bus x | None \<Rightarrow> '''')"

definition nextCDROMTarget :: "domain_doc \<Rightarrow> (string \<times> string) option" where
  "nextCDROMTarget d =
     (let bus = (if system_bus d \<in> {''ide'', ''sata''} then system_bus d else ''sata'') in
      map_option (\<lambda>n. (n, bus)) (find (\<lambda>n. n \<notin> set (used_devs d)) (map dev_name [0..<26])))"

definition hasOSBootOrder :: "domain_doc \<Rightarrow> bool" where
  "hasOSBootOrder d = (xo_boot d \<noteq> [])"

text \<open>\<open>None\<close>: the document is not written again.\<close>

definition setOSBootOrder :: "bool \<Rightarrow> domain_doc \<Rightarrow> domain_doc option" where
  "setOSBootOrder cdromFirst d =
     (if \<not> hasOSBootOrder d then None
      else Some (d\<lparr>xo_boot := (if cdromFirst then [''cdrom'', ''hd''] else [''hd''])\<rparr>))"

text \<open>The device that \<open>setCDROM\<close> attaches; the boot order of the device only where there is no other.\<close>

definition attach_doc :: "domain_doc \<Rightarrow> string \<Rightarrow> disk_doc option" where
  "attach_doc d path = map_option (\<lambda>(dev, bus). cdrom_doc path dev bus (if hasOSBootOrder d then None else Some 1)) (nextCDROMTarget d)"

definition setNICNetwork :: "domain_doc \<Rightarrow> string \<Rightarrow> provider_error + nic_doc" where
  "setNICNetwork d network = (case xo_nics d of
     [] \<Rightarrow> Inl (invalid_vm ''virtual machine has no network interface'')
   | n # ns \<Rightarrow> Inr \<lparr>xc_type = ''network'', xc_mac = xc_mac n, xc_network = network, xc_bridge = '''', xc_target = '''',
       xc_model = (if xc_model n = '''' then ''virtio'' else xc_model n), xc_queues = None\<rparr>)"

subsection \<open>What a new document is like\<close>

lemma dev_name_inject [simp]: "j < 26 \<Longrightarrow> k < 26 \<Longrightarrow> dev_name j = dev_name k \<longleftrightarrow> j = k"
proof
  assume b: "j < 26" "k < 26" and e: "dev_name j = dev_name k"
  then have "(char_of (97 + j) :: char) = char_of (97 + k)" by (simp add: dev_name_def)
  then have "of_char (char_of (97 + j) :: char) = (of_char (char_of (97 + k) :: char) :: nat)" by (rule arg_cong)
  with b show "j = k" by simp
qed simp

lemma dev_name_not_Nil [simp]: "dev_name k \<noteq> ''''"
  by (simp add: dev_name_def)

lemma select_partition:
  "mset (fst (selectHypervFeatures caps) @ snd (selectHypervFeatures caps)) = mset (map fst hypervFeatures)"
proof -
  have "image_mset f (filter_mset P M) + image_mset f {#x \<in># M. \<not> P x#} = image_mset f M" for f :: "'a \<Rightarrow> 'b" and P M
    by (metis image_mset_union multiset_partition)
  then show ?thesis by (simp add: selectHypervFeatures_def)
qed

lemma build_Inr:
  assumes "buildDomainXML s caps = Inr (d, p)"
  shows "d = spec_doc s p" "p = spec_profile s caps" "spec_os s \<in> {''linux'', ''windows'', ''other''}"
    "ds_nicModel s \<in> {'''', ''virtio'', ''e1000e'', ''rtl8139''}" "0 < ds_vcpus s" "0 < ds_memoryBytes s"
    "ds_diskPath s \<noteq> ''''" "ds_diskFormat s \<noteq> ''''" "ds_networkId s \<noteq> ''''" "ds_name s \<noteq> ''''"
  using assms by (auto simp: buildDomainXML_def simp del: insert_iff split: if_splits)

lemma spec_doc_parts [simp]:
  "xo_name (spec_doc s p) = ds_name s" "xo_memory (spec_doc s p) = ds_memoryBytes s" "xo_unit (spec_doc s p) = ''bytes''"
  "xo_vcpu (spec_doc s p) = ds_vcpus s" "xo_os (spec_doc s p) = ''hvm''" "xo_boot (spec_doc s p) = []"
  "xo_hyperv (spec_doc s p) = (if spec_os s = ''windows'' then Some (ap_hyperv p) else None)"
  "xo_cpu (spec_doc s p) = ap_cpuMode p" "xo_disks (spec_doc s p) = spec_disks s p"
  "xo_iothreads (spec_doc s p) = (if spec_os s = ''other'' then None else Some (ap_ioThreads p))"
  "xo_controller (spec_doc s p) = (if spec_os s = ''other'' then None else Some (queueCount (ds_vcpus s), 1))"
  "xo_nics (spec_doc s p) = [\<lparr>xc_type = ''network'', xc_mac = '''', xc_network = ds_networkId s, xc_bridge = '''', xc_target = '''',
     xc_model = ap_nicModel p, xc_queues = (if ap_nicModel p = ''virtio'' then Some (queueCount (ds_vcpus s)) else None)\<rparr>]"
  by (simp_all add: spec_doc_def Let_def)

lemma spec_profile_parts [simp]:
  "ap_hyperv (spec_profile s caps) = (if spec_os s = ''windows'' then fst (selectHypervFeatures caps) else [])"
  "ap_skipped (spec_profile s caps) = (if spec_os s = ''windows'' then snd (selectHypervFeatures caps) else [])"
  "ap_diskBus (spec_profile s caps) = (if spec_os s = ''other'' then ''sata'' else ''scsi'')"
  "ap_cache (spec_profile s caps) = (if spec_os s = ''other'' then '''' else ''none'')"
  "ap_cpuMode (spec_profile s caps) = (if spec_os s = ''other'' then ''host-model'' else ''host-passthrough'')"
  "ap_ioThreads (spec_profile s caps) = (if spec_os s = ''other'' then 0 else 1)"
  "ap_nicModel (spec_profile s caps) = (if ds_nicModel s \<noteq> '''' then ds_nicModel s else if spec_os s = ''other'' then ''e1000e'' else ''virtio'')"
  by (simp_all add: spec_profile_def profile_of_def Let_def)

lemma spec_disks_parts:
  "distinct (map xd_dev (spec_disks s p))" "length (spec_disks s p) \<le> 3"
  "filter (\<lambda>x. xd_device x = ''disk'') (spec_disks s p) = [last (spec_disks s p)]"
  "last (spec_disks s p) = \<lparr>xd_device = ''disk'', xd_type = ds_diskFormat s, xd_cache = ap_cache p, xd_file = ds_diskPath s,
     xd_dev = dev_name (length (spec_disks s p) - 1), xd_bus = ap_diskBus p, xd_boot = (if ds_isoPath s \<noteq> '''' then Some 2 else None)\<rparr>"
  by (simp_all add: spec_disks_def Let_def cdrom_doc_def)

lemma spec_disks_boot:
  "if ds_isoPath s = '''' then list_all (\<lambda>x. xd_boot x = None) (spec_disks s p)
   else xd_file (hd (spec_disks s p)) = ds_isoPath s \<and> xd_boot (hd (spec_disks s p)) = Some 1
     \<and> xd_boot (last (spec_disks s p)) = Some 2 \<and> list_all (\<lambda>x. xd_boot x = None) (butlast (tl (spec_disks s p)))"
  by (simp add: spec_disks_def Let_def cdrom_doc_def)

lemma selected: "f \<in> set hypervFeatures \<Longrightarrow> fst f \<in> set (fst (selectHypervFeatures caps)) \<longleftrightarrow> hyperv_ok caps f"
proof -
  assume f: "f \<in> set hypervFeatures"
  have "distinct (map fst hypervFeatures)" by (simp add: hypervFeatures_def)
  then have "g = f" if "g \<in> set hypervFeatures" "fst g = fst f" for g
    using that f by (auto simp: distinct_map inj_on_def)
  with f show ?thesis by (force simp: selectHypervFeatures_def)
qed

text \<open>
  C38. A document that is built for a new machine is consistent: the device names differ, the ISO boots
  first and the disk second, a disk on the SCSI bus has a controller with an I/O thread that
  exists and one on the SATA bus none, there are one to eight queues, only on a virtio card,
  and the enlightenments are those the host supports, the others being reported as skipped.
\<close>

theorem new_domain_consistent:
  assumes "buildDomainXML s caps = Inr (d, p)"
  shows "distinct (map xd_dev (xo_disks d)) \<and> length (xo_disks d) \<le> 3
    \<and> (if ds_isoPath s = '''' then list_all (\<lambda>x. xd_boot x = None) (xo_disks d)
       else xd_file (hd (xo_disks d)) = ds_isoPath s \<and> xd_boot (hd (xo_disks d)) = Some 1
         \<and> xd_boot (last (xo_disks d)) = Some 2 \<and> list_all (\<lambda>x. xd_boot x = None) (butlast (tl (xo_disks d))))
    \<and> (\<exists>x. system_disks d = [x] \<and> (xd_bus x = ''scsi'' \<longleftrightarrow> xo_controller d \<noteq> None) \<and> (xd_bus x = ''sata'' \<longleftrightarrow> xo_controller d = None))
    \<and> (\<forall>q t. xo_controller d = Some (q, t) \<longrightarrow> 1 \<le> q \<and> q \<le> 8 \<and> (\<exists>n. xo_iothreads d = Some n \<and> 1 \<le> t \<and> t \<le> n))
    \<and> (\<exists>n. xo_nics d = [n] \<and> (xc_queues n \<noteq> None \<longleftrightarrow> xc_model n = ''virtio'') \<and> xc_model n \<in> {''virtio'', ''e1000e'', ''rtl8139''})
    \<and> xo_hyperv d = (if spec_os s = ''windows'' then Some (ap_hyperv p) else None)
    \<and> (spec_os s = ''windows'' \<longrightarrow> mset (ap_hyperv p @ ap_skipped p) = mset (map fst hypervFeatures)
         \<and> (\<forall>f \<in> set hypervFeatures. fst f \<in> set (ap_hyperv p) \<longleftrightarrow> hyperv_ok caps f))"
proof -
  note b = build_Inr [OF assms]
  have q: "1 \<le> queueCount n" "queueCount n \<le> 8" for n by (simp_all add: queueCount_def)
  have sysd: "system_disks d = [last (spec_disks s p)]" "xd_bus (last (spec_disks s p)) = ap_diskBus p"
    using b(1) spec_disks_parts [of s p] by (simp_all add: system_disks_def)
  have nic: "\<exists>n. xo_nics d = [n] \<and> (xc_queues n \<noteq> None \<longleftrightarrow> xc_model n = ''virtio'') \<and> xc_model n \<in> {''virtio'', ''e1000e'', ''rtl8139''}"
    using b(1,2,4) by auto
  have ctl: "\<forall>q t. xo_controller d = Some (q, t) \<longrightarrow> 1 \<le> q \<and> q \<le> 8 \<and> (\<exists>n. xo_iothreads d = Some n \<and> 1 \<le> t \<and> t \<le> n)"
    using b(1,2) q by auto
  have ft: "spec_os s = ''windows'' \<longrightarrow> mset (ap_hyperv p @ ap_skipped p) = mset (map fst hypervFeatures)
         \<and> (\<forall>f \<in> set hypervFeatures. fst f \<in> set (ap_hyperv p) \<longleftrightarrow> hyperv_ok caps f)"
    using b(2) selected [of _ caps] select_partition [of caps] by simp
  have bus: "xd_bus (last (spec_disks s p)) = ''scsi'' \<longleftrightarrow> xo_controller d \<noteq> None" "xd_bus (last (spec_disks s p)) = ''sata'' \<longleftrightarrow> xo_controller d = None"
    using sysd(2) b(1,2) by simp_all
  have xd: "xo_disks d = spec_disks s p" using b(1) by simp
  have hv: "xo_hyperv d = (if spec_os s = ''windows'' then Some (ap_hyperv p) else None)" using b(1) by simp
  have sd: "\<exists>x. system_disks d = [x] \<and> (xd_bus x = ''scsi'' \<longleftrightarrow> xo_controller d \<noteq> None) \<and> (xd_bus x = ''sata'' \<longleftrightarrow> xo_controller d = None)"
    by (intro exI [of _ "last (spec_disks s p)"] conjI sysd(1) bus)
  show ?thesis
    unfolding xd by (intro conjI spec_disks_parts(1,2) spec_disks_boot sd ctl nic hv ft)
qed


definition windows_spec :: domain_spec where
  "windows_spec = \<lparr>ds_name = ''win'', ds_memoryBytes = 4294967296, ds_vcpus = 12, ds_osType = ''windows'', ds_diskPath = ''/pool/win.qcow2'',
     ds_diskFormat = ''qcow2'', ds_networkId = ''default'', ds_isoPath = ''/isos/win.iso'', ds_virtioIsoPath = ''/isos/virtio-win.iso'',
     ds_nicModel = ''e1000e''\<rparr>"

definition old_host :: host_features where
  "old_host = \<lparr>hf_qemu = 3001000, hf_libvirt = 4000000\<rparr>"

lemma windows_built: "buildDomainXML windows_spec old_host = Inr (spec_doc windows_spec (spec_profile windows_spec old_host), spec_profile windows_spec old_host)"
  by (simp add: buildDomainXML_def windows_spec_def spec_os_def)

theorem new_domain_consistent_witness:
  "distinct (map xd_dev (xo_disks (spec_doc windows_spec (spec_profile windows_spec old_host))))
   \<and> ''stimer'' \<in> set (ap_hyperv (spec_profile windows_spec old_host)) \<and> ''ipi'' \<notin> set (ap_hyperv (spec_profile windows_spec old_host))"
proof -
  have w: "spec_os windows_spec = ''windows''" by (simp add: spec_os_def windows_spec_def)
  have f: "(''stimer'', ver 3 0 0, ver 3 2 0) \<in> set hypervFeatures" "(''ipi'', ver 5 0 0, ver 6 2 0) \<in> set hypervFeatures"
    by (simp_all add: hypervFeatures_def)
  have ok: "hyperv_ok old_host (''stimer'', ver 3 0 0, ver 3 2 0)" "\<not> hyperv_ok old_host (''ipi'', ver 5 0 0, ver 6 2 0)"
    by (simp_all add: hyperv_ok_def old_host_def ver_def)
  note c = new_domain_consistent [OF windows_built]
  from c have "distinct (map xd_dev (xo_disks (spec_doc windows_spec (spec_profile windows_spec old_host))))" by (rule conjunct1)
  moreover from c w have "\<forall>f \<in> set hypervFeatures. fst f \<in> set (ap_hyperv (spec_profile windows_spec old_host)) \<longleftrightarrow> hyperv_ok old_host f"
    by blast
  ultimately show ?thesis using f ok by fastforce
qed

subsection \<open>What the page shows of a new machine\<close>

lemma js_lower_bytes: "js_lower ''bytes'' = ''bytes''" and js_trim_hvm: "js_trim ''hvm'' = ''hvm''"
  by code_simp+

lemma hyperv_never_empty: "fst (selectHypervFeatures caps) \<noteq> []"
  by (simp add: selectHypervFeatures_def hypervFeatures_def hyperv_ok_def)




subsection \<open>Changing the CD-ROM\<close>

text \<open>What libvirt does when it detaches the device of a target.\<close>

definition without :: "string \<Rightarrow> domain_doc \<Rightarrow> domain_doc" where
  "without dev d = d\<lparr>xo_disks := filter (\<lambda>x. xd_dev x \<noteq> dev) (xo_disks d)\<rparr>"

lemma free_dev:
  assumes "length (xo_disks d) < 26"
  shows "\<exists>n. find (\<lambda>n. n \<notin> set (used_devs d)) (map dev_name [0..<26]) = Some n"
proof (rule ccontr)
  assume "\<not> ?thesis"
  then have "set (map dev_name [0..<26]) \<subseteq> set (used_devs d)" by (auto simp: find_None_iff)
  then have "card (set (map dev_name [0..<26])) \<le> card (set (used_devs d))" by (intro card_mono) simp_all
  moreover have "distinct (map dev_name [0..<26])" by (simp add: distinct_map inj_on_def)
  then have "card (set (map dev_name [0..<26])) = 26" by (simp only: distinct_card length_map length_upt)
  moreover have "card (set (used_devs d)) \<le> length (xo_disks d)"
    unfolding used_devs_def by (rule order.trans [OF card_length]) (rule order.trans [OF length_filter_le], simp)
  ultimately show False using assms by simp
qed

lemma find_split:
  "find P l = Some c \<Longrightarrow> \<exists>xs ys. l = xs @ c # ys \<and> P c \<and> (\<forall>x \<in> set xs. \<not> P x)"
proof (induction l)
  case (Cons a l)
  show ?case
  proof (cases "P a")
    case True
    with Cons.prems show ?thesis by (intro exI [of _ "[]"] exI [of _ l]) simp
  next
    case False
    with Cons obtain xs ys where "l = xs @ c # ys" "P c" "\<forall>x \<in> set xs. \<not> P x" by auto
    with False show ?thesis by (intro exI [of _ "a # xs"] exI [of _ ys]) simp
  qed
qed simp

lemma next_target:
  assumes "nextCDROMTarget d = Some (dev, bus)"
  shows "dev \<notin> set (map xd_dev (xo_disks d))" "dev \<noteq> ''''" "bus = (if system_bus d \<in> {''ide'', ''sata''} then system_bus d else ''sata'')"
proof -
  from assms have f: "find (\<lambda>n. n \<notin> set (used_devs d)) (map dev_name [0..<26]) = Some dev"
    and b: "bus = (if system_bus d \<in> {''ide'', ''sata''} then system_bus d else ''sata'')"
    by (auto simp: nextCDROMTarget_def Let_def)
  from f have "dev \<notin> set (used_devs d)" "\<exists>k. dev = dev_name k" by (auto simp: find_Some_iff)
  then show "dev \<notin> set (map xd_dev (xo_disks d))" "dev \<noteq> ''''" by (auto simp: used_devs_def)
  show "bus = (if system_bus d \<in> {''ide'', ''sata''} then system_bus d else ''sata'')" by (rule b)
qed

text \<open>
  Swapping the ISO of a machine with distinct devices and room for one more: the device of the
  present CD-ROM goes, no disk does, and the new one gets a name nothing else has and the
  bus of the system disk where that is IDE or SATA. Ejecting it from a machine created
  with drivers leaves the CD-ROM of the drivers, which is then shown as the ISO.
\<close>

theorem cdrom_swap:
  assumes "distinct (map xd_dev (xo_disks d))" "'''' \<notin> set (map xd_dev (xo_disks d))" "length (xo_disks d) < 26"
  shows "let d1 = without (fst (currentCDROM d)) d in
    system_disks d1 = system_disks d
    \<and> filter (\<lambda>x. xd_device x = ''cdrom'') (xo_disks d1) = tl (filter (\<lambda>x. xd_device x = ''cdrom'') (xo_disks d))
    \<and> (\<exists>x. attach_doc d1 path = Some x \<and> xd_device x = ''cdrom'' \<and> xd_file x = path
         \<and> distinct (map xd_dev (x # xo_disks d1))
         \<and> (system_bus d1 \<in> {''ide'', ''sata''} \<longrightarrow> xd_bus x = system_bus d1)
         \<and> (xd_boot x = None \<longleftrightarrow> hasOSBootOrder d))
    \<and> (buildDomainXML s caps = Inr (d, p) \<longrightarrow> ds_isoPath s \<noteq> '''' \<longrightarrow>
        attached_iso d1 = (if ds_virtioIsoPath s \<noteq> '''' then Some (path_base (ds_virtioIsoPath s)) else None))"
proof -
  let ?d = "without (fst (currentCDROM d)) d"
  have len: "length (xo_disks ?d) < 26"
    using assms(3) by (simp add: without_def less_le_trans [OF _ order.refl] le_less_trans [OF length_filter_le])
  have parts: "system_disks ?d = system_disks d
      \<and> filter (\<lambda>x. xd_device x = ''cdrom'') (xo_disks ?d) = tl (filter (\<lambda>x. xd_device x = ''cdrom'') (xo_disks d))"
  proof (cases "find (\<lambda>x. xd_device x = ''cdrom'') (xo_disks d)")
    case None
    then have "currentCDROM d = ('''', '''')" by (simp add: currentCDROM_def)
    moreover have "xd_dev x \<noteq> ''''" if "x \<in> set (xo_disks d)" for x using assms(2) that by (metis imageI list.set_map)
    ultimately have "xo_disks ?d = xo_disks d" by (simp add: without_def filter_id_conv)
    moreover have "filter (\<lambda>x. xd_device x = ''cdrom'') (xo_disks d) = []" using None by (auto simp: find_None_iff filter_empty_conv)
    ultimately show ?thesis by (simp add: system_disks_def)
  next
    case (Some c)
    then obtain xs ys where split: "xo_disks d = xs @ c # ys" "xd_device c = ''cdrom''" "\<forall>x \<in> set xs. xd_device x \<noteq> ''cdrom''"
      using find_split [OF Some] by blast
    have cur: "fst (currentCDROM d) = xd_dev c" using Some by (simp add: currentCDROM_def)
    from assms(1) split(1) have "xo_disks ?d = xs @ ys"
      by (simp add: without_def cur) (metis (mono_tags, lifting) filter_True imageI)
    moreover have "filter (\<lambda>x. xd_device x = ''cdrom'') xs = []" using split(3) by (simp add: filter_empty_conv)
    ultimately show ?thesis using split by (simp add: system_disks_def)
  qed
  have "\<exists>x. attach_doc ?d path = Some x \<and> xd_device x = ''cdrom'' \<and> xd_file x = path
         \<and> distinct (map xd_dev (x # xo_disks ?d))
         \<and> (system_bus ?d \<in> {''ide'', ''sata''} \<longrightarrow> xd_bus x = system_bus ?d)
         \<and> (xd_boot x = None \<longleftrightarrow> hasOSBootOrder d)"
  proof -
    from free_dev [OF len] obtain dev bus where t: "nextCDROMTarget ?d = Some (dev, bus)"
      by (auto simp: nextCDROMTarget_def Let_def)
    have "distinct (map xd_dev (xo_disks ?d))" using assms(1) by (simp add: without_def distinct_map_filter)
    moreover have "hasOSBootOrder ?d = hasOSBootOrder d" by (simp add: hasOSBootOrder_def without_def)
    ultimately show ?thesis using next_target [OF t] t by (auto simp: attach_doc_def cdrom_doc_def)
  qed
  moreover have "attached_iso ?d = (if ds_virtioIsoPath s \<noteq> '''' then Some (path_base (ds_virtioIsoPath s)) else None)"
    if b: "buildDomainXML s caps = Inr (d, p)" and i: "ds_isoPath s \<noteq> ''''"
  proof -
    have "xo_disks d = spec_disks s p" using build_Inr(1) [OF b] by simp
    then show ?thesis using i
      by (simp add: attached_iso_def without_def currentCDROM_def spec_disks_def Let_def cdrom_doc_def)
  qed
  ultimately show ?thesis using parts by (simp add: Let_def)
qed

theorem cdrom_swap_witness:
  "let d = spec_doc windows_spec (spec_profile windows_spec old_host); d1 = without (fst (currentCDROM d)) d in
   attached_iso d = Some ''win.iso'' \<and> attached_iso d1 = Some ''virtio-win.iso''
   \<and> (\<exists>x. attach_doc d1 ''/isos/new.iso'' = Some x \<and> distinct (map xd_dev (x # xo_disks d1)))"
proof -
  let ?p = "spec_profile windows_spec old_host"
  let ?d = "spec_doc windows_spec ?p"
  have disks: "xo_disks ?d = spec_disks windows_spec ?p" by simp
  have "distinct (map xd_dev (xo_disks ?d))" "length (xo_disks ?d) < 26"
    using spec_disks_parts(1,2) [of windows_spec ?p] by simp_all
  moreover have "'''' \<notin> set (map xd_dev (xo_disks ?d))" by (auto simp: spec_disks_def Let_def cdrom_doc_def dev_name_def)
  moreover have "ds_isoPath windows_spec \<noteq> ''''" "ds_virtioIsoPath windows_spec = ''/isos/virtio-win.iso''" by (simp_all add: windows_spec_def)
  moreover have "path_base ''/isos/virtio-win.iso'' = ''virtio-win.iso''" "path_base ''/isos/win.iso'' = ''win.iso''" by code_simp+
  moreover have "attached_iso ?d = Some (path_base ''/isos/win.iso'')"
    by (simp add: attached_iso_def spec_disks_def Let_def cdrom_doc_def windows_spec_def)
  ultimately show ?thesis
    using cdrom_swap [of ?d "''/isos/new.iso''" windows_spec old_host ?p] windows_built by (auto simp: Let_def simp del: spec_doc_parts)
qed

end
