(* ===== verification/HostNetworks.thy ===== *)
theory HostNetworks
  imports Hypervisor "HOL-Library.Word"
begin

unbundle bit_operations_syntax

text \<open>
  The virtual networks of the host: subnets and addresses, the document that defines a network in
  libvirt, the operations of the provider that calls libvirt
  (\<open>backend/internal/hypervisor/libvirt/pools_networks.go\<close>), those of the simulated host
  (\<open>hypervisor/mock/pools_networks.go\<close>, with its storage pools), and how the network page and
  the two providers agree. The text of a document is represented by its elements.
\<close>

subsection \<open>Addresses\<close>

text \<open>An IPv4 address is its four bytes (\<open>net.IP\<close> after \<open>To4\<close>).\<close>

type_synonym ip = "8 word list"

definition CIDRMask :: "nat \<Rightarrow> ip" where
  "CIDRMask n = map (\<lambda>i. NOT (drop_bit (min 8 (n - 8 * i)) 255)) [0, 1, 2, 3]"

definition ip_str :: "ip \<Rightarrow> string" where
  "ip_str a = js_join ''.'' (map (\<lambda>o8. nat_str (unat o8)) a)"

definition octets :: "string \<Rightarrow> ip" where
  "octets s = map (\<lambda>g. of_nat (parse_digits g)) (js_split (CHR ''.'') s)"

text \<open>\<open>net.ParseIP\<close> and \<open>net.ParseCIDR\<close> on IPv4; the latter gives the subnet, masked, and its prefix.\<close>

definition ParseIP :: "string \<Rightarrow> ip option" where
  "ParseIP s = (if length (js_split (CHR ''.'') s) = 4 \<and> list_all go_octet (js_split (CHR ''.'') s) then Some (octets s) else None)"

definition parse_cidr :: "string \<Rightarrow> (ip \<times> nat) option" where
  "parse_cidr s = (if ParseCIDR s
     then (let a = js_split (CHR ''/'') s ! 0; n = parse_digits (js_split (CHR ''/'') s ! 1) in
       Some (map2 (AND) (octets a) (CIDRMask n), n))
     else None)"

text \<open>The carry is an \<open>int32\<close>; \<open>addToIP\<close> is called with \<open>-1\<close> only, far from its bounds.\<close>

fun add_octets :: "int \<Rightarrow> ip \<Rightarrow> ip" where
  "add_octets carry [] = []"
| "add_octets carry (o8 # os) = (if carry = 0 then o8 # os
     else (let v = uint o8 + carry in word_of_int v # add_octets (v div 256) os))"

definition addToIP :: "ip \<Rightarrow> int \<Rightarrow> ip" where
  "addToIP a delta = rev (add_octets delta (rev a))"

definition subnetFirstAndLastHost :: "ip \<Rightarrow> ip \<Rightarrow> ip \<times> ip" where
  "subnetFirstAndLastHost network netmask =
     (map2 (\<lambda>a m. (a AND m) OR 1) network netmask,
      addToIP (map2 (\<lambda>a m. (a AND m) OR NOT m) network netmask) (-1))"

subsection \<open>Documents\<close>

text \<open>
  The elements of a network that are written or read. \<open>xi_domain\<close> is a \<open>domain\<close> inside \<open>ip\<close>, where
  the provider looks for it, and \<open>xn_domain\<close> one inside \<open>network\<close>, where it writes it.
\<close>

record net_ip =
  xi_address :: string
  xi_prefix :: int
  xi_dhcp :: "(string \<times> string) option"
  xi_domain :: string

record net_doc =
  xn_name :: string
  xn_forward :: string
  xn_bridge :: string
  xn_domain :: string
  xn_ip :: "net_ip option"

definition no_ip :: net_ip where
  "no_ip = \<lparr>xi_address = '''', xi_prefix = 0, xi_dhcp = None, xi_domain = ''''\<rparr>"

definition doc_ip :: "net_doc \<Rightarrow> net_ip" where
  "doc_ip d = orelse (xn_ip d) no_ip"

definition ifaceNamePattern :: rx where
  "ifaceNamePattern = Seq (Cls is_alnum) (Rep (Cls is_name_char) 0 15)"

definition networkCreateXML :: "network_body \<Rightarrow> provider_error + net_doc" where
  "networkCreateXML b = (let name = orelse (nb_name b) '''' in case nb_mode b of
     None \<Rightarrow> Inl (invalid_net (''unsupported network mode '' @ go_quote ''''))
   | Some Bridge \<Rightarrow> (case nb_bridgeName b of
       Some br \<Rightarrow> if rx_test ifaceNamePattern br
         then Inr \<lparr>xn_name = name, xn_forward = ''bridge'', xn_bridge = br, xn_domain = '''', xn_ip = None\<rparr>
         else Inl (invalid_net ''bridgeName is required (and must be a valid interface name) for bridge networks'')
     | None \<Rightarrow> Inl (invalid_net ''bridgeName is required (and must be a valid interface name) for bridge networks''))
   | Some mode \<Rightarrow> (case nb_cidr b of
       None \<Rightarrow> Inl (invalid_net ''cidr is required (e.g. 192.168.100.0/24) for nat/isolated networks'')
     | Some c \<Rightarrow> if \<not> rx_test cidrPattern c
         then Inl (invalid_net ''cidr is required (e.g. 192.168.100.0/24) for nat/isolated networks'')
         else (case parse_cidr c of
           None \<Rightarrow> Inl (invalid_net ''invalid cidr'')
         | Some (net, n) \<Rightarrow> (let (gw, l) = subnetFirstAndLastHost net (CIDRMask n) in
             Inr \<lparr>xn_name = name, xn_forward = (if mode = Nat then ''nat'' else ''''), xn_bridge = '''', xn_domain = name,
               xn_ip = Some \<lparr>xi_address = ip_str gw, xi_prefix = int n,
                 xi_dhcp = (if nb_dhcpEnabled b = Some False then None else Some (ip_str gw, ip_str l)),
                 xi_domain = ''''\<rparr>\<rparr>))))"

definition networkForwardMode :: "string \<Rightarrow> net_mode" where
  "networkForwardMode m = (if m = ''nat'' then Nat else if m = ''bridge'' then Bridge
     else if m \<in> {''route'', ''open'', ''vepa'', ''passthrough'', ''hostdev''} then Nat else Isolated)"

definition networkToModel :: "string \<Rightarrow> bool \<Rightarrow> bool \<Rightarrow> net_doc \<Rightarrow> network" where
  "networkToModel name active autostart d = (let i = doc_ip d; some = (\<lambda>s. if s \<noteq> '''' then Some s else None) in
     \<lparr>n_id = name, n_name = name, n_state = (if active then Active else Inactive), n_autostart = autostart,
      n_bridge = some (xn_bridge d), n_ipAddress = some (xi_address i),
      n_ipPrefix = (if xi_address i \<noteq> '''' then Some (xi_prefix i) else None),
      n_dhcpEnabled = (xi_dhcp i \<noteq> None), n_domainName = some (xi_domain i),
      n_mode = Some (networkForwardMode (xn_forward d))\<rparr>)"

definition cidrFromIPPrefix :: "string \<Rightarrow> int \<Rightarrow> string" where
  "cidrFromIPPrefix a n = (case ParseIP a of
     None \<Rightarrow> ''''
   | Some x \<Rightarrow> if n \<le> 0 \<or> 32 < n then '''' else ip_str x @ ''/'' @ int_str n)"


subsection \<open>The provider that calls libvirt\<close>

text \<open>
  What libvirt answers is a parameter: \<open>'h\<close> is its state, a query gives an error or a value, a command
  an error, if it fails, and the new state. A lookup fails when there is no such network.
\<close>

record 'h net_calls =
  nl_found :: "string \<Rightarrow> 'h \<Rightarrow> bool"
  nl_active :: "string \<Rightarrow> 'h \<Rightarrow> string + bool"
  nl_autostart :: "string \<Rightarrow> 'h \<Rightarrow> string + bool"
  nl_doc :: "string \<Rightarrow> 'h \<Rightarrow> string + net_doc"
  nl_create :: "string \<Rightarrow> 'h \<Rightarrow> string option \<times> 'h"
  nl_destroy :: "string \<Rightarrow> 'h \<Rightarrow> string option \<times> 'h"
  nl_undefine :: "string \<Rightarrow> 'h \<Rightarrow> string option \<times> 'h"
  nl_define :: "net_doc \<Rightarrow> 'h \<Rightarrow> string option \<times> 'h"
  nl_set_autostart :: "string \<Rightarrow> bool \<Rightarrow> 'h \<Rightarrow> string option \<times> 'h"

definition get_model :: "'h net_calls \<Rightarrow> string \<Rightarrow> 'h \<Rightarrow> provider_error + network" where
  "get_model L i h = (case nl_active L i h of
     Inl e \<Rightarrow> Inl (ErrOther e)
   | Inr a \<Rightarrow> Inr (networkToModel i a
       (case nl_autostart L i h of Inl e \<Rightarrow> False | Inr x \<Rightarrow> x)
       (case nl_doc L i h of Inl e \<Rightarrow> \<lparr>xn_name = '''', xn_forward = '''', xn_bridge = '''', xn_domain = '''', xn_ip = None\<rparr> | Inr d \<Rightarrow> d)))"

definition lv_GetNetwork :: "'h net_calls \<Rightarrow> string \<Rightarrow> 'h \<Rightarrow> provider_error + network" where
  "lv_GetNetwork L i h = (if \<not> nl_found L i h then Inl ErrNetworkNotFound else get_model L i h)"

text \<open>A command, and then the network as it is.\<close>

definition then_get :: "'h net_calls \<Rightarrow> string \<Rightarrow> string option \<times> 'h \<Rightarrow> (provider_error + network) \<times> 'h" where
  "then_get L i r = (case r of (Some e, h) \<Rightarrow> (Inl (ErrOther e), h) | (None, h) \<Rightarrow> (lv_GetNetwork L i h, h))"

definition lv_StartNetwork :: "'h net_calls \<Rightarrow> string \<Rightarrow> 'h \<Rightarrow> (provider_error + network) \<times> 'h" where
  "lv_StartNetwork L i h =
     (if \<not> nl_found L i h then (Inl ErrNetworkNotFound, h)
      else (case nl_active L i h of
        Inl e \<Rightarrow> (Inl (ErrOther e), h)
      | Inr a \<Rightarrow> if a then (Inl (invalid_net ''network is already active''), h) else then_get L i (nl_create L i h)))"

definition lv_StopNetwork :: "'h net_calls \<Rightarrow> string \<Rightarrow> 'h \<Rightarrow> (provider_error + network) \<times> 'h" where
  "lv_StopNetwork L i h =
     (if \<not> nl_found L i h then (Inl ErrNetworkNotFound, h)
      else (case nl_active L i h of
        Inl e \<Rightarrow> (Inl (ErrOther e), h)
      | Inr a \<Rightarrow> if \<not> a then (Inl (invalid_net ''network is already inactive''), h) else then_get L i (nl_destroy L i h)))"

definition lv_DeleteNetwork :: "'h net_calls \<Rightarrow> string \<Rightarrow> 'h \<Rightarrow> (provider_error + unit) \<times> 'h" where
  "lv_DeleteNetwork L i h =
     (if \<not> nl_found L i h then (Inl ErrNetworkNotFound, h)
      else (case nl_active L i h of
        Inl e \<Rightarrow> (Inl (ErrOther e), h)
      | Inr a \<Rightarrow> if a then (Inl (invalid_net ''stop the network before deleting''), h)
          else (case nl_undefine L i h of (Some e, h') \<Rightarrow> (Inl (ErrOther e), h') | (None, h') \<Rightarrow> (Inr (), h'))))"

text \<open>A network that does not start is undefined again; a failure to set the autostart is ignored.\<close>

definition lv_CreateNetwork :: "'h net_calls \<Rightarrow> network_body \<Rightarrow> 'h \<Rightarrow> (provider_error + network) \<times> 'h" where
  "lv_CreateNetwork L b h = (let i = orelse (nb_name b) '''' in case networkCreateXML b of
     Inl e \<Rightarrow> (Inl e, h)
   | Inr d \<Rightarrow> if nl_found L i h then (Inl ErrNetworkAlreadyExists, h)
       else (case nl_define L d h of
         (Some e, h1) \<Rightarrow> (Inl (ErrOther e), h1)
       | (None, h1) \<Rightarrow> (case nl_create L i h1 of
           (Some e, h2) \<Rightarrow> (Inl (ErrOther e), snd (nl_undefine L i h2))
         | (None, h2) \<Rightarrow> (let h3 = snd (nl_set_autostart L i (nb_autostart b \<noteq> Some False) h2) in
             (lv_GetNetwork L i h3, h3)))))"

definition structural :: "network_body \<Rightarrow> bool" where
  "structural b = (nb_mode b \<noteq> None \<or> nb_bridgeName b \<noteq> None \<or> nb_cidr b \<noteq> None \<or> nb_dhcpEnabled b \<noteq> None)"

text \<open>The current configuration with the requested changes.\<close>

definition merged :: "string \<Rightarrow> network_body \<Rightarrow> net_doc \<Rightarrow> provider_error + network_body" where
  "merged i b d = (let mode = orelse (nb_mode b) (networkForwardMode (xn_forward d)); ip = doc_ip d;
       base = \<lparr>nb_name = Some i, nb_mode = Some mode, nb_bridgeName = None, nb_cidr = None, nb_dhcpEnabled = None, nb_autostart = None\<rparr> in
     if mode = Bridge
     then Inr (base\<lparr>nb_bridgeName := (case nb_bridgeName b of Some x \<Rightarrow> Some x
       | None \<Rightarrow> if xn_bridge d \<noteq> '''' then Some (xn_bridge d) else None)\<rparr>)
     else (let dhcp = (case nb_dhcpEnabled b of Some x \<Rightarrow> x | None \<Rightarrow> xi_dhcp ip \<noteq> None);
         keep = cidrFromIPPrefix (xi_address ip) (xi_prefix ip) in
       case nb_cidr b of
         Some c \<Rightarrow> Inr (base\<lparr>nb_cidr := Some c, nb_dhcpEnabled := Some dhcp\<rparr>)
       | None \<Rightarrow> if xi_address ip = '''' then Inr (base\<lparr>nb_dhcpEnabled := Some dhcp\<rparr>)
           else if keep = '''' then Inl (invalid_net ''cannot determine current subnet; pass cidr explicitly'')
           else Inr (base\<lparr>nb_cidr := Some keep, nb_dhcpEnabled := Some dhcp\<rparr>)))"

definition lv_UpdateNetwork :: "'h net_calls \<Rightarrow> string \<Rightarrow> network_body \<Rightarrow> 'h \<Rightarrow> (provider_error + network) \<times> 'h" where
  "lv_UpdateNetwork L i b h =
     (if \<not> nl_found L i h then (Inl ErrNetworkNotFound, h)
      else (case nl_active L i h of
        Inl e \<Rightarrow> (Inl (ErrOther e), h)
      | Inr a \<Rightarrow>
          if a \<and> structural b then (Inl (invalid_net ''stop the network before structural changes''), h)
          else if \<not> structural b
          then then_get L i (case nb_autostart b of None \<Rightarrow> (None, h) | Some x \<Rightarrow> nl_set_autostart L i x h)
          else (case nl_doc L i h of
            Inl e \<Rightarrow> (Inl (ErrOther e), h)
          | Inr d \<Rightarrow> (case merged i b d of
              Inl e \<Rightarrow> (Inl e, h)
            | Inr b' \<Rightarrow> (case networkCreateXML b' of
                Inl e \<Rightarrow> (Inl e, h)
              | Inr d' \<Rightarrow> (case nl_define L d' h of
                  (Some e, h1) \<Rightarrow> (Inl (ErrOther e), h1)
                | (None, h1) \<Rightarrow> then_get L i (None, (case nb_autostart b of
                    Some x \<Rightarrow> if nl_found L i h1 then snd (nl_set_autostart L i x h1) else h1 | None \<Rightarrow> h1))))))))"

subsection \<open>The simulated host\<close>

record mock_net =
  mn_id :: string
  mn_active :: bool
  mn_autostart :: bool
  mn_bridge :: string
  mn_ip :: string
  mn_prefix :: int
  mn_dhcp :: bool
  mn_domain :: string
  mn_mode :: net_mode

type_synonym mock_nets = "mock_net list"

definition networks0 :: mock_nets where
  "networks0 =
    [\<lparr>mn_id = ''default'', mn_active = True, mn_autostart = True, mn_bridge = ''virbr0'', mn_ip = ''10.0.0.1'', mn_prefix = 24,
      mn_dhcp = True, mn_domain = ''lan.ultrav.internal'', mn_mode = Nat\<rparr>,
     \<lparr>mn_id = ''mgmt'', mn_active = False, mn_autostart = False, mn_bridge = ''virbr1'', mn_ip = ''10.99.0.1'', mn_prefix = 24,
      mn_dhcp = False, mn_domain = ''mgmt.ultrav.internal'', mn_mode = Isolated\<rparr>]"

definition mock_to_model :: "mock_net \<Rightarrow> network" where
  "mock_to_model n = \<lparr>n_id = mn_id n, n_name = mn_id n, n_state = (if mn_active n then Active else Inactive),
     n_autostart = mn_autostart n, n_bridge = Some (mn_bridge n), n_ipAddress = Some (mn_ip n), n_ipPrefix = Some (mn_prefix n),
     n_dhcpEnabled = mn_dhcp n, n_domainName = Some (mn_domain n), n_mode = Some (mn_mode n)\<rparr>"

definition networkLocked :: "string \<Rightarrow> mock_nets \<Rightarrow> mock_net option" where
  "networkLocked i s = find (\<lambda>n. mn_id n = i) s"

text \<open>A write through the pointer that \<open>networkLocked\<close> returns: the first network of the id.\<close>

fun set_net :: "string \<Rightarrow> (mock_net \<Rightarrow> mock_net) \<Rightarrow> mock_nets \<Rightarrow> mock_nets" where
  "set_net i f [] = []"
| "set_net i f (n # s) = (if mn_id n = i then f n # s else n # set_net i f s)"

definition mock_StartNetwork :: "string \<Rightarrow> mock_nets \<Rightarrow> (provider_error + network) \<times> mock_nets" where
  "mock_StartNetwork i s = (case networkLocked i s of
     None \<Rightarrow> (Inl ErrNetworkNotFound, s)
   | Some n \<Rightarrow> if mn_active n then (Inl (invalid_net ''network is already active''), s)
       else (Inr (mock_to_model (n\<lparr>mn_active := True\<rparr>)), set_net i (mn_active_update (\<lambda>_. True)) s))"

definition mock_StopNetwork :: "string \<Rightarrow> mock_nets \<Rightarrow> (provider_error + network) \<times> mock_nets" where
  "mock_StopNetwork i s = (case networkLocked i s of
     None \<Rightarrow> (Inl ErrNetworkNotFound, s)
   | Some n \<Rightarrow> if \<not> mn_active n then (Inl (invalid_net ''network is already inactive''), s)
       else (Inr (mock_to_model (n\<lparr>mn_active := False\<rparr>)), set_net i (mn_active_update (\<lambda>_. False)) s))"

fun drop_net :: "string \<Rightarrow> mock_nets \<Rightarrow> mock_nets" where
  "drop_net i [] = []"
| "drop_net i (n # s) = (if mn_id n = i then s else n # drop_net i s)"

definition mock_DeleteNetwork :: "string \<Rightarrow> mock_nets \<Rightarrow> (provider_error + unit) \<times> mock_nets" where
  "mock_DeleteNetwork i s = (case networkLocked i s of
     None \<Rightarrow> (Inl ErrNetworkNotFound, s)
   | Some n \<Rightarrow> if mn_active n then (Inl (invalid_net ''stop the network before deleting''), s) else (Inr (), drop_net i s))"

text \<open>The gateway: the address of the subnet with its last byte incremented, which wraps.\<close>

definition mock_gateway :: "ip \<Rightarrow> ip" where
  "mock_gateway net = net[3 := net ! 3 + 1]"

definition mock_CreateNetwork :: "network_body \<Rightarrow> mock_nets \<Rightarrow> (provider_error + network) \<times> mock_nets" where
  "mock_CreateNetwork b s =
     (let i = orelse (nb_name b) ''''; mode = orelse (nb_mode b) Nat;
          made = (\<lambda>bridge ip prefix dhcp. let n = \<lparr>mn_id = i, mn_active = True, mn_autostart = (nb_autostart b \<noteq> Some False),
            mn_bridge = bridge, mn_ip = ip, mn_prefix = prefix, mn_dhcp = dhcp, mn_domain = i, mn_mode = mode\<rparr> in
            (Inr (mock_to_model n), s @ [n])) in
      if networkLocked i s \<noteq> None then (Inl ErrNetworkAlreadyExists, s)
      else if mode = Bridge
      then (if orelse (nb_bridgeName b) '''' = '''' then (Inl (invalid_net ''bridgeName is required for bridge networks''), s)
        else made (orelse (nb_bridgeName b) '''') '''' 0 False)
      else if orelse (nb_cidr b) '''' = '''' then (Inl (invalid_net ''cidr is required for nat/isolated networks''), s)
      else (case parse_cidr (orelse (nb_cidr b) '''') of
          None \<Rightarrow> (Inl (invalid_net ''invalid cidr''), s)
        | Some (net, n) \<Rightarrow> made '''' (ip_str (mock_gateway net)) (int n) (nb_dhcpEnabled b \<noteq> Some False)))"

text \<open>The autostart is written before the checks of the structural changes.\<close>

definition mock_UpdateNetwork :: "string \<Rightarrow> network_body \<Rightarrow> mock_nets \<Rightarrow> (provider_error + network) \<times> mock_nets" where
  "mock_UpdateNetwork i b s = (case networkLocked i s of
     None \<Rightarrow> (Inl ErrNetworkNotFound, s)
   | Some n0 \<Rightarrow>
       if mn_active n0 \<and> structural b then (Inl (invalid_net ''stop the network before structural changes''), s)
       else (let n = n0\<lparr>mn_autostart := orelse (nb_autostart b) (mn_autostart n0)\<rparr>; s1 = set_net i (\<lambda>_. n) s;
           ok = (\<lambda>m. (Inr (mock_to_model m), set_net i (\<lambda>_. m) s)); mode = orelse (nb_mode b) (mn_mode n) in
         if \<not> structural b then ok n
         else if mode = Bridge
         then (let br = orelse (nb_bridgeName b) (mn_bridge n) in
           if br = '''' then (Inl (invalid_net ''bridgeName is required for bridge networks''), s1)
           else ok (n\<lparr>mn_bridge := br, mn_ip := '''', mn_prefix := 0, mn_dhcp := False, mn_mode := mode\<rparr>))
         else (let c = (case nb_cidr b of Some x \<Rightarrow> x
             | None \<Rightarrow> if mn_ip n \<noteq> '''' then mn_ip n @ ''/'' @ int_str (mn_prefix n) else '''') in
           if c = '''' then (Inl (invalid_net ''cidr is required for nat/isolated networks''), s1)
           else (case parse_cidr c of
               None \<Rightarrow> (Inl (invalid_net ''invalid cidr''), s1)
             | Some (net, k) \<Rightarrow> ok (n\<lparr>mn_ip := ip_str (mock_gateway net), mn_prefix := int k,
                 mn_dhcp := (nb_dhcpEnabled b \<noteq> Some False), mn_mode := mode\<rparr>)))))"


subsection \<open>Writing and reading addresses\<close>

lemma hd_nat_str: "0 < n \<Longrightarrow> hd (nat_str n) \<noteq> CHR ''0''"
proof (induction n rule: nat_str.induct)
  case (1 n)
  show ?case
  proof (cases "n < 10")
    case True
    have v: "digit_val (digit_char n) = n" using True by (rule digit_val_digit_char)
    have "digit_char n \<noteq> CHR ''0''"
    proof
      assume "digit_char n = CHR ''0''"
      then have "digit_val (digit_char n) = digit_val (CHR ''0'')" by (rule arg_cong)
      with v 1(2) show False by (simp add: digit_val_def)
    qed
    with True show ?thesis by (subst nat_str.simps) simp
  next
    case False
    with 1 show ?thesis by (subst nat_str.simps) simp
  qed
qed

lemma octet_words: "go_octet (nat_str (unat (w :: 8 word)))" "is_octet (nat_str (unat w))"
proof -
  let ?n = "unat w"
  have n: "?n < 256" using unsigned_less [of w] by simp
  have "1 < length (nat_str ?n) \<Longrightarrow> 0 < ?n" by (cases "?n = 0") (simp_all add: nat_str.simps [of 0])
  with n show "go_octet (nat_str ?n)" using hd_nat_str [of ?n] by (simp add: go_octet_def digits_nat_str)
  from n have "length (nat_str ?n) \<le> 3" using length_nat_str [of 3 ?n] by simp
  moreover have "1 \<le> length (nat_str ?n)" by (cases "nat_str ?n") simp_all
  ultimately show "is_octet (nat_str ?n)" by (simp add: is_octet_def digits_nat_str)
qed

lemma ip4: "length a = 4 \<Longrightarrow> \<exists>w x y z. a = [w, x, y, z]" for a :: "'a list"
  by (auto simp: numeral_eq_Suc length_Suc_conv)

lemma slash_no_digit: "\<not> is_digit (CHR ''/'')"
  by (simp add: is_digit_def)

lemma digits_no_sep: "list_all is_digit s \<Longrightarrow> CHR ''.'' \<notin> set s \<and> CHR ''/'' \<notin> set s"
  unfolding list_all_iff using not_digit_facts(1) slash_no_digit by blast

lemmas nat_str_no_sep = digits_no_sep [OF digits_nat_str]

lemma split_ip_str:
  assumes "length a = 4"
  shows "js_split (CHR ''.'') (ip_str a) = map (\<lambda>o8. nat_str (unat o8)) a"
proof -
  from assms obtain w x where a: "a = w # x" by (cases a) auto
  have "js_split (CHR ''.'') (js_join [CHR ''.''] (map (\<lambda>o8. nat_str (unat o8)) (w # x)))
      = nat_str (unat w) # map (\<lambda>v. [] @ v) (map (\<lambda>o8. nat_str (unat o8)) x)"
    using js_split_join [of "nat_str (unat w)" "map (\<lambda>o8. nat_str (unat o8)) x" "CHR ''.''" "[]"] nat_str_no_sep by auto
  then show ?thesis by (simp add: ip_str_def a)
qed

lemma ip_str_no_slash: "CHR ''/'' \<notin> set (ip_str a)"
  unfolding ip_str_def
proof (induction a)
  case (Cons w a)
  then show ?case using nat_str_no_sep by (cases a) auto
qed simp

lemma octets_ip_str [simp]: "length a = 4 \<Longrightarrow> octets (ip_str a) = a"
  by (simp add: octets_def split_ip_str comp_def)

lemma ParseIP_str [simp]: "length a = 4 \<Longrightarrow> ParseIP (ip_str a) = Some a"
  by (simp add: ParseIP_def split_ip_str list_all_iff octet_words)

lemma ip_str_not_Nil [simp]: "length a = 4 \<Longrightarrow> ip_str a \<noteq> ''''"
  by (metis ParseIP_str ParseIP_def js_split.simps(1) length_Cons list.size(3) numeral_eq_one_iff option.distinct(1) One_nat_def semiring_norm(85))

lemma parse_cidr_str:
  assumes "length a = 4" "n \<le> 32"
  shows "parse_cidr (ip_str a @ ''/'' @ nat_str n) = Some (map2 (AND) a (CIDRMask n), n)"
proof -
  have "js_split (CHR ''/'') (ip_str a @ ''/'' @ nat_str n) = [ip_str a, nat_str n]"
    using ip_str_no_slash nat_str_no_sep by (simp add: js_split_append js_split_no_sep)
  then show ?thesis
    using assms by (simp add: parse_cidr_def ParseCIDR_def split_ip_str list_all_iff octet_words digits_nat_str [unfolded list_all_iff])
qed

lemma cidr_str_matches:
  assumes "length a = 4" "n \<le> 32"
  shows "rx_test cidrPattern (ip_str a @ ''/'' @ nat_str n)"
proof -
  from ip4 [OF assms(1)] obtain w x y z where "a = [w, x, y, z]" by blast
  then have "ip_str a @ ''/'' @ nat_str n = nat_str (unat w) @ ''.'' @ nat_str (unat x) @ ''.'' @ nat_str (unat y) @ ''.''
      @ nat_str (unat z) @ ''/'' @ nat_str n" by (simp add: ip_str_def)
  with assms(2) octet_words(2) show ?thesis unfolding same_patterns cidr_accepted by blast
qed

text \<open>\<open>ip_val\<close>: the address as a number; \<open>addToIP\<close> adds modulo \<open>2\<^sup>32\<close>.\<close>

definition ip_val :: "ip \<Rightarrow> int" where
  "ip_val a = foldl (\<lambda>v o8. 256 * v + uint o8) 0 a"

lemma add_octets_length [simp]: "length (add_octets c a) = length a"
  by (induction c a rule: add_octets.induct) (simp_all add: Let_def)

lemma addToIP_length [simp]: "length (addToIP a d) = length a"
  by (simp add: addToIP_def)

lemma CIDRMask_length [simp]: "length (CIDRMask n) = 4"
  by (simp add: CIDRMask_def)

lemma ip_val_snoc: "ip_val (a @ [w]) = 256 * ip_val a + uint w"
  by (simp add: ip_val_def)

lemma add_octets_val:
  "ip_val (rev (add_octets c r)) = (ip_val (rev r) + c) mod 256 ^ length r"
proof (induction c r rule: add_octets.induct)
  case (1 c)
  then show ?case by (simp add: ip_val_def)
next
  case (2 c w r)
  have bound: "0 \<le> ip_val (rev s) \<and> ip_val (rev s) < 256 ^ length s" for s :: ip
  proof (induction s)
    case Nil
    then show ?case by (simp add: ip_val_def)
  next
    case (Cons x s)
    have "0 \<le> uint x \<and> uint x < 256" using uint_lt2p [of x] by simp
    with Cons show ?case by (simp add: ip_val_snoc)
  qed
  show ?case
  proof (cases "c = 0")
    case True
    with bound [of "w # r"] show ?thesis by simp
  next
    case False
    let ?v = "uint w + c"
    have u: "uint (word_of_int x :: 8 word) = x mod 256" for x by (simp add: uint_word_of_int)
    have "ip_val (rev (add_octets c (w # r))) = 256 * ip_val (rev (add_octets (?v div 256) r)) + uint (word_of_int ?v :: 8 word)"
      using False by (simp add: Let_def ip_val_snoc)
    also have "\<dots> = 256 * ((ip_val (rev r) + ?v div 256) mod 256 ^ length r) + ?v mod 256"
      unfolding u using False 2 by (simp add: Let_def)
    also have "\<dots> = (256 * ip_val (rev r) + ?v) mod (256 * 256 ^ length r)"
    proof -
      have "(256 * A + v) mod (256 * M) = 256 * ((A + v div 256) mod M) + v mod 256" if "0 \<le> M" for A v M :: int
        using that by (simp add: zmod_zmult2_eq)
      then show ?thesis by simp
    qed
    finally show ?thesis by (simp add: ip_val_snoc algebra_simps)
  qed
qed

text \<open>The addition wraps modulo the number of addresses.\<close>

lemma addToIP_val: "length a = 4 \<Longrightarrow> ip_val (addToIP a d) = (ip_val a + d) mod 2 ^ 32"
  using add_octets_val [of d "rev a"] by (simp add: addToIP_def)


subsection \<open>The gateway\<close>

definition in_subnet :: "ip \<Rightarrow> ip \<Rightarrow> nat \<Rightarrow> bool" where
  "in_subnet a net n = (map2 (AND) a (CIDRMask n) = net)"

lemma mask_bit0: "bit (CIDRMask n ! i) 0 \<longleftrightarrow> i < n div 8" if "i < 4"
proof -
  have m: "bit (NOT (drop_bit (min 8 k) (255 :: 8 word))) 0 \<longleftrightarrow> 8 \<le> k" for k :: nat
  proof (cases "8 \<le> k")
    case False
    then have "k \<in> {0, 1, 2, 3, 4, 5, 6, 7}" by auto
    then show ?thesis by auto
  qed (simp add: min_def)
  from that have "CIDRMask n ! i = NOT (drop_bit (min 8 (n - 8 * i)) 255)"
    by (auto simp: CIDRMask_def numeral_eq_Suc less_Suc_eq)
  moreover have "8 \<le> n - 8 * i \<longleftrightarrow> i < n div 8" by auto
  ultimately show ?thesis by (simp only: m)
qed

lemma or_one_masked: "a AND m = a \<Longrightarrow> (a OR 1) AND m = a \<longleftrightarrow> (odd m \<longrightarrow> odd a)" for a m :: "8 word"
proof
  assume m: "a AND m = a" and o: "(a OR 1) AND m = a"
  show "odd m \<longrightarrow> odd a" using arg_cong [OF o, of odd] by (simp add: even_and_iff even_or_iff)
next
  assume m: "a AND m = a" and p: "odd m \<longrightarrow> odd a"
  show "(a OR 1) AND m = a"
  proof (rule bit_word_eqI)
    fix k assume "k < LENGTH(8)"
    have b: "bit a k \<longleftrightarrow> bit a k \<and> bit m k" for k using arg_cong [OF m, of "\<lambda>x. bit x k"] by (simp add: bit_and_iff)
    show "bit ((a OR 1) AND m) k \<longleftrightarrow> bit a k"
      using b [of k] p by (cases "k = 0") (auto simp: bit_and_iff bit_or_iff bit_1_iff bit_0 even_and_iff even_or_iff)
  qed
qed

text \<open>A subnet as \<open>net.ParseCIDR\<close> gives it: four bytes, masked.\<close>

definition subnet_ok :: "ip \<Rightarrow> nat \<Rightarrow> bool" where
  "subnet_ok net n = (length net = 4 \<and> n \<le> 32 \<and> in_subnet net net n)"

lemma parse_cidr_ok:
  assumes "parse_cidr c = Some (net, n)"
  shows "subnet_ok net n"
proof -
  from assms have P: "ParseCIDR c" and n: "n = parse_digits (js_split (CHR ''/'') c ! 1)"
    and net: "net = map2 (AND) (octets (js_split (CHR ''/'') c ! 0)) (CIDRMask n)"
    by (auto simp: parse_cidr_def Let_def split: if_splits)
  from P obtain a l where s: "js_split (CHR ''/'') c = [a, l]" "length (js_split (CHR ''.'') a) = 4" "parse_digits l \<le> 32"
    by (auto simp: ParseCIDR_def split: list.splits)
  have "map2 (AND) (map2 (AND) x m) m = map2 (AND) x m" for x m :: ip
    by (induction x m rule: list_induct2') (simp_all add: and.assoc)
  with s n net show ?thesis by (simp add: subnet_ok_def in_subnet_def octets_def)
qed

lemma subnet_nth:
  assumes "subnet_ok net n" "i < 4"
  shows "net ! i AND CIDRMask n ! i = net ! i"
proof -
  from assms have "map2 (AND) net (CIDRMask n) = net" "length net = 4" by (simp_all add: subnet_ok_def in_subnet_def)
  then have "map2 (AND) net (CIDRMask n) ! i = net ! i" "length net = 4" by simp_all
  with assms(2) show ?thesis by simp
qed

lemma in_subnet_nth:
  "length a = 4 \<Longrightarrow> length net = 4 \<Longrightarrow> in_subnet a net n \<longleftrightarrow> (\<forall>i < 4. a ! i AND CIDRMask n ! i = net ! i)"
  by (auto simp: in_subnet_def list_eq_iff_nth_eq)

abbreviation gateway :: "ip \<Rightarrow> nat \<Rightarrow> ip" where
  "gateway net n \<equiv> fst (subnetFirstAndLastHost net (CIDRMask n))"

lemma gateway_nth:
  assumes "subnet_ok net n" "i < 4"
  shows "gateway net n ! i = net ! i OR 1"
  using assms subnet_nth [OF assms] by (simp add: subnetFirstAndLastHost_def subnet_ok_def)

lemma gateway_length [simp]: "subnet_ok net n \<Longrightarrow> length (gateway net n) = 4"
  by (simp add: subnetFirstAndLastHost_def subnet_ok_def)

lemma gateway_inside:
  assumes "subnet_ok net n"
  shows "in_subnet (gateway net n) net n \<longleftrightarrow> (\<forall>i < n div 8. odd (net ! i))"
proof -
  have n: "length net = 4" "n \<le> 32" using assms by (simp_all add: subnet_ok_def)
  have "in_subnet (gateway net n) net n \<longleftrightarrow> (\<forall>i < 4. (net ! i OR 1) AND CIDRMask n ! i = net ! i)"
    using assms n by (simp add: in_subnet_nth gateway_nth)
  also have "\<dots> \<longleftrightarrow> (\<forall>i < 4. i < n div 8 \<longrightarrow> odd (net ! i))"
    using subnet_nth [OF assms] mask_bit0 by (simp add: or_one_masked bit_0 cong: conj_cong imp_cong)
  also have "\<dots> \<longleftrightarrow> (\<forall>i < n div 8. odd (net ! i))"
  proof -
    have "n div 8 \<le> 4" using n(2) by simp
    then show ?thesis by auto
  qed
  finally show ?thesis .
qed


lemma even_plus_one: "even w \<Longrightarrow> w + 1 = w OR 1" for w :: "8 word"
  using word_plus_and_or [of w 1] by (simp add: and_one_eq even_iff_mod_2_eq_zero)

lemma mock_gateway_inside:
  assumes "subnet_ok net n"
  shows "in_subnet (mock_gateway net) net n \<longleftrightarrow> n < 32"
proof -
  have n: "length net = 4" "n \<le> 32" using assms by (simp_all add: subnet_ok_def)
  let ?m = "CIDRMask n ! 3"
  have "in_subnet (mock_gateway net) net n \<longleftrightarrow> (net ! 3 + 1) AND ?m = net ! 3"
    using subnet_nth [OF assms] n by (auto simp: in_subnet_nth mock_gateway_def nth_list_update)
  also have "\<dots> \<longleftrightarrow> n < 32"
  proof (cases "n = 32")
    case True
    then have "?m = NOT 0" by (simp add: CIDRMask_def)
    then show ?thesis using True by simp
  next
    case False
    with n(2) have "\<not> 3 < n div 8" by simp
    then have m: "even ?m" using mask_bit0 [of 3 n] by (simp add: bit_0)
    then have "even (net ! 3)" using arg_cong [OF subnet_nth [OF assms, of 3], of even] by (simp add: even_and_iff)
    with m False n(2) show ?thesis using or_one_masked [OF subnet_nth [OF assms, of 3]] by (simp add: even_plus_one)
  qed
  finally show ?thesis .
qed

lemma accepted_document:
  assumes "validateCreateNetwork b = ''''" "nb_mode b = Some mode" "mode \<noteq> Bridge"
  shows "\<exists>c net n. nb_cidr b = Some c \<and> parse_cidr c = Some (net, n) \<and> networkCreateXML b = Inr
    \<lparr>xn_name = orelse (nb_name b) '''', xn_forward = (if mode = Nat then ''nat'' else ''''), xn_bridge = '''',
     xn_domain = orelse (nb_name b) '''', xn_ip = Some \<lparr>xi_address = ip_str (gateway net n), xi_prefix = int n,
       xi_dhcp = (if nb_dhcpEnabled b = Some False then None
         else Some (ip_str (gateway net n), ip_str (snd (subnetFirstAndLastHost net (CIDRMask n))))), xi_domain = ''''\<rparr>\<rparr>"
proof -
  have "mode = Nat \<or> mode = Isolated" using assms(3) by (cases mode) auto
  with assms obtain c where c: "nb_cidr b = Some c" "rx_test cidrPattern c" "ParseCIDR c"
    by (auto simp: validateCreateNetwork_def split: if_splits option.splits)
  from c(3) obtain net n where p: "parse_cidr c = Some (net, n)"
    by (cases "parse_cidr c") (auto simp: parse_cidr_def Let_def)
  have "subnetFirstAndLastHost net (CIDRMask n) = (gateway net n, snd (subnetFirstAndLastHost net (CIDRMask n)))" by simp
  with c(1,2) p assms(2) \<open>mode = Nat \<or> mode = Isolated\<close> show ?thesis
    by (elim disjE) (simp_all add: networkCreateXML_def Let_def case_prod_beta)
qed

text \<open>
  C24. The gateway that a new network gets in libvirt lies in its subnet only when every byte that
  the prefix covers is odd, since the lowest bit of each byte is set, not of the last one
  only: for the subnet the form suggests it does not. On the simulated host it does for
  every subnet of more than one address.
\<close>

theorem network_gateway:
  assumes "validateCreateNetwork b = ''''" "nb_mode b = Some mode" "mode \<noteq> Bridge"
  shows "\<exists>c net n d. nb_cidr b = Some c \<and> parse_cidr c = Some (net, n) \<and> networkCreateXML b = Inr d
    \<and> ParseIP (xi_address (doc_ip d)) = Some (gateway net n) \<and> xi_prefix (doc_ip d) = int n
    \<and> (in_subnet (gateway net n) net n \<longleftrightarrow> (\<forall>i < n div 8. odd (net ! i)))
    \<and> (in_subnet (mock_gateway net) net n \<longleftrightarrow> n < 32)"
proof -
  from accepted_document [OF assms] obtain c net n where c: "nb_cidr b = Some c" "parse_cidr c = Some (net, n)"
    and d: "networkCreateXML b = Inr \<lparr>xn_name = orelse (nb_name b) '''', xn_forward = (if mode = Nat then ''nat'' else ''''), xn_bridge = '''',
     xn_domain = orelse (nb_name b) '''', xn_ip = Some \<lparr>xi_address = ip_str (gateway net n), xi_prefix = int n,
       xi_dhcp = (if nb_dhcpEnabled b = Some False then None
         else Some (ip_str (gateway net n), ip_str (snd (subnetFirstAndLastHost net (CIDRMask n))))), xi_domain = ''''\<rparr>\<rparr>"
    by blast
  have ok: "subnet_ok net n" using c(2) by (rule parse_cidr_ok)
  show ?thesis
    by (intro exI conjI, rule c(1), rule c(2), rule d)
      (simp_all add: doc_ip_def ok gateway_inside mock_gateway_inside)
qed

text \<open>The body of the form as it opens, with a name.\<close>

definition suggested :: network_body where
  "suggested = cn_body (create_net_init\<lparr>cn_name := ''lan''\<rparr>)"

lemma suggested_doc:
  "networkCreateXML suggested = Inr \<lparr>xn_name = ''lan'', xn_forward = ''nat'', xn_bridge = '''', xn_domain = ''lan'',
     xn_ip = Some \<lparr>xi_address = ''193.169.101.1'', xi_prefix = 24, xi_dhcp = Some (''193.169.101.1'', ''192.168.100.254''), xi_domain = ''''\<rparr>\<rparr>"
  by code_simp

theorem network_gateway_witness:
  "\<exists>net n d. parse_cidr ''192.168.100.0/24'' = Some (net, n) \<and> networkCreateXML suggested = Inr d
     \<and> ParseIP (xi_address (doc_ip d)) = Some (gateway net n)
     \<and> \<not> in_subnet (gateway net n) net n \<and> in_subnet (mock_gateway net) net n"
proof -
  have v: "validateCreateNetwork suggested = ''''" by code_simp
  have b: "nb_mode suggested = Some Nat" "nb_cidr suggested = Some ''192.168.100.0/24''"
    by (simp_all add: suggested_def cn_body_def create_net_init_def)
  have p: "parse_cidr ''192.168.100.0/24'' = Some ([192, 168, 100, 0], 24)" by code_simp
  from network_gateway [OF v b(1)] b(2) p
  obtain d where "networkCreateXML suggested = Inr d" "ParseIP (xi_address (doc_ip d)) = Some (gateway [192, 168, 100, 0] 24)"
    "in_subnet (gateway [192, 168, 100, 0] 24) [192, 168, 100, 0] 24 \<longleftrightarrow> (\<forall>i < 24 div 8. odd (([192, 168, 100, 0] :: ip) ! i))"
    "in_subnet (mock_gateway [192, 168, 100, 0]) [192, 168, 100, 0] 24" by auto
  moreover have "\<not> (\<forall>i < 24 div 8. odd (([192, 168, 100, 0] :: ip) ! i))"
    by (auto intro!: exI [of _ 0])
  ultimately show ?thesis using p by blast
qed


subsection \<open>The page and the two providers\<close>

definition mock_active :: "string \<Rightarrow> mock_nets \<Rightarrow> bool option" where
  "mock_active i s = map_option mn_active (networkLocked i s)"

definition lv_active :: "'h net_calls \<Rightarrow> string \<Rightarrow> 'h \<Rightarrow> bool option" where
  "lv_active L i h = (if nl_found L i h then (case nl_active L i h of Inr a \<Rightarrow> Some a | Inl e \<Rightarrow> None) else None)"

lemma lv_GetNetwork_state: "lv_GetNetwork L i h \<noteq> Inl (ErrInvalidNetworkState m)"
  by (simp add: lv_GetNetwork_def get_model_def split: sum.split)

lemma then_get_state: "fst (then_get L i r) \<noteq> Inl (ErrInvalidNetworkState m)"
  by (simp add: then_get_def lv_GetNetwork_state split: prod.split option.split)

interpretation mock_nets: network_provider "\<lambda>i s. networkLocked i s \<noteq> None" mock_active
    mock_StartNetwork mock_StopNetwork mock_DeleteNetwork
  by unfold_locales
    (auto simp: mock_active_def mock_StartNetwork_def mock_StopNetwork_def mock_DeleteNetwork_def invalid_net_def
      split: option.splits if_splits)

interpretation lv_nets: network_provider "nl_found L" "lv_active L" "lv_StartNetwork L" "lv_StopNetwork L" "lv_DeleteNetwork L" for L
  by unfold_locales
    (auto simp: lv_active_def lv_StartNetwork_def lv_StopNetwork_def lv_DeleteNetwork_def invalid_net_def then_get_state
      split: option.splits if_splits sum.splits prod.splits)

lemma np_row_menu:
  assumes "offers (np_row busy x) e" "e = NpRun n a \<or> e = NpDelete n True"
  shows "x = n \<and> list_ex (\<lambda>it. item_offers it e) (np_menu busy n)"
proof -
  from assms have m: "list_ex (\<lambda>it. item_offers it e) (np_menu busy x)"
    by (cases "n_domainName x") (auto simp: np_row_def split: if_splits)
  with assms(2) have "x = n" by (auto simp: np_menu_def)
  with m show ?thesis by simp
qed

lemma np_offered:
  assumes "np_enabled s e" "e = NpRun n a \<or> e = NpDelete n True"
  shows "list_ex (\<lambda>it. item_offers it e) (np_menu (np_busy s) n)"
proof -
  from assms have "offers_any (np_view s) e" by (auto simp: np_enabled_def)
  with assms(2) have "offers_any (map (np_row (np_busy s)) (np_nets s)) e"
    by (auto simp: np_view_def Let_def split: option.splits if_splits)
  then obtain x where "offers (np_row (np_busy s) x) e" by (auto simp: offers_any_map)
  with np_row_menu assms(2) show ?thesis by blast
qed


text \<open>
  The handlers of the networks (\<open>api/server.go\<close>) over a provider: the check at the boundary, then
  the operation. Listing fails only with libvirt and is left to the provider.
\<close>

record 's net_ops =
  no_list :: "'s \<Rightarrow> network list"
  no_create :: "network_body \<Rightarrow> 's \<Rightarrow> (provider_error + network) \<times> 's"
  no_update :: "string \<Rightarrow> network_body \<Rightarrow> 's \<Rightarrow> (provider_error + network) \<times> 's"
  no_start :: "string \<Rightarrow> 's \<Rightarrow> (provider_error + network) \<times> 's"
  no_stop :: "string \<Rightarrow> 's \<Rightarrow> (provider_error + network) \<times> 's"
  no_delete :: "string \<Rightarrow> 's \<Rightarrow> (provider_error + unit) \<times> 's"

definition guarded :: "request \<Rightarrow> ('a \<Rightarrow> payload) \<Rightarrow> ('s \<Rightarrow> (provider_error + 'a) \<times> 's) \<Rightarrow> 's \<Rightarrow> reply \<times> 's" where
  "guarded q f op s = (case boundary None q of
     Some x \<Rightarrow> (Inl (writeError x), s)
   | None \<Rightarrow> (case op s of
       (Inl e, s') \<Rightarrow> (Inl (writeError (writeProviderError e)), s')
     | (Inr x, s') \<Rightarrow> (Inr [f x], s')))"

fun networks_serve :: "'s net_ops \<Rightarrow> request \<Rightarrow> 's \<Rightarrow> (reply \<times> 's) option" where
  "networks_serve O1 GetNetworks s = Some (Inr [PNetworks (no_list O1 s) (int (length (no_list O1 s)))], s)"
| "networks_serve O1 (PostNetwork b) s = Some (guarded (PostNetwork b) PNetwork (no_create O1 b) s)"
| "networks_serve O1 (PutNetwork i b) s = Some (guarded (PutNetwork i b) PNetwork (no_update O1 i b) s)"
| "networks_serve O1 (PostNetworkAction i NStart) s = Some (with_id i PNetwork (no_start O1) s)"
| "networks_serve O1 (PostNetworkAction i NStop) s = Some (with_id i PNetwork (no_stop O1) s)"
| "networks_serve O1 (DeleteNetwork i) s = Some (with_id i no_content (no_delete O1) s)"
| "networks_serve O1 q s = None"

definition mock_networks :: "mock_nets net_ops" where
  "mock_networks = \<lparr>no_list = map mock_to_model, no_create = mock_CreateNetwork, no_update = mock_UpdateNetwork,
     no_start = mock_StartNetwork, no_stop = mock_StopNetwork, no_delete = mock_DeleteNetwork\<rparr>"

definition lv_networks :: "('h \<Rightarrow> network list) \<Rightarrow> 'h net_calls \<Rightarrow> 'h net_ops" where
  "lv_networks ls L = \<lparr>no_list = ls, no_create = lv_CreateNetwork L, no_update = lv_UpdateNetwork L,
     no_start = lv_StartNetwork L, no_stop = lv_StopNetwork L, no_delete = lv_DeleteNetwork L\<rparr>"

definition state_refused :: "(reply \<times> 's) option \<Rightarrow> 's \<Rightarrow> bool \<Rightarrow> bool" where
  "state_refused r s b = (\<exists>x s'. r = Some (x, s') \<and> (has_code ''NETWORK_INVALID_STATE'' x \<longleftrightarrow> b) \<and> (b \<longrightarrow> s' = s))"

lemma state_refusedI:
  "(has_code ''NETWORK_INVALID_STATE'' (fst p) \<longleftrightarrow> b) \<and> (b \<longrightarrow> snd p = s) \<Longrightarrow> state_refused (Some p) s b"
  by (cases p) (simp add: state_refused_def)

text \<open>The request a button of the page sends.\<close>

definition np_request :: "network_page_event \<Rightarrow> request option" where
  "np_request e = (case e of NpRun n a \<Rightarrow> Some (PostNetworkAction (n_id n) a) | NpDelete n True \<Rightarrow> Some (DeleteNetwork (n_id n)) | _ \<Rightarrow> None)"

lemma np_request_sent: "np_request e = Some q \<Longrightarrow> \<exists>k. calls (np_handle e w) = calls w @ [([q], k)]"
  by (cases e) (auto simp: np_request_def split: bool.splits)

text \<open>
  C11. A start, stop or deletion that the network page offers for a network as it was listed is
  refused for the state of the network exactly when somebody has changed its activity since,
  by the simulated host and by the provider that calls libvirt alike; a refusal changes
  nothing. A network that has been deleted since gives a 404.
\<close>

theorem network_buttons_agree:
  assumes page: "np_enabled p e" "e = NpRun n a \<or> e = NpDelete n True" "rx_test vmIDPattern (n_id n)"
    and host: "mock_active (n_id n) m = Some b" "lv_active L (n_id n) h = Some b"
    and gone: "networkLocked (n_id n) m0 = None" "\<not> nl_found L (n_id n) h0"
  shows "\<exists>q. np_request e = Some q
    \<and> state_refused (networks_serve mock_networks q m) m (b \<noteq> (n_state n = Active))
    \<and> state_refused (networks_serve (lv_networks ls L) q h) h (b \<noteq> (n_state n = Active))
    \<and> networks_serve mock_networks q m0 = Some (Inl (ApiError ''NETWORK_NOT_FOUND'' ''Network was not found'' 404), m0)
    \<and> networks_serve (lv_networks ls L) q h0 = Some (Inl (ApiError ''NETWORK_NOT_FOUND'' ''Network was not found'' 404), h0)"
proof -
  have o: "list_ex (\<lambda>it. item_offers it e) (np_menu (np_busy p) n)" using np_offered [OF page(1,2)] .
  note mock_gone = mock_nets.offered_missing [OF page(3), of m0, simplified gone, simplified]
  note lv_gone = lv_nets.offered_missing [OF page(3) gone(2)]
  have nf: "writeError (writeProviderError ErrNetworkNotFound) = ApiError ''NETWORK_NOT_FOUND'' ''Network was not found'' 404"
    by (simp add: writeError_def errorStatus_def)
  from page(2) show ?thesis
  proof
    assume e: "e = NpRun n a"
    note ma = mock_nets.offered_action [OF page(3) host(1) o [unfolded e]]
      and la = lv_nets.offered_action [OF page(3) host(2) o [unfolded e]]
    show ?thesis
      by (cases a) (use ma la mock_gone lv_gone nf in
        \<open>simp_all add: e np_request_def mock_networks_def lv_networks_def state_refusedI del: with_id_valid\<close>)
  next
    assume e: "e = NpDelete n True"
    from o e have "n_state n \<noteq> Active" by (auto simp: np_menu_def)
    with mock_nets.offered_delete [OF page(3) host(1) o [unfolded e]] lv_nets.offered_delete [OF page(3) host(2) o [unfolded e]]
    show ?thesis using mock_gone lv_gone nf
      by (simp add: e np_request_def mock_networks_def lv_networks_def state_refusedI del: with_id_valid)
  qed
qed


text \<open>A libvirt that keeps what it is told, and never fails.\<close>

record stored_net =
  sn_doc :: net_doc
  sn_active :: bool
  sn_autostart :: bool

definition stored :: "string \<Rightarrow> stored_net list \<Rightarrow> stored_net option" where
  "stored i h = find (\<lambda>x. xn_name (sn_doc x) = i) h"

definition change :: "string \<Rightarrow> (stored_net \<Rightarrow> stored_net) \<Rightarrow> stored_net list \<Rightarrow> string option \<times> stored_net list" where
  "change i f h = (None, map (\<lambda>x. if xn_name (sn_doc x) = i then f x else x) h)"

definition obedient :: "stored_net list net_calls" where
  "obedient = \<lparr>nl_found = (\<lambda>i h. stored i h \<noteq> None),
     nl_active = (\<lambda>i h. case stored i h of Some x \<Rightarrow> Inr (sn_active x) | None \<Rightarrow> Inl ''no network''),
     nl_autostart = (\<lambda>i h. case stored i h of Some x \<Rightarrow> Inr (sn_autostart x) | None \<Rightarrow> Inl ''no network''),
     nl_doc = (\<lambda>i h. case stored i h of Some x \<Rightarrow> Inr (sn_doc x) | None \<Rightarrow> Inl ''no network''),
     nl_create = (\<lambda>i. change i (sn_active_update (\<lambda>_. True))),
     nl_destroy = (\<lambda>i. change i (sn_active_update (\<lambda>_. False))),
     nl_undefine = (\<lambda>i h. (None, filter (\<lambda>x. xn_name (sn_doc x) \<noteq> i) h)),
     nl_define = (\<lambda>d h. if stored (xn_name d) h \<noteq> None then change (xn_name d) (sn_doc_update (\<lambda>_. d)) h
       else (None, h @ [\<lparr>sn_doc = d, sn_active = False, sn_autostart = False\<rparr>])),
     nl_set_autostart = (\<lambda>i b. change i (sn_autostart_update (\<lambda>_. b)))\<rparr>"

definition lab_doc :: net_doc where
  "lab_doc = \<lparr>xn_name = ''lab'', xn_forward = ''nat'', xn_bridge = ''virbr7'', xn_domain = ''lab'',
     xn_ip = Some \<lparr>xi_address = ''10.1.1.1'', xi_prefix = 24, xi_dhcp = None, xi_domain = ''''\<rparr>\<rparr>"

definition mgmt_page :: network_page where
  "mgmt_page = network_page_init\<lparr>np_poll := poll_init\<lparr>poll_data := Some (map mock_to_model networks0, 2), poll_loading := False\<rparr>\<rparr>"

theorem network_buttons_agree_witness:
  "\<exists>q. np_request (NpRun (mock_to_model (networks0 ! 1)) NStart) = Some q
    \<and> state_refused (networks_serve mock_networks q networks0) networks0 False
    \<and> state_refused (networks_serve (lv_networks (\<lambda>h. []) obedient) q
        [\<lparr>sn_doc = lab_doc\<lparr>xn_name := ''mgmt''\<rparr>, sn_active = False, sn_autostart = True\<rparr>])
        [\<lparr>sn_doc = lab_doc\<lparr>xn_name := ''mgmt''\<rparr>, sn_active = False, sn_autostart = True\<rparr>] False"
proof -
  let ?n = "mock_to_model (networks0 ! 1)"
  have "np_nets mgmt_page = map mock_to_model networks0" "np_error mgmt_page = None" "\<not> poll_loading (np_poll mgmt_page)"
      "np_busy mgmt_page = None" "\<not> np_overlay mgmt_page"
    by (simp_all add: mgmt_page_def np_nets_def np_error_def np_overlay_def network_page_init_def create_net_init_def edit_net_init_def poll_init_def)
  then have e: "np_enabled mgmt_page (NpRun ?n NStart)"
    by (auto simp: np_enabled_def np_view_def Let_def offers_any_map np_row_offers networks0_def mock_to_model_def)
  have v: "rx_test vmIDPattern (n_id ?n)" by code_simp
  have m: "mock_active (n_id ?n) networks0 = Some False" by code_simp
  have l: "lv_active obedient (n_id ?n) [\<lparr>sn_doc = lab_doc\<lparr>xn_name := ''mgmt''\<rparr>, sn_active = False, sn_autostart = True\<rparr>] = Some False"
    by (simp add: lv_active_def obedient_def stored_def networks0_def mock_to_model_def)
  have g: "networkLocked (n_id ?n) [] = None" "\<not> nl_found obedient (n_id ?n) []"
    by (simp_all add: networkLocked_def obedient_def stored_def)
  have "n_state ?n = Inactive" by (simp add: networks0_def mock_to_model_def)
  with network_buttons_agree [OF e disjI1 [OF refl] v m l g, of "\<lambda>h. []"] show ?thesis by auto
qed

subsection \<open>Editing a network that was created\<close>

lemma masked_gateway: "a AND m = a \<Longrightarrow> ((a OR 1) AND m) OR 1 = a OR 1" for a m :: "8 word"
proof (rule bit_word_eqI)
  fix k assume m: "a AND m = a"
  have b: "bit a k \<longleftrightarrow> bit a k \<and> bit m k" using arg_cong [OF m, of "\<lambda>x. bit x k"] by (simp add: bit_and_iff)
  show "bit (((a OR 1) AND m) OR 1) k \<longleftrightarrow> bit (a OR 1) k"
    using b by (auto simp: bit_and_iff bit_or_iff)
qed

text \<open>The subnet that the gateway is in.\<close>

definition moved :: "ip \<Rightarrow> nat \<Rightarrow> ip" where
  "moved net n = map2 (AND) (gateway net n) (CIDRMask n)"

lemma moved_ok:
  assumes "subnet_ok net n"
  shows "subnet_ok (moved net n) n" "gateway (moved net n) n = gateway net n" "moved net n = net \<longleftrightarrow> in_subnet (gateway net n) net n"
proof -
  have n: "length net = 4" "n \<le> 32" using assms by (simp_all add: subnet_ok_def)
  have "map2 (AND) (map2 (AND) x m) m = map2 (AND) x m" for x m :: ip
    by (induction x m rule: list_induct2') (simp_all add: and.assoc)
  then show ok: "subnet_ok (moved net n) n" using n assms by (simp add: subnet_ok_def in_subnet_def moved_def)
  show "gateway (moved net n) n = gateway net n"
  proof (rule nth_equalityI)
    fix i assume "i < length (gateway (moved net n) n)"
    then have i: "i < 4" using ok by simp
    have "moved net n ! i = (net ! i OR 1) AND CIDRMask n ! i"
      using i n gateway_nth [OF assms i] gateway_length [OF assms] by (simp add: moved_def)
    then show "gateway (moved net n) n ! i = gateway net n ! i"
      using gateway_nth [OF ok i] gateway_nth [OF assms i] masked_gateway [OF subnet_nth [OF assms i]] by simp
  qed (use ok assms in simp)
  show "moved net n = net \<longleftrightarrow> in_subnet (gateway net n) net n" by (simp add: moved_def in_subnet_def)
qed


lemma ip_val_inject:
  "length a = length b \<Longrightarrow> ip_val a = ip_val b \<Longrightarrow> a = b"
proof (induction a arbitrary: b rule: rev_induct)
  case Nil
  then show ?case by simp
next
  case (snoc w a)
  then obtain x c where b: "b = c @ [x]" by (cases b rule: rev_cases) auto
  have r: "0 \<le> uint w" "uint w < 256" "0 \<le> uint x" "uint x < 256" using uint_lt2p [of w] uint_lt2p [of x] by simp_all
  from snoc.prems(2) b have e: "256 * ip_val a + uint w = 256 * ip_val c + uint x" by (simp add: ip_val_snoc)
  have "p = q \<and> u = v" if "256 * p + u = 256 * q + v" "0 \<le> u" "u < 256" "0 \<le> v" "v < 256" for p q u v :: int
  proof -
    have "p = (256 * p + u) div 256" using that by simp
    also have "\<dots> = q" unfolding that(1) using that(4,5) by simp
    finally have "p = q" .
    with that(1) show ?thesis by simp
  qed
  from this [OF e r] have "ip_val a = ip_val c \<and> uint w = uint x" .
  with snoc b show ?case by (simp add: word_uint_eq_iff)
qed

lemma ip_val_bound: "0 \<le> ip_val a \<and> ip_val a < 256 ^ length a"
proof (induction a rule: rev_induct)
  case Nil
  then show ?case by (simp add: ip_val_def)
next
  case (snoc w a)
  have "0 \<le> uint w" "uint w < 256" using uint_lt2p [of w] by simp_all
  with snoc show ?case by (simp add: ip_val_snoc)
qed

lemma addToIP_inject:
  assumes "length a = 4" "length b = 4" "addToIP a d = addToIP b d"
  shows "a = b"
proof -
  have "(ip_val a + d) mod 2 ^ 32 = (ip_val b + d) mod 2 ^ 32"
    using arg_cong [OF assms(3), of ip_val] by (simp add: addToIP_val assms(1,2))
  then have "ip_val a mod 2 ^ 32 = ip_val b mod 2 ^ 32" by (metis add_diff_cancel_right' mod_diff_left_eq)
  moreover have "0 \<le> ip_val a" "ip_val a < 2 ^ 32" "0 \<le> ip_val b" "ip_val b < 2 ^ 32"
    using ip_val_bound [of a] ip_val_bound [of b] assms(1,2) by simp_all
  ultimately show ?thesis using assms(1,2) by (intro ip_val_inject) simp_all
qed

abbreviation last_host :: "ip \<Rightarrow> nat \<Rightarrow> ip" where
  "last_host net n \<equiv> snd (subnetFirstAndLastHost net (CIDRMask n))"

lemma last_host_inject:
  assumes "subnet_ok a n" "subnet_ok b n" "last_host a n = last_host b n"
  shows "a = b"
proof -
  have l: "length a = 4" "length b = 4" using assms by (simp_all add: subnet_ok_def)
  let ?h = "\<lambda>a. map2 (\<lambda>x m. (x AND m) OR NOT m) a (CIDRMask n)"
  have h: "length (?h a) = 4" "length (?h b) = 4" using l by simp_all
  from assms(3) have "addToIP (?h a) (-1) = addToIP (?h b) (-1)" by (simp only: subnetFirstAndLastHost_def snd_conv)
  from addToIP_inject [OF h this] have "?h a = ?h b" .
  then have e: "(a ! i AND CIDRMask n ! i) OR NOT (CIDRMask n ! i) = (b ! i AND CIDRMask n ! i) OR NOT (CIDRMask n ! i)" if "i < 4" for i
    using that l by (auto simp: list_eq_iff_nth_eq)
  show ?thesis
  proof (rule nth_equalityI)
    fix i assume "i < length a"
    then have i: "i < 4" using l by simp
    have "a ! i = ((a ! i AND CIDRMask n ! i) OR NOT (CIDRMask n ! i)) AND CIDRMask n ! i"
      using subnet_nth [OF assms(1) i] by (simp add: bit.conj_disj_distrib2)
    also have "\<dots> = b ! i"
      unfolding e [OF i] using subnet_nth [OF assms(2) i] by (simp add: bit.conj_disj_distrib2)
    finally show "a ! i = b ! i" .
  qed (use l in simp)
qed

text \<open>The document of a network with a subnet, and what a save of the form that opens on it makes of it.\<close>

definition subnet_doc :: "string \<Rightarrow> net_mode \<Rightarrow> ip \<Rightarrow> nat \<Rightarrow> bool \<Rightarrow> net_doc" where
  "subnet_doc name mode net n dhcp =
     \<lparr>xn_name = name, xn_forward = (if mode = Nat then ''nat'' else ''''), xn_bridge = '''', xn_domain = name,
      xn_ip = Some \<lparr>xi_address = ip_str (gateway net n), xi_prefix = int n,
        xi_dhcp = (if dhcp then Some (ip_str (gateway net n), ip_str (last_host net n)) else None), xi_domain = ''''\<rparr>\<rparr>"

definition saved :: "string \<Rightarrow> net_doc \<Rightarrow> provider_error + net_doc" where
  "saved name d = (case merged name (en_body (en_reset (networkToModel name False False d) edit_net_init)) d of
     Inl e \<Rightarrow> Inl e | Inr b \<Rightarrow> networkCreateXML b)"

lemma int_str_nat [simp]: "int_str (int n) = nat_str n"
  by (simp add: int_str_def)

lemma saved_subnet:
  assumes "subnet_ok net n" "0 < n" "mode \<noteq> Bridge"
  shows "saved name (subnet_doc name mode net n dhcp) = Inr (subnet_doc name mode (moved net n) n dhcp)"
proof -
  have l: "length (gateway net n) = 4" "n \<le> 32" using assms(1) by (simp_all add: subnet_ok_def)
  have mode: "mode = Nat \<or> mode = Isolated" using assms(3) by (cases mode) auto
  have c: "rx_test cidrPattern (ip_str (gateway net n) @ ''/'' @ nat_str n)"
    "parse_cidr (ip_str (gateway net n) @ ''/'' @ nat_str n) = Some (moved net n, n)"
    using l by (simp_all only: cidr_str_matches parse_cidr_str moved_def)
  let ?d = "subnet_doc name mode net n dhcp"
  let ?b = "en_body (en_reset (networkToModel name False False ?d) edit_net_init)"
  have f: "networkForwardMode (xn_forward ?d) = mode"
    using mode by (auto simp: networkForwardMode_def subnet_doc_def)
  have b: "?b = \<lparr>nb_name = None, nb_mode = Some mode, nb_bridgeName = None, nb_cidr = Some (ip_str (gateway net n) @ ''/'' @ nat_str n),
      nb_dhcpEnabled = Some dhcp, nb_autostart = Some False\<rparr>"
    using mode f l(1) assms(2)
    by (auto simp: en_body_def en_reset_def edit_cidr_def networkToModel_def doc_ip_def subnet_doc_def Let_def edit_net_init_def)
  have m: "merged name ?b ?d = Inr \<lparr>nb_name = Some name, nb_mode = Some mode, nb_bridgeName = None,
      nb_cidr = Some (ip_str (gateway net n) @ ''/'' @ nat_str n), nb_dhcpEnabled = Some dhcp, nb_autostart = None\<rparr>"
    unfolding b using assms(3) by (simp add: merged_def Let_def)
  have "networkCreateXML \<lparr>nb_name = Some name, nb_mode = Some mode, nb_bridgeName = None,
      nb_cidr = Some (ip_str (gateway net n) @ ''/'' @ nat_str n), nb_dhcpEnabled = Some dhcp, nb_autostart = None\<rparr>
    = Inr (subnet_doc name mode (moved net n) n dhcp)"
    using mode c by (auto simp: networkCreateXML_def subnet_doc_def case_prod_beta)
  with m show ?thesis by (simp add: saved_def)
qed





subsection \<open>The simulated networks\<close>

definition mock_net_ok :: "mock_net \<Rightarrow> bool" where
  "mock_net_ok n = (if mn_mode n = Bridge then mn_ip n = '''' \<and> mn_bridge n \<noteq> '''' \<and> \<not> mn_dhcp n
     else ParseIP (mn_ip n) \<noteq> None \<and> 0 \<le> mn_prefix n \<and> mn_prefix n \<le> 32)"

definition mock_nets_ok :: "mock_nets \<Rightarrow> bool" where
  "mock_nets_ok s = (distinct (map mn_id s) \<and> list_all mock_net_ok s)"

lemma networkLocked_found: "networkLocked i s = Some n \<Longrightarrow> mn_id n = i \<and> n \<in> set s"
  by (auto simp: networkLocked_def find_Some_iff)

lemma set_net_ids [simp]: "networkLocked i s = Some n \<Longrightarrow> mn_id (f n) = i \<Longrightarrow> map mn_id (set_net i f s) = map mn_id s"
  by (induction s) (auto simp: networkLocked_def split: if_splits)

lemma set_net_all: "networkLocked i s = Some n \<Longrightarrow> list_all P s \<Longrightarrow> P (f n) \<Longrightarrow> list_all P (set_net i f s)"
  by (induction s) (auto simp: networkLocked_def split: if_splits)

lemma set_net_map: "networkLocked i s = Some n \<Longrightarrow> g (f n) = g n \<Longrightarrow> map g (set_net i f s) = map g s"
  by (induction s) (auto simp: networkLocked_def split: if_splits)

lemma set_net_id: "networkLocked i s = Some n \<Longrightarrow> f n = n \<Longrightarrow> set_net i f s = s"
  by (induction s) (auto simp: networkLocked_def split: if_splits)

lemma set_net_ok:
  assumes "mock_nets_ok s" "networkLocked i s = Some n" "mn_id (f n) = i" "mock_net_ok (f n)"
  shows "mock_nets_ok (set_net i f s)"
  using assms set_net_all [of i s n mock_net_ok f] by (simp add: mock_nets_ok_def)

lemma drop_net_ok: "mock_nets_ok s \<Longrightarrow> mock_nets_ok (drop_net i s)"
proof -
  have "set (drop_net i s) \<subseteq> set s" by (induction s) auto
  moreover have "distinct (map mn_id s) \<Longrightarrow> distinct (map mn_id (drop_net i s)) \<and> set (map mn_id (drop_net i s)) \<subseteq> set (map mn_id s)"
    by (induction s) auto
  ultimately show "mock_nets_ok s \<Longrightarrow> mock_nets_ok (drop_net i s)" by (auto simp: mock_nets_ok_def list_all_iff)
qed

lemma net_ok_of_subnet:
  assumes "parse_cidr c = Some (net, k)"
  shows "ParseIP (ip_str (mock_gateway net)) \<noteq> None" "k \<le> 32"
  using parse_cidr_ok [OF assms] by (simp_all add: subnet_ok_def mock_gateway_def)

lemma mock_create_ok:
  assumes "mock_nets_ok s"
  shows "mock_nets_ok (snd (mock_CreateNetwork b s)) \<and> (\<exists>e. fst (mock_CreateNetwork b s) = Inl e) = (snd (mock_CreateNetwork b s) = s)"
proof -
  have new: "mock_nets_ok (s @ [n])" if "networkLocked (mn_id n) s = None" "mock_net_ok n" for n
    using that assms by (auto simp: mock_nets_ok_def networkLocked_def find_None_iff)
  have "mock_nets_ok (snd (mock_CreateNetwork b s))"
    using assms net_ok_of_subnet
    by (auto simp: mock_CreateNetwork_def Let_def mock_net_ok_def split: option.split intro!: new)
  moreover have "(\<exists>e. fst (mock_CreateNetwork b s) = Inl e) = (snd (mock_CreateNetwork b s) = s)"
    by (auto simp: mock_CreateNetwork_def Let_def split: option.split)
  ultimately show ?thesis by simp
qed

text \<open>Everything but the autostart.\<close>

definition no_autostart :: "mock_net \<Rightarrow> mock_net" where
  "no_autostart n = n\<lparr>mn_autostart := False\<rparr>"

lemma mock_update_cases:
  fixes b n
  defines "n1 \<equiv> n\<lparr>mn_autostart := orelse (nb_autostart b) (mn_autostart n)\<rparr>"
  assumes "networkLocked i s = Some n" "mock_net_ok n"
  shows "(\<exists>e. mock_UpdateNetwork i b s = (Inl e, s))
    \<or> structural b \<and> (\<exists>e. mock_UpdateNetwork i b s = (Inl e, set_net i (\<lambda>_. n1) s))
    \<or> (\<exists>m. mock_UpdateNetwork i b s = (Inr (mock_to_model m), set_net i (\<lambda>_. m) s) \<and> mn_id m = mn_id n \<and> mock_net_ok m)"
proof (cases "mn_active n \<and> structural b")
  case True
  with assms show ?thesis by (simp add: mock_UpdateNetwork_def)
next
  case idle: False
  have ok1: "mn_id n1 = mn_id n" "mock_net_ok n1" using assms(3) by (simp_all add: n1_def mock_net_ok_def)
  show ?thesis
  proof (cases "structural b")
    case False
    then show ?thesis using assms(2) ok1 by (intro disjI2 exI [of _ n1]) (simp add: mock_UpdateNetwork_def n1_def Let_def)
  next
    case str: True
    let ?mode = "orelse (nb_mode b) (mn_mode n)"
    show ?thesis
    proof (cases "?mode = Bridge")
      case True
      let ?br = "orelse (nb_bridgeName b) (mn_bridge n)"
      let ?m = "n1\<lparr>mn_bridge := ?br, mn_ip := '''', mn_prefix := 0, mn_dhcp := False, mn_mode := Bridge\<rparr>"
      from True str idle assms(2) have "mock_UpdateNetwork i b s =
          (if ?br = '''' then (Inl (invalid_net ''bridgeName is required for bridge networks''), set_net i (\<lambda>_. n1) s)
           else (Inr (mock_to_model ?m), set_net i (\<lambda>_. ?m) s))"
        by (simp add: mock_UpdateNetwork_def n1_def Let_def)
      moreover have "mock_net_ok ?m" if "?br \<noteq> ''''" using that by (simp add: mock_net_ok_def)
      ultimately show ?thesis using str ok1(1) by (cases "?br = ''''") (auto intro!: exI [of _ ?m])
    next
      case False
      let ?c = "case nb_cidr b of Some x \<Rightarrow> x | None \<Rightarrow> if mn_ip n1 \<noteq> '''' then mn_ip n1 @ ''/'' @ int_str (mn_prefix n1) else ''''"
      let ?m = "\<lambda>net k. n1\<lparr>mn_ip := ip_str (mock_gateway net), mn_prefix := int k, mn_dhcp := (nb_dhcpEnabled b \<noteq> Some False), mn_mode := ?mode\<rparr>"
      from False str idle assms(2) have u: "mock_UpdateNetwork i b s =
          (if ?c = '''' then (Inl (invalid_net ''cidr is required for nat/isolated networks''), set_net i (\<lambda>_. n1) s)
           else (case parse_cidr ?c of None \<Rightarrow> (Inl (invalid_net ''invalid cidr''), set_net i (\<lambda>_. n1) s)
             | Some (net, k) \<Rightarrow> (Inr (mock_to_model (?m net k)), set_net i (\<lambda>_. ?m net k) s)))"
        by (simp add: mock_UpdateNetwork_def Let_def n1_def cong: option.case_cong)
      have m: "mock_net_ok (?m net k)" if "parse_cidr ?c = Some (net, k)" for net k
        using False net_ok_of_subnet [OF that] by (simp add: mock_net_ok_def)
      show ?thesis
      proof (cases "?c = '''' \<or> parse_cidr ?c = None")
        case True
        then have "\<exists>e. mock_UpdateNetwork i b s = (Inl e, set_net i (\<lambda>_. n1) s)"
        proof
          assume "?c = ''''"
          then show ?thesis by (simp only: u simp_thms if_True) blast
        next
          assume "parse_cidr ?c = None"
          then show ?thesis by (cases "?c = ''''") (simp only: u simp_thms if_True if_False option.case, blast)+
        qed
        with str show ?thesis by blast
      next
        case False
        then obtain net k where p: "parse_cidr ?c = Some (net, k)" "?c \<noteq> ''''" by (metis option.exhaust surj_pair)
        then have "mock_UpdateNetwork i b s = (Inr (mock_to_model (?m net k)), set_net i (\<lambda>_. ?m net k) s)"
          by (simp only: u if_False option.case prod.case)
        moreover have "mn_id (?m net k) = mn_id n" using ok1(1) by simp
        ultimately show ?thesis using m [OF p(1)] by blast
      qed
    qed
  qed
qed

lemma mock_update_ok:
  assumes "mock_nets_ok s"
  shows "mock_nets_ok (snd (mock_UpdateNetwork i b s))
    \<and> (fst (mock_UpdateNetwork i b s) = Inl e \<longrightarrow> map no_autostart (snd (mock_UpdateNetwork i b s)) = map no_autostart s
        \<and> (nb_autostart b = None \<or> \<not> structural b \<longrightarrow> snd (mock_UpdateNetwork i b s) = s))"
proof (cases "networkLocked i s")
  case None
  with assms show ?thesis by (simp add: mock_UpdateNetwork_def)
next
  case (Some n)
  note f = networkLocked_found [OF Some]
  with assms have n: "mock_net_ok n" by (simp add: mock_nets_ok_def list_all_iff)
  let ?n = "n\<lparr>mn_autostart := orelse (nb_autostart b) (mn_autostart n)\<rparr>"
  have k: "mock_nets_ok (set_net i (\<lambda>_. m) s)" if "mn_id m = mn_id n" "mock_net_ok m" for m
    using set_net_ok [OF assms Some, of "\<lambda>_. m"] that f by simp
  have "mock_net_ok ?n" using n by (simp add: mock_net_ok_def)
  then have k1: "mock_nets_ok (set_net i (\<lambda>_. ?n) s)" by (intro k) simp_all
  have part: "map no_autostart (set_net i (\<lambda>_. ?n) s) = map no_autostart s"
    by (rule set_net_map [OF Some]) (simp add: no_autostart_def)
  have same: "nb_autostart b = None \<Longrightarrow> set_net i (\<lambda>_. ?n) s = s"
    by (rule set_net_id [OF Some]) simp
  from mock_update_cases [OF Some n, of b] show ?thesis
    by (elim disjE exE conjE) (use assms k k1 part same in auto)
qed

lemma mock_power_ok:
  assumes "mock_nets_ok s"
  shows "mock_nets_ok (snd (mock_StartNetwork i s))" "mock_nets_ok (snd (mock_StopNetwork i s))" "mock_nets_ok (snd (mock_DeleteNetwork i s))"
    "fst (mock_StartNetwork i s) = Inl e \<Longrightarrow> snd (mock_StartNetwork i s) = s"
    "fst (mock_StopNetwork i s) = Inl e \<Longrightarrow> snd (mock_StopNetwork i s) = s"
    "fst (mock_DeleteNetwork i s) = Inl e' \<Longrightarrow> snd (mock_DeleteNetwork i s) = s"
proof -
  have k: "mock_nets_ok (set_net i (mn_active_update (\<lambda>_. x)) s)" if "networkLocked i s = Some n" for x n
    using that networkLocked_found [OF that] assms
    by (intro set_net_ok [OF assms that]) (auto simp: mock_nets_ok_def list_all_iff mock_net_ok_def split: if_splits)
  show "mock_nets_ok (snd (mock_StartNetwork i s))" "mock_nets_ok (snd (mock_StopNetwork i s))" "mock_nets_ok (snd (mock_DeleteNetwork i s))"
    using assms k drop_net_ok by (auto simp: mock_StartNetwork_def mock_StopNetwork_def mock_DeleteNetwork_def split: option.split)
  show "fst (mock_StartNetwork i s) = Inl e \<Longrightarrow> snd (mock_StartNetwork i s) = s"
    "fst (mock_StopNetwork i s) = Inl e \<Longrightarrow> snd (mock_StopNetwork i s) = s"
    "fst (mock_DeleteNetwork i s) = Inl e' \<Longrightarrow> snd (mock_DeleteNetwork i s) = s"
    by (auto simp: mock_StartNetwork_def mock_StopNetwork_def mock_DeleteNetwork_def split: option.splits if_splits)
qed

lemma guarded_cases:
  assumes "guarded q f op s = (r, s')"
  shows "(boundary None q \<noteq> None \<and> s' = s \<and> (\<exists>e. r = Inl e))
    \<or> (boundary None q = None \<and> s' = snd (op s) \<and> ((\<exists>e. r = Inl e) \<longleftrightarrow> (\<exists>e. fst (op s) = Inl e)))"
  using assms by (auto simp: guarded_def split: option.splits prod.splits sum.splits)

lemma with_id_cases:
  assumes "with_id i f op s = (r, s')"
  shows "(s' = s \<and> (\<exists>e. r = Inl e)) \<or> (s' = snd (op i s) \<and> ((\<exists>e. r = Inl e) \<longleftrightarrow> (\<exists>e. fst (op i s) = Inl e)))"
  using assms by (auto simp: with_id_def split: option.splits prod.splits sum.splits)

text \<open>
  C40. Whatever is asked of the simulated host, network names stay unique, a network in bridge mode
  has a bridge, no address and no DHCP, and any other has an address and a prefix. A
  request that is refused changes nothing, except that a refused change of the structure of
  a network may have changed its autostart.
\<close>

theorem mock_networks_kept:
  assumes "mock_nets_ok s" "networks_serve mock_networks q s = Some (r, s')"
  shows "mock_nets_ok s' \<and> (\<forall>e. r = Inl e \<longrightarrow> map no_autostart s' = map no_autostart s
    \<and> (s' = s \<or> (\<exists>i b. q = PutNetwork i b \<and> nb_autostart b \<noteq> None \<and> structural b)))"
proof (cases q)
  case (PostNetwork b)
  with assms guarded_cases [of q PNetwork "mock_CreateNetwork b" s r s'] mock_create_ok [OF assms(1), of b]
  show ?thesis by (auto simp: mock_networks_def)
next
  case (PutNetwork i b)
  with assms guarded_cases [of q PNetwork "mock_UpdateNetwork i b" s r s'] mock_update_ok [OF assms(1), of i b]
  show ?thesis by (auto simp: mock_networks_def)
next
  case (DeleteNetwork i)
  with assms with_id_cases [of i no_content mock_DeleteNetwork s r s'] mock_power_ok [OF assms(1), of i]
  show ?thesis by (auto simp: mock_networks_def)
next
  case (PostNetworkAction i a)
  with assms with_id_cases [of i PNetwork mock_StartNetwork s r s'] with_id_cases [of i PNetwork mock_StopNetwork s r s']
    mock_power_ok [OF assms(1), of i]
  show ?thesis by (cases a) (auto simp: mock_networks_def)
qed (use assms in \<open>auto simp: mock_networks_def\<close>)

text \<open>A request that no form sends: bridge mode without a bridge.\<close>

definition bridge_update :: network_body where
  "bridge_update = \<lparr>nb_name = None, nb_mode = Some Bridge, nb_bridgeName = None, nb_cidr = None, nb_dhcpEnabled = None, nb_autostart = Some True\<rparr>"

definition lan_stopped :: mock_nets where
  "lan_stopped = [\<lparr>mn_id = ''lan'', mn_active = False, mn_autostart = False, mn_bridge = '''', mn_ip = ''10.1.1.1'', mn_prefix = 24,
     mn_dhcp = True, mn_domain = ''lan'', mn_mode = Nat\<rparr>]"

theorem mock_networks_kept_witness:
  "\<exists>e s'. networks_serve mock_networks (PutNetwork ''lan'' bridge_update) lan_stopped = Some (Inl e, s') \<and> s' \<noteq> lan_stopped
    \<and> mock_nets_ok s' \<and> map no_autostart s' = map no_autostart lan_stopped"
proof -
  have ok: "mock_nets_ok lan_stopped" by code_simp
  have "boundary None (PutNetwork ''lan'' bridge_update) = None" by code_simp
  moreover have "\<exists>e. mock_UpdateNetwork ''lan'' bridge_update lan_stopped = (Inl e, map (mn_autostart_update (\<lambda>_. True)) lan_stopped)"
    by (simp add: mock_UpdateNetwork_def lan_stopped_def networkLocked_def structural_def bridge_update_def)
  ultimately obtain e where "guarded (PutNetwork ''lan'' bridge_update) PNetwork (mock_UpdateNetwork ''lan'' bridge_update) lan_stopped
      = (Inl e, map (mn_autostart_update (\<lambda>_. True)) lan_stopped)"
    by (auto simp only: guarded_def option.case prod.case sum.case)
  then have "networks_serve mock_networks (PutNetwork ''lan'' bridge_update) lan_stopped
      = Some (Inl e, map (mn_autostart_update (\<lambda>_. True)) lan_stopped)"
    by (simp only: networks_serve.simps) (simp add: mock_networks_def)
  moreover have "map (mn_autostart_update (\<lambda>_. True)) lan_stopped \<noteq> lan_stopped" by (simp add: lan_stopped_def)
  ultimately show ?thesis using mock_networks_kept [OF ok] by blast
qed

end
