(* ===== verification/Machines.thy ===== *)
theory Machines
  imports Domains HostNetworks
begin

text \<open>
  The machines of the two providers. First the simulated host (\<open>backend/internal/hypervisor/mock/mock.go\<close>):
  its machines are objects that the map of names refers to and that the timers of the graceful
  shutdowns refer to as well, so that a timer can outlive what it was started for. Then the power
  actions, the deletion and the update of the provider that calls libvirt (\<open>libvirt/vms.go\<close>,
  \<open>update.go\<close>), with libvirt's answers as parameters. Both keep the contract \<open>machine_provider\<close>.
\<close>

subsection \<open>The simulated host\<close>

record machine =
  mm_id :: string
  mm_vcpus :: int
  mm_memory :: int
  mm_os :: string
  mm_diskGB :: int
  mm_ip :: string
  mm_mac :: string
  mm_state :: vm_state
  mm_bootTime :: "int option"
  mm_ipAddress :: string
  mm_disks :: "disk list option"
  mm_iso :: string
  mm_virtioISO :: string
  mm_osType :: "os_type option"
  mm_network :: string

text \<open>
  \<open>mh_objs\<close> are the \<open>vmState\<close> values, \<open>mh_vms\<close> the map from names to pointers, \<open>mh_timers\<close> the
  goroutines that sleep for the grace period, each with its pointer and the time when it wakes.
  Times are in milliseconds.
\<close>

record mock_host =
  mh_objs :: "machine list"
  mh_vms :: "(string \<times> nat) list"
  mh_timers :: "(nat \<times> int) list"
  mh_now :: int

definition GiB :: int where
  "GiB = 1024 * 1024 * 1024"

definition seed :: "string \<Rightarrow> int \<Rightarrow> int \<Rightarrow> string \<Rightarrow> int \<Rightarrow> string \<Rightarrow> string \<Rightarrow> machine" where
  "seed i n mem os gb ip mac = \<lparr>mm_id = i, mm_vcpus = n, mm_memory = mem * GiB, mm_os = os, mm_diskGB = gb, mm_ip = ip, mm_mac = mac,
     mm_state = Stopped, mm_bootTime = None, mm_ipAddress = '''', mm_disks = None, mm_iso = '''', mm_virtioISO = '''',
     mm_osType = None, mm_network = ''''\<rparr>"

definition specs :: "machine list" where
  "specs = [seed ''erp01'' 4 8 ''Ubuntu 24.04 LTS'' 120 ''10.0.0.11'' ''52:54:00:00:00:11'',
     seed ''web01'' 2 4 ''Debian 12'' 40 ''10.0.0.12'' ''52:54:00:00:00:12'',
     seed ''database01'' 8 32 ''Ubuntu 22.04 LTS'' 500 ''10.0.0.13'' ''52:54:00:00:00:13'',
     seed ''monitoring01'' 2 4 ''Debian 12'' 60 ''10.0.0.14'' ''52:54:00:00:00:14'']"

definition hours :: "int \<Rightarrow> int" where
  "hours n = n * 60 * 60 * 1000"

definition boots :: "string \<Rightarrow> int" where
  "boots i = (if i = ''erp01'' then hours 96 else if i = ''web01'' then hours 240 else if i = ''database01'' then hours 720 else 0)"

text \<open>\<open>New\<close>.\<close>

definition mock_New :: "int \<Rightarrow> mock_host" where
  "mock_New now = \<lparr>mh_objs = map (\<lambda>m. if 0 < boots (mm_id m)
        then m\<lparr>mm_state := Running, mm_bootTime := Some (now - boots (mm_id m)), mm_ipAddress := mm_ip m\<rparr> else m) specs,
     mh_vms = zip (map mm_id specs) [0..<4], mh_timers = [], mh_now = now\<rparr>"

definition getLocked :: "string \<Rightarrow> mock_host \<Rightarrow> nat option" where
  "getLocked i s = map_of (mh_vms s) i"

definition obj :: "nat \<Rightarrow> mock_host \<Rightarrow> machine" where
  "obj p s = mh_objs s ! p"

definition set_obj :: "nat \<Rightarrow> (machine \<Rightarrow> machine) \<Rightarrow> mock_host \<Rightarrow> mock_host" where
  "set_obj p f s = s\<lparr>mh_objs := (mh_objs s)[p := f (obj p s)]\<rparr>"

definition powerOffLocked :: "machine \<Rightarrow> machine" where
  "powerOffLocked m = m\<lparr>mm_state := Stopped, mm_bootTime := None, mm_ipAddress := ''''\<rparr>"

subsection \<open>What it shows\<close>

text \<open>
  \<open>me_used\<close>, \<open>me_metrics\<close> and \<open>me_time\<close> stand for the simulated disk use, the simulated load
  (floating point, a random source) and the text of a time.
\<close>

record mock_env =
  me_used :: "string \<Rightarrow> int \<Rightarrow> int"
  me_metrics :: "machine \<Rightarrow> int \<Rightarrow> vm_metrics"
  me_time :: "int \<Rightarrow> string"

definition networkOrDefault :: "machine \<Rightarrow> string" where
  "networkOrDefault m = (if mm_network m \<noteq> '''' then mm_network m else ''default'')"

definition mockPerformanceProfile :: "os_type \<Rightarrow> performance_profile" where
  "mockPerformanceProfile os =
     (if os = Other then \<lparr>pp_cpuMode = Some Host_model, pp_diskBus = Some Bus_sata, pp_cache = None, pp_ioThreads = Some 0,
        pp_nicModel = None, pp_hyperv = None\<rparr>
      else \<lparr>pp_cpuMode = Some Host_passthrough, pp_diskBus = Some Bus_scsi, pp_cache = Some Cache_none, pp_ioThreads = Some 1,
        pp_nicModel = None,
        pp_hyperv = (if os = Windows then Some [''relaxed'', ''vapic'', ''spinlocks'', ''vpindex'', ''synic'', ''stimer'',
          ''runtime'', ''frequencies'', ''reset'', ''tlbflush'', ''ipi''] else None)\<rparr>)"

definition mock_disks :: "mock_env \<Rightarrow> machine \<Rightarrow> disk list" where
  "mock_disks E m = map (\<lambda>d. d\<lparr>d_usedBytes := Some (me_used E (mm_id m @ d_name d) (d_sizeBytes d))\<rparr>)
     (case mm_disks m of Some ds \<Rightarrow> ds
      | None \<Rightarrow> [\<lparr>d_name = ''vda'', d_format = Qcow2, d_sizeBytes = mm_diskGB m * GiB, d_usedBytes = None, d_bus = Some Bus_virtio\<rparr>])"

definition mock_toModel :: "mock_env \<Rightarrow> int \<Rightarrow> machine \<Rightarrow> vm" where
  "mock_toModel E now m =
     (let up = mm_state m \<in> {Running, Shutting_down};
          ip = (if mm_state m = Running \<and> mm_ipAddress m \<noteq> '''' then Some (mm_ipAddress m) else None) in
      \<lparr>v_id = mm_id m, v_name = mm_id m, v_state = mm_state m, v_vcpus = mm_vcpus m, v_memoryBytes = mm_memory m,
       v_uptimeSeconds = (if up then Some ((now - orelse (mm_bootTime m) 0) div 1000) else None),
       v_os = Some (mm_os m), v_ipAddress = ip, v_isoId = (if mm_iso m \<noteq> '''' then Some (mm_iso m) else None),
       v_disks = mock_disks E m,
       v_networkInterfaces = [\<lparr>ni_name = ''ens3'', ni_nicModel = (if mm_osType m = Some Other then NI_e1000 else NI_virtio),
         ni_macAddress = Some (mm_mac m), ni_ipAddress = ip, ni_network = Some (networkOrDefault m)\<rparr>],
       v_metrics = (if mm_state m = Running then Some (me_metrics E m now) else None),
       v_bootTime = (if up then Some (me_time E (orelse (mm_bootTime m) 0)) else None),
       v_osType = mm_osType m, v_performanceProfile = map_option mockPerformanceProfile (mm_osType m), v_warnings = None\<rparr>)"

definition mock_GetVirtualMachine :: "mock_env \<Rightarrow> string \<Rightarrow> mock_host \<Rightarrow> provider_error + vm" where
  "mock_GetVirtualMachine E i s = (case getLocked i s of
     None \<Rightarrow> Inl ErrVMNotFound | Some p \<Rightarrow> Inr (mock_toModel E (mh_now s) (obj p s)))"

text \<open>\<open>sortStrings\<close>: each string sinks to its place among those before it; Go compares bytes.\<close>

fun str_less :: "string \<Rightarrow> string \<Rightarrow> bool" where
  "str_less x [] \<longleftrightarrow> False"
| "str_less [] (c # y) \<longleftrightarrow> True"
| "str_less (a # x) (c # y) \<longleftrightarrow> (of_char a :: nat) < of_char c \<or> a = c \<and> str_less x y"

definition sink :: "string list \<Rightarrow> string \<Rightarrow> string list" where
  "sink xs x = rev (dropWhile (str_less x) (rev xs)) @ x # rev (takeWhile (str_less x) (rev xs))"

definition sortStrings :: "string list \<Rightarrow> string list" where
  "sortStrings xs = foldl sink [] xs"

definition mock_ListVirtualMachines :: "mock_env \<Rightarrow> mock_host \<Rightarrow> vm list" where
  "mock_ListVirtualMachines E s =
     map (\<lambda>i. mock_toModel E (mh_now s) (obj (the (getLocked i s)) s)) (sortStrings (map fst (mh_vms s)))"

subsection \<open>Its operations\<close>

text \<open>\<open>%02x\<close>.\<close>

definition hex_low :: "nat \<Rightarrow> char" where
  "hex_low d = ''0123456789abcdef'' ! d"

fun hex_digits :: "nat \<Rightarrow> string" where
  "hex_digits n = (if n < 16 then [hex_low n] else hex_digits (n div 16) @ [hex_low (n mod 16)])"

declare hex_digits.simps [simp del]

definition hex02 :: "nat \<Rightarrow> string" where
  "hex02 n = (if n < 16 then ''0'' else '''') @ hex_digits n"

definition mock_mac :: "nat \<Rightarrow> string" where
  "mock_mac n = ''52:54:00:00:'' @ hex02 (n div 256) @ '':'' @ hex02 (n mod 256)"

definition mock_ip :: "nat \<Rightarrow> string" where
  "mock_ip n = ''10.0.0.'' @ nat_str (20 + n)"

definition no_drivers_warning :: string where
  "no_drivers_warning = ''Windows without a VirtIO drivers ISO: the installer will not see the virtio-scsi disk until the vioscsi driver is loaded from another source (attach the virtio-win ISO in the library to avoid this).''"

definition created :: "vm_create \<Rightarrow> nat \<Rightarrow> int \<Rightarrow> machine" where
  "created r n now =
     (let d = \<lparr>d_name = ''sda'', d_format = orelse (dc_format (vc_disk r)) Qcow2, d_sizeBytes = dc_sizeBytes (vc_disk r),
            d_usedBytes = None, d_bus = Some (if vc_osType r = Other then Bus_sata else Bus_scsi)\<rparr>;
          m = \<lparr>mm_id = vc_name r, mm_vcpus = \<lfloor>vc_vcpus r\<rfloor>, mm_memory = vc_memoryBytes r, mm_os = em_dash,
            mm_diskGB = dc_sizeBytes (vc_disk r) div GiB, mm_ip = mock_ip n, mm_mac = mock_mac n, mm_state = Stopped,
            mm_bootTime = None, mm_ipAddress = '''', mm_disks = Some [d], mm_iso = '''',
            mm_virtioISO = orelse (orelse (vc_virtioDriversIsoId r) None) '''', mm_osType = Some (vc_osType r), mm_network = ''''\<rparr> in
      if vc_start r = Some True then m\<lparr>mm_state := Running, mm_bootTime := Some now, mm_ipAddress := mock_ip n\<rparr> else m)"

definition mock_CreateVirtualMachine :: "mock_env \<Rightarrow> vm_create \<Rightarrow> mock_host \<Rightarrow> (provider_error + vm) \<times> mock_host" where
  "mock_CreateVirtualMachine E r s =
     (if getLocked (vc_name r) s \<noteq> None then (Inl ErrVMAlreadyExists, s)
      else
        let m = created r (length (mh_vms s) + 1) (mh_now s);
            v = mock_toModel E (mh_now s) m in
        (Inr (if vc_osType r = Windows \<and> mm_virtioISO m = '''' then v\<lparr>v_warnings := Some [no_drivers_warning]\<rparr> else v),
         s\<lparr>mh_objs := mh_objs s @ [m], mh_vms := (vc_name r, length (mh_objs s)) # mh_vms s\<rparr>))"

text \<open>An operation on the machine a name refers to: the guard, then the change.\<close>

definition mock_vm :: "mock_env \<Rightarrow> (machine \<Rightarrow> string option) \<Rightarrow> (int \<Rightarrow> machine \<Rightarrow> machine) \<Rightarrow> string \<Rightarrow> mock_host
    \<Rightarrow> (provider_error + vm) \<times> mock_host" where
  "mock_vm E guard f i s = (case getLocked i s of
     None \<Rightarrow> (Inl ErrVMNotFound, s)
   | Some p \<Rightarrow> (case guard (obj p s) of
       Some m \<Rightarrow> (Inl (invalid_vm m), s)
     | None \<Rightarrow> (Inr (mock_toModel E (mh_now s) (f (mh_now s) (obj p s))), set_obj p (f (mh_now s)) s)))"

definition state_name :: "vm_state \<Rightarrow> string" where
  "state_name x = (case x of Running \<Rightarrow> ''running'' | Stopped \<Rightarrow> ''stopped'' | Paused \<Rightarrow> ''paused''
     | Shutting_down \<Rightarrow> ''shutting-down'' | Starting \<Rightarrow> ''starting'' | Error_state \<Rightarrow> ''error'')"

definition mock_StartVirtualMachine :: "mock_env \<Rightarrow> string \<Rightarrow> mock_host \<Rightarrow> (provider_error + vm) \<times> mock_host" where
  "mock_StartVirtualMachine E = mock_vm E
     (\<lambda>m. if mm_state m \<in> {Running, Starting, Shutting_down} then Some (''cannot start '' @ state_name (mm_state m) @ '' VM'') else None)
     (\<lambda>now m. if mm_state m = Paused then m\<lparr>mm_state := Running\<rparr>
        else m\<lparr>mm_state := Running, mm_bootTime := Some now, mm_ipAddress := mm_ip m\<rparr>)"

definition shutdownGrace :: int where
  "shutdownGrace = 3000"

definition mock_ShutdownVirtualMachine :: "mock_env \<Rightarrow> string \<Rightarrow> mock_host \<Rightarrow> (provider_error + vm) \<times> mock_host" where
  "mock_ShutdownVirtualMachine E i s =
     (case mock_vm E (\<lambda>m. if mm_state m \<noteq> Running then Some (''cannot shutdown '' @ state_name (mm_state m) @ '' VM'') else None)
        (\<lambda>now m. m\<lparr>mm_state := Shutting_down\<rparr>) i s of
       (Inl e, s') \<Rightarrow> (Inl e, s')
     | (Inr v, s') \<Rightarrow> (Inr v, s'\<lparr>mh_timers := mh_timers s' @ [(the (getLocked i s'), mh_now s' + shutdownGrace)]\<rparr>))"

definition mock_RebootVirtualMachine :: "mock_env \<Rightarrow> string \<Rightarrow> mock_host \<Rightarrow> (provider_error + vm) \<times> mock_host" where
  "mock_RebootVirtualMachine E = mock_vm E
     (\<lambda>m. if mm_state m \<noteq> Running then Some (''cannot reboot '' @ state_name (mm_state m) @ '' VM'') else None)
     (\<lambda>now m. m\<lparr>mm_bootTime := Some now\<rparr>)"

definition mock_ForceStopVirtualMachine :: "mock_env \<Rightarrow> string \<Rightarrow> mock_host \<Rightarrow> (provider_error + vm) \<times> mock_host" where
  "mock_ForceStopVirtualMachine E = mock_vm E
     (\<lambda>m. if mm_state m = Stopped then Some ''VM is already stopped'' else None) (\<lambda>now. powerOffLocked)"

definition mock_DeleteVirtualMachine :: "string \<Rightarrow> bool \<Rightarrow> mock_host \<Rightarrow> (provider_error + unit) \<times> mock_host" where
  "mock_DeleteVirtualMachine i deleteDisks s = (case getLocked i s of
     None \<Rightarrow> (Inl ErrVMNotFound, s)
   | Some p \<Rightarrow>
       if mm_state (obj p s) \<noteq> Stopped then (Inl (invalid_vm ''cannot delete a virtual machine that is not stopped''), s)
       else (Inr (), s\<lparr>mh_vms := filter (\<lambda>x. fst x \<noteq> i) (mh_vms s)\<rparr>))"

text \<open>The settings are written one by one, the network last and only if it is one of \<open>nets\<close>.\<close>

definition apply_update :: "vm_update \<Rightarrow> machine \<Rightarrow> machine" where
  "apply_update r m = m\<lparr>mm_vcpus := (case vu_vcpus r of Some n \<Rightarrow> \<lfloor>n\<rfloor> | None \<Rightarrow> mm_vcpus m),
     mm_memory := orelse (vu_memoryBytes r) (mm_memory m), mm_iso := orelse (vu_isoId r) (mm_iso m)\<rparr>"

definition mock_UpdateVirtualMachine :: "mock_env \<Rightarrow> mock_nets \<Rightarrow> string \<Rightarrow> vm_update \<Rightarrow> mock_host \<Rightarrow> (provider_error + vm) \<times> mock_host" where
  "mock_UpdateVirtualMachine E nets i r s = (case getLocked i s of
     None \<Rightarrow> (Inl ErrVMNotFound, s)
   | Some p \<Rightarrow>
       if (vu_vcpus r \<noteq> None \<or> vu_memoryBytes r \<noteq> None \<or> vu_networkId r \<noteq> None) \<and> mm_state (obj p s) \<noteq> Stopped
       then (Inl (invalid_vm ''vCPU, memory and network changes require the virtual machine to be stopped''), s)
       else
         let s1 = set_obj p (apply_update r) s in
         (case vu_networkId r of
            None \<Rightarrow> (Inr (mock_toModel E (mh_now s1) (obj p s1)), s1)
          | Some n \<Rightarrow>
              if networkLocked n nets = None then (Inl ErrNetworkNotFound, s1)
              else let s2 = set_obj p (\<lambda>m. m\<lparr>mm_network := n\<rparr>) s1 in
                (Inr (mock_toModel E (mh_now s2) (obj p s2)), s2)))"

subsection \<open>Time\<close>

text \<open>A goroutine wakes: it powers off the machine it points to if that is shutting down, for whatever reason.\<close>

definition wake :: "nat \<Rightarrow> mock_host \<Rightarrow> mock_host" where
  "wake k s = (let p = fst (mh_timers s ! k);
       s1 = s\<lparr>mh_timers := take k (mh_timers s) @ drop (Suc k) (mh_timers s)\<rparr> in
     if mm_state (obj p s1) = Shutting_down then set_obj p powerOffLocked s1 else s1)"

definition mock_act :: "mock_env \<Rightarrow> power_action \<Rightarrow> string \<Rightarrow> mock_host \<Rightarrow> (provider_error + vm) \<times> mock_host" where
  "mock_act E a = (case a of AStart \<Rightarrow> mock_StartVirtualMachine E | AShutdown \<Rightarrow> mock_ShutdownVirtualMachine E
     | AReboot \<Rightarrow> mock_RebootVirtualMachine E | AStop \<Rightarrow> mock_ForceStopVirtualMachine E)"

text \<open>
  The histories of the simulated host: the requests, in any order, the passing of time and the
  goroutines, each waking at its time or later.
\<close>

inductive mock_reach :: "mock_host \<Rightarrow> bool" where
  new: "mock_reach (mock_New now)"
| create: "mock_reach s \<Longrightarrow> mock_reach (snd (mock_CreateVirtualMachine E r s))"
| act: "mock_reach s \<Longrightarrow> mock_reach (snd (mock_act E a i s))"
| delete: "mock_reach s \<Longrightarrow> mock_reach (snd (mock_DeleteVirtualMachine i d s))"
| update: "mock_reach s \<Longrightarrow> mock_reach (snd (mock_UpdateVirtualMachine E nets i r s))"
| pass: "mock_reach s \<Longrightarrow> 0 \<le> d \<Longrightarrow> mock_reach (s\<lparr>mh_now := mh_now s + d\<rparr>)"
| wakes: "mock_reach s \<Longrightarrow> k < length (mh_timers s) \<Longrightarrow> snd (mh_timers s ! k) \<le> mh_now s \<Longrightarrow> mock_reach (wake k s)"

subsection \<open>What every history keeps\<close>

definition machine_ok :: "int \<Rightarrow> machine \<Rightarrow> bool" where
  "machine_ok now m \<longleftrightarrow> mm_ip m \<noteq> '''' \<and> (case mm_state m of
       Stopped \<Rightarrow> mm_bootTime m = None \<and> mm_ipAddress m = ''''
     | Running \<Rightarrow> (\<exists>t \<le> now. mm_bootTime m = Some t) \<and> mm_ipAddress m = mm_ip m
     | Shutting_down \<Rightarrow> (\<exists>t \<le> now. mm_bootTime m = Some t) \<and> mm_ipAddress m = mm_ip m
     | _ \<Rightarrow> False)"

definition names_ok :: "mock_host \<Rightarrow> bool" where
  "names_ok s \<longleftrightarrow> distinct (map fst (mh_vms s)) \<and> distinct (map snd (mh_vms s))
     \<and> (\<forall>(i, p) \<in> set (mh_vms s). p < length (mh_objs s) \<and> mm_id (obj p s) = i)"

definition timers_ok :: "mock_host \<Rightarrow> bool" where
  "timers_ok s \<longleftrightarrow> (\<forall>(p, t) \<in> set (mh_timers s). p < length (mh_objs s) \<and> t \<le> mh_now s + shutdownGrace)
     \<and> (\<forall>p < length (mh_objs s). mm_state (obj p s) = Shutting_down \<longrightarrow> p \<in> fst ` set (mh_timers s))"

definition mock_ok :: "mock_host \<Rightarrow> bool" where
  "mock_ok s \<longleftrightarrow> names_ok s \<and> (\<forall>p < length (mh_objs s). machine_ok (mh_now s) (obj p s)) \<and> timers_ok s"

lemma obj_set_obj: "p < length (mh_objs s) \<Longrightarrow> obj q (set_obj p f s) = (if q = p then f (obj p s) else obj q s)"
  by (simp add: obj_def set_obj_def nth_list_update)

lemma set_obj_frame [simp]:
  "length (mh_objs (set_obj p f s)) = length (mh_objs s)" "mh_vms (set_obj p f s) = mh_vms s"
  "mh_timers (set_obj p f s) = mh_timers s" "mh_now (set_obj p f s) = mh_now s"
  "getLocked i (set_obj p f s) = getLocked i s"
  by (simp_all add: set_obj_def getLocked_def)

lemma getLocked_pointer:
  assumes "names_ok s" "getLocked i s = Some p"
  shows "p < length (mh_objs s)" "mm_id (obj p s) = i"
  using assms by (auto simp: names_ok_def getLocked_def dest!: map_of_SomeD)

lemma set_obj_ok:
  assumes "mock_ok s" "p < length (mh_objs s)" "machine_ok (mh_now s) (f (obj p s))" "mm_id (f (obj p s)) = mm_id (obj p s)"
    and "mm_state (f (obj p s)) = Shutting_down \<longrightarrow> mm_state (obj p s) = Shutting_down"
  shows "mock_ok (set_obj p f s)"
  using assms by (auto simp: mock_ok_def names_ok_def timers_ok_def obj_set_obj)

lemma machine_ok_simps [simp]:
  "machine_ok now m \<Longrightarrow> machine_ok now (powerOffLocked m)" "mm_id (powerOffLocked m) = mm_id m"
  "mm_state (powerOffLocked m) = Stopped"
  "machine_ok now m \<Longrightarrow> machine_ok now (apply_update r m)" "mm_id (apply_update r m) = mm_id m"
  "mm_state (apply_update r m) = mm_state m"
  by (auto simp: machine_ok_def powerOffLocked_def apply_update_def split: vm_state.splits)

lemma mock_vm_ok:
  assumes "mock_ok s"
    and "\<And>m. guard m = None \<Longrightarrow> machine_ok (mh_now s) m \<Longrightarrow> machine_ok (mh_now s) (f (mh_now s) m) \<and> mm_id (f (mh_now s) m) = mm_id m
      \<and> mm_state (f (mh_now s) m) \<noteq> Shutting_down"
  shows "mock_ok (snd (mock_vm E guard f i s))"
proof (cases "getLocked i s")
  case (Some p)
  have p: "p < length (mh_objs s)" using assms(1) Some getLocked_pointer by (simp add: mock_ok_def)
  with assms(1) have "machine_ok (mh_now s) (obj p s)" by (simp add: mock_ok_def)
  with Some p assms show ?thesis by (auto simp: mock_vm_def split: option.split intro!: set_obj_ok)
qed (use assms in \<open>simp add: mock_vm_def\<close>)

lemma shutdown_ok:
  assumes "mock_ok s"
  shows "mock_ok (snd (mock_ShutdownVirtualMachine E i s))"
proof (cases "getLocked i s")
  case (Some p)
  have p: "p < length (mh_objs s)" using assms Some getLocked_pointer by (simp add: mock_ok_def)
  with assms have "machine_ok (mh_now s) (obj p s)" by (simp add: mock_ok_def)
  then have m: "machine_ok (mh_now s) (obj p s)" .
  show ?thesis
  proof (cases "mm_state (obj p s) = Running")
    case True
    let ?s = "set_obj p (\<lambda>m. m\<lparr>mm_state := Shutting_down\<rparr>) s"
    have "snd (mock_ShutdownVirtualMachine E i s) = ?s\<lparr>mh_timers := mh_timers s @ [(p, mh_now s + shutdownGrace)]\<rparr>"
      using True Some by (simp add: mock_ShutdownVirtualMachine_def mock_vm_def)
    moreover have "machine_ok (mh_now s) ((obj p s)\<lparr>mm_state := Shutting_down\<rparr>)" using m True by (simp add: machine_ok_def)
    moreover have "obj q (?s\<lparr>mh_timers := ts\<rparr>) = (if q = p then (obj p s)\<lparr>mm_state := Shutting_down\<rparr> else obj q s)" for q ts
      using obj_set_obj [OF p] by (simp add: obj_def)
    ultimately show ?thesis using assms p
      by (auto simp: mock_ok_def names_ok_def timers_ok_def)
  next
    case False
    with Some assms show ?thesis by (simp add: mock_ShutdownVirtualMachine_def mock_vm_def)
  qed
qed (use assms in \<open>simp add: mock_ShutdownVirtualMachine_def mock_vm_def\<close>)

lemma act_ok: "mock_ok s \<Longrightarrow> mock_ok (snd (mock_act E a i s))"
  by (cases a)
    (auto simp: mock_act_def mock_StartVirtualMachine_def mock_RebootVirtualMachine_def mock_ForceStopVirtualMachine_def
      intro!: shutdown_ok mock_vm_ok, auto simp: machine_ok_def split: vm_state.splits if_splits)

lemma created_parts:
  "machine_ok now (created r n now)" "mm_id (created r n now) = vc_name r" "mm_state (created r n now) \<noteq> Shutting_down"
  by (simp_all add: created_def machine_ok_def mock_ip_def Let_def)

lemma create_ok:
  assumes "mock_ok s"
  shows "mock_ok (snd (mock_CreateVirtualMachine E r s))"
proof (cases "getLocked (vc_name r) s")
  case None
  then have n: "vc_name r \<notin> fst ` set (mh_vms s)" by (simp add: getLocked_def map_of_eq_None_iff)
  have p: "length (mh_objs s) \<notin> snd ` set (mh_vms s)" using assms by (auto simp: mock_ok_def names_ok_def)
  from assms n p None show ?thesis
    by (auto simp: mock_CreateVirtualMachine_def Let_def mock_ok_def names_ok_def timers_ok_def obj_def nth_append less_Suc_eq created_parts)
qed (use assms in \<open>simp add: mock_CreateVirtualMachine_def\<close>)

lemma delete_ok: "mock_ok s \<Longrightarrow> mock_ok (snd (mock_DeleteVirtualMachine i d s))"
  by (auto simp: mock_DeleteVirtualMachine_def mock_ok_def names_ok_def timers_ok_def obj_def distinct_map_filter split: option.split)

lemma update_ok:
  assumes "mock_ok s"
  shows "mock_ok (snd (mock_UpdateVirtualMachine E nets i r s))"
proof (cases "getLocked i s")
  case (Some p)
  have p: "p < length (mh_objs s)" using assms Some getLocked_pointer by (simp add: mock_ok_def)
  with assms have m: "machine_ok (mh_now s) (obj p s)" by (simp add: mock_ok_def)
  have ok1: "mock_ok (set_obj p (apply_update r) s)" using assms p m by (auto intro: set_obj_ok)
  moreover have "mock_ok (set_obj p (\<lambda>m. m\<lparr>mm_network := n\<rparr>) (set_obj p (apply_update r) s))" for n
    by (rule set_obj_ok [OF ok1]) (use p m in \<open>auto simp: obj_set_obj machine_ok_def apply_update_def split: vm_state.splits\<close>)
  ultimately show ?thesis using Some assms by (simp add: mock_UpdateVirtualMachine_def Let_def split: option.split)
qed (use assms in \<open>simp add: mock_UpdateVirtualMachine_def\<close>)

lemma wake_ok:
  assumes "mock_ok s" "k < length (mh_timers s)"
  shows "mock_ok (wake k s)"
proof -
  let ?p = "fst (mh_timers s ! k)"
  let ?s = "s\<lparr>mh_timers := take k (mh_timers s) @ drop (Suc k) (mh_timers s)\<rparr>"
  have p: "?p < length (mh_objs s)"
    using assms nth_mem [OF assms(2)] by (auto simp: mock_ok_def timers_ok_def case_prod_beta)
  have sub: "set (mh_timers ?s) \<subseteq> set (mh_timers s)" by (auto dest: in_set_takeD in_set_dropD)
  have split: "set (mh_timers s) = insert (mh_timers s ! k) (set (mh_timers ?s))"
    using arg_cong [OF id_take_nth_drop [OF assms(2)], of set] by simp
  have objs: "obj q ?s = obj q s" for q by (simp add: obj_def)
  have m: "machine_ok (mh_now s) (obj q s)" if "q < length (mh_objs s)" for q using assms(1) that by (simp add: mock_ok_def)
  have others: "q \<in> fst ` set (mh_timers ?s)" if "q < length (mh_objs s)" "q \<noteq> ?p" "mm_state (obj q s) = Shutting_down" for q
    using assms(1) that split by (auto simp: mock_ok_def timers_ok_def)
  have names: "names_ok ?s" using assms(1) objs by (simp add: mock_ok_def names_ok_def)
  have due: "q < length (mh_objs s) \<and> t \<le> mh_now s + shutdownGrace" if "(q, t) \<in> set (mh_timers ?s)" for q t
    using assms(1) that sub by (auto simp: mock_ok_def timers_ok_def)
  show ?thesis
  proof (cases "mm_state (obj ?p s) = Shutting_down")
    case True
    then have "wake k s = set_obj ?p powerOffLocked ?s" by (simp add: wake_def Let_def objs)
    moreover have "mock_ok (set_obj ?p powerOffLocked ?s)"
      using names p m others due by (auto simp: mock_ok_def names_ok_def timers_ok_def obj_set_obj objs)
    ultimately show ?thesis by simp
  next
    case False
    then have "wake k s = ?s" by (simp add: wake_def Let_def objs)
    moreover have "mock_ok ?s" using names m others due False by (auto simp: mock_ok_def timers_ok_def objs)
    ultimately show ?thesis by simp
  qed
qed

lemma new_ok: "mock_ok (mock_New now)"
  by (auto simp: mock_ok_def names_ok_def timers_ok_def machine_ok_def mock_New_def specs_def seed_def boots_def hours_def obj_def
      less_Suc_eq numeral_eq_Suc)

lemma machine_ok_later: "machine_ok now m \<Longrightarrow> 0 \<le> d \<Longrightarrow> machine_ok (now + d) m"
  by (auto simp: machine_ok_def split: vm_state.splits)

lemma mock_kept: "mock_reach s \<Longrightarrow> mock_ok s"
proof (induction rule: mock_reach.induct)
  case (pass s d)
  then show ?case by (auto simp: mock_ok_def names_ok_def timers_ok_def obj_def intro!: machine_ok_later)
qed (simp_all add: new_ok create_ok act_ok delete_ok update_ok wake_ok)


subsection \<open>The list\<close>

lemma str_less_irrefl [simp]: "\<not> str_less x x"
  by (induction x) auto

lemma str_less_trans: "str_less x y \<Longrightarrow> str_less y z \<Longrightarrow> str_less x z"
proof (induction x y arbitrary: z rule: str_less.induct)
  case (2 c y)
  then show ?case by (cases z) auto
next
  case (3 a x c y)
  then show ?case by (cases z) auto
qed simp

lemma str_less_total: "str_less x y \<or> x = y \<or> str_less y x"
proof (induction x y rule: str_less.induct)
  case (1 x)
  then show ?case by (cases x) auto
next
  case (3 a x c y)
  have "(of_char a :: nat) = of_char c \<Longrightarrow> a = c" by simp
  with 3 show ?case by (metis linorder_neqE_nat str_less.simps(3))
qed simp

lemma mset_sink: "mset (sink xs x) = add_mset x (mset xs)"
proof -
  have "mset xs = mset (rev xs)" by simp
  also have "\<dots> = mset (takeWhile (str_less x) (rev xs)) + mset (dropWhile (str_less x) (rev xs))"
    by (metis mset_append takeWhile_dropWhile_id)
  finally show ?thesis by (simp add: sink_def)
qed

lemma sorted_sink:
  assumes "sorted_wrt (\<lambda>a b. \<not> str_less b a) xs"
  shows "sorted_wrt (\<lambda>a b. \<not> str_less b a) (sink xs x)"
proof -
  define A B where "A = rev (dropWhile (str_less x) (rev xs))" and "B = rev (takeWhile (str_less x) (rev xs))"
  have xs: "xs = A @ B" unfolding A_def B_def by (metis rev_append rev_swap takeWhile_dropWhile_id)
  have "sorted_wrt (\<lambda>a b. \<not> str_less b a) (A @ B)" using assms xs by (rule subst [rotated])
  then have sorted: "sorted_wrt (\<lambda>a b. \<not> str_less b a) A" "sorted_wrt (\<lambda>a b. \<not> str_less b a) B" by (simp_all add: sorted_wrt_append)
  have B: "\<forall>b \<in> set B. str_less x b" by (auto simp: B_def dest: set_takeWhileD)
  have A: "\<forall>a \<in> set A. \<not> str_less x a"
  proof (cases "dropWhile (str_less x) (rev xs)")
    case Nil
    then have "A = []" by (simp only: A_def rev.simps)
    then show ?thesis by simp
  next
    case (Cons z zs)
    then have "\<not> str_less x z" using hd_dropWhile [of "str_less x" "rev xs"] by simp
    moreover have "sorted_wrt (\<lambda>a b. \<not> str_less b a) (rev zs @ [z])" using sorted(1) by (simp only: A_def Cons rev.simps)
    then have "\<not> str_less z a" if "a \<in> set zs" for a using that by (simp add: sorted_wrt_append)
    ultimately have "\<not> str_less x a" if "a \<in> set (z # zs)" for a
      using that str_less_total [of x z] str_less_trans [of z x a] by auto
    then show ?thesis using Cons by (simp add: A_def)
  qed
  have "\<forall>b \<in> set B. \<not> str_less b x" using B str_less_trans str_less_irrefl by blast
  moreover have "sink xs x = A @ x # B" by (simp add: sink_def A_def B_def)
  ultimately show ?thesis using sorted A B str_less_trans str_less_irrefl by (auto simp: sorted_wrt_append) blast
qed

lemma sortStrings_sorts:
  "mset (sortStrings xs) = mset xs \<and> sorted_wrt (\<lambda>a b. \<not> str_less b a) (sortStrings xs)"
proof (induction xs rule: rev_induct)
  case (snoc x xs)
  then show ?case by (simp add: sortStrings_def mset_sink sorted_sink)
qed (simp add: sortStrings_def)

text \<open>
  The machines of the simulated host after any history: the list has every machine once, in the order of
  the names, and shows each as it is asked for by its name; a machine is running, stopped or shutting
  down, has an uptime (never negative) unless it is stopped, and an address exactly while it runs.
\<close>

theorem mock_machines_shown:
  assumes "mock_reach s"
  shows "sorted_wrt (\<lambda>a b. str_less (v_id a) (v_id b)) (mock_ListVirtualMachines E s)
    \<and> (\<forall>i v. mock_GetVirtualMachine E i s = Inr v \<longleftrightarrow> v \<in> set (mock_ListVirtualMachines E s) \<and> v_id v = i)
    \<and> (\<forall>v \<in> set (mock_ListVirtualMachines E s). v_state v \<in> {Running, Stopped, Shutting_down}
         \<and> (case v_uptimeSeconds v of None \<Rightarrow> v_state v = Stopped | Some u \<Rightarrow> v_state v \<noteq> Stopped \<and> 0 \<le> u)
         \<and> (v_ipAddress v = None \<longleftrightarrow> v_state v \<noteq> Running))"
proof (intro conjI allI ballI)
  have ok: "mock_ok s" using assms by (rule mock_kept)
  then have names: "names_ok s" by (simp add: mock_ok_def)
  define ids where "ids = sortStrings (map fst (mh_vms s))"
  have sorts: "mset ids = mset (map fst (mh_vms s))" "sorted_wrt (\<lambda>a b. \<not> str_less b a) ids"
    using sortStrings_sorts by (auto simp: ids_def)
  have dist: "distinct ids" using names sorts(1) by (metis mset_eq_imp_distinct_iff names_ok_def)
  have list: "mock_ListVirtualMachines E s = map (\<lambda>i. mock_toModel E (mh_now s) (obj (the (getLocked i s)) s)) ids"
    by (simp add: mock_ListVirtualMachines_def ids_def)
  have ids: "i \<in> set ids \<longleftrightarrow> getLocked i s \<noteq> None" for i
    using arg_cong [OF sorts(1), of set_mset] by (simp add: getLocked_def map_of_eq_None_iff del: mset_map)
  have model_id: "v_id (mock_toModel E (mh_now s) (obj (the (getLocked i s)) s)) = i" if "i \<in> set ids" for i
    using that ids getLocked_pointer(2) [OF names] by (auto simp: mock_toModel_def Let_def)
  have strict: "sorted_wrt str_less ids"
    using sorts(2) dist str_less_total by (auto simp: sorted_wrt_iff_nth_less nth_eq_iff_index_eq) (metis less_trans nat_neq_iff nth_eq_iff_index_eq)
  show "sorted_wrt (\<lambda>a b. str_less (v_id a) (v_id b)) (mock_ListVirtualMachines E s)"
    unfolding list sorted_wrt_map by (rule sorted_wrt_mono_rel [OF _ strict]) (simp add: model_id)
  have mem: "v \<in> set (mock_ListVirtualMachines E s) \<longleftrightarrow> (\<exists>j q. getLocked j s = Some q \<and> v = mock_toModel E (mh_now s) (obj q s))" for v
    unfolding list using ids by (auto simp: image_iff Bex_def) metis
  have named: "getLocked j s = Some q \<Longrightarrow> v_id (mock_toModel E (mh_now s) (obj q s)) = j" for j q
    using getLocked_pointer(2) [OF names] by (simp add: mock_toModel_def Let_def)
  show "mock_GetVirtualMachine E i s = Inr v \<longleftrightarrow> v \<in> set (mock_ListVirtualMachines E s) \<and> v_id v = i" for i v
    unfolding mem using named by (auto simp: mock_GetVirtualMachine_def split: option.splits)
  fix v assume "v \<in> set (mock_ListVirtualMachines E s)"
  then obtain i p where i: "getLocked i s = Some p" "v = mock_toModel E (mh_now s) (obj p s)"
    unfolding list using ids by auto
  then have m: "machine_ok (mh_now s) (obj p s)" using ok getLocked_pointer(1) [OF names] by (auto simp: mock_ok_def)
  show "v_state v \<in> {Running, Stopped, Shutting_down}"
    and "case v_uptimeSeconds v of None \<Rightarrow> v_state v = Stopped | Some u \<Rightarrow> v_state v \<noteq> Stopped \<and> 0 \<le> u"
    and "v_ipAddress v = None \<longleftrightarrow> v_state v \<noteq> Running"
    using m i(2) by (auto simp: machine_ok_def mock_toModel_def Let_def split: vm_state.splits)
qed

definition plain_env :: mock_env where
  "plain_env = \<lparr>me_used = \<lambda>i n. 0, me_metrics = \<lambda>m t. \<lparr>m_cpuPercent = None, m_memoryUsedBytes = None, m_networkRx = None,
     m_networkTx = None, m_sampledAt = ''''\<rparr>, me_time = \<lambda>t. ''t''\<rparr>"

theorem mock_machines_shown_witness:
  "sorted_wrt (\<lambda>a b. str_less (v_id a) (v_id b)) (mock_ListVirtualMachines plain_env (mock_New 0))
   \<and> map v_id (mock_ListVirtualMachines plain_env (mock_New 0)) = [''database01'', ''erp01'', ''monitoring01'', ''web01'']"
proof -
  have "map v_id (mock_ListVirtualMachines plain_env (mock_New 0)) = [''database01'', ''erp01'', ''monitoring01'', ''web01'']" by code_simp
  with mock_machines_shown [OF mock_reach.new [of 0], of plain_env] show ?thesis by simp
qed

subsection \<open>A shutdown ends\<close>

text \<open>Every goroutine wakes, one after the other.\<close>

definition settle :: "mock_host \<Rightarrow> mock_host" where
  "settle s = (wake 0 ^^ length (mh_timers s)) s"

lemma settled:
  assumes "mock_reach s" "\<forall>(p, t) \<in> set (mh_timers s). t \<le> mh_now s" "length (mh_timers s) = n"
  defines "s' \<equiv> (wake 0 ^^ n) s"
  shows "mock_reach s' \<and> mh_timers s' = [] \<and> mh_now s' = mh_now s \<and> mh_vms s' = mh_vms s \<and> length (mh_objs s') = length (mh_objs s)
    \<and> (\<forall>p < length (mh_objs s). obj p s' = (if mm_state (obj p s) = Shutting_down then powerOffLocked (obj p s) else obj p s))"
  using assms(1-3) unfolding s'_def
proof (induction n arbitrary: s)
  case 0
  then have "timers_ok s" using mock_kept [of s] by (simp add: mock_ok_def)
  with 0 show ?case by (auto simp: timers_ok_def)
next
  case (Suc n)
  let ?w = "wake 0 s"
  obtain q t ts where ts: "mh_timers s = (q, t) # ts" using Suc.prems(3) by (cases "mh_timers s") auto
  have q: "q < length (mh_objs s)" using mock_kept [OF Suc.prems(1)] ts by (auto simp: mock_ok_def timers_ok_def)
  have objs: "obj p (s\<lparr>mh_timers := x\<rparr>) = obj p s" for p x by (simp add: obj_def)
  have w: "mh_timers ?w = ts" "mh_now ?w = mh_now s" "mh_vms ?w = mh_vms s" "length (mh_objs ?w) = length (mh_objs s)"
    by (simp_all add: wake_def ts Let_def)
  have o: "obj p ?w = (if p = q \<and> mm_state (obj p s) = Shutting_down then powerOffLocked (obj p s) else obj p s)" for p
    using q by (auto simp: wake_def ts Let_def objs obj_set_obj)
  have "mock_reach ?w" using Suc.prems(1,2) ts by (intro mock_reach.wakes) auto
  from Suc.IH [OF this] Suc.prems(2,3) ts w have IH: "mock_reach ((wake 0 ^^ n) ?w) \<and> mh_timers ((wake 0 ^^ n) ?w) = []
      \<and> mh_now ((wake 0 ^^ n) ?w) = mh_now s \<and> mh_vms ((wake 0 ^^ n) ?w) = mh_vms s
      \<and> length (mh_objs ((wake 0 ^^ n) ?w)) = length (mh_objs s)
      \<and> (\<forall>p < length (mh_objs s). obj p ((wake 0 ^^ n) ?w) = (if mm_state (obj p ?w) = Shutting_down then powerOffLocked (obj p ?w) else obj p ?w))"
    by simp
  moreover have "(wake 0 ^^ Suc n) s = (wake 0 ^^ n) ?w" by (simp add: funpow_swap1)
  ultimately show ?case using o by auto
qed


definition shutting :: mock_host where
  "shutting = snd (mock_act plain_env AShutdown ''web01'' (mock_New 0))"


text \<open>
  A timer can end a shutdown that it was not started for: the machine is stopped by force and started
  again, and its second shutdown is over a second after it was asked for.
\<close>

lemma stale_timer:
  "\<exists>s k. mock_reach s \<and> k < length (mh_timers s) \<and> snd (mh_timers s ! k) \<le> mh_now s
     \<and> (\<exists>p. getLocked ''web01'' s = Some p \<and> mm_state (obj p s) = Shutting_down \<and> mm_state (obj p (wake k s)) = Stopped
       \<and> (p, mh_now s + 2000) \<in> set (mh_timers s))"
proof -
  let ?later = "\<lambda>d s. s\<lparr>mh_now := mh_now s + d\<rparr>"
  let ?s = "?later 1000 (snd (mock_act plain_env AShutdown ''web01'' (?later 2000 (snd (mock_act plain_env AStart ''web01''
    (snd (mock_act plain_env AStop ''web01'' shutting)))))))"
  have "mock_reach ?s" unfolding shutting_def by (intro mock_reach.pass mock_reach.act mock_reach.new) simp_all
  moreover have "0 < length (mh_timers ?s) \<and> snd (mh_timers ?s ! 0) \<le> mh_now ?s \<and> getLocked ''web01'' ?s = Some 1
    \<and> mm_state (obj 1 ?s) = Shutting_down \<and> mm_state (obj 1 (wake 0 ?s)) = Stopped \<and> (1, mh_now ?s + 2000) \<in> set (mh_timers ?s)"
    by code_simp
  ultimately show ?thesis by blast
qed

text \<open>
  The address of a new machine follows from the number of machines, so that it repeats after a deletion.
\<close>

lemma addresses_repeat:
  assumes "names_ok s" "(i, p) \<in> set (mh_vms s)" "mm_state (obj p s) = Stopped" "getLocked (vc_name r) s = None"
  shows "let s1 = snd (mock_CreateVirtualMachine E r s); s2 = snd (mock_DeleteVirtualMachine i True s1);
     m = obj (length (mh_objs s)) s1; r2 = r\<lparr>vc_name := n\<rparr>; s3 = snd (mock_CreateVirtualMachine E r2 s2) in
     n \<noteq> vc_name r \<longrightarrow> getLocked n s2 = None \<longrightarrow>
       mm_mac (obj (Suc (length (mh_objs s))) s3) = mm_mac m \<and> mm_ip (obj (Suc (length (mh_objs s))) s3) = mm_ip m"
proof -
  have i: "getLocked i s = Some p" using assms(1,2) by (simp add: names_ok_def getLocked_def)
  then have ne: "i \<noteq> vc_name r" using assms(4) by auto
  have p: "p < length (mh_objs s)" using assms(1) i by (rule getLocked_pointer)
  have "length (filter (\<lambda>x. fst x \<noteq> i) (mh_vms s)) = length (mh_vms s) - 1"
  proof -
    obtain xs ys where xy: "mh_vms s = xs @ (i, p) # ys" using assms(2) by (meson split_list)
    with assms(1) have "i \<notin> fst ` set xs" "i \<notin> fst ` set ys" by (auto simp: names_ok_def)
    then have "filter (\<lambda>x. fst x \<noteq> i) xs = xs" "filter (\<lambda>x. fst x \<noteq> i) ys = ys" by (force simp: filter_id_conv)+
    with xy show ?thesis by simp
  qed
  moreover have "0 < length (mh_vms s)" using assms(2) by auto
  ultimately show ?thesis using assms i ne p
    by (auto simp: mock_CreateVirtualMachine_def mock_DeleteVirtualMachine_def Let_def getLocked_def obj_def nth_append created_def)
qed


subsection \<open>The provider that calls libvirt\<close>

text \<open>
  What the provider asks of libvirt and of the file system, over the state \<open>'h\<close> of the host. A call that can
  fail gives \<open>Some\<close> text of its error; volumes are named by their key. The connection
  itself is taken to be there.
\<close>

record 'h dom_calls =
  dc_found :: "string \<Rightarrow> 'h \<Rightarrow> bool"
  dc_state :: "string \<Rightarrow> 'h \<Rightarrow> string + domain_state"
  dc_doc :: "string \<Rightarrow> 'h \<Rightarrow> string + domain_doc"
  dc_block :: "string \<Rightarrow> 'h \<Rightarrow> string \<Rightarrow> (int \<times> int) option"
  dc_agent :: "string \<Rightarrow> 'h \<Rightarrow> string option"
  dc_metrics :: "string \<Rightarrow> 'h \<Rightarrow> vm_metrics option"
  dc_create :: "string \<Rightarrow> 'h \<Rightarrow> string option \<times> 'h"
  dc_resume :: "string \<Rightarrow> 'h \<Rightarrow> string option \<times> 'h"
  dc_shutdown :: "string \<Rightarrow> 'h \<Rightarrow> string option \<times> 'h"
  dc_reboot :: "string \<Rightarrow> 'h \<Rightarrow> string option \<times> 'h"
  dc_destroy :: "string \<Rightarrow> 'h \<Rightarrow> string option \<times> 'h"
  dc_undefine_flags :: "string \<Rightarrow> 'h \<Rightarrow> string option \<times> 'h"
  dc_undefine :: "string \<Rightarrow> 'h \<Rightarrow> string option \<times> 'h"
  dc_define :: "domain_doc \<Rightarrow> 'h \<Rightarrow> string option \<times> 'h"
  dc_volume_at :: "string \<Rightarrow> 'h \<Rightarrow> string option"
  dc_create_volume :: "string \<Rightarrow> string \<Rightarrow> int \<Rightarrow> 'h \<Rightarrow> (string + string) \<times> 'h"
  dc_volume_path :: "string \<Rightarrow> 'h \<Rightarrow> string + string"
  dc_delete_volume :: "string \<Rightarrow> 'h \<Rightarrow> string option \<times> 'h"
  dc_pool :: "string \<Rightarrow> 'h \<Rightarrow> bool"
  dc_pool_active :: "string \<Rightarrow> 'h \<Rightarrow> bool option"
  dc_pool_refresh :: "string \<Rightarrow> 'h \<Rightarrow> 'h"
  dc_pool_available :: "string \<Rightarrow> 'h \<Rightarrow> int option"
  dc_network :: "string \<Rightarrow> 'h \<Rightarrow> bool"
  dc_iso :: "string \<Rightarrow> 'h \<Rightarrow> string option"
  dc_iso_warning :: "string \<Rightarrow> string"
  dc_features :: "'h \<Rightarrow> host_features"
  dc_set_vcpus :: "string \<Rightarrow> int \<Rightarrow> 'h \<Rightarrow> string option \<times> 'h"
  dc_set_memory :: "string \<Rightarrow> int \<Rightarrow> 'h \<Rightarrow> string option \<times> 'h"
  dc_update_nic :: "string \<Rightarrow> nic_doc \<Rightarrow> 'h \<Rightarrow> string option \<times> 'h"
  dc_inactive :: "string \<Rightarrow> 'h \<Rightarrow> string + domain_doc"
  dc_attach :: "string \<Rightarrow> disk_doc \<Rightarrow> 'h \<Rightarrow> string option \<times> 'h"
  dc_detach :: "string \<Rightarrow> string \<times> string \<Rightarrow> 'h \<Rightarrow> 'h"

text \<open>
  \<open>asActionableError\<close>: the errors of a start that an operator can act on, recognised by their text. \<open>scan\<close>
  is the leftmost match of a pattern.
\<close>

fun scan :: "(string \<Rightarrow> 'a option) \<Rightarrow> string \<Rightarrow> 'a option" where
  "scan f [] = f []"
| "scan f (c # s) = (case f (c # s) of Some x \<Rightarrow> Some x | None \<Rightarrow> scan f s)"

text \<open>A quoted part between two fixed texts: \<open>a([^']*)b\<close>.\<close>

definition quoted_part :: "string \<Rightarrow> string \<Rightarrow> string \<Rightarrow> string option" where
  "quoted_part a b s = (if is_prefix a s then
     let t = drop (length a) s; x = takeWhile (\<lambda>c. c \<noteq> CHR 0x27) t in
     (if is_prefix b (drop (length x) t) then Some x else None) else None)"

definition networkInactive :: "string \<Rightarrow> string option" where
  "networkInactive = scan (quoted_part (''network '' @ [CHR 0x27]) (CHR 0x27 # '' is not active''))"

definition kvmReason :: "string \<Rightarrow> string option" where
  "kvmReason = scan (\<lambda>s.
     if is_prefix ''failed to initialize kvm'' s \<or> is_prefix ''/dev/kvm'' s then Some (takeWhile (\<lambda>c. c \<noteq> CHR 0x0A) s)
     else if is_prefix ''KVM is not available'' s then Some ''KVM is not available'' else None)"

definition cannotAccess :: "string \<Rightarrow> string option" where
  "cannotAccess = scan (\<lambda>s. case quoted_part (''Cannot access storage file '' @ [CHR 0x27]) [CHR 0x27] s of
     Some x \<Rightarrow> Some x | None \<Rightarrow> quoted_part (''Cannot access backing file '' @ [CHR 0x27]) [CHR 0x27] s)"

text \<open>\<open>hint\<close> is what the mount table of the backend tells of a path (\<open>visibilityHint\<close>).\<close>

definition asStorageUnavailable :: "(string \<Rightarrow> string) \<Rightarrow> string \<Rightarrow> provider_error" where
  "asStorageUnavailable hint e = (case cannotAccess e of
     Some path \<Rightarrow> ErrStorageUnavailable (''the hypervisor cannot access '' @ go_quote path @
       (if hint path \<noteq> '''' then '' '' @ em_dash @ '' '' @ hint path else ''''))
   | None \<Rightarrow> ErrOther e)"

definition asActionableError :: "(string \<Rightarrow> string) \<Rightarrow> string \<Rightarrow> provider_error" where
  "asActionableError hint e = (case networkInactive e of
     Some n \<Rightarrow> ErrNetworkInactive (''the virtual network '' @ go_quote n @ '' is not active '' @ em_dash @
       '' start it (Networks page or `virsh net-start '' @ n @ ''`) before powering on this virtual machine'')
   | None \<Rightarrow> (case kvmReason e of
       Some r \<Rightarrow> ErrKVMUnavailable (''hardware virtualization (KVM) is not available to the hypervisor'' @
         (if r \<noteq> '''' then '' '' @ em_dash @ '' '' @ r else '''') @
         ''. Run the backend in mock mode, or enable virtualization in the BIOS / load the kvm module on the host'')
     | None \<Rightarrow> asStorageUnavailable hint e))"

definition lv_GetVirtualMachine :: "'h dom_calls \<Rightarrow> string \<Rightarrow> 'h \<Rightarrow> provider_error + vm" where
  "lv_GetVirtualMachine L i h =
     (if \<not> dc_found L i h then Inl ErrVMNotFound
      else (case dc_doc L i h of
        Inl e \<Rightarrow> Inl (ErrOther e)
      | Inr d \<Rightarrow> (case dc_state L i h of
          Inl e \<Rightarrow> Inl (ErrOther e)
        | Inr x \<Rightarrow> Inr (domainToModel (dc_block L i h) (dc_agent L i h) (dc_metrics L i h) i x d))))"

text \<open>A call of libvirt with its error rendered by \<open>err\<close>.\<close>

definition failing :: "(string \<Rightarrow> provider_error) \<Rightarrow> (string \<Rightarrow> 'h \<Rightarrow> string option \<times> 'h) \<Rightarrow> string \<Rightarrow> 'h \<Rightarrow> provider_error option \<times> 'h" where
  "failing err f i h = (case f i h of (e, h') \<Rightarrow> (map_option err e, h'))"

text \<open>A guard on the state, a call, then the machine as it is.\<close>

definition lv_vm :: "'h dom_calls \<Rightarrow> (domain_state \<Rightarrow> string option) \<Rightarrow>
    (domain_state \<Rightarrow> string \<Rightarrow> 'h \<Rightarrow> provider_error option \<times> 'h) \<Rightarrow> string \<Rightarrow> 'h \<Rightarrow> (provider_error + vm) \<times> 'h" where
  "lv_vm L guard f i h =
     (if \<not> dc_found L i h then (Inl ErrVMNotFound, h)
      else (case dc_state L i h of
        Inl e \<Rightarrow> (Inl (ErrOther e), h)
      | Inr x \<Rightarrow> (case guard x of
          Some m \<Rightarrow> (Inl (invalid_vm m), h)
        | None \<Rightarrow> (case f x i h of
            (Some e, h') \<Rightarrow> (Inl e, h')
          | (None, h') \<Rightarrow> (lv_GetVirtualMachine L i h', h')))))"

text \<open>Only the error of a boot is made actionable, not that of a resumption.\<close>

definition lv_StartVirtualMachine :: "'h dom_calls \<Rightarrow> (string \<Rightarrow> string) \<Rightarrow> string \<Rightarrow> 'h \<Rightarrow> (provider_error + vm) \<times> 'h" where
  "lv_StartVirtualMachine L hint = lv_vm L
     (\<lambda>x. if x \<in> {DOMAIN_RUNNING, DOMAIN_BLOCKED} then Some ''virtual machine is already running'' else None)
     (\<lambda>x. if x \<in> {DOMAIN_PAUSED, DOMAIN_PMSUSPENDED} then failing ErrOther (dc_resume L)
          else failing (asActionableError hint) (dc_create L))"

definition lv_ShutdownVirtualMachine :: "'h dom_calls \<Rightarrow> string \<Rightarrow> 'h \<Rightarrow> (provider_error + vm) \<times> 'h" where
  "lv_ShutdownVirtualMachine L = lv_vm L
     (\<lambda>x. if x \<notin> {DOMAIN_RUNNING, DOMAIN_BLOCKED, DOMAIN_PAUSED} then Some ''cannot gracefully shut down a stopped virtual machine'' else None)
     (\<lambda>x. failing ErrOther (dc_shutdown L))"

definition lv_RebootVirtualMachine :: "'h dom_calls \<Rightarrow> string \<Rightarrow> 'h \<Rightarrow> (provider_error + vm) \<times> 'h" where
  "lv_RebootVirtualMachine L = lv_vm L
     (\<lambda>x. if x \<notin> {DOMAIN_RUNNING, DOMAIN_BLOCKED} then Some ''cannot reboot a stopped virtual machine'' else None)
     (\<lambda>x. failing ErrOther (dc_reboot L))"

definition lv_ForceStopVirtualMachine :: "'h dom_calls \<Rightarrow> string \<Rightarrow> 'h \<Rightarrow> (provider_error + vm) \<times> 'h" where
  "lv_ForceStopVirtualMachine L = lv_vm L
     (\<lambda>x. if x = DOMAIN_SHUTOFF then Some ''virtual machine is already stopped'' else None)
     (\<lambda>x. failing ErrOther (dc_destroy L))"

definition lv_act :: "'h dom_calls \<Rightarrow> (string \<Rightarrow> string) \<Rightarrow> power_action \<Rightarrow> string \<Rightarrow> 'h \<Rightarrow> (provider_error + vm) \<times> 'h" where
  "lv_act L hint a = (case a of AStart \<Rightarrow> lv_StartVirtualMachine L hint | AShutdown \<Rightarrow> lv_ShutdownVirtualMachine L
     | AReboot \<Rightarrow> lv_RebootVirtualMachine L | AStop \<Rightarrow> lv_ForceStopVirtualMachine L)"

text \<open>The volumes of the disks, one by one; one that is in no pool is passed over, a failure ends it.\<close>

fun delete_volumes :: "'h dom_calls \<Rightarrow> string list \<Rightarrow> 'h \<Rightarrow> provider_error option \<times> 'h" where
  "delete_volumes L [] h = (None, h)"
| "delete_volumes L (p # ps) h = (case dc_volume_at L p h of
     None \<Rightarrow> delete_volumes L ps h
   | Some k \<Rightarrow> (case dc_delete_volume L k h of
       (Some e, h') \<Rightarrow> (Some (ErrOther (''delete volume '' @ p @ '': '' @ e)), h')
     | (None, h') \<Rightarrow> delete_volumes L ps h'))"

definition disk_paths :: "domain_doc \<Rightarrow> string list" where
  "disk_paths d = map xd_file (filter (\<lambda>x. xd_device x = ''disk'' \<and> xd_file x \<noteq> '''') (xo_disks d))"

definition lv_DeleteVirtualMachine :: "'h dom_calls \<Rightarrow> string \<Rightarrow> bool \<Rightarrow> 'h \<Rightarrow> (provider_error + unit) \<times> 'h" where
  "lv_DeleteVirtualMachine L i deleteDisks h =
     (if \<not> dc_found L i h then (Inl ErrVMNotFound, h)
      else (case dc_state L i h of
        Inl e \<Rightarrow> (Inl (ErrOther e), h)
      | Inr x \<Rightarrow>
          if x \<notin> {DOMAIN_SHUTOFF, DOMAIN_SHUTDOWN, DOMAIN_CRASHED}
          then (Inl (invalid_vm ''cannot delete a virtual machine that is not stopped''), h)
          else (case (if deleteDisks then map_sum id disk_paths (dc_doc L i h) else Inr []) of
            Inl e \<Rightarrow> (Inl (ErrOther e), h)
          | Inr paths \<Rightarrow>
              (case (case dc_undefine_flags L i h of (Some e, h1) \<Rightarrow> dc_undefine L i h1 | (None, h1) \<Rightarrow> (None, h1)) of
                 (Some e, h2) \<Rightarrow> (Inl (ErrOther (''undefine domain: '' @ e)), h2)
               | (None, h2) \<Rightarrow> (case delete_volumes L paths h2 of
                   (Some e, h3) \<Rightarrow> (Inl e, h3) | (None, h3) \<Rightarrow> (Inr (), h3))))))"

subsection \<open>Its update and its creation\<close>

text \<open>\<open>setCDROM\<close>: the CD-ROM that is there goes, then the new one is attached; an empty path only detaches.\<close>

definition lv_boot_order :: "'h dom_calls \<Rightarrow> string \<Rightarrow> bool \<Rightarrow> 'h \<Rightarrow> provider_error option \<times> 'h" where
  "lv_boot_order L i first h = (case dc_inactive L i h of
     Inl e \<Rightarrow> (Some (ErrOther (''read domain xml: '' @ e)), h)
   | Inr d \<Rightarrow> (case setOSBootOrder first d of
       None \<Rightarrow> (None, h)
     | Some d' \<Rightarrow> if d' = d then (None, h)
         else failing (\<lambda>e. ErrOther (''update boot order: '' @ e)) (\<lambda>i. dc_define L d') i h))"

definition lv_setCDROM :: "'h dom_calls \<Rightarrow> (string \<Rightarrow> string) \<Rightarrow> string \<Rightarrow> string \<Rightarrow> 'h \<Rightarrow> provider_error option \<times> 'h" where
  "lv_setCDROM L hint i path h = (case dc_inactive L i h of
     Inl e \<Rightarrow> (Some (ErrOther (''read domain xml: '' @ e)), h)
   | Inr d \<Rightarrow>
       let h1 = (if fst (currentCDROM d) = '''' then h else dc_detach L i (currentCDROM d) h) in
       if path = '''' then lv_boot_order L i False h1
       else (case dc_inactive L i h1 of
          Inl e \<Rightarrow> (Some (ErrOther (''read domain xml: '' @ e)), h1)
        | Inr d1 \<Rightarrow> (case attach_doc d1 path of
            None \<Rightarrow> (Some (ErrOther ''no free target device name for a cdrom''), h1)
          | Some x \<Rightarrow> (case dc_attach L i x h1 of
              (Some e, h2) \<Rightarrow> (Some (case asStorageUnavailable hint e of ErrOther t \<Rightarrow> ErrOther (''attach cdrom: '' @ t) | y \<Rightarrow> y), h2)
            | (None, h2) \<Rightarrow> lv_boot_order L i True h2))))"

text \<open>The path of an ISO of the library, for a name that is not empty.\<close>

definition lv_iso_path :: "'h dom_calls \<Rightarrow> string \<Rightarrow> string \<Rightarrow> 'h \<Rightarrow> provider_error + string" where
  "lv_iso_path L what f h =
     (if f = '''' then Inr ''''
      else if \<not> rx_test ValidID f then Inl (ErrOther (''invalid argument: invalid '' @ what @ '' filename''))
      else (case dc_iso L f h of Some p \<Rightarrow> Inr p | None \<Rightarrow> Inl ErrIsoNotFound))"

text \<open>Steps that go on only when the one before has not failed.\<close>

definition and_then :: "provider_error option \<times> 'h \<Rightarrow> ('h \<Rightarrow> provider_error option \<times> 'h) \<Rightarrow> provider_error option \<times> 'h" where
  "and_then r k = (case r of (Some e, h) \<Rightarrow> (Some e, h) | (None, h) \<Rightarrow> k h)"

definition lv_set_size :: "'h dom_calls \<Rightarrow> string \<Rightarrow> domain_state \<Rightarrow> vm_update \<Rightarrow> 'h \<Rightarrow> provider_error option \<times> 'h" where
  "lv_set_size L i x r h =
     (if vu_vcpus r = None \<and> vu_memoryBytes r = None then (None, h)
      else if x \<noteq> DOMAIN_SHUTOFF
      then (Some (invalid_vm ''vCPU and memory changes require the virtual machine to be stopped''), h)
      else and_then (case vu_vcpus r of None \<Rightarrow> (None, h)
                      | Some n \<Rightarrow> failing (\<lambda>e. ErrOther (''set vcpus: '' @ e)) (\<lambda>i. dc_set_vcpus L i \<lfloor>n\<rfloor>) i h)
             (\<lambda>h. case vu_memoryBytes r of None \<Rightarrow> (None, h)
                | Some m \<Rightarrow> failing (\<lambda>e. ErrOther (''set memory: '' @ e)) (\<lambda>i. dc_set_memory L i m) i h))"

definition lv_set_network :: "'h dom_calls \<Rightarrow> string \<Rightarrow> domain_state \<Rightarrow> vm_update \<Rightarrow> 'h \<Rightarrow> provider_error option \<times> 'h" where
  "lv_set_network L i x r h = (case vu_networkId r of
     None \<Rightarrow> (None, h)
   | Some n \<Rightarrow>
       if x \<noteq> DOMAIN_SHUTOFF then (Some (invalid_vm ''network changes require the virtual machine to be stopped''), h)
       else if \<not> dc_network L n h then (Some ErrNetworkNotFound, h)
       else (case dc_inactive L i h of
          Inl e \<Rightarrow> (Some (ErrOther (''read domain xml: '' @ e)), h)
        | Inr d \<Rightarrow> (case setNICNetwork d n of
            Inl e \<Rightarrow> (Some e, h)
          | Inr c \<Rightarrow> failing (\<lambda>e. ErrOther (''update interface: '' @ e)) (\<lambda>i. dc_update_nic L i c) i h)))"

definition lv_set_iso :: "'h dom_calls \<Rightarrow> (string \<Rightarrow> string) \<Rightarrow> string \<Rightarrow> vm_update \<Rightarrow> 'h \<Rightarrow> provider_error option \<times> 'h" where
  "lv_set_iso L hint i r h = (case vu_isoId r of
     None \<Rightarrow> (None, h)
   | Some f \<Rightarrow> (case lv_iso_path L ''ISO'' f h of
       Inl e \<Rightarrow> (Some e, h) | Inr path \<Rightarrow> lv_setCDROM L hint i path h))"

text \<open>The state is read before the changes, for any of them; with nothing to change it is not read.\<close>

definition lv_UpdateVirtualMachine :: "'h dom_calls \<Rightarrow> (string \<Rightarrow> string) \<Rightarrow> string \<Rightarrow> vm_update \<Rightarrow> 'h \<Rightarrow> (provider_error + vm) \<times> 'h" where
  "lv_UpdateVirtualMachine L hint i r h =
     (if \<not> dc_found L i h then (Inl ErrVMNotFound, h)
      else (case (if vu_vcpus r = None \<and> vu_memoryBytes r = None \<and> vu_networkId r = None \<and> vu_isoId r = None
                  then Inr DOMAIN_NOSTATE else dc_state L i h) of
        Inl e \<Rightarrow> (Inl (ErrOther (''read domain state: '' @ e)), h)
      | Inr x \<Rightarrow> (case and_then (lv_set_size L i x r h) (\<lambda>h. and_then (lv_set_network L i x r h) (lv_set_iso L hint i r)) of
          (Some e, h') \<Rightarrow> (Inl e, h')
        | (None, h') \<Rightarrow> (lv_GetVirtualMachine L i h', h'))))"

text \<open>The free space of an active pool, as libvirt tells it after a refresh.\<close>

definition lv_pool_check :: "'h dom_calls \<Rightarrow> disk_create \<Rightarrow> 'h \<Rightarrow> provider_error option \<times> 'h" where
  "lv_pool_check L d h =
     (if \<not> dc_pool L (dc_poolId d) h then (Some ErrPoolNotFound, h)
      else (case dc_pool_active L (dc_poolId d) h of
        None \<Rightarrow> (None, h)
      | Some a \<Rightarrow>
          let h1 = dc_pool_refresh L (dc_poolId d) h in
          (case dc_pool_available L (dc_poolId d) h1 of
             Some n \<Rightarrow> if a \<and> 0 < dc_sizeBytes d \<and> n < dc_sizeBytes d
               then (Some (ErrPoolInsufficientSpace (''insufficient space in storage pool: disk size ('' @ int_str (dc_sizeBytes d) @
                 '' bytes) exceeds the free space in pool '' @ go_quote (dc_poolId d) @ '' ('' @ int_str n @ '' bytes available)'')), h1)
               else (None, h1)
           | None \<Rightarrow> (None, h1))))"

definition volume_name :: "vm_create \<Rightarrow> string" where
  "volume_name r = vc_name r @ ''.'' @ format_str (orelse (dc_format (vc_disk r)) Qcow2)"

definition network_of :: "vm_create \<Rightarrow> string" where
  "network_of r = (if orelse (vc_networkId r) '''' = '''' then ''default'' else orelse (vc_networkId r) '''')"

text \<open>The media and the network of a new machine, checked once the volume is there.\<close>

definition lv_media :: "'h dom_calls \<Rightarrow> vm_create \<Rightarrow> 'h \<Rightarrow> provider_error + (string \<times> string)" where
  "lv_media L r h =
     (if \<not> dc_network L (network_of r) h then Inl ErrNetworkNotFound
      else (case lv_iso_path L ''ISO'' (orelse (orelse (vc_isoId r) None) '''') h of
        Inl e \<Rightarrow> Inl e
      | Inr a \<Rightarrow> (case (if vc_osType r = Windows then lv_iso_path L ''VirtIO drivers ISO'' (orelse (orelse (vc_virtioDriversIsoId r) None) '''') h else Inr '''') of
          Inl e \<Rightarrow> Inl e
        | Inr b \<Rightarrow> Inr (a, b))))"

definition virtio_nic_warning :: string where
  "virtio_nic_warning = ''Windows on a virtio network adapter has no network until the NetKVM driver is installed from the VirtIO drivers ISO (Device Manager shows the adapter with error 43 or as an unknown Ethernet controller). Create with nicModel e1000e if the guest needs network on first boot.''"

definition create_warnings :: "'h dom_calls \<Rightarrow> vm_create \<Rightarrow> string \<times> string \<Rightarrow> applied_profile \<Rightarrow> string list" where
  "create_warnings L r m p =
     filter (\<lambda>w. w \<noteq> '''') [dc_iso_warning L (fst m), dc_iso_warning L (snd m)]
     @ (if vc_osType r = Windows \<and> snd m = '''' then [no_drivers_warning] else [])
     @ (if vc_osType r = Windows \<and> ap_nicModel p = ''virtio'' then [virtio_nic_warning] else [])"

definition create_spec :: "vm_create \<Rightarrow> string \<Rightarrow> string \<times> string \<Rightarrow> domain_spec" where
  "create_spec r path m = \<lparr>ds_name = vc_name r, ds_memoryBytes = vc_memoryBytes r, ds_vcpus = \<lfloor>vc_vcpus r\<rfloor>,
     ds_osType = os_str (vc_osType r), ds_diskPath = path, ds_diskFormat = format_str (orelse (dc_format (vc_disk r)) Qcow2),
     ds_networkId = network_of r, ds_isoPath = fst m, ds_virtioIsoPath = snd m,
     ds_nicModel = (case vc_nicModel r of Some n \<Rightarrow> nic_str n | None \<Rightarrow> '''')\<rparr>"

text \<open>The machine is defined, with the volume \<open>k\<close> given back when that fails, and started if asked for.\<close>

definition lv_define :: "'h dom_calls \<Rightarrow> (string \<Rightarrow> string) \<Rightarrow> vm_create \<Rightarrow> string \<Rightarrow> string \<Rightarrow> string \<times> string \<Rightarrow> 'h
    \<Rightarrow> (provider_error + string list) \<times> 'h" where
  "lv_define L hint r k path m h = (case buildDomainXML (create_spec r path m) (dc_features L h) of
     Inl e \<Rightarrow> (Inl (ErrOther (''build domain XML: '' @ e)), snd (dc_delete_volume L k h))
   | Inr (d, p) \<Rightarrow> (case dc_define L d h of
       (Some e, h1) \<Rightarrow> (Inl (ErrOther (''define domain: '' @ e)), snd (dc_delete_volume L k h1))
     | (None, h1) \<Rightarrow>
         if vc_start r \<noteq> Some True then (Inr (create_warnings L r m p), h1)
         else (case dc_create L (vc_name r) h1 of
            (None, h2) \<Rightarrow> (Inr (create_warnings L r m p), h2)
          | (Some e, h2) \<Rightarrow> (Inl (case asActionableError hint e of ErrOther t \<Rightarrow> ErrOther (''start domain: '' @ t) | y \<Rightarrow> y), h2))))"

definition lv_CreateVirtualMachine :: "'h dom_calls \<Rightarrow> (string \<Rightarrow> string) \<Rightarrow> vm_create \<Rightarrow> 'h \<Rightarrow> (provider_error + vm) \<times> 'h" where
  "lv_CreateVirtualMachine L hint r h =
     (if dc_found L (vc_name r) h then (Inl ErrVMAlreadyExists, h)
      else (case lv_pool_check L (vc_disk r) h of
        (Some e, h1) \<Rightarrow> (Inl e, h1)
      | (None, h1) \<Rightarrow> (case dc_create_volume L (dc_poolId (vc_disk r)) (volume_name r) (dc_sizeBytes (vc_disk r)) h1 of
          (Inl e, h2) \<Rightarrow> (Inl (ErrOther (''create volume: '' @ e)), h2)
        | (Inr k, h2) \<Rightarrow> (case dc_volume_path L k h2 of
            Inl e \<Rightarrow> (Inl (ErrOther (''resolve volume path: '' @ e)), h2)
          | Inr path \<Rightarrow> (case lv_media L r h2 of
              Inl e \<Rightarrow> (Inl e, h2)
            | Inr m \<Rightarrow> (case lv_define L hint r k path m h2 of
                (Inl e, h3) \<Rightarrow> (Inl e, h3)
              | (Inr ws, h3) \<Rightarrow> (case lv_GetVirtualMachine L (vc_name r) h3 of
                  Inl e \<Rightarrow> (Inl e, h3)
                | Inr v \<Rightarrow> (Inr (if ws = [] then v else v\<lparr>v_warnings := Some ws\<rparr>), h3))))))))"


subsection \<open>The contract\<close>

definition mock_shown :: "string \<Rightarrow> mock_host \<Rightarrow> vm_state option" where
  "mock_shown i s = map_option (\<lambda>p. mm_state (obj p s)) (getLocked i s)"

definition lv_shown :: "'h dom_calls \<Rightarrow> string \<Rightarrow> 'h \<Rightarrow> vm_state option" where
  "lv_shown L i h = (if dc_found L i h then (case dc_state L i h of Inr x \<Rightarrow> Some (stateToModel x) | Inl e \<Rightarrow> None) else None)"

lemma mock_vm_refused [simp]:
  "fst (mock_vm E guard f i s) = Inl (ErrInvalidVMState m) \<longleftrightarrow>
     (\<exists>p x. getLocked i s = Some p \<and> guard (obj p s) = Some x \<and> invalid_vm x = ErrInvalidVMState m)"
  "fst (mock_vm E guard f i s) = Inl (ErrInvalidVMState m) \<Longrightarrow> snd (mock_vm E guard f i s) = s"
  "getLocked i s = None \<Longrightarrow> mock_vm E guard f i s = (Inl ErrVMNotFound, s)"
  by (auto simp: mock_vm_def split: option.splits)

lemma ex_invalid_vm [simp]: "\<exists>m. invalid_vm x = ErrInvalidVMState m"
  by (simp add: invalid_vm_def)

lemma mock_shutdown_refused:
  "fst (mock_ShutdownVirtualMachine E i s) = Inl (ErrInvalidVMState m) \<longleftrightarrow>
     (\<exists>p. getLocked i s = Some p \<and> mm_state (obj p s) \<noteq> Running
       \<and> invalid_vm (''cannot shutdown '' @ state_name (mm_state (obj p s)) @ '' VM'') = ErrInvalidVMState m)"
  "fst (mock_ShutdownVirtualMachine E i s) = Inl (ErrInvalidVMState m) \<Longrightarrow> snd (mock_ShutdownVirtualMachine E i s) = s"
  "getLocked i s = None \<Longrightarrow> mock_ShutdownVirtualMachine E i s = (Inl ErrVMNotFound, s)"
  by (auto simp: mock_ShutdownVirtualMachine_def mock_vm_def split: option.splits if_splits)

lemma mock_act_refused:
  "fst (mock_act E a i s) = Inl (ErrInvalidVMState m) \<Longrightarrow> snd (mock_act E a i s) = s"
  "(\<exists>m. fst (mock_act E a i s) = Inl (ErrInvalidVMState m)) \<longleftrightarrow> (\<exists>p. getLocked i s = Some p \<and> (case a of
     AStart \<Rightarrow> mm_state (obj p s) \<in> {Running, Starting, Shutting_down} | AStop \<Rightarrow> mm_state (obj p s) = Stopped
   | _ \<Rightarrow> mm_state (obj p s) \<noteq> Running))"
proof -
  have ex: "(\<exists>m. fst (mock_vm E guard f i s) = Inl (ErrInvalidVMState m)) \<longleftrightarrow> (\<exists>p x. getLocked i s = Some p \<and> guard (obj p s) = Some x)" for guard f
    using ex_invalid_vm by (simp only: mock_vm_refused(1)) blast
  have ex2: "(\<exists>m. fst (mock_ShutdownVirtualMachine E i s) = Inl (ErrInvalidVMState m)) \<longleftrightarrow> (\<exists>p. getLocked i s = Some p \<and> mm_state (obj p s) \<noteq> Running)"
    using ex_invalid_vm by (simp only: mock_shutdown_refused(1)) blast
  show "(\<exists>m. fst (mock_act E a i s) = Inl (ErrInvalidVMState m)) \<longleftrightarrow> (\<exists>p. getLocked i s = Some p \<and> (case a of
     AStart \<Rightarrow> mm_state (obj p s) \<in> {Running, Starting, Shutting_down} | AStop \<Rightarrow> mm_state (obj p s) = Stopped
   | _ \<Rightarrow> mm_state (obj p s) \<noteq> Running))"
    by (cases a)
      (simp_all only: mock_act_def power_action.case mock_StartVirtualMachine_def mock_RebootVirtualMachine_def
        mock_ForceStopVirtualMachine_def ex ex2, auto split: if_splits)
  show "fst (mock_act E a i s) = Inl (ErrInvalidVMState m) \<Longrightarrow> snd (mock_act E a i s) = s"
    by (cases a) (simp_all only: mock_act_def power_action.case mock_StartVirtualMachine_def mock_RebootVirtualMachine_def
        mock_ForceStopVirtualMachine_def mock_vm_refused(2) mock_shutdown_refused(2))
qed

lemma mock_delete_refused:
  "fst (mock_DeleteVirtualMachine i d s) = Inl (ErrInvalidVMState m) \<Longrightarrow> snd (mock_DeleteVirtualMachine i d s) = s"
  "(\<exists>m. fst (mock_DeleteVirtualMachine i d s) = Inl (ErrInvalidVMState m)) \<longleftrightarrow>
     (\<exists>p. getLocked i s = Some p \<and> mm_state (obj p s) \<noteq> Stopped)"
  by (auto simp: mock_DeleteVirtualMachine_def split: option.split)

interpretation mock_vms: machine_provider "\<lambda>i s. getLocked i s \<noteq> None" mock_shown "mock_act E" mock_DeleteVirtualMachine for E
proof unfold_locales
  fix i s a d
  show "mock_act E a i s = (Inl ErrVMNotFound, s) \<and> mock_DeleteVirtualMachine i d s = (Inl ErrVMNotFound, s)"
    if "\<not> getLocked i s \<noteq> None"
    using that by (cases a) (simp_all add: mock_act_def mock_StartVirtualMachine_def mock_RebootVirtualMachine_def
        mock_ForceStopVirtualMachine_def mock_DeleteVirtualMachine_def mock_shutdown_refused)
qed (auto simp: mock_act_refused mock_delete_refused mock_shown_def)

lemma get_vm_state [simp]: "lv_GetVirtualMachine L i h \<noteq> Inl (ErrInvalidVMState m)"
  by (simp add: lv_GetVirtualMachine_def split: sum.split)

lemma failing_state [simp]:
  "(\<And>e m. err e \<noteq> ErrInvalidVMState m) \<Longrightarrow> failing err f i h \<noteq> (Some (ErrInvalidVMState m), h')"
  by (auto simp: failing_def split: prod.split)

lemma storage_state [simp]: "asStorageUnavailable hint e \<noteq> ErrInvalidVMState m"
  by (simp add: asStorageUnavailable_def split: option.split)

lemma actionable_state [simp]: "asActionableError hint e \<noteq> ErrInvalidVMState m"
  by (simp add: asActionableError_def split: option.split)

lemma lv_vm_refused:
  assumes "\<And>x m h'. f x i h \<noteq> (Some (ErrInvalidVMState m), h')"
  shows "fst (lv_vm L guard f i h) = Inl (ErrInvalidVMState m) \<longleftrightarrow>
     (\<exists>x y. dc_found L i h \<and> dc_state L i h = Inr x \<and> guard x = Some y \<and> invalid_vm y = ErrInvalidVMState m)"
    and "fst (lv_vm L guard f i h) = Inl (ErrInvalidVMState m) \<Longrightarrow> snd (lv_vm L guard f i h) = h"
  using assms by (auto simp: lv_vm_def split: sum.splits option.splits prod.splits)

lemma volumes_state [simp]: "delete_volumes L ps h \<noteq> (Some (ErrInvalidVMState m), h')"
  by (induction ps arbitrary: h) (auto split: option.splits prod.splits)

lemma lv_delete_refused:
  "fst (lv_DeleteVirtualMachine L i d h) = Inl (ErrInvalidVMState m) \<longleftrightarrow>
     (\<exists>x. dc_found L i h \<and> dc_state L i h = Inr x \<and> x \<notin> {DOMAIN_SHUTOFF, DOMAIN_SHUTDOWN, DOMAIN_CRASHED}
       \<and> invalid_vm ''cannot delete a virtual machine that is not stopped'' = ErrInvalidVMState m)"
  "fst (lv_DeleteVirtualMachine L i d h) = Inl (ErrInvalidVMState m) \<Longrightarrow> snd (lv_DeleteVirtualMachine L i d h) = h"
  by (auto simp: lv_DeleteVirtualMachine_def split: sum.splits option.splits prod.splits if_splits)

lemma lv_act_refused:
  "fst (lv_act L hint a i h) = Inl (ErrInvalidVMState m) \<Longrightarrow> snd (lv_act L hint a i h) = h"
  "(\<exists>m. fst (lv_act L hint a i h) = Inl (ErrInvalidVMState m)) \<longleftrightarrow> (\<exists>x. dc_found L i h \<and> dc_state L i h = Inr x \<and>
     (case a of AStart \<Rightarrow> x \<in> {DOMAIN_RUNNING, DOMAIN_BLOCKED} | AShutdown \<Rightarrow> x \<notin> {DOMAIN_RUNNING, DOMAIN_BLOCKED, DOMAIN_PAUSED}
      | AReboot \<Rightarrow> x \<notin> {DOMAIN_RUNNING, DOMAIN_BLOCKED} | AStop \<Rightarrow> x = DOMAIN_SHUTOFF))"
proof -
  have f: "(if x \<in> {DOMAIN_PAUSED, DOMAIN_PMSUSPENDED} then failing ErrOther (dc_resume L)
          else failing (asActionableError hint) (dc_create L)) i h \<noteq> (Some (ErrInvalidVMState m), h')" for x m h'
    by simp
  show "fst (lv_act L hint a i h) = Inl (ErrInvalidVMState m) \<Longrightarrow> snd (lv_act L hint a i h) = h"
    by (cases a; simp add: lv_act_def lv_StartVirtualMachine_def lv_ShutdownVirtualMachine_def lv_RebootVirtualMachine_def
        lv_ForceStopVirtualMachine_def; erule lv_vm_refused(2) [rotated]; simp)
  show "(\<exists>m. fst (lv_act L hint a i h) = Inl (ErrInvalidVMState m)) \<longleftrightarrow> (\<exists>x. dc_found L i h \<and> dc_state L i h = Inr x \<and>
     (case a of AStart \<Rightarrow> x \<in> {DOMAIN_RUNNING, DOMAIN_BLOCKED} | AShutdown \<Rightarrow> x \<notin> {DOMAIN_RUNNING, DOMAIN_BLOCKED, DOMAIN_PAUSED}
      | AReboot \<Rightarrow> x \<notin> {DOMAIN_RUNNING, DOMAIN_BLOCKED} | AStop \<Rightarrow> x = DOMAIN_SHUTOFF))"
    by (cases a; simp add: lv_act_def lv_StartVirtualMachine_def lv_ShutdownVirtualMachine_def lv_RebootVirtualMachine_def
        lv_ForceStopVirtualMachine_def lv_vm_refused; auto simp: invalid_vm_def)
qed

interpretation lv_vms: machine_provider "dc_found L" "lv_shown L" "lv_act L hint" "lv_DeleteVirtualMachine L" for L hint
proof unfold_locales
  fix i s a d x
  show "lv_act L hint a i s = (Inl ErrVMNotFound, s) \<and> lv_DeleteVirtualMachine L i d s = (Inl ErrVMNotFound, s)"
    if "\<not> dc_found L i s"
    using that by (cases a) (simp_all add: lv_act_def lv_StartVirtualMachine_def lv_ShutdownVirtualMachine_def
        lv_RebootVirtualMachine_def lv_ForceStopVirtualMachine_def lv_vm_def lv_DeleteVirtualMachine_def)
  assume shown: "lv_shown L i s = Some x"
  then obtain y where y: "dc_found L i s" "dc_state L i s = Inr y" "x = stateToModel y"
    by (auto simp: lv_shown_def split: if_splits sum.splits)
  show "(\<exists>m. fst (lv_act L hint AStart i s) = Inl (ErrInvalidVMState m)) \<longleftrightarrow> x = Running"
    using y by (cases y) (simp_all add: lv_act_refused)
  show "(\<exists>m. fst (lv_act L hint AShutdown i s) = Inl (ErrInvalidVMState m)) \<longleftrightarrow> x = Stopped" if "x \<in> {Running, Stopped}"
    using y that by (cases y) (simp_all add: lv_act_refused)
  show "(\<exists>m. fst (lv_act L hint AReboot i s) = Inl (ErrInvalidVMState m)) \<longleftrightarrow> x \<noteq> Running"
    using y by (cases y) (simp_all add: lv_act_refused)
  show "\<not> (\<exists>m. fst (lv_act L hint AStop i s) = Inl (ErrInvalidVMState m))" if "x \<noteq> Stopped"
    using y that by (cases y) (simp_all add: lv_act_refused)
  show "(\<exists>m. fst (lv_DeleteVirtualMachine L i d s) = Inl (ErrInvalidVMState m)) \<longleftrightarrow> x \<noteq> Stopped"
    using y by (cases y) (simp_all add: lv_delete_refused)
qed (erule lv_act_refused(1) lv_delete_refused(2))+


subsection \<open>The pages and the two providers\<close>

text \<open>The handlers of \<open>api/server.go\<close> for one machine, over a provider.\<close>

record 's vm_ops =
  vo_get :: "string \<Rightarrow> 's \<Rightarrow> provider_error + vm"
  vo_act :: "power_action \<Rightarrow> string \<Rightarrow> 's \<Rightarrow> (provider_error + vm) \<times> 's"
  vo_delete :: "string \<Rightarrow> bool \<Rightarrow> 's \<Rightarrow> (provider_error + unit) \<times> 's"
  vo_update :: "string \<Rightarrow> vm_update \<Rightarrow> 's \<Rightarrow> (provider_error + vm) \<times> 's"

fun machines_serve :: "'s vm_ops \<Rightarrow> request \<Rightarrow> 's \<Rightarrow> (reply \<times> 's) option" where
  "machines_serve M (GetVm i) s = Some (with_id i PVm (\<lambda>i s. (vo_get M i s, s)) s)"
| "machines_serve M (PostVmAction i a) s = Some (with_id i PVm (vo_act M a) s)"
| "machines_serve M (DeleteVm i d) s = Some (with_id i no_content (\<lambda>i. vo_delete M i d) s)"
| "machines_serve M (PatchVm i b) s = Some (guarded (PatchVm i b) PVm (vo_update M i b) s)"
| "machines_serve M q s = None"

definition mock_machines :: "mock_env \<Rightarrow> mock_nets \<Rightarrow> mock_host vm_ops" where
  "mock_machines E nets = \<lparr>vo_get = mock_GetVirtualMachine E, vo_act = mock_act E, vo_delete = mock_DeleteVirtualMachine,
     vo_update = mock_UpdateVirtualMachine E nets\<rparr>"

definition lv_machines :: "'h dom_calls \<Rightarrow> (string \<Rightarrow> string) \<Rightarrow> 'h vm_ops" where
  "lv_machines L hint = \<lparr>vo_get = lv_GetVirtualMachine L, vo_act = lv_act L hint, vo_delete = lv_DeleteVirtualMachine L,
     vo_update = lv_UpdateVirtualMachine L hint\<rparr>"

text \<open>
  The requests that the list and the page of machine \<open>v\<close> lead to: by a button, or by the dialog that a
  button opens.
\<close>

definition offered_request :: "(string \<Rightarrow> string \<Rightarrow> int) \<Rightarrow> vms_page \<Rightarrow> (string \<Rightarrow> string) \<Rightarrow> vm_details \<Rightarrow> vm \<Rightarrow> request \<Rightarrow> bool" where
  "offered_request lc p fmt d v q \<longleftrightarrow>
     (\<exists>a. q = PostVmAction (v_id v) a \<and> (vp_enabled lc p (VpRun v a) \<or> vd_shown d = Some v \<and> vd_enabled fmt d (VdRun a)))
   \<or> (\<exists>c. q = confirmed_request (v, c) \<and> (vp_enabled lc p (VpAsk v c) \<or> vd_shown d = Some v \<and> vd_enabled fmt d (VdAsk c)))"

definition is_deletion :: "request \<Rightarrow> bool" where
  "is_deletion q = (case q of DeleteVm i d \<Rightarrow> True | _ \<Rightarrow> False)"

definition vm_refused :: "(reply \<times> 's) option \<Rightarrow> 's \<Rightarrow> bool \<Rightarrow> bool" where
  "vm_refused r s b = (\<exists>x s'. r = Some (x, s') \<and> (has_code ''VM_INVALID_STATE'' x \<longleftrightarrow> b) \<and> (b \<longrightarrow> s' = s))"

lemma vm_refusedI:
  "(has_code ''VM_INVALID_STATE'' (fst p) \<longleftrightarrow> b) \<and> (b \<longrightarrow> snd p = s) \<Longrightarrow> vm_refused (Some p) s b"
  by (cases p) (simp add: vm_refused_def)

lemma offered_cases:
  assumes "offered_request lc p fmt d v q"
  shows "(\<exists>a. q = PostVmAction (v_id v) a \<and> (a = AStart \<and> v_state v \<in> {Stopped, Error_state} \<or> a \<in> {AShutdown, AReboot, AStop} \<and> v_state v = Running))
    \<or> (\<exists>x. q = DeleteVm (v_id v) x)"
  using assms unfolding offered_request_def
proof (elim disjE exE conjE)
  fix a assume q: "q = PostVmAction (v_id v) a"
  {
    assume "vp_enabled lc p (VpRun v a)"
    with q show ?thesis by (cases a) (auto simp: vp_enabled_row)
  next
    assume "vd_shown d = Some v" "vd_enabled fmt d (VdRun a)"
    with q show ?thesis by (cases a) (auto simp: vd_enabled_buttons)
  }
next
  fix c assume q: "q = confirmed_request (v, c)"
  {
    assume "vp_enabled lc p (VpAsk v c)"
    with q show ?thesis by (cases c) (auto simp: vp_enabled_row confirmed_request_def)
  next
    assume "vd_shown d = Some v" "vd_enabled fmt d (VdAsk c)"
    with q show ?thesis by (cases c) (auto simp: vd_enabled_buttons confirmed_request_def)
  }
qed


text \<open>The page of a machine that is shutting down, while its deletion is asked for.\<close>

definition leaving :: vm where
  "leaving = mock_toModel plain_env 0 (obj 1 shutting)"

definition leaving_page :: vm_details where
  "leaving_page = (vm_details_init 0)\<lparr>vdp_poll := \<lparr>poll_data = Some leaving, poll_error = None, poll_loading = False\<rparr>\<rparr>"



subsection \<open>What a refused request leaves behind\<close>

lemma patch_accepted:
  "boundary None (PatchVm i r) = None \<Longrightarrow> machines_serve M (PatchVm i r) s = Some (case vo_update M i r s of
     (Inl e, s') \<Rightarrow> (Inl (writeError (writeProviderError e)), s') | (Inr v, s') \<Rightarrow> (Inr [PVm v], s'))"
  by (simp only: machines_serve.simps guarded_def option.case)


definition half_update :: vm_update where
  "half_update = \<lparr>vu_vcpus = Some 16, vu_memoryBytes = None, vu_isoId = Some ''new.iso'', vu_networkId = Some ''nowhere''\<rparr>"


lemma iso_path_errors: "lv_iso_path L what f h = Inl e \<Longrightarrow> e = ErrIsoNotFound \<or> (\<exists>t. e = ErrOther t)"
  by (auto simp: lv_iso_path_def split: if_splits option.splits)

lemma actionable_errors [simp]: "asActionableError hint t \<noteq> ErrNetworkNotFound" "asActionableError hint t \<noteq> ErrIsoNotFound"
  by (simp_all add: asActionableError_def asStorageUnavailable_def split: option.split)

lemma define_errors [simp]:
  "lv_define L hint r k path m h \<noteq> (Inl ErrNetworkNotFound, h')" "lv_define L hint r k path m h \<noteq> (Inl ErrIsoNotFound, h')"
  by (auto simp: lv_define_def split: sum.splits prod.splits option.splits if_splits provider_error.splits)

lemma pool_check_errors: "lv_pool_check L d h = (Some e, h') \<Longrightarrow> e = ErrPoolNotFound \<or> (\<exists>t. e = ErrPoolInsufficientSpace t)"
  by (auto simp: lv_pool_check_def Let_def split: option.splits if_splits)

lemma get_vm_errors [simp]: "lv_GetVirtualMachine L i h \<noteq> Inl ErrNetworkNotFound" "lv_GetVirtualMachine L i h \<noteq> Inl ErrIsoNotFound"
  by (auto simp: lv_GetVirtualMachine_def split: sum.splits if_splits)

text \<open>The only way to one of the two answers is past the creation of the volume.\<close>

lemma create_refused_late:
  assumes "lv_CreateVirtualMachine L hint r h = (Inl e, h2)" "e \<in> {ErrNetworkNotFound, ErrIsoNotFound}"
  obtains h1 k where "dc_create_volume L (dc_poolId (vc_disk r)) (volume_name r) (dc_sizeBytes (vc_disk r)) h1 = (Inr k, h2)"
proof -
  note * = assms(1) [unfolded lv_CreateVirtualMachine_def]
  from * assms(2) have nf: "\<not> dc_found L (vc_name r) h" by (auto split: if_splits)
  obtain x h1 where pc: "lv_pool_check L (vc_disk r) h = (x, h1)" by fastforce
  with * nf assms(2) have "x = None" by (cases x) (auto dest: pool_check_errors)
  moreover obtain y h3 where cv: "dc_create_volume L (dc_poolId (vc_disk r)) (volume_name r) (dc_sizeBytes (vc_disk r)) h1 = (y, h3)" by fastforce
  ultimately obtain k where y: "y = Inr k" using * nf pc assms(2) by (cases y) auto
  have rest: "(case dc_volume_path L k h3 of
            Inl e \<Rightarrow> (Inl (ErrOther (''resolve volume path: '' @ e)), h3)
          | Inr path \<Rightarrow> (case lv_media L r h3 of
              Inl e \<Rightarrow> (Inl e, h3)
            | Inr m \<Rightarrow> (case lv_define L hint r k path m h3 of
                (Inl e, h4) \<Rightarrow> (Inl e, h4)
              | (Inr ws, h4) \<Rightarrow> (case lv_GetVirtualMachine L (vc_name r) h4 of
                  Inl e \<Rightarrow> (Inl e, h4)
                | Inr v \<Rightarrow> (Inr (if ws = [] then v else v\<lparr>v_warnings := Some ws\<rparr>), h4))))) = (Inl e, h2)"
    using * nf pc \<open>x = None\<close> cv y by simp
  have "h3 = h2"
    using rest assms(2) by (auto split: sum.splits prod.splits) 
  with cv y that show ?thesis by blast
qed

text \<open>
  C15. A creation that answers that the network or the ISO was not found leaves the volume of the disk behind:
  those are checked after it is made, and it is not given back. As long as it is there, every
  further creation of a machine of that name in that pool and format fails, also with the network
  and the ISO put right. That libvirt refuses a volume whose name is taken is its documented behaviour.
\<close>

theorem create_leaves_volume:
  assumes made: "\<And>p n b h k h'. dc_create_volume L p n b h = (Inr k, h') \<Longrightarrow> vol p n h'"
    and taken: "\<And>p n b h. vol p n h \<Longrightarrow> \<exists>t. dc_create_volume L p n b h = (Inl t, h)"
    and refresh: "\<And>p n q h. vol p n h \<Longrightarrow> vol p n (dc_pool_refresh L q h)"
    and refused: "lv_CreateVirtualMachine L hint r h = (Inl e, h')" "e \<in> {ErrNetworkNotFound, ErrIsoNotFound}"
    and retry: "volume_name r' = volume_name r" "dc_poolId (vc_disk r') = dc_poolId (vc_disk r)"
  shows "vol (dc_poolId (vc_disk r)) (volume_name r) h' \<and> (\<exists>e'. fst (lv_CreateVirtualMachine L hint r' h') = Inl e')"
proof -
  from create_refused_late [OF refused] have v: "vol (dc_poolId (vc_disk r)) (volume_name r) h'" using made by metis
  have "\<exists>e'. fst (lv_CreateVirtualMachine L hint r' h') = Inl e'"
  proof (cases "dc_found L (vc_name r') h'")
    case False
    obtain x h1 where pc: "lv_pool_check L (vc_disk r') h' = (x, h1)" by fastforce
    show ?thesis
    proof (cases x)
      case None
      with pc have "h1 = h' \<or> h1 = dc_pool_refresh L (dc_poolId (vc_disk r')) h'"
        by (auto simp: lv_pool_check_def Let_def split: option.splits if_splits)
      with v have "vol (dc_poolId (vc_disk r)) (volume_name r) h1" using refresh by blast
      with taken obtain t where "dc_create_volume L (dc_poolId (vc_disk r)) (volume_name r) (dc_sizeBytes (vc_disk r')) h1 = (Inl t, h1)" by blast
      with False pc None retry show ?thesis by (simp add: lv_CreateVirtualMachine_def)
    qed (use False pc in \<open>simp add: lv_CreateVirtualMachine_def\<close>)
  qed (simp add: lv_CreateVirtualMachine_def)
  with v show ?thesis by blast
qed


text \<open>A host with one pool and one network that keeps the volumes and the machines it is given.\<close>

record small_host =
  sh_volumes :: "(string \<times> string) list"
  sh_machines :: "domain_doc list"

definition sh_named :: "string \<Rightarrow> small_host \<Rightarrow> domain_doc option" where
  "sh_named i h = find (\<lambda>d. xo_name d = i) (sh_machines h)"

definition sh_path :: "string \<Rightarrow> string" where
  "sh_path n = ''/pool/'' @ n"

definition keeps :: "string \<Rightarrow> small_host \<Rightarrow> string option \<times> small_host" where
  "keeps i h = (None, h)"

definition small :: "small_host dom_calls" where
  "small = \<lparr>dc_found = (\<lambda>i h. sh_named i h \<noteq> None), dc_state = (\<lambda>i h. Inr DOMAIN_SHUTOFF),
     dc_doc = (\<lambda>i h. case sh_named i h of Some d \<Rightarrow> Inr d | None \<Rightarrow> Inl ''gone''), dc_block = (\<lambda>i h x. None), dc_agent = (\<lambda>i h. None),
     dc_metrics = (\<lambda>i h. None), dc_create = keeps, dc_resume = keeps, dc_shutdown = keeps, dc_reboot = keeps, dc_destroy = keeps,
     dc_undefine_flags = (\<lambda>i h. (None, h\<lparr>sh_machines := filter (\<lambda>d. xo_name d \<noteq> i) (sh_machines h)\<rparr>)), dc_undefine = keeps,
     dc_define = (\<lambda>d h. (None, h\<lparr>sh_machines := d # filter (\<lambda>x. xo_name x \<noteq> xo_name d) (sh_machines h)\<rparr>)),
     dc_volume_at = (\<lambda>p h. if p \<in> set (map (\<lambda>(q, n). sh_path n) (sh_volumes h)) then Some p else None),
     dc_create_volume = (\<lambda>p n b h. if (p, n) \<in> set (sh_volumes h) then (Inl (''storage volume '' @ n @ '' exists already''), h)
       else (Inr (sh_path n), h\<lparr>sh_volumes := (p, n) # sh_volumes h\<rparr>)),
     dc_volume_path = (\<lambda>k h. Inr k),
     dc_delete_volume = (\<lambda>k h. (None, h\<lparr>sh_volumes := filter (\<lambda>(p, n). sh_path n \<noteq> k) (sh_volumes h)\<rparr>)),
     dc_pool = (\<lambda>p h. p = ''default''), dc_pool_active = (\<lambda>p h. Some True), dc_pool_refresh = (\<lambda>p h. h),
     dc_pool_available = (\<lambda>p h. Some 100000000000), dc_network = (\<lambda>n h. n = ''default''), dc_iso = (\<lambda>f h. None),
     dc_iso_warning = (\<lambda>p. ''''), dc_features = (\<lambda>h. \<lparr>hf_qemu = 0, hf_libvirt = 0\<rparr>),
     dc_set_vcpus = (\<lambda>i n. keeps i), dc_set_memory = (\<lambda>i n. keeps i), dc_update_nic = (\<lambda>i x. keeps i), dc_inactive = (\<lambda>i h. Inl ''gone''),
     dc_attach = (\<lambda>i x. keeps i), dc_detach = (\<lambda>i x h. h)\<rparr>"

definition a_request :: "string \<Rightarrow> vm_create" where
  "a_request net = \<lparr>vc_name = ''app'', vc_vcpus = 2, vc_memoryBytes = 2147483648,
     vc_disk = \<lparr>dc_poolId = ''default'', dc_sizeBytes = 10737418240, dc_format = None\<rparr>, vc_networkId = Some net, vc_isoId = None,
     vc_osType = Linux, vc_nicModel = None, vc_virtioDriversIsoId = None, vc_start = None\<rparr>"

text \<open>A wrong network once, and the machine cannot be created any more; it could have been before.\<close>

theorem create_leaves_volume_witness:
  "let h = \<lparr>sh_volumes = [], sh_machines = []\<rparr>; hint = (\<lambda>p. ''''); h' = snd (lv_CreateVirtualMachine small hint (a_request ''lan'') h) in
     (\<exists>e. fst (lv_CreateVirtualMachine small hint (a_request ''default'') h') = Inl e)
     \<and> (\<exists>v. fst (lv_CreateVirtualMachine small hint (a_request ''default'') h) = Inr v)"
proof -
  let ?h = "\<lparr>sh_volumes = [], sh_machines = []\<rparr>" and ?hint = "\<lambda>p. ''''"
  let ?h' = "\<lparr>sh_volumes = [(''default'', ''app.qcow2'')], sh_machines = []\<rparr>"
  have r: "lv_CreateVirtualMachine small ?hint (a_request ''lan'') ?h = (Inl ErrNetworkNotFound, ?h')"
    by (simp add: lv_CreateVirtualMachine_def lv_pool_check_def lv_media_def small_def sh_named_def a_request_def volume_name_def
        network_of_def sh_path_def)
  have v: "(case fst (lv_CreateVirtualMachine small ?hint (a_request ''default'') ?h) of Inr v \<Rightarrow> True | Inl e \<Rightarrow> False)"
    by (simp add: lv_CreateVirtualMachine_def lv_pool_check_def lv_media_def lv_iso_path_def lv_define_def create_spec_def buildDomainXML_def
        lv_GetVirtualMachine_def small_def sh_named_def a_request_def volume_name_def network_of_def sh_path_def spec_os_def)
  have m: "dc_create_volume small p n b h = (Inr k, h2) \<Longrightarrow> (p, n) \<in> set (sh_volumes h2)" for p n b h k h2
    by (auto simp: small_def split: if_splits)
  have t: "(p, n) \<in> set (sh_volumes h) \<Longrightarrow> \<exists>t. dc_create_volume small p n b h = (Inl t, h)" for p n b h
    by (simp add: small_def)
  have f: "(p, n) \<in> set (sh_volumes h) \<Longrightarrow> (p, n) \<in> set (sh_volumes (dc_pool_refresh small q h))" for p n q h
    by (simp add: small_def)
  have "volume_name (a_request ''default'') = volume_name (a_request ''lan'')"
    "dc_poolId (vc_disk (a_request ''default'')) = dc_poolId (vc_disk (a_request ''lan''))"
    by (simp_all add: volume_name_def a_request_def)
  from create_leaves_volume [where vol = "\<lambda>p n h. (p, n) \<in> set (sh_volumes h)", OF m t f r _ this]
  have "\<exists>e'. fst (lv_CreateVirtualMachine small ?hint (a_request ''default'') ?h') = Inl e'" by simp
  with r v show ?thesis by (auto simp: Let_def split: sum.splits)
qed


text \<open>The deletion of a machine with its disks takes the volume made for it and none of its media.\<close>

lemma new_machine_volumes:
  assumes "buildDomainXML s caps = Inr (d, p)"
  shows "disk_paths d = [ds_diskPath s]"
  using build_Inr [OF assms] by (simp add: disk_paths_def spec_disks_def Let_def cdrom_doc_def)

end
