(* ===== verification/HostStorage.thy ===== *)
theory HostStorage
  imports Machines StoragePage Agreement
begin

text \<open>
  Storage pools of the two providers (\<open>hypervisor/libvirt/pools_networks.go\<close>,
  \<open>hypervisor/mock/pools_networks.go\<close>), the library of ISO images (\<open>internal/iso/iso.go\<close>) and the handlers
  of both (\<open>api/server.go\<close>), with a pool that becomes the library.
\<close>

subsection \<open>Pools in libvirt\<close>

text \<open>
  What is asked of libvirt. \<open>pl_info\<close> is capacity, allocation and free space as 64 bits with a sign,
  \<open>pl_doc\<close> the type and the path of the document, empty where it cannot be read.
\<close>

record 'h pool_calls =
  pl_found :: "string \<Rightarrow> 'h \<Rightarrow> bool"
  pl_active :: "string \<Rightarrow> 'h \<Rightarrow> string + bool"
  pl_refresh :: "string \<Rightarrow> 'h \<Rightarrow> string option \<times> 'h"
  pl_info :: "string \<Rightarrow> 'h \<Rightarrow> string + (int \<times> int \<times> int)"
  pl_autostart :: "string \<Rightarrow> 'h \<Rightarrow> string + bool"
  pl_doc :: "string \<Rightarrow> 'h \<Rightarrow> string \<times> string"
  pl_define :: "string \<Rightarrow> string \<Rightarrow> string \<Rightarrow> 'h \<Rightarrow> string option \<times> 'h"
  pl_build :: "string \<Rightarrow> 'h \<Rightarrow> string option \<times> 'h"
  pl_create :: "string \<Rightarrow> 'h \<Rightarrow> string option \<times> 'h"
  pl_destroy :: "string \<Rightarrow> 'h \<Rightarrow> string option \<times> 'h"
  pl_undefine :: "string \<Rightarrow> 'h \<Rightarrow> string option \<times> 'h"
  pl_set_autostart :: "string \<Rightarrow> bool \<Rightarrow> 'h \<Rightarrow> 'h"

definition poolType :: "string \<Rightarrow> pool_type" where
  "poolType t = (case find (\<lambda>x. pool_type_str x = t) [Pool_dir, Pool_fs, Pool_netfs, Pool_lvm, Pool_disk, Pool_iscsi, Pool_zfs, Pool_rbd] of
     Some x \<Rightarrow> x | None \<Rightarrow> Pool_other)"

text \<open>Reading a pool refreshes it while it is active; a failure of that is ignored.\<close>

definition lv_poolToModel :: "'h pool_calls \<Rightarrow> string \<Rightarrow> 'h \<Rightarrow> (provider_error + storage_pool) \<times> 'h" where
  "lv_poolToModel L i h = (let h1 = (if pl_active L i h = Inr True then snd (pl_refresh L i h) else h) in
     (case pl_info L i h1 of
        Inl e \<Rightarrow> (Inl (ErrOther e), h1)
      | Inr (cap, alloc, avail) \<Rightarrow> (case pl_active L i h1 of
          Inl e \<Rightarrow> (Inl (ErrOther e), h1)
        | Inr a \<Rightarrow> (Inr \<lparr>p_id = i, p_name = i, p_type = poolType (fst (pl_doc L i h1)), p_state = (if a then Active else Inactive),
            p_autostart = Some (case pl_autostart L i h1 of Inr x \<Rightarrow> x | Inl e \<Rightarrow> False),
            p_capacityBytes = cap, p_allocationBytes = alloc, p_availableBytes = avail,
            p_targetPath = Some (snd (pl_doc L i h1))\<rparr>, h1))))"

definition lv_GetStoragePool :: "'h pool_calls \<Rightarrow> string \<Rightarrow> 'h \<Rightarrow> (provider_error + storage_pool) \<times> 'h" where
  "lv_GetStoragePool L i h = (if pl_found L i h then lv_poolToModel L i h else (Inl ErrPoolNotFound, h))"

text \<open>A pool that cannot be built or started is undefined again.\<close>

definition lv_CreateStoragePool :: "'h pool_calls \<Rightarrow> pool_create \<Rightarrow> 'h \<Rightarrow> (provider_error + storage_pool) \<times> 'h" where
  "lv_CreateStoragePool L r h = (let i = pc_name r in
     if pl_found L i h then (Inl ErrPoolAlreadyExists, h)
     else (case pl_define L (pool_type_str (pc_type r)) i (pc_targetPath r) h of
       (Some e, h1) \<Rightarrow> (Inl (ErrOther e), h1)
     | (None, h1) \<Rightarrow> (case pl_build L i h1 of
         (Some e, h2) \<Rightarrow> (Inl (ErrOther e), snd (pl_undefine L i h2))
       | (None, h2) \<Rightarrow> (case pl_create L i h2 of
           (Some e, h3) \<Rightarrow> (Inl (ErrOther e), snd (pl_undefine L i h3))
         | (None, h3) \<Rightarrow> lv_GetStoragePool L i (pl_set_autostart L i (pc_autostart r) h3)))))"

definition lv_DeleteStoragePool :: "'h pool_calls \<Rightarrow> string \<Rightarrow> 'h \<Rightarrow> (provider_error + unit) \<times> 'h" where
  "lv_DeleteStoragePool L i h =
     (if \<not> pl_found L i h then (Inl ErrPoolNotFound, h)
      else (case (if pl_active L i h = Inr True then pl_destroy L i h else (None, h)) of
        (Some e, h1) \<Rightarrow> (Inl (ErrOther e), h1)
      | (None, h1) \<Rightarrow> (case pl_undefine L i h1 of
          (Some e, h2) \<Rightarrow> (Inl (ErrOther e), h2) | (None, h2) \<Rightarrow> (Inr (), h2))))"

definition lv_RefreshStoragePool :: "'h pool_calls \<Rightarrow> string \<Rightarrow> 'h \<Rightarrow> (provider_error + storage_pool) \<times> 'h" where
  "lv_RefreshStoragePool L i h =
     (if \<not> pl_found L i h then (Inl ErrPoolNotFound, h)
      else (case pl_active L i h of
        Inl e \<Rightarrow> (Inl (ErrOther e), h)
      | Inr a \<Rightarrow> if \<not> a then (Inl (invalid_net ''cannot refresh inactive storage pool''), h)
          else (case pl_refresh L i h of
            (Some e, h1) \<Rightarrow> (Inl (ErrOther e), h1) | (None, h1) \<Rightarrow> lv_GetStoragePool L i h1)))"

subsection \<open>Pools of the simulated host\<close>

record mock_pool =
  mp_id :: string
  mp_type :: pool_type
  mp_active :: bool
  mp_autostart :: bool
  mp_capacity :: int
  mp_allocation :: int
  mp_targetPath :: string

definition pools0 :: "mock_pool list" where
  "pools0 = [\<lparr>mp_id = ''default'', mp_type = Pool_dir, mp_active = True, mp_autostart = True, mp_capacity = 2048 * GiB,
      mp_allocation = 720 * GiB, mp_targetPath = ''/var/lib/libvirt/images''\<rparr>,
     \<lparr>mp_id = ''backups'', mp_type = Pool_dir, mp_active = True, mp_autostart = True, mp_capacity = 4096 * GiB,
      mp_allocation = 96 * GiB, mp_targetPath = ''/srv/backups''\<rparr>]"

definition mock_poolToModel :: "mock_pool \<Rightarrow> storage_pool" where
  "mock_poolToModel p = \<lparr>p_id = mp_id p, p_name = mp_id p, p_type = mp_type p, p_state = (if mp_active p then Active else Inactive),
     p_autostart = Some (mp_autostart p), p_capacityBytes = mp_capacity p, p_allocationBytes = mp_allocation p,
     p_availableBytes = mp_capacity p - mp_allocation p, p_targetPath = Some (mp_targetPath p)\<rparr>"

definition pool_named :: "string \<Rightarrow> mock_pool list \<Rightarrow> mock_pool option" where
  "pool_named i s = find (\<lambda>p. mp_id p = i) s"

fun drop_pool :: "string \<Rightarrow> mock_pool list \<Rightarrow> mock_pool list" where
  "drop_pool i [] = []"
| "drop_pool i (p # s) = (if mp_id p = i then s else p # drop_pool i s)"

definition mock_DeleteStoragePool :: "string \<Rightarrow> mock_pool list \<Rightarrow> (provider_error + unit) \<times> mock_pool list" where
  "mock_DeleteStoragePool i s = (case pool_named i s of None \<Rightarrow> (Inl ErrPoolNotFound, s) | Some p \<Rightarrow> (Inr (), drop_pool i s))"

definition mock_CreateStoragePool :: "pool_create \<Rightarrow> mock_pool list \<Rightarrow> (provider_error + storage_pool) \<times> mock_pool list" where
  "mock_CreateStoragePool r s =
     (if pool_named (pc_name r) s \<noteq> None then (Inl ErrPoolAlreadyExists, s)
      else let p = \<lparr>mp_id = pc_name r, mp_type = Pool_dir, mp_active = True, mp_autostart = pc_autostart r,
             mp_capacity = 500 * GiB, mp_allocation = 0, mp_targetPath = pc_targetPath r\<rparr> in
        (Inr (mock_poolToModel p), s @ [p]))"

definition mock_RefreshStoragePool :: "string \<Rightarrow> mock_pool list \<Rightarrow> (provider_error + storage_pool) \<times> mock_pool list" where
  "mock_RefreshStoragePool i s = (case pool_named i s of
     None \<Rightarrow> (Inl ErrPoolNotFound, s)
   | Some p \<Rightarrow> if \<not> mp_active p then (Inl (invalid_net ''cannot refresh inactive storage pool''), s)
       else (Inr (mock_poolToModel p), s))"

definition lv_pool_active :: "'h pool_calls \<Rightarrow> string \<Rightarrow> 'h \<Rightarrow> bool option" where
  "lv_pool_active L i h = (if pl_found L i h then (case pl_active L i h of Inr a \<Rightarrow> Some a | Inl e \<Rightarrow> None) else None)"

lemma get_pool_state [simp]: "fst (lv_GetStoragePool L i h) \<noteq> Inl (ErrInvalidNetworkState m)"
  by (auto simp: lv_GetStoragePool_def lv_poolToModel_def Let_def split: sum.splits)

interpretation mock_pools: pool_provider "\<lambda>i s. pool_named i s \<noteq> None" "\<lambda>i s. map_option mp_active (pool_named i s)"
    mock_RefreshStoragePool mock_DeleteStoragePool
  by unfold_locales
    (auto simp: mock_RefreshStoragePool_def mock_DeleteStoragePool_def invalid_net_def split: option.splits if_splits)

interpretation lv_pools: pool_provider "pl_found L" "lv_pool_active L" "lv_RefreshStoragePool L" "lv_DeleteStoragePool L" for L
  by unfold_locales
    (auto simp: lv_pool_active_def lv_RefreshStoragePool_def lv_DeleteStoragePool_def invalid_net_def
      split: option.splits if_splits sum.splits prod.splits)


subsection \<open>The library of ISO images\<close>

text \<open>
  The directory of the library can be changed, so the state has the files of every directory: for each
  the names with size and time. Directories inside it, and failures of the file system other than a
  missing file, are left out.
\<close>

record iso_entry =
  en_name :: string
  en_size :: int
  en_time :: string

record iso_store =
  is_dir :: string
  is_files :: "string \<Rightarrow> iso_entry list"

datatype iso_error = IsoInvalid | IsoExists | IsoNotFound

definition iso_here :: "iso_store \<Rightarrow> iso_entry list" where
  "iso_here s = is_files s (is_dir s)"

definition set_here :: "iso_entry list \<Rightarrow> iso_store \<Rightarrow> iso_store" where
  "set_here es s = s\<lparr>is_files := (is_files s)(is_dir s := es)\<rparr>"

definition iso_find :: "string \<Rightarrow> iso_store \<Rightarrow> iso_entry option" where
  "iso_find n s = find (\<lambda>e. en_name e = n) (iso_here s)"

definition iso_toModel :: "iso_entry \<Rightarrow> iso" where
  "iso_toModel e = \<lparr>i_id = en_name e, i_fileName = en_name e, i_sizeBytes = en_size e, i_uploadedAt = Some (en_time e)\<rparr>"

text \<open>The directory is read in the order of the names; the ending is compared without regard to case.\<close>

definition iso_List :: "iso_store \<Rightarrow> iso list" where
  "iso_List s = map (\<lambda>n. iso_toModel (the (iso_find n s)))
     (filter (\<lambda>n. js_ends_with (js_lower n) ''.iso'') (sortStrings (map en_name (iso_here s))))"

definition iso_Create :: "string \<Rightarrow> int \<Rightarrow> string \<Rightarrow> iso_store \<Rightarrow> (iso_error + iso) \<times> iso_store" where
  "iso_Create n bytes now s =
     (if \<not> rx_test ValidID n then (Inl IsoInvalid, s)
      else if iso_find n s \<noteq> None then (Inl IsoExists, s)
      else let e = \<lparr>en_name = n, en_size = bytes, en_time = now\<rparr> in (Inr (iso_toModel e), set_here (e # iso_here s) s))"

definition iso_Delete :: "string \<Rightarrow> iso_store \<Rightarrow> (iso_error + unit) \<times> iso_store" where
  "iso_Delete n s =
     (if \<not> rx_test ValidID n then (Inl IsoInvalid, s)
      else if iso_find n s = None then (Inl IsoNotFound, s)
      else (Inr (), set_here (filter (\<lambda>e. en_name e \<noteq> n) (iso_here s)) s))"

definition iso_Path :: "string \<Rightarrow> iso_store \<Rightarrow> iso_error + string" where
  "iso_Path n s =
     (if \<not> rx_test ValidID n then Inl IsoInvalid
      else if iso_find n s = None then Inl IsoNotFound
      else Inr (is_dir s @ ''/'' @ n))"

text \<open>\<open>mkdir\<close> is the answer of the file system to the creation of the directory.\<close>

definition SetDir :: "(string \<Rightarrow> string option) \<Rightarrow> string \<Rightarrow> iso_store \<Rightarrow> string option \<times> iso_store" where
  "SetDir mkdir d s =
     (if d = '''' then (Some ''invalid argument'', s)
      else (case mkdir d of Some e \<Rightarrow> (Some e, s) | None \<Rightarrow> (None, s\<lparr>is_dir := d\<rparr>)))"

subsection \<open>The handlers\<close>

text \<open>\<open>filepath.Base\<close> of the name of an uploaded file, for names without a trailing slash.\<close>

definition base_name :: "string \<Rightarrow> string" where
  "base_name f = last (js_split (CHR ''/'') f)"

definition serve_upload :: "string \<Rightarrow> int \<Rightarrow> string \<Rightarrow> iso_store \<Rightarrow> reply \<times> iso_store" where
  "serve_upload f bytes now s = (case boundary None (PostIso f) of
     Some x \<Rightarrow> (Inl (writeError x), s)
   | None \<Rightarrow> (case iso_Create (base_name f) bytes now s of
       (Inr i, s') \<Rightarrow> (Inr [PUndefined], s')
     | (Inl IsoExists, s') \<Rightarrow> (Inl (writeError (Refusal ''ISO_ALREADY_EXISTS'' ''An ISO image with this filename already exists'')), s')
     | (Inl IsoInvalid, s') \<Rightarrow> (Inl (writeError (Refusal ''VALIDATION_ERROR'' ''Invalid ISO filename'')), s')
     | (Inl IsoNotFound, s') \<Rightarrow> (Inl (writeError (Refusal ''INTERNAL_ERROR'' '''')), s')))"

definition serve_delete :: "string \<Rightarrow> iso_store \<Rightarrow> reply \<times> iso_store" where
  "serve_delete i s = (case boundary None (DeleteIso i) of
     Some x \<Rightarrow> (Inl (writeError x), s)
   | None \<Rightarrow> (case iso_Delete i s of
       (Inr x, s') \<Rightarrow> (Inr [PUndefined], s')
     | (Inl IsoNotFound, s') \<Rightarrow> (Inl (writeError (Refusal ''ISO_NOT_FOUND'' ''ISO image was not found'')), s')
     | (Inl IsoInvalid, s') \<Rightarrow> (Inl (writeError (Refusal ''VALIDATION_ERROR'' ''Invalid ISO filename'')), s')
     | (Inl IsoExists, s') \<Rightarrow> (Inl (writeError (Refusal ''INTERNAL_ERROR'' '''')), s')))"

text \<open>The creation of a pool, which may become the library, over a provider \<open>create\<close>; the setting kept in a file is left out.\<close>

definition serve_pool :: "(string \<Rightarrow> string option) \<Rightarrow> (pool_create \<Rightarrow> 's \<Rightarrow> (provider_error + storage_pool) \<times> 's) \<Rightarrow> pool_create
    \<Rightarrow> 's \<times> iso_store \<Rightarrow> reply \<times> 's \<times> iso_store" where
  "serve_pool mkdir create b w = (case boundary None (PostPool b) of
     Some x \<Rightarrow> (Inl (writeError x), w)
   | None \<Rightarrow> (case create b (fst w) of
       (Inl e, s') \<Rightarrow> (Inl (writeError (writeProviderError e)), s', snd w)
     | (Inr p, s') \<Rightarrow>
         if \<not> pc_isoLibrary b then (Inr [PPool p], s', snd w)
         else (case SetDir mkdir (pc_targetPath b) (snd w) of
           (Some e, is') \<Rightarrow> (Inl (writeError (Refusal ''INTERNAL_ERROR''
              (''pool created, but failed to use its directory as the ISO library: '' @ e))), s', is')
         | (None, is') \<Rightarrow> (Inr [PPool p], s', is'))))"

subsection \<open>What the library promises\<close>

definition iso_ok :: "iso_store \<Rightarrow> bool" where
  "iso_ok s \<longleftrightarrow> (\<forall>d. distinct (map en_name (is_files s d)))"

lemma here_set_here [simp]: "iso_here (set_here es s) = es" "is_dir (set_here es s) = is_dir s"
  by (simp_all add: iso_here_def set_here_def)

lemma iso_find_name: "iso_find n s = Some e \<Longrightarrow> e \<in> set (iso_here s) \<and> en_name e = n"
  by (auto simp: iso_find_def find_Some_iff)

lemma iso_find_None: "iso_find n s = None \<longleftrightarrow> n \<notin> en_name ` set (iso_here s)"
  by (auto simp: iso_find_def find_None_iff)

lemma iso_find_mem:
  assumes "iso_ok s" "e \<in> set (iso_here s)"
  shows "iso_find (en_name e) s = Some e"
proof (cases "iso_find (en_name e) s")
  case None
  with assms(2) show ?thesis by (auto simp: iso_find_None)
next
  case (Some x)
  with iso_find_name have "x \<in> set (iso_here s)" "en_name x = en_name e" by blast+
  with assms have "x = e" by (auto simp: iso_ok_def iso_here_def distinct_map inj_on_def)
  with Some show ?thesis by simp
qed

lemma set_iso_List:
  assumes "iso_ok s"
  shows "set (iso_List s) = iso_toModel ` {e \<in> set (iso_here s). js_ends_with (js_lower (en_name e)) ''.iso''}"
proof -
  have "set (sortStrings (map en_name (iso_here s))) = en_name ` set (iso_here s)"
    using arg_cong [OF conjunct1 [OF sortStrings_sorts], of set_mset] by simp
  then have "set (iso_List s) = (\<lambda>n. iso_toModel (the (iso_find n s))) ` {n \<in> en_name ` set (iso_here s). js_ends_with (js_lower n) ''.iso''}"
    by (simp add: iso_List_def)
  also have "\<dots> = iso_toModel ` {e \<in> set (iso_here s). js_ends_with (js_lower (en_name e)) ''.iso''}"
    using iso_find_mem [OF assms] by (force simp: image_iff)
  finally show ?thesis .
qed


lemma upload_accepted:
  assumes "boundary None (PostIso f) = None"
  shows "rx_test ValidID (base_name f)"
  using assms by (auto simp: validation_def handleUploadIso_def base_name_def split: if_splits)

lemma iso_ok_set_here:
  "iso_ok s \<Longrightarrow> distinct (map en_name es) \<Longrightarrow> iso_ok (set_here es s)"
  by (auto simp: iso_ok_def set_here_def)

lemma iso_Create_new:
  fixes bytes :: int and now :: string
  assumes "iso_ok s" "rx_test ValidID n" "iso_find n s = None"
  defines "e \<equiv> \<lparr>en_name = n, en_size = bytes, en_time = now\<rparr>"
  shows "iso_Create n bytes now s = (Inr (iso_toModel e), set_here (e # iso_here s) s)" "iso_ok (set_here (e # iso_here s) s)"
    "iso_find n (set_here (e # iso_here s) s) = Some e"
    "set (iso_List (set_here (e # iso_here s) s)) = insert (iso_toModel e) (set (iso_List s))"
    "set_here (filter (\<lambda>x. en_name x \<noteq> n) (iso_here (set_here (e # iso_here s) s))) (set_here (e # iso_here s) s) = s"
proof -
  have e: "en_name e = n" by (simp add: e_def)
  have new: "n \<notin> en_name ` set (iso_here s)" using assms(3) by (simp add: iso_find_None)
  show "iso_Create n bytes now s = (Inr (iso_toModel e), set_here (e # iso_here s) s)"
    using assms(2,3) by (simp add: iso_Create_def e_def Let_def)
  show ok: "iso_ok (set_here (e # iso_here s) s)"
    using assms(1) new e by (intro iso_ok_set_here) (simp_all add: iso_ok_def iso_here_def)
  show "iso_find n (set_here (e # iso_here s) s) = Some e" by (simp add: iso_find_def e)
  have "js_ends_with (js_lower n) ''.iso''" using lower_iso [OF ValidID_facts(1) [OF assms(2)]] .
  then show "set (iso_List (set_here (e # iso_here s) s)) = insert (iso_toModel e) (set (iso_List s))"
    unfolding set_iso_List [OF ok] set_iso_List [OF assms(1)] by (auto simp: e)
  have "filter (\<lambda>x. en_name x \<noteq> n) (iso_here s) = iso_here s" using new by (force simp: filter_id_conv)
  then show "set_here (filter (\<lambda>x. en_name x \<noteq> n) (iso_here (set_here (e # iso_here s) s))) (set_here (e # iso_here s) s) = s"
    by (simp add: e) (simp add: set_here_def iso_here_def)
qed

text \<open>
  C34. An upload that the API accepts is listed with its size, found by its name and refused a second
  time; deleting it gives back the library as it was, where the route accepts its name. An upload of a
  name that is taken changes nothing. Of what is listed, exactly the files with a name that the library
  would take can be attached or deleted: not one that was put there by hand and ends in capitals.
\<close>

theorem iso_library_served:
  fixes bytes :: int and now :: string
  assumes "iso_ok s" "boundary None (PostIso f) = None"
  defines "n \<equiv> base_name f" and "s1 \<equiv> snd (serve_upload f bytes now s)"
  shows "iso_ok s1 \<and> (if iso_find n s \<noteq> None
      then serve_upload f bytes now s = (Inl (ApiError ''ISO_ALREADY_EXISTS'' ''An ISO image with this filename already exists'' 409), s)
      else fst (serve_upload f bytes now s) = Inr [PUndefined]
        \<and> set (iso_List s1) = insert \<lparr>i_id = n, i_fileName = n, i_sizeBytes = bytes, i_uploadedAt = Some now\<rparr> (set (iso_List s))
        \<and> iso_Path n s1 = Inr (is_dir s @ ''/'' @ n)
        \<and> fst (serve_upload f bytes' now' s1) = Inl (ApiError ''ISO_ALREADY_EXISTS'' ''An ISO image with this filename already exists'' 409)
        \<and> serve_delete n s1 = (if rx_test vmIDPattern n then (Inr [PUndefined], s)
            else (Inl (ApiError ''VALIDATION_ERROR'' ''Invalid virtual machine identifier'' 400), s1)))
    \<and> (\<forall>i \<in> set (iso_List s). (iso_Path (i_id i) s = Inr (is_dir s @ ''/'' @ i_id i) \<longleftrightarrow> rx_test ValidID (i_id i))
         \<and> (\<not> rx_test ValidID (i_id i) \<longrightarrow> snd (serve_delete (i_id i) s) = s \<and> (\<exists>e. fst (serve_delete (i_id i) s) = Inl e)))"
proof -
  have v: "rx_test ValidID n" unfolding n_def by (rule upload_accepted [OF assms(2)])
  have up: "serve_upload f b t x = (case iso_Create n b t x of
       (Inr i, s') \<Rightarrow> (Inr [PUndefined], s')
     | (Inl IsoExists, s') \<Rightarrow> (Inl (writeError (Refusal ''ISO_ALREADY_EXISTS'' ''An ISO image with this filename already exists'')), s')
     | (Inl IsoInvalid, s') \<Rightarrow> (Inl (writeError (Refusal ''VALIDATION_ERROR'' ''Invalid ISO filename'')), s')
     | (Inl IsoNotFound, s') \<Rightarrow> (Inl (writeError (Refusal ''INTERNAL_ERROR'' '''')), s'))" for b t x
    by (simp only: serve_upload_def assms(2) option.case n_def)
  have taken: "serve_upload f b t x = (Inl (ApiError ''ISO_ALREADY_EXISTS'' ''An ISO image with this filename already exists'' 409), x)"
    if "iso_find n x \<noteq> None" for b t x
    using that v by (simp add: up iso_Create_def writeError_def errorStatus_def)
  have listed: "(iso_Path (i_id i) s = Inr (is_dir s @ ''/'' @ i_id i) \<longleftrightarrow> rx_test ValidID (i_id i))
         \<and> (\<not> rx_test ValidID (i_id i) \<longrightarrow> snd (serve_delete (i_id i) s) = s \<and> (\<exists>e. fst (serve_delete (i_id i) s) = Inl e))"
    if "i \<in> set (iso_List s)" for i
  proof -
    from that set_iso_List [OF assms(1)] have "\<exists>e. iso_find (i_id i) s = Some e"
      using iso_find_mem [OF assms(1)] by (auto simp: iso_toModel_def)
    then show ?thesis by (auto simp: iso_Path_def serve_delete_def iso_Delete_def split: option.split)
  qed
  show ?thesis
  proof (cases "iso_find n s = None")
    case False
    with taken listed assms(1) show ?thesis by (auto simp: s1_def)
  next
    case True
    let ?e = "\<lparr>en_name = n, en_size = bytes, en_time = now\<rparr>"
    note c = iso_Create_new [OF assms(1) v True, of bytes now]
    have s1: "serve_upload f bytes now s = (Inr [PUndefined], s1)" "s1 = set_here (?e # iso_here s) s"
      using c(1) by (simp_all add: s1_def up)
    have path: "iso_Path n s1 = Inr (is_dir s @ ''/'' @ n)" using c(3) v by (simp add: iso_Path_def s1(2))
    have del: "serve_delete n s1 = (if rx_test vmIDPattern n then (Inr [PUndefined], s)
            else (Inl (ApiError ''VALIDATION_ERROR'' ''Invalid virtual machine identifier'' 400), s1))"
      using c(3,5) v by (simp add: serve_delete_def iso_Delete_def s1(2) validation_def requireValidVMID_def writeError_def errorStatus_def)
    have list: "set (iso_List s1) = insert \<lparr>i_id = n, i_fileName = n, i_sizeBytes = bytes, i_uploadedAt = Some now\<rparr> (set (iso_List s))"
      using c(4) by (simp add: s1(2) iso_toModel_def)
    have again: "fst (serve_upload f bytes' now' s1) = Inl (ApiError ''ISO_ALREADY_EXISTS'' ''An ISO image with this filename already exists'' 409)"
      using taken c(3) by (simp add: s1(2))
    show ?thesis using True s1(1) path del list again c(2) listed by (simp add: s1(2))
  qed
qed

definition hand_made :: iso_store where
  "hand_made = \<lparr>is_dir = ''/isos'', is_files = (\<lambda>d. if d = ''/isos'' then [\<lparr>en_name = ''Win.ISO'', en_size = 1, en_time = ''t''\<rparr>] else [])\<rparr>"

theorem iso_library_served_witness:
  "let s1 = snd (serve_upload ''ubuntu.iso'' 2 ''t'' hand_made) in
     set (map i_id (iso_List s1)) = {''ubuntu.iso'', ''Win.ISO''} \<and> fst (serve_delete ''ubuntu.iso'' s1) = Inr [PUndefined]
     \<and> \<not> rx_test ValidID ''Win.ISO'' \<and> snd (serve_delete ''Win.ISO'' hand_made) = hand_made"
proof -
  have ok: "iso_ok hand_made" by (simp add: iso_ok_def hand_made_def)
  have b: "boundary None (PostIso ''ubuntu.iso'') = None" by code_simp
  have n: "base_name ''ubuntu.iso'' = ''ubuntu.iso''" "rx_test vmIDPattern ''ubuntu.iso''" "\<not> rx_test ValidID ''Win.ISO''" by code_simp+
  have f: "iso_find ''ubuntu.iso'' hand_made = None" by code_simp
  have l: "iso_List hand_made = [\<lparr>i_id = ''Win.ISO'', i_fileName = ''Win.ISO'', i_sizeBytes = 1, i_uploadedAt = Some ''t''\<rparr>]" by code_simp
  from iso_library_served [OF ok b, of 2 "''t''" 3 "''u''"] n f l show ?thesis by (simp add: Let_def)
qed

text \<open>
  A pool that is to become the library moves it to its directory. When the directory cannot be made,
  the answer is an internal error that does not say that the pool has been created; asking
  again is refused because it has.
\<close>

theorem pool_promoted:
  assumes "boundary None (PostPool b) = None" "pc_isoLibrary b" "pool_named (pc_name b) ps = None"
  shows "case mkdir (pc_targetPath b) of
      None \<Rightarrow> \<exists>p. serve_pool mkdir mock_CreateStoragePool b (ps, s) = (Inr [PPool p], ps @ [the (pool_named (pc_name b) (snd (mock_CreateStoragePool b ps)))],
        s\<lparr>is_dir := pc_targetPath b\<rparr>)
    | Some e \<Rightarrow> \<exists>ps'. serve_pool mkdir mock_CreateStoragePool b (ps, s) = (Inl (ApiError ''INTERNAL_ERROR'' ''An internal error occurred'' 500), ps', s)
        \<and> pool_named (pc_name b) ps' \<noteq> None
        \<and> serve_pool mkdir mock_CreateStoragePool b (ps', s) =
            (Inl (ApiError ''STORAGE_POOL_ALREADY_EXISTS'' ''A storage pool with this name already exists'' 409), ps', s)"
proof -
  have ne: "pc_targetPath b \<noteq> ''''"
  proof
    assume e: "pc_targetPath b = ''''"
    have "\<not> rx_test absPathPattern ''''" by code_simp
    with e assms(1) show False by (auto simp: validation_def validateCreateStoragePool_def split: if_splits)
  qed
  let ?p = "\<lparr>mp_id = pc_name b, mp_type = Pool_dir, mp_active = True, mp_autostart = pc_autostart b,
             mp_capacity = 500 * GiB, mp_allocation = 0, mp_targetPath = pc_targetPath b\<rparr>"
  have find: "pool_named (pc_name b) (ps @ [?p]) = Some ?p"
    using assms(3) by (induction ps) (auto simp: pool_named_def split: if_splits)
  have create: "mock_CreateStoragePool b ps = (Inr (mock_poolToModel ?p), ps @ [?p])"
    using assms(3) by (simp add: mock_CreateStoragePool_def Let_def)
  have again: "mock_CreateStoragePool b (ps @ [?p]) = (Inl ErrPoolAlreadyExists, ps @ [?p])"
    using find by (simp add: mock_CreateStoragePool_def)
  show ?thesis
  proof (cases "mkdir (pc_targetPath b)")
    case None
    then show ?thesis using find
      by (simp only: serve_pool_def assms(1,2) option.case fst_conv snd_conv create prod.case sum.case SetDir_def ne if_False not_True_eq_False) simp
  next
    case (Some e)
    have "serve_pool mkdir mock_CreateStoragePool b (ps, s) = (Inl (ApiError ''INTERNAL_ERROR'' ''An internal error occurred'' 500), ps @ [?p], s)"
      by (simp only: serve_pool_def assms(1,2) option.case fst_conv snd_conv create prod.case sum.case SetDir_def ne if_False not_True_eq_False Some)
        (simp add: writeError_def errorStatus_def)
    moreover have "serve_pool mkdir mock_CreateStoragePool b (ps @ [?p], s) =
            (Inl (ApiError ''STORAGE_POOL_ALREADY_EXISTS'' ''A storage pool with this name already exists'' 409), ps @ [?p], s)"
      by (simp only: serve_pool_def assms(1,2) option.case fst_conv snd_conv again prod.case sum.case)
        (simp add: writeError_def errorStatus_def)
    ultimately show ?thesis using Some find by (simp del: append_assoc)
  qed
qed


definition a_library :: pool_create where
  "a_library = \<lparr>pc_name = ''isos'', pc_type = Pool_dir, pc_targetPath = ''/srv/isos'', pc_autostart = True, pc_isoLibrary = True\<rparr>"

theorem pool_promoted_witness:
  "\<exists>ps'. serve_pool (\<lambda>d. Some ''read-only file system'') mock_CreateStoragePool a_library (pools0, hand_made) =
      (Inl (ApiError ''INTERNAL_ERROR'' ''An internal error occurred'' 500), ps', hand_made) \<and> pool_named ''isos'' ps' \<noteq> None"
proof -
  have b: "boundary None (PostPool a_library) = None" "pc_isoLibrary a_library" "pool_named (pc_name a_library) pools0 = None"
    by code_simp+
  have n: "pc_name a_library = ''isos''" by (simp add: a_library_def)
  from pool_promoted [OF b, of "\<lambda>d. Some ''read-only file system''" hand_made] n show ?thesis by auto
qed

subsection \<open>The page and the two providers\<close>

lemma sp_refresh_offered:
  assumes "sp_enabled fmt s (SpRefresh p)"
  shows "p_state p = Active"
proof -
  from assms have "offers_any (sp_view s) (SpRefresh p)" by (simp add: sp_enabled_def)
  then have "offers_any (map (sp_row (sp_busy s)) (sp_pools s)) (SpRefresh p)"
    by (cases "sp_used (sp_pools s)"; cases "sp_used []") (auto simp: sp_view_def Let_def split: option.splits if_splits)
  then show ?thesis by (auto simp: offers_any_map sp_row_def)
qed

text \<open>
  A refresh that the page offers is refused exactly when the pool has been deactivated since it was
  listed, by both providers, and then with the code of the networks; a removal never is.
\<close>

theorem pool_buttons_agree:
  assumes "sp_enabled fmt s (SpRefresh p)" "rx_test vmIDPattern (p_id p)"
    and "map_option mp_active (pool_named (p_id p) ps) = Some a" "lv_pool_active L (p_id p) h = Some b"
  shows "p_state p = Active
    \<and> (has_code ''NETWORK_INVALID_STATE'' (fst (with_id (p_id p) PPool mock_RefreshStoragePool ps)) \<longleftrightarrow> \<not> a)
    \<and> (has_code ''NETWORK_INVALID_STATE'' (fst (with_id (p_id p) PPool (lv_RefreshStoragePool L) h)) \<longleftrightarrow> \<not> b)
    \<and> \<not> has_code ''NETWORK_INVALID_STATE'' (fst (with_id (p_id p) no_content mock_DeleteStoragePool ps))
    \<and> \<not> has_code ''NETWORK_INVALID_STATE'' (fst (with_id (p_id p) no_content (lv_DeleteStoragePool L) h))"
  by (intro conjI sp_refresh_offered [OF assms(1)] mock_pools.refresh_answer(1) [OF assms(2,3)]
      lv_pools.refresh_answer(1) [OF assms(2,4)] mock_pools.remove_answer [OF assms(2)] lv_pools.remove_answer [OF assms(2)])

end
