(* ===== verification/Spec2Isabelle.thy ===== *)
theory Spec2Isabelle
  imports Contract Toasts NetworkPage StoragePage VmDetails TasksPage BackupsPage SettingsPage Shell App Application Users
    TaskManager Scheduler HostStorage
begin

text \<open>
  UltraV is a manager of virtual machines: a server in Go (\<open>backend\<close>) with a REST API and a
  user interface in TypeScript and React (\<open>frontend/src\<close>). This development models the user
  interface, every page and form of it, the checks the server makes at the boundary of the
  API, and the parts of the server whose state the interface shows (users, tasks, backups,
  schedules, machines, networks, storage), as executable definitions, and proves what makes them
  correct.

  The program. \<open>main.tsx\<close> mounts the session provider (\<open>lib/auth.tsx\<close>), the toasts and the
  routes; the guard of \<open>App.tsx\<close> shows a page inside the frame (\<open>AppShell.tsx\<close>) to a
  signed-in user only. A page polls the API through \<open>usePolling\<close> (\<open>lib/hooks.ts\<close>), renders
  the last data it got and holds dialogs and forms; their buttons send requests through
  the client of \<open>api/client.ts\<close>, which adds the token, turns error answers into exceptions
  and signs the user out on an answer of status 401.

  \<^bold>\<open>How it is modelled.\<close> JavaScript runs to completion between two awaits, so a component is a
  record of its hooks' state and a set of atomic segments. \<open>Runtime\<close> has the machinery: a
  world is the state, the effects emitted (toasts, navigation, callbacks of the parent) and
  the pending requests, each with the name of the segment that continues after it, a value
  of the component's datatype of continuations. For a component \<open>x\<close>, \<open>x_handle\<close> is the handler
  of an event, \<open>x_resume\<close> the continuation of a settled request, \<open>x_view\<close> the rendered page
  with the event each control raises, and \<open>x_enabled\<close> says which events the page offers in a
  state: the events of the enabled controls of \<open>x_view\<close>, and those that come from outside
  (a timer, new properties). \<open>reachable\<close> closes the mounted world under offered events and
  under settled requests, in any order and with any answer the contract allows or any error.
  A form inside a page is run by \<open>embed\<close>; a mount counter in the continuation tells a write of
  a form that has since been unmounted. The locales \<open>component\<close>, \<open>single_flight\<close> (one request
  of a kind pending, exactly while the controls are disabled), \<open>busy_slot\<close> (what is shown as
  busy has a request that will clear it) and \<open>refinement\<close> (simulation of an abstract machine)
  carry the inductions; each is interpreted on the handlers of the components, in their
  theories, and \<open>token_store\<close> on the token functions of the client. Concrete runs are
  \<open>play\<close> scripts, evaluated in the witnesses.

  Foundations.
  \<^item> \<open>Prelude\<close>, \<open>JS\<close>: lists and options; the part of the JavaScript library in use. Numbers are
    exact rationals (\<open>toFixed\<close>, \<open>Math.round\<close>, \<open>Number\<close> on decimal literals), a number too large
    for a double is treated as infinite where the code tests for it, strings are lists of
    characters, of ASCII where the length or the case of a character matters.
  \<^item> \<open>Regex\<close>, \<open>Patterns\<close>: the regular expression literals as syntax trees with a backtracking
    matcher, proved to decide the language, and the closed form of each literal.
  \<^item> \<open>Schema\<close>, \<open>Contract\<close>: the data and the operations of the generated API types; every request
    of the interface is an operation of the contract.
  \<^item> \<open>Client\<close>: requests, payloads, \<open>unwrap\<close>, errors, the token, the upload.
  \<^item> \<open>UI\<close>, \<open>Hooks\<close>, \<open>Toasts\<close>: the shared primitives and what they offer, polling and formatters
    (unit and error of a formatted size, decomposition of an uptime), the toast stack.

  Components.
  \<^item> \<open>Auth\<close>: session, router, guard, sign-in. Only a signed-in user sees a page; redirects end;
    a sign-in returns to the page asked for; any way out clears the session; the race between
    the check of a stored token and a sign-in.
  \<^item> \<open>Shell\<close>: navigation, host card, user menu, search, dashboard, planned features.
  \<^item> \<open>VmsPage\<close>: the list of machines: filter and sort, actions offered, confirmed deletions.
  \<^item> \<open>Wizard\<close>: creation of a machine: steps, defaults, the request.
  \<^item> \<open>VmDetails\<close>, \<open>VmSettings\<close>: one machine: phases as an abstract machine, actions offered, the
    exact difference a save sends, the effect of showing the memory with two decimals.
  \<^item> \<open>Charts\<close>: history and charts: the last samples, points inside the picture.
  \<^item> \<open>Console\<close>: VNC sessions and the full-screen page: one session at a time, stale events.
  \<^item> \<open>NetworkForms\<close>, \<open>NetworkPage\<close>: forms and page of the virtual networks.
  \<^item> \<open>StorageParts\<close>, \<open>StoragePage\<close>: pool form, ISO library, page of the pools.
  \<^item> \<open>Schedules\<close>, \<open>BackupsPage\<close>: schedule form, restore points, confirmed restores.
  \<^item> \<open>TasksPage\<close>: history of tasks, filter, cancellation.
  \<^item> \<open>SettingsForms\<close>, \<open>SettingsPage\<close>: users and the own password: roles, own user, passwords.

  Where components meet.
  \<^item> \<open>Server\<close>: what the server refuses before it acts (\<open>backend/internal/api\<close>,
    \<open>backend/internal/scheduler\<close>): role, path parameter, decoding of the body, validation.
  \<^item> \<open>Agreement\<close>: for every form, exactly which of the requests it can send the server refuses.
  \<^item> \<open>App\<close>: a page under the session: what an answer of status 401 does to it, and what a wrong
    current password does.
  \<^item> \<open>Application\<close>: the session, the guard and a page run together, with the pages left behind
    whose requests still settle. Both parts stay in states they reach alone, so that what is
    proved of them carries over; late answers of an earlier page end the session or navigate.
    The locale \<open>stays_on_error\<close> is the contract of a page whose failed requests do not
    navigate; it is interpreted on the tasks, storage, network and backups pages.

  The server behind the interface. One step is one critical section or one statement.
  \<^item> \<open>Users\<close>: \<open>internal/auth/auth.go\<close> with the handlers of the users: what the table keeps while
    requests are served one at a time, two deletions at a time, passwords, tokens.
  \<^item> \<open>TaskManager\<close>: \<open>internal/tasks/tasks.go\<close>: the life of a task while workers and cancellations
    interleave, the bounded history, the agreement with the cancel button of \<open>TasksPage\<close>.
  \<^item> \<open>BackupChains\<close>: \<open>internal/backup\<close> and the backups of \<open>internal/hypervisor/libvirt\<close>: which
    parent a backup takes, that the search for a chain ends and finds the whole chain or
    none, and how a deletion breaks all later backups.
  \<^item> \<open>Scheduler\<close>: \<open>internal/scheduler/scheduler.go\<close>: when a schedule is due, a run, the retention,
    the store behind the API, and runs and updates at the same time.
  \<^item> \<open>Hypervisor\<close>: \<open>internal/hypervisor/provider.go\<close>, \<open>api/errors.go\<close>: the errors of a provider, what
    the API answers for them, and the contracts of networks, machines and pools as the locales
    \<open>network_provider\<close>, \<open>machine_provider\<close> and \<open>pool_provider\<close>. The program has two providers, a simulated host
    (\<open>hypervisor/mock\<close>) and one that calls libvirt (\<open>hypervisor/libvirt\<close>), and the contracts are
    interpreted on both of them.
  \<^item> \<open>HostNetworks\<close>: the virtual networks of both: addresses as bytes (\<open>8 word\<close>), the document of a
    network and its gateway, a network that is saved again, and that the buttons of \<open>NetworkPage\<close>
    are refused exactly when the network has changed since.
  \<^item> \<open>Domains\<close>: the document of a machine in libvirt, built, read back and edited; what \<open>VmDetails\<close>
    shows of a machine that was just created.
  \<^item> \<open>Machines\<close>: creation, power actions, deletion and update on both providers. On the simulated
    host machines are objects that timers point to, and \<open>mock_reach\<close> closes it under requests,
    time and timers: shutdowns end. The buttons of \<open>VmsPage\<close> and \<open>VmDetails\<close> against both providers;
    what a refused update and a refused creation leave behind.
  \<^item> \<open>HostStorage\<close>: storage pools of both providers, the library of ISO images
    (\<open>internal/iso/iso.go\<close>) with its handlers, and a pool that becomes the library.

  \<^bold>\<open>Bounds.\<close> No fuel is needed: handlers are finite segments, the redirects of the router
  are followed twice, which \<open>redirects_terminate\<close> proves to be enough, and the recursive
  functions are structural or decrease a measure. The search for the chain of a backup is a
  partial function, and \<open>restore_chain_total\<close> proves that it returns. Integers of the API are unbounded in the
  interface, as in JavaScript up to the rounding of doubles, and 64 bits wide at the server.

  \<^bold>\<open>Parameters.\<close> The rendering of dates and the comparison \<open>localeCompare\<close> depend on the
  browser and are arguments (\<open>fmt\<close>, \<open>lc\<close>). noVNC is an environment that raises \<open>connect\<close> and
  \<open>disconnect\<close>. Hashing and comparing a password and the subject of a valid token are
  arguments of the user database, what libvirt and the file system answer are arguments of
  the backups and records of functions over a state of the host (\<open>net_calls\<close>, \<open>dom_calls\<close>,
  \<open>pool_calls\<close>) for networks, machines and pools, new ids and the time are arguments of the operations that draw them.

  \<^bold>\<open>Not modelled.\<close> Markup, icons and style sheets, which decide nothing; focus and keyboard
  handling; the ambient type declarations (\<open>assets.d.ts\<close>, \<open>types/novnc.d.ts\<close>) and the schemas of
  \<open>schema.d.ts\<close> that no page uses; the rounding of doubles outside the places named above;
  the repeated effects of React's StrictMode. Of the server: the host
  card, the metrics, the console proxy, the configuration and the start of the process,
  which read and sample what libvirt and the system tell; a lost connection to libvirt;
  failures of the databases; changes of the offset of the local time.
\<close>

end
